(* ===== verification/Prelude.thy ===== *)
theory Prelude
  imports Main "HOL-Library.Word"
begin

text \<open>
  Shared vocabulary of the development: C characters and the \<open>ctype.h\<close> predicates of the
  "C" locale, decimal printing and substring search of \<open>std::string\<close>, the width
  casts of C++ integers written on \<open>int\<close>, exceptions as values, and the
  collections of facts the component theories extend.
\<close>

named_theorems cctype \<open>definitions of the character predicates\<close>
named_theorems casts \<open>definitions of the integer casts\<close>
named_theorems progress \<open>an operation never grows what is left to read\<close>

section \<open>Characters (C locale)\<close>

abbreviation cval :: "char \<Rightarrow> nat" where
  "cval c \<equiv> of_char c"

definition isdigit :: "char \<Rightarrow> bool" where [cctype]:
  "isdigit c \<longleftrightarrow> 48 \<le> cval c \<and> cval c \<le> 57"

definition isupper :: "char \<Rightarrow> bool" where [cctype]:
  "isupper c \<longleftrightarrow> 65 \<le> cval c \<and> cval c \<le> 90"

definition islower :: "char \<Rightarrow> bool" where [cctype]:
  "islower c \<longleftrightarrow> 97 \<le> cval c \<and> cval c \<le> 122"

definition isalpha :: "char \<Rightarrow> bool" where [cctype]:
  "isalpha c \<longleftrightarrow> isupper c \<or> islower c"

definition isspace :: "char \<Rightarrow> bool" where [cctype]:
  "isspace c \<longleftrightarrow> cval c = 32 \<or> (9 \<le> cval c \<and> cval c \<le> 13)"

definition toupper :: "char \<Rightarrow> char" where
  "toupper c = (if islower c then char_of (cval c - 32) else c)"

abbreviation ch_nul :: char where "ch_nul \<equiv> CHR 0x00"
abbreviation ch_tab :: char where "ch_tab \<equiv> CHR 0x09"
abbreviation ch_nl :: char where "ch_nl \<equiv> CHR 0x0A"
abbreviation ch_vt :: char where "ch_vt \<equiv> CHR 0x0B"
abbreviation ch_ff :: char where "ch_ff \<equiv> CHR 0x0C"
abbreviation ch_cr :: char where "ch_cr \<equiv> CHR 0x0D"
text \<open>The six white-space characters of the "C" locale, as characters.\<close>

lemma cval_eq_iff: "cval c = n \<longleftrightarrow> n < 256 \<and> c = char_of n"
  by auto

lemma isspace_iff:
  "isspace c \<longleftrightarrow> c \<in> {CHR '' '', ch_tab, ch_nl, ch_vt, ch_ff, ch_cr}"
proof -
  have "isspace c \<longleftrightarrow> cval c \<in> {32, 9, 10, 11, 12, 13}" by (auto simp: isspace_def)
  also have "\<dots> \<longleftrightarrow> c \<in> {CHR '' '', ch_tab, ch_nl, ch_vt, ch_ff, ch_cr}"
    by (simp add: cval_eq_iff char_of_def bit_Suc_0_iff)
  finally show ?thesis .
qed

abbreviation ch_dquote :: char where "ch_dquote \<equiv> CHR 0x22"
abbreviation ch_quote :: char where "ch_quote \<equiv> CHR 0x27"
abbreviation ch_bslash :: char where "ch_bslash \<equiv> CHR 0x5C"
abbreviation ch_btick :: char where "ch_btick \<equiv> CHR 0x60"

text \<open>A text in single quotes, as the messages show it.\<close>

definition quoted :: "string \<Rightarrow> string" where
  "quoted s = ch_quote # s @ [ch_quote]"

section \<open>Decimal numerals\<close>

definition digit_char :: "nat \<Rightarrow> char" where
  "digit_char d = char_of (48 + d)"

text \<open>\<open>std::to_string\<close> of an unsigned integer.\<close>

fun show_nat :: "nat \<Rightarrow> string" where
  "show_nat n = (if n < 10 then [digit_char n] else show_nat (n div 10) @ [digit_char (n mod 10)])"

declare show_nat.simps [simp del]

definition show_int :: "int \<Rightarrow> string" where
  "show_int i = (if i < 0 then CHR ''-'' # show_nat (nat (- i)) else show_nat (nat i))"

definition digit_val :: "char \<Rightarrow> nat" where
  "digit_val c = cval c - 48"

definition digits_value :: "string \<Rightarrow> nat" where
  "digits_value s = foldl (\<lambda>v c. 10 * v + digit_val c) 0 s"

lemma digits_value_Nil [simp]: "digits_value [] = 0"
  by (simp add: digits_value_def)

lemma digits_value_snoc [simp]: "digits_value (s @ [c]) = 10 * digits_value s + digit_val c"
  by (simp add: digits_value_def)

lemma digit_val_digit_char [simp]: "d < 10 \<Longrightarrow> digit_val (digit_char d) = d"
  by (simp add: digit_val_def digit_char_def)

lemma isdigit_digit_char [simp]: "d < 10 \<Longrightarrow> isdigit (digit_char d)"
  by (simp add: isdigit_def digit_char_def)

lemma show_nat_digits [simp]: "list_all isdigit (show_nat n)"
proof (induction n rule: show_nat.induct)
  case (1 n)
  show ?case using 1 by (cases "n < 10") (simp_all add: show_nat.simps[of n])
qed

lemma show_nat_not_Nil [simp]: "show_nat n \<noteq> []"
  by (simp add: show_nat.simps[of n])

lemma digits_value_show_nat [simp]: "digits_value (show_nat n) = n"
proof (induction n rule: show_nat.induct)
  case (1 n)
  have "digits_value [digit_char n] = digit_val (digit_char n)"
    using digits_value_snoc[of "[]" "digit_char n"] by simp
  then show ?case using 1 by (cases "n < 10") (simp_all add: show_nat.simps[of n])
qed

section \<open>Runs of characters\<close>

lemma takeWhile_run [simp]:
  "list_all P xs \<Longrightarrow> ys = [] \<or> \<not> P (hd ys) \<Longrightarrow> takeWhile P (xs @ ys) = xs"
  by (induction xs) (cases ys; simp)+

lemma dropWhile_run [simp]:
  "list_all P xs \<Longrightarrow> ys = [] \<or> \<not> P (hd ys) \<Longrightarrow> dropWhile P (xs @ ys) = ys"
  by (induction xs) (cases ys; simp)+

end
