(* ===== verification/Odbc_Consts.thy ===== *)
theory Odbc_Consts
  imports Prelude
begin

text \<open>
  The constants of the ODBC headers (sql.h, sqlext.h) that the driver's tables and state
  machines test, with the values the ODBC specification fixes. They are abbreviations for
  numerals, so that two names of one value (\<open>SQL_TIME\<close> and \<open>SQL_INTERVAL\<close>,
  \<open>SQL_UNKNOWN_TYPE\<close> and \<open>SQL_TYPE_NULL\<close>) are one value here too. The integer types
  of the headers are \<open>int\<close>; where a width matters the operations write it out.
\<close>

type_synonym SQLSMALLINT = int
type_synonym SQLINTEGER = int
type_synonym SQLLEN = int

abbreviation (input) SQL_UNKNOWN_TYPE :: int where "SQL_UNKNOWN_TYPE \<equiv> 0"
abbreviation (input) SQL_TYPE_NULL :: int where "SQL_TYPE_NULL \<equiv> 0"
abbreviation (input) SQL_CHAR :: int where "SQL_CHAR \<equiv> 1"
abbreviation (input) SQL_NUMERIC :: int where "SQL_NUMERIC \<equiv> 2"
abbreviation (input) SQL_DECIMAL :: int where "SQL_DECIMAL \<equiv> 3"
abbreviation (input) SQL_INTEGER :: int where "SQL_INTEGER \<equiv> 4"
abbreviation (input) SQL_SMALLINT :: int where "SQL_SMALLINT \<equiv> 5"
abbreviation (input) SQL_FLOAT :: int where "SQL_FLOAT \<equiv> 6"
abbreviation (input) SQL_REAL :: int where "SQL_REAL \<equiv> 7"
abbreviation (input) SQL_DOUBLE :: int where "SQL_DOUBLE \<equiv> 8"
abbreviation (input) SQL_DATETIME :: int where "SQL_DATETIME \<equiv> 9"
abbreviation (input) SQL_DATE :: int where "SQL_DATE \<equiv> 9"
abbreviation (input) SQL_INTERVAL :: int where "SQL_INTERVAL \<equiv> 10"
abbreviation (input) SQL_TIME :: int where "SQL_TIME \<equiv> 10"
abbreviation (input) SQL_TIMESTAMP :: int where "SQL_TIMESTAMP \<equiv> 11"
abbreviation (input) SQL_VARCHAR :: int where "SQL_VARCHAR \<equiv> 12"
abbreviation (input) SQL_TYPE_DATE :: int where "SQL_TYPE_DATE \<equiv> 91"
abbreviation (input) SQL_TYPE_TIME :: int where "SQL_TYPE_TIME \<equiv> 92"
abbreviation (input) SQL_TYPE_TIMESTAMP :: int where "SQL_TYPE_TIMESTAMP \<equiv> 93"
abbreviation (input) SQL_LONGVARCHAR :: int where "SQL_LONGVARCHAR \<equiv> - 1"
abbreviation (input) SQL_BINARY :: int where "SQL_BINARY \<equiv> - 2"
abbreviation (input) SQL_VARBINARY :: int where "SQL_VARBINARY \<equiv> - 3"
abbreviation (input) SQL_LONGVARBINARY :: int where "SQL_LONGVARBINARY \<equiv> - 4"
abbreviation (input) SQL_BIGINT :: int where "SQL_BIGINT \<equiv> - 5"
abbreviation (input) SQL_TINYINT :: int where "SQL_TINYINT \<equiv> - 6"
abbreviation (input) SQL_BIT :: int where "SQL_BIT \<equiv> - 7"
abbreviation (input) SQL_WCHAR :: int where "SQL_WCHAR \<equiv> - 8"
abbreviation (input) SQL_WVARCHAR :: int where "SQL_WVARCHAR \<equiv> - 9"
abbreviation (input) SQL_WLONGVARCHAR :: int where "SQL_WLONGVARCHAR \<equiv> - 10"
abbreviation (input) SQL_GUID :: int where "SQL_GUID \<equiv> - 11"
abbreviation (input) SQL_INTERVAL_YEAR :: int where "SQL_INTERVAL_YEAR \<equiv> 101"
abbreviation (input) SQL_INTERVAL_MONTH :: int where "SQL_INTERVAL_MONTH \<equiv> 102"
abbreviation (input) SQL_INTERVAL_DAY :: int where "SQL_INTERVAL_DAY \<equiv> 103"
abbreviation (input) SQL_INTERVAL_HOUR :: int where "SQL_INTERVAL_HOUR \<equiv> 104"
abbreviation (input) SQL_INTERVAL_MINUTE :: int where "SQL_INTERVAL_MINUTE \<equiv> 105"
abbreviation (input) SQL_INTERVAL_SECOND :: int where "SQL_INTERVAL_SECOND \<equiv> 106"
abbreviation (input) SQL_INTERVAL_YEAR_TO_MONTH :: int where "SQL_INTERVAL_YEAR_TO_MONTH \<equiv> 107"
abbreviation (input) SQL_INTERVAL_DAY_TO_HOUR :: int where "SQL_INTERVAL_DAY_TO_HOUR \<equiv> 108"
abbreviation (input) SQL_INTERVAL_DAY_TO_MINUTE :: int where "SQL_INTERVAL_DAY_TO_MINUTE \<equiv> 109"
abbreviation (input) SQL_INTERVAL_DAY_TO_SECOND :: int where "SQL_INTERVAL_DAY_TO_SECOND \<equiv> 110"
abbreviation (input) SQL_INTERVAL_HOUR_TO_MINUTE :: int where "SQL_INTERVAL_HOUR_TO_MINUTE \<equiv> 111"
abbreviation (input) SQL_INTERVAL_HOUR_TO_SECOND :: int where "SQL_INTERVAL_HOUR_TO_SECOND \<equiv> 112"
abbreviation (input) SQL_INTERVAL_MINUTE_TO_SECOND :: int where "SQL_INTERVAL_MINUTE_TO_SECOND \<equiv> 113"
abbreviation (input) SQL_CODE_DATE :: int where "SQL_CODE_DATE \<equiv> 1"
abbreviation (input) SQL_CODE_TIME :: int where "SQL_CODE_TIME \<equiv> 2"
abbreviation (input) SQL_CODE_TIMESTAMP :: int where "SQL_CODE_TIMESTAMP \<equiv> 3"
abbreviation (input) SQL_CODE_YEAR :: int where "SQL_CODE_YEAR \<equiv> 1"
abbreviation (input) SQL_CODE_MONTH :: int where "SQL_CODE_MONTH \<equiv> 2"
abbreviation (input) SQL_CODE_DAY :: int where "SQL_CODE_DAY \<equiv> 3"
abbreviation (input) SQL_CODE_HOUR :: int where "SQL_CODE_HOUR \<equiv> 4"
abbreviation (input) SQL_CODE_MINUTE :: int where "SQL_CODE_MINUTE \<equiv> 5"
abbreviation (input) SQL_CODE_SECOND :: int where "SQL_CODE_SECOND \<equiv> 6"
abbreviation (input) SQL_CODE_YEAR_TO_MONTH :: int where "SQL_CODE_YEAR_TO_MONTH \<equiv> 7"
abbreviation (input) SQL_CODE_DAY_TO_HOUR :: int where "SQL_CODE_DAY_TO_HOUR \<equiv> 8"
abbreviation (input) SQL_CODE_DAY_TO_MINUTE :: int where "SQL_CODE_DAY_TO_MINUTE \<equiv> 9"
abbreviation (input) SQL_CODE_DAY_TO_SECOND :: int where "SQL_CODE_DAY_TO_SECOND \<equiv> 10"
abbreviation (input) SQL_CODE_HOUR_TO_MINUTE :: int where "SQL_CODE_HOUR_TO_MINUTE \<equiv> 11"
abbreviation (input) SQL_CODE_HOUR_TO_SECOND :: int where "SQL_CODE_HOUR_TO_SECOND \<equiv> 12"
abbreviation (input) SQL_CODE_MINUTE_TO_SECOND :: int where "SQL_CODE_MINUTE_TO_SECOND \<equiv> 13"
abbreviation (input) SQL_C_CHAR :: int where "SQL_C_CHAR \<equiv> 1"
abbreviation (input) SQL_C_NUMERIC :: int where "SQL_C_NUMERIC \<equiv> 2"
abbreviation (input) SQL_C_LONG :: int where "SQL_C_LONG \<equiv> 4"
abbreviation (input) SQL_C_SHORT :: int where "SQL_C_SHORT \<equiv> 5"
abbreviation (input) SQL_C_FLOAT :: int where "SQL_C_FLOAT \<equiv> 7"
abbreviation (input) SQL_C_DOUBLE :: int where "SQL_C_DOUBLE \<equiv> 8"
abbreviation (input) SQL_C_DATE :: int where "SQL_C_DATE \<equiv> 9"
abbreviation (input) SQL_C_TIME :: int where "SQL_C_TIME \<equiv> 10"
abbreviation (input) SQL_C_TIMESTAMP :: int where "SQL_C_TIMESTAMP \<equiv> 11"
abbreviation (input) SQL_C_TYPE_DATE :: int where "SQL_C_TYPE_DATE \<equiv> 91"
abbreviation (input) SQL_C_TYPE_TIME :: int where "SQL_C_TYPE_TIME \<equiv> 92"
abbreviation (input) SQL_C_TYPE_TIMESTAMP :: int where "SQL_C_TYPE_TIMESTAMP \<equiv> 93"
abbreviation (input) SQL_C_DEFAULT :: int where "SQL_C_DEFAULT \<equiv> 99"
abbreviation (input) SQL_C_BINARY :: int where "SQL_C_BINARY \<equiv> - 2"
abbreviation (input) SQL_C_TINYINT :: int where "SQL_C_TINYINT \<equiv> - 6"
abbreviation (input) SQL_C_BIT :: int where "SQL_C_BIT \<equiv> - 7"
abbreviation (input) SQL_C_WCHAR :: int where "SQL_C_WCHAR \<equiv> - 8"
abbreviation (input) SQL_C_GUID :: int where "SQL_C_GUID \<equiv> - 11"
abbreviation (input) SQL_C_SSHORT :: int where "SQL_C_SSHORT \<equiv> - 15"
abbreviation (input) SQL_C_SLONG :: int where "SQL_C_SLONG \<equiv> - 16"
abbreviation (input) SQL_C_USHORT :: int where "SQL_C_USHORT \<equiv> - 17"
abbreviation (input) SQL_C_ULONG :: int where "SQL_C_ULONG \<equiv> - 18"
abbreviation (input) SQL_C_SBIGINT :: int where "SQL_C_SBIGINT \<equiv> - 25"
abbreviation (input) SQL_C_STINYINT :: int where "SQL_C_STINYINT \<equiv> - 26"
abbreviation (input) SQL_C_UBIGINT :: int where "SQL_C_UBIGINT \<equiv> - 27"
abbreviation (input) SQL_C_UTINYINT :: int where "SQL_C_UTINYINT \<equiv> - 28"
abbreviation (input) SQL_ARD_TYPE :: int where "SQL_ARD_TYPE \<equiv> - 99"
abbreviation (input) SQL_C_INTERVAL_YEAR :: int where "SQL_C_INTERVAL_YEAR \<equiv> 101"
abbreviation (input) SQL_C_INTERVAL_MONTH :: int where "SQL_C_INTERVAL_MONTH \<equiv> 102"
abbreviation (input) SQL_C_INTERVAL_DAY :: int where "SQL_C_INTERVAL_DAY \<equiv> 103"
abbreviation (input) SQL_C_INTERVAL_HOUR :: int where "SQL_C_INTERVAL_HOUR \<equiv> 104"
abbreviation (input) SQL_C_INTERVAL_MINUTE :: int where "SQL_C_INTERVAL_MINUTE \<equiv> 105"
abbreviation (input) SQL_C_INTERVAL_SECOND :: int where "SQL_C_INTERVAL_SECOND \<equiv> 106"
abbreviation (input) SQL_C_INTERVAL_YEAR_TO_MONTH :: int where "SQL_C_INTERVAL_YEAR_TO_MONTH \<equiv> 107"
abbreviation (input) SQL_C_INTERVAL_DAY_TO_HOUR :: int where "SQL_C_INTERVAL_DAY_TO_HOUR \<equiv> 108"
abbreviation (input) SQL_C_INTERVAL_DAY_TO_MINUTE :: int where "SQL_C_INTERVAL_DAY_TO_MINUTE \<equiv> 109"
abbreviation (input) SQL_C_INTERVAL_DAY_TO_SECOND :: int where "SQL_C_INTERVAL_DAY_TO_SECOND \<equiv> 110"
abbreviation (input) SQL_C_INTERVAL_HOUR_TO_MINUTE :: int where "SQL_C_INTERVAL_HOUR_TO_MINUTE \<equiv> 111"
abbreviation (input) SQL_C_INTERVAL_HOUR_TO_SECOND :: int where "SQL_C_INTERVAL_HOUR_TO_SECOND \<equiv> 112"
abbreviation (input) SQL_C_INTERVAL_MINUTE_TO_SECOND :: int where "SQL_C_INTERVAL_MINUTE_TO_SECOND \<equiv> 113"
abbreviation (input) SQL_PARAM_INPUT :: int where "SQL_PARAM_INPUT \<equiv> 1"
abbreviation (input) SQL_PARAM_INPUT_OUTPUT :: int where "SQL_PARAM_INPUT_OUTPUT \<equiv> 2"
abbreviation (input) SQL_PARAM_OUTPUT :: int where "SQL_PARAM_OUTPUT \<equiv> 4"
abbreviation (input) SQL_PARAM_INPUT_OUTPUT_STREAM :: int where "SQL_PARAM_INPUT_OUTPUT_STREAM \<equiv> 8"
abbreviation (input) SQL_PARAM_OUTPUT_STREAM :: int where "SQL_PARAM_OUTPUT_STREAM \<equiv> 16"
abbreviation (input) SQL_NULL_DATA :: int where "SQL_NULL_DATA \<equiv> - 1"
abbreviation (input) SQL_NTS :: int where "SQL_NTS \<equiv> - 3"
abbreviation (input) SQL_NO_TOTAL :: int where "SQL_NO_TOTAL \<equiv> - 4"
abbreviation (input) SQL_NO_NULLS :: int where "SQL_NO_NULLS \<equiv> 0"
abbreviation (input) SQL_NULLABLE :: int where "SQL_NULLABLE \<equiv> 1"
abbreviation (input) SQL_DESC_COUNT :: int where "SQL_DESC_COUNT \<equiv> 1001"
abbreviation (input) SQL_DESC_TYPE :: int where "SQL_DESC_TYPE \<equiv> 1002"
abbreviation (input) SQL_DESC_LENGTH :: int where "SQL_DESC_LENGTH \<equiv> 1003"
abbreviation (input) SQL_DESC_OCTET_LENGTH_PTR :: int where "SQL_DESC_OCTET_LENGTH_PTR \<equiv> 1004"
abbreviation (input) SQL_DESC_PRECISION :: int where "SQL_DESC_PRECISION \<equiv> 1005"
abbreviation (input) SQL_DESC_SCALE :: int where "SQL_DESC_SCALE \<equiv> 1006"
abbreviation (input) SQL_DESC_DATETIME_INTERVAL_CODE :: int where "SQL_DESC_DATETIME_INTERVAL_CODE \<equiv> 1007"
abbreviation (input) SQL_DESC_NULLABLE :: int where "SQL_DESC_NULLABLE \<equiv> 1008"
abbreviation (input) SQL_DESC_INDICATOR_PTR :: int where "SQL_DESC_INDICATOR_PTR \<equiv> 1009"
abbreviation (input) SQL_DESC_DATA_PTR :: int where "SQL_DESC_DATA_PTR \<equiv> 1010"
abbreviation (input) SQL_DESC_NAME :: int where "SQL_DESC_NAME \<equiv> 1011"
abbreviation (input) SQL_DESC_UNNAMED :: int where "SQL_DESC_UNNAMED \<equiv> 1012"
abbreviation (input) SQL_DESC_OCTET_LENGTH :: int where "SQL_DESC_OCTET_LENGTH \<equiv> 1013"
abbreviation (input) SQL_DESC_ALLOC_TYPE :: int where "SQL_DESC_ALLOC_TYPE \<equiv> 1099"
abbreviation (input) SQL_DESC_CONCISE_TYPE :: int where "SQL_DESC_CONCISE_TYPE \<equiv> 2"
abbreviation (input) SQL_DESC_DATETIME_INTERVAL_PRECISION :: int where "SQL_DESC_DATETIME_INTERVAL_PRECISION \<equiv> 26"
abbreviation (input) SQL_DESC_ARRAY_SIZE :: int where "SQL_DESC_ARRAY_SIZE \<equiv> 20"
abbreviation (input) SQL_DESC_ARRAY_STATUS_PTR :: int where "SQL_DESC_ARRAY_STATUS_PTR \<equiv> 21"
abbreviation (input) SQL_DESC_BIND_OFFSET_PTR :: int where "SQL_DESC_BIND_OFFSET_PTR \<equiv> 24"
abbreviation (input) SQL_DESC_BIND_TYPE :: int where "SQL_DESC_BIND_TYPE \<equiv> 25"
abbreviation (input) SQL_DESC_ROWS_PROCESSED_PTR :: int where "SQL_DESC_ROWS_PROCESSED_PTR \<equiv> 34"
abbreviation (input) SQL_DESC_PARAMETER_TYPE :: int where "SQL_DESC_PARAMETER_TYPE \<equiv> 33"
abbreviation (input) SQL_DESC_ALLOC_AUTO :: int where "SQL_DESC_ALLOC_AUTO \<equiv> 1"
abbreviation (input) SQL_DESC_ALLOC_USER :: int where "SQL_DESC_ALLOC_USER \<equiv> 2"
abbreviation (input) SQL_DIAG_RETURNCODE :: int where "SQL_DIAG_RETURNCODE \<equiv> 1"
abbreviation (input) SQL_DIAG_NUMBER :: int where "SQL_DIAG_NUMBER \<equiv> 2"
abbreviation (input) SQL_DIAG_ROW_COUNT :: int where "SQL_DIAG_ROW_COUNT \<equiv> 3"
abbreviation (input) SQL_DIAG_SQLSTATE :: int where "SQL_DIAG_SQLSTATE \<equiv> 4"
abbreviation (input) SQL_DIAG_NATIVE :: int where "SQL_DIAG_NATIVE \<equiv> 5"
abbreviation (input) SQL_DIAG_MESSAGE_TEXT :: int where "SQL_DIAG_MESSAGE_TEXT \<equiv> 6"
abbreviation (input) SQL_DIAG_DYNAMIC_FUNCTION :: int where "SQL_DIAG_DYNAMIC_FUNCTION \<equiv> 7"
abbreviation (input) SQL_DIAG_CLASS_ORIGIN :: int where "SQL_DIAG_CLASS_ORIGIN \<equiv> 8"
abbreviation (input) SQL_DIAG_SUBCLASS_ORIGIN :: int where "SQL_DIAG_SUBCLASS_ORIGIN \<equiv> 9"
abbreviation (input) SQL_DIAG_CONNECTION_NAME :: int where "SQL_DIAG_CONNECTION_NAME \<equiv> 10"
abbreviation (input) SQL_DIAG_SERVER_NAME :: int where "SQL_DIAG_SERVER_NAME \<equiv> 11"
abbreviation (input) SQL_DIAG_DYNAMIC_FUNCTION_CODE :: int where "SQL_DIAG_DYNAMIC_FUNCTION_CODE \<equiv> 12"
abbreviation (input) SQL_DIAG_COLUMN_NUMBER :: int where "SQL_DIAG_COLUMN_NUMBER \<equiv> - 1247"
abbreviation (input) SQL_DIAG_ROW_NUMBER :: int where "SQL_DIAG_ROW_NUMBER \<equiv> - 1248"
abbreviation (input) SQL_DIAG_CURSOR_ROW_COUNT :: int where "SQL_DIAG_CURSOR_ROW_COUNT \<equiv> - 1249"
abbreviation (input) SQL_SUCCESS :: int where "SQL_SUCCESS \<equiv> 0"
abbreviation (input) SQL_SUCCESS_WITH_INFO :: int where "SQL_SUCCESS_WITH_INFO \<equiv> 1"
abbreviation (input) SQL_NO_DATA :: int where "SQL_NO_DATA \<equiv> 100"
abbreviation (input) SQL_ERROR :: int where "SQL_ERROR \<equiv> - 1"
abbreviation (input) SQL_NEED_DATA :: int where "SQL_NEED_DATA \<equiv> 99"
abbreviation (input) SQL_UNNAMED :: int where "SQL_UNNAMED \<equiv> 1"
abbreviation (input) SQL_NAMED :: int where "SQL_NAMED \<equiv> 0"
abbreviation (input) SQL_BIND_BY_COLUMN :: int where "SQL_BIND_BY_COLUMN \<equiv> 0"
abbreviation (input) SQL_PARAM_BIND_BY_COLUMN :: int where "SQL_PARAM_BIND_BY_COLUMN \<equiv> 0"
abbreviation (input) SQL_PARAM_SUCCESS :: int where "SQL_PARAM_SUCCESS \<equiv> 0"
abbreviation (input) SQL_PARAM_ERROR :: int where "SQL_PARAM_ERROR \<equiv> 5"
abbreviation (input) SQL_PARAM_UNUSED :: int where "SQL_PARAM_UNUSED \<equiv> 7"
abbreviation (input) SQL_ATTR_APP_ROW_DESC :: int where "SQL_ATTR_APP_ROW_DESC \<equiv> 10010"
abbreviation (input) SQL_ATTR_APP_PARAM_DESC :: int where "SQL_ATTR_APP_PARAM_DESC \<equiv> 10011"
abbreviation (input) SQL_ATTR_IMP_ROW_DESC :: int where "SQL_ATTR_IMP_ROW_DESC \<equiv> 10012"
abbreviation (input) SQL_ATTR_IMP_PARAM_DESC :: int where "SQL_ATTR_IMP_PARAM_DESC \<equiv> 10013"
abbreviation (input) SQL_BIND_TYPE_DEFAULT :: int where "SQL_BIND_TYPE_DEFAULT \<equiv> 0"
abbreviation (input) SQL_DESC_ROWVER :: int where "SQL_DESC_ROWVER \<equiv> 35"

end
