(* ===== verification/Exceptions.thy ===== *)
theory Exceptions
  imports Odbc_Consts
begin

text \<open>
  The exceptions of driver/exception.h as values. \<open>Sql_Exception\<close> is a \<open>SqlException\<close>
  (message, SQLSTATE, return code), \<open>ClickHouse_Exception\<close> the derived class with the
  server's exception code, \<open>Runtime_Error\<close> a plain \<open>std::runtime_error\<close> and
  \<open>Out_Of_Range\<close> a \<open>std::out_of_range\<close>. An operation that may throw returns
  \<open>exn + 'a\<close>. \<open>Undefined_Behaviour\<close> stands for a point of the code that C++ gives no
  meaning, such as \<open>front()\<close> of an empty container.
\<close>

record sql_exception =
  message :: string
  sql_state :: string
  return_code :: int

datatype exn =
    Sql_Exception sql_exception
  | ClickHouse_Exception sql_exception string
  | Runtime_Error string
  | Out_Of_Range string
  | Undefined_Behaviour string

definition SqlException :: "string \<Rightarrow> string \<Rightarrow> exn" where
  "SqlException msg state = Sql_Exception \<lparr>message = msg, sql_state = state, return_code = SQL_ERROR\<rparr>"

definition SqlException_default :: "string \<Rightarrow> exn" where
  "SqlException_default msg = SqlException msg ''HY000''"

definition sqlStateForExceptionCode :: "string \<Rightarrow> string" where
  "sqlStateForExceptionCode code =
     (if code = ''192'' \<or> code = ''193'' \<or> code = ''194'' \<or> code = ''516'' \<or> code = ''720''
      then ''28000'' else ''HY000'')"

definition ClickHouseException :: "string \<Rightarrow> string \<Rightarrow> exn" where
  "ClickHouseException msg code =
     ClickHouse_Exception
       \<lparr>message = msg, sql_state = sqlStateForExceptionCode code, return_code = SQL_ERROR\<rparr> code"

type_synonym 'a result = "exn + 'a"

definition bind_result :: "'a result \<Rightarrow> ('a \<Rightarrow> 'b result) \<Rightarrow> 'b result" where
  "bind_result m k = (case m of Inl e \<Rightarrow> Inl e | Inr a \<Rightarrow> k a)"

lemma bind_result_simps [simp]:
  "bind_result (Inl e) k = Inl e" "bind_result (Inr a) k = k a"
  by (simp_all add: bind_result_def)

lemma bind_result_Inr [simp]:
  "bind_result m k = Inr b \<longleftrightarrow> (\<exists>a. m = Inr a \<and> k a = Inr b)"
  by (cases m) simp_all

end
