(* ===== verification/Type_Info.thy ===== *)
theory Type_Info
  imports Exceptions
begin

text \<open>
  The types of the data source and of ODBC: driver/utils/type_info.cpp and the catalog of
  driver/utils/type_info.h. A \<open>switch\<close> over type codes is a chain of membership tests with
  the case labels in the order of the source.
\<close>

section \<open>The catalog of data source types\<close>

datatype DataSourceTypeId =
    Nothing | Bool | Int8 | UInt8 | Int16 | UInt16 | Int32 | UInt32 | Int64 | UInt64
  | Float32 | Float64 | Decimal | Decimal32 | Decimal64 | Decimal128
  | String | FixedString | Date | Date32 | Time | DateTime64 | DateTime | UUID | Array
  | Unknown

fun DataSourceTypeIdIndex :: "DataSourceTypeId \<Rightarrow> nat" where
  "DataSourceTypeIdIndex Nothing = 0"
| "DataSourceTypeIdIndex Bool = 1"
| "DataSourceTypeIdIndex Int8 = 2"
| "DataSourceTypeIdIndex UInt8 = 3"
| "DataSourceTypeIdIndex Int16 = 4"
| "DataSourceTypeIdIndex UInt16 = 5"
| "DataSourceTypeIdIndex Int32 = 6"
| "DataSourceTypeIdIndex UInt32 = 7"
| "DataSourceTypeIdIndex Int64 = 8"
| "DataSourceTypeIdIndex UInt64 = 9"
| "DataSourceTypeIdIndex Float32 = 10"
| "DataSourceTypeIdIndex Float64 = 11"
| "DataSourceTypeIdIndex Decimal = 12"
| "DataSourceTypeIdIndex Decimal32 = 13"
| "DataSourceTypeIdIndex Decimal64 = 14"
| "DataSourceTypeIdIndex Decimal128 = 15"
| "DataSourceTypeIdIndex String = 16"
| "DataSourceTypeIdIndex FixedString = 17"
| "DataSourceTypeIdIndex Date = 18"
| "DataSourceTypeIdIndex Date32 = 19"
| "DataSourceTypeIdIndex Time = 20"
| "DataSourceTypeIdIndex DateTime64 = 21"
| "DataSourceTypeIdIndex DateTime = 22"
| "DataSourceTypeIdIndex UUID = 23"
| "DataSourceTypeIdIndex Array = 24"
| "DataSourceTypeIdIndex Unknown = 25"

datatype UnsignedAttribute = NotApplicable | Signed | Unsigned

record TypeInfo =
  type_id :: DataSourceTypeId
  type_name :: string
  data_type :: SQLSMALLINT
  column_size :: int
  literal_wrapper :: "string option"
  create_params :: "string option"
  nullable :: bool
  case_sensitive :: bool
  searchable :: bool
  unsigned_attribute :: UnsignedAttribute
  fixed_prec_scale :: bool
  auto_unique_value :: bool
  minimum_scale :: "nat option"
  maximum_scale :: "nat option"
  sql_data_type :: SQLSMALLINT
  sql_datetime_sub :: "SQLSMALLINT option"
  num_prec_radix :: "SQLSMALLINT option"
  octet_length :: int
  hidden :: bool

definition string_max_size :: int where
  "string_max_size = 0xFFFFFF"

text \<open>A designated initialiser: the members every entry names, the others at their defaults.\<close>

definition type_info :: "DataSourceTypeId \<Rightarrow> string \<Rightarrow> SQLSMALLINT \<Rightarrow> int \<Rightarrow> int \<Rightarrow> TypeInfo" where
  "type_info tid nm ty csize olen =
     \<lparr>type_id = tid, type_name = nm, data_type = ty, column_size = csize, literal_wrapper = None,
      create_params = None, nullable = False, case_sensitive = True, searchable = True,
      unsigned_attribute = NotApplicable, fixed_prec_scale = False, auto_unique_value = False,
      minimum_scale = None, maximum_scale = None, sql_data_type = SQL_TYPE_NULL,
      sql_datetime_sub = None, num_prec_radix = None, octet_length = olen, hidden = False\<rparr>"

definition isIntegerType :: "TypeInfo \<Rightarrow> bool" where
  "isIntegerType ti \<longleftrightarrow> type_id ti \<in> {Int8, UInt8, Int16, UInt16, Int32, UInt32, Int64, UInt64}"

definition isFixedPrecisionType :: "TypeInfo \<Rightarrow> bool" where
  "isFixedPrecisionType ti \<longleftrightarrow> type_id ti \<in> {Decimal, Decimal32, Decimal64, Decimal128}"

definition isFloatingPointType :: "TypeInfo \<Rightarrow> bool" where
  "isFloatingPointType ti \<longleftrightarrow> type_id ti \<in> {Float32, Float64}"

definition isBufferType :: "TypeInfo \<Rightarrow> bool" where
  "isBufferType ti \<longleftrightarrow> type_id ti \<in> {String, FixedString}"

definition isWideCharStringType :: "TypeInfo \<Rightarrow> bool" where
  "isWideCharStringType ti \<longleftrightarrow> False"

text \<open>The table as written, before the fix-up of \<open>sql_data_type\<close>; \<open>sizeof(SQLGUID)\<close> is 16.\<close>

definition catalog_table :: "TypeInfo list" where
  "catalog_table =
    [type_info Nothing ''Nothing'' SQL_TYPE_NULL 1 1,
     (type_info Bool ''Bool'' SQL_BIT 1 1)\<lparr>case_sensitive := False\<rparr>,
     (type_info Int8 ''Int8'' SQL_TINYINT (1 + 3) 1)
       \<lparr>unsigned_attribute := Signed, num_prec_radix := Some 10\<rparr>,
     (type_info UInt8 ''UInt8'' SQL_TINYINT 3 1)
       \<lparr>unsigned_attribute := Unsigned, num_prec_radix := Some 10\<rparr>,
     (type_info Int16 ''Int16'' SQL_SMALLINT (1 + 5) 2)
       \<lparr>unsigned_attribute := Signed, num_prec_radix := Some 10\<rparr>,
     (type_info UInt16 ''UInt16'' SQL_SMALLINT 5 2)
       \<lparr>unsigned_attribute := Unsigned, num_prec_radix := Some 10\<rparr>,
     (type_info Int32 ''Int32'' SQL_INTEGER (1 + 10) 4)
       \<lparr>unsigned_attribute := Signed, num_prec_radix := Some 10\<rparr>,
     (type_info UInt32 ''UInt32'' SQL_BIGINT 10 4)
       \<lparr>unsigned_attribute := Unsigned, num_prec_radix := Some 10\<rparr>,
     (type_info Int64 ''Int64'' SQL_BIGINT (1 + 19) 8)
       \<lparr>unsigned_attribute := Signed, num_prec_radix := Some 10\<rparr>,
     (type_info UInt64 ''UInt64'' SQL_BIGINT 20 8)
       \<lparr>unsigned_attribute := Unsigned, num_prec_radix := Some 10\<rparr>,
     (type_info Float32 ''Float32'' SQL_REAL 24 4)
       \<lparr>unsigned_attribute := Signed, num_prec_radix := Some 2\<rparr>,
     (type_info Float64 ''Float64'' SQL_DOUBLE 53 8)
       \<lparr>unsigned_attribute := Signed, num_prec_radix := Some 2\<rparr>,
     (type_info Decimal ''Decimal'' SQL_DECIMAL (1 + 2 + 38) 32)
       \<lparr>create_params := Some ''precision,scale'', unsigned_attribute := Signed,
         minimum_scale := Some 1, maximum_scale := Some 76, num_prec_radix := Some 10\<rparr>,
     (type_info Decimal32 ''Decimal32'' SQL_DECIMAL (1 + 2 + 38) 32)
       \<lparr>unsigned_attribute := Signed, num_prec_radix := Some 10, hidden := True\<rparr>,
     (type_info Decimal64 ''Decimal64'' SQL_DECIMAL (1 + 2 + 38) 64)
       \<lparr>unsigned_attribute := Signed, num_prec_radix := Some 10, hidden := True\<rparr>,
     (type_info Decimal128 ''Decimal128'' SQL_DECIMAL (1 + 2 + 38) 128)
       \<lparr>unsigned_attribute := Signed, hidden := True\<rparr>,
     (type_info String ''String'' SQL_VARCHAR string_max_size string_max_size)
       \<lparr>literal_wrapper := Some [ch_quote]\<rparr>,
     (type_info FixedString ''FixedString'' SQL_VARCHAR string_max_size string_max_size)
       \<lparr>literal_wrapper := Some [ch_quote], create_params := Some ''length''\<rparr>,
     (type_info Date ''Date'' SQL_TYPE_DATE 10 6)
       \<lparr>sql_data_type := SQL_DATE, sql_datetime_sub := Some SQL_CODE_DATE\<rparr>,
     (type_info Date32 ''Date32'' SQL_TYPE_DATE 10 6)
       \<lparr>sql_data_type := SQL_DATE, sql_datetime_sub := Some SQL_CODE_DATE\<rparr>,
     (type_info Time ''Time'' SQL_TYPE_TIME 8 6)
       \<lparr>sql_data_type := SQL_DATE, sql_datetime_sub := Some SQL_CODE_TIME\<rparr>,
     (type_info DateTime64 ''DateTime64'' SQL_TYPE_TIMESTAMP 29 16)
       \<lparr>create_params := Some ''scale'', minimum_scale := Some 0, maximum_scale := Some 9,
         sql_data_type := SQL_DATE, sql_datetime_sub := Some SQL_CODE_TIMESTAMP\<rparr>,
     (type_info DateTime ''DateTime'' SQL_TYPE_TIMESTAMP 19 16)
       \<lparr>sql_data_type := SQL_DATE, sql_datetime_sub := Some SQL_CODE_TIMESTAMP\<rparr>,
     type_info UUID ''UUID'' SQL_GUID (8 + 1 + 4 + 1 + 4 + 1 + 4 + 1 + 12) 16,
     type_info Array ''Array'' SQL_VARCHAR string_max_size string_max_size]"

definition default_sql_data_type :: "TypeInfo \<Rightarrow> TypeInfo" where
  "default_sql_data_type ti =
     (if sql_data_type ti = SQL_TYPE_NULL then ti\<lparr>sql_data_type := data_type ti\<rparr> else ti)"

definition types_sorted :: "TypeInfo list \<Rightarrow> bool" where
  "types_sorted types \<longleftrightarrow> map (DataSourceTypeIdIndex \<circ> type_id) types = [0..<length types]"

text \<open>The initialiser of \<open>TypeInfoCatalog::Types\<close>, with its run-time check.\<close>

definition init_Types :: "TypeInfo list result" where
  "init_Types =
     (let types = map default_sql_data_type catalog_table in
      if types_sorted types then Inr types
      else Inl (Runtime_Error ''TypeInfoCatalog::Types are not sorted''))"

definition Types :: "TypeInfo list" where
  "Types = (case init_Types of Inr types \<Rightarrow> types | Inl e \<Rightarrow> [])"

lemma init_Types_returns: "init_Types = Inr (map default_sql_data_type catalog_table)"
  by (simp add: init_Types_def Let_def types_sorted_def catalog_table_def default_sql_data_type_def
      type_info_def upt_rec)

lemma Types_table: "Types = map default_sql_data_type catalog_table"
  by (simp add: Types_def init_Types_returns)

definition typeInfoIfExistsFor :: "string \<Rightarrow> TypeInfo option" where
  "typeInfoIfExistsFor type = find (\<lambda>ti. type_name ti = type) Types"

definition typeInfoFor :: "string \<Rightarrow> TypeInfo result" where
  "typeInfoFor type = (case typeInfoIfExistsFor type of
     Some ti \<Rightarrow> Inr ti | None \<Rightarrow> Inl (Runtime_Error ''unknown type''))"

definition convertUnparametrizedTypeNameToTypeId :: "string \<Rightarrow> DataSourceTypeId" where
  "convertUnparametrizedTypeNameToTypeId nm =
     (case typeInfoIfExistsFor nm of Some ti \<Rightarrow> type_id ti | None \<Rightarrow> Unknown)"

definition convertTypeIdToUnparametrizedCanonicalTypeName :: "DataSourceTypeId \<Rightarrow> string result" where
  "convertTypeIdToUnparametrizedCanonicalTypeName tid =
     (let idx = DataSourceTypeIdIndex tid in
      if length Types \<le> idx then Inl (Out_Of_Range ''unknown type id'')
      else Inr (type_name (Types ! idx)))"

end
