(* ===== verification/Sql_Types.thy ===== *)
theory Sql_Types
  imports Type_Info
begin

text \<open>
  The conversions between SQL types, C types, verbose types with their interval codes, and
  names of data source types: the free functions of driver/utils/type_info.cpp. A \<open>switch\<close>
  is a chain of membership tests with the case labels in the order of the source.
\<close>

section \<open>SQL types, verbose types and codes\<close>

definition convertSQLTypeToCType :: "SQLSMALLINT \<Rightarrow> SQLSMALLINT" where
  "convertSQLTypeToCType sql_type =
    (if sql_type \<in> {SQL_TYPE_NULL, SQL_CHAR, SQL_VARCHAR, SQL_LONGVARCHAR} then SQL_C_CHAR
     else if sql_type \<in> {SQL_WCHAR, SQL_WVARCHAR, SQL_WLONGVARCHAR} then SQL_C_WCHAR
     else if sql_type = SQL_DECIMAL then SQL_C_CHAR
     else if sql_type = SQL_NUMERIC then SQL_C_NUMERIC
     else if sql_type = SQL_BIT then SQL_C_BIT
     else if sql_type = SQL_TINYINT then SQL_C_TINYINT
     else if sql_type = SQL_SMALLINT then SQL_C_SHORT
     else if sql_type = SQL_INTEGER then SQL_C_LONG
     else if sql_type = SQL_BIGINT then SQL_C_SBIGINT
     else if sql_type = SQL_REAL then SQL_C_FLOAT
     else if sql_type \<in> {SQL_FLOAT, SQL_DOUBLE} then SQL_C_DOUBLE
     else if sql_type \<in> {SQL_BINARY, SQL_VARBINARY, SQL_LONGVARBINARY} then SQL_C_BINARY
     else if sql_type = SQL_TYPE_DATE then SQL_C_TYPE_DATE
     else if sql_type = SQL_TYPE_TIME then SQL_C_TYPE_TIME
     else if sql_type = SQL_TYPE_TIMESTAMP then SQL_C_TYPE_TIMESTAMP
     else if sql_type = SQL_INTERVAL_MONTH then SQL_C_INTERVAL_MONTH
     else if sql_type = SQL_INTERVAL_YEAR then SQL_C_INTERVAL_YEAR
     else if sql_type = SQL_INTERVAL_YEAR_TO_MONTH then SQL_C_INTERVAL_YEAR_TO_MONTH
     else if sql_type = SQL_INTERVAL_DAY then SQL_C_INTERVAL_DAY
     else if sql_type = SQL_INTERVAL_HOUR then SQL_C_INTERVAL_HOUR
     else if sql_type = SQL_INTERVAL_MINUTE then SQL_C_INTERVAL_MINUTE
     else if sql_type = SQL_INTERVAL_SECOND then SQL_C_INTERVAL_SECOND
     else if sql_type = SQL_INTERVAL_DAY_TO_HOUR then SQL_C_INTERVAL_DAY_TO_HOUR
     else if sql_type = SQL_INTERVAL_DAY_TO_MINUTE then SQL_C_INTERVAL_DAY_TO_MINUTE
     else if sql_type = SQL_INTERVAL_DAY_TO_SECOND then SQL_C_INTERVAL_DAY_TO_SECOND
     else if sql_type = SQL_INTERVAL_HOUR_TO_MINUTE then SQL_C_INTERVAL_HOUR_TO_MINUTE
     else if sql_type = SQL_INTERVAL_HOUR_TO_SECOND then SQL_C_INTERVAL_HOUR_TO_SECOND
     else if sql_type = SQL_INTERVAL_MINUTE_TO_SECOND then SQL_C_INTERVAL_MINUTE_TO_SECOND
     else if sql_type = SQL_GUID then SQL_C_GUID
     else SQL_C_DEFAULT)"

definition isVerboseType :: "SQLSMALLINT \<Rightarrow> bool" where
  "isVerboseType type \<longleftrightarrow> type \<in> {SQL_DATETIME, SQL_INTERVAL}"

definition tryConvertSQLTypeToVerboseType :: "SQLSMALLINT \<Rightarrow> SQLSMALLINT" where
  "tryConvertSQLTypeToVerboseType type =
    (if type \<in> {SQL_TYPE_DATE, SQL_TYPE_TIME, SQL_TYPE_TIMESTAMP} then SQL_DATETIME
     else if type \<in> {SQL_INTERVAL_YEAR, SQL_INTERVAL_MONTH, SQL_INTERVAL_DAY,
       SQL_INTERVAL_HOUR, SQL_INTERVAL_MINUTE, SQL_INTERVAL_SECOND, SQL_INTERVAL_YEAR_TO_MONTH,
       SQL_INTERVAL_DAY_TO_HOUR, SQL_INTERVAL_DAY_TO_MINUTE, SQL_INTERVAL_DAY_TO_SECOND,
       SQL_INTERVAL_HOUR_TO_MINUTE, SQL_INTERVAL_HOUR_TO_SECOND, SQL_INTERVAL_MINUTE_TO_SECOND}
       then SQL_INTERVAL
     else type)"

definition isConciseDateTimeIntervalType :: "SQLSMALLINT \<Rightarrow> bool" where
  "isConciseDateTimeIntervalType sql_type \<longleftrightarrow>
     \<not> isVerboseType sql_type \<and> isVerboseType (tryConvertSQLTypeToVerboseType sql_type)"

definition isConciseNonDateTimeIntervalType :: "SQLSMALLINT \<Rightarrow> bool" where
  "isConciseNonDateTimeIntervalType sql_type \<longleftrightarrow>
     \<not> isVerboseType (tryConvertSQLTypeToVerboseType sql_type)"

definition convertSQLTypeToDateTimeIntervalCode :: "SQLSMALLINT \<Rightarrow> SQLSMALLINT" where
  "convertSQLTypeToDateTimeIntervalCode type =
    (if type = SQL_TYPE_DATE then SQL_CODE_DATE
     else if type = SQL_TYPE_TIME then SQL_CODE_TIME
     else if type = SQL_TYPE_TIMESTAMP then SQL_CODE_TIMESTAMP
     else if type = SQL_INTERVAL_YEAR then SQL_CODE_YEAR
     else if type = SQL_INTERVAL_MONTH then SQL_CODE_MONTH
     else if type = SQL_INTERVAL_DAY then SQL_CODE_DAY
     else if type = SQL_INTERVAL_HOUR then SQL_CODE_HOUR
     else if type = SQL_INTERVAL_MINUTE then SQL_CODE_MINUTE
     else if type = SQL_INTERVAL_SECOND then SQL_CODE_SECOND
     else if type = SQL_INTERVAL_YEAR_TO_MONTH then SQL_CODE_YEAR_TO_MONTH
     else if type = SQL_INTERVAL_DAY_TO_HOUR then SQL_CODE_DAY_TO_HOUR
     else if type = SQL_INTERVAL_DAY_TO_MINUTE then SQL_CODE_DAY_TO_MINUTE
     else if type = SQL_INTERVAL_DAY_TO_SECOND then SQL_CODE_DAY_TO_SECOND
     else if type = SQL_INTERVAL_HOUR_TO_MINUTE then SQL_CODE_HOUR_TO_MINUTE
     else if type = SQL_INTERVAL_HOUR_TO_SECOND then SQL_CODE_HOUR_TO_SECOND
     else if type = SQL_INTERVAL_MINUTE_TO_SECOND then SQL_CODE_MINUTE_TO_SECOND
     else 0)"

definition convertDateTimeIntervalCodeToSQLType :: "SQLSMALLINT \<Rightarrow> SQLSMALLINT \<Rightarrow> SQLSMALLINT" where
  "convertDateTimeIntervalCodeToSQLType code verbose_type =
     (if verbose_type = SQL_DATETIME then
       (if code = SQL_CODE_DATE then SQL_TYPE_DATE
        else if code = SQL_CODE_TIME then SQL_TYPE_TIME
        else if code = SQL_CODE_TIMESTAMP then SQL_TYPE_TIMESTAMP
        else SQL_UNKNOWN_TYPE)
      else if verbose_type = SQL_INTERVAL then
       (if code = SQL_CODE_YEAR then SQL_INTERVAL_YEAR
        else if code = SQL_CODE_MONTH then SQL_INTERVAL_MONTH
        else if code = SQL_CODE_DAY then SQL_INTERVAL_DAY
        else if code = SQL_CODE_HOUR then SQL_INTERVAL_HOUR
        else if code = SQL_CODE_MINUTE then SQL_INTERVAL_MINUTE
        else if code = SQL_CODE_SECOND then SQL_INTERVAL_SECOND
        else if code = SQL_CODE_YEAR_TO_MONTH then SQL_INTERVAL_YEAR_TO_MONTH
        else if code = SQL_CODE_DAY_TO_HOUR then SQL_INTERVAL_DAY_TO_HOUR
        else if code = SQL_CODE_DAY_TO_MINUTE then SQL_INTERVAL_DAY_TO_MINUTE
        else if code = SQL_CODE_DAY_TO_SECOND then SQL_INTERVAL_DAY_TO_SECOND
        else if code = SQL_CODE_HOUR_TO_MINUTE then SQL_INTERVAL_HOUR_TO_MINUTE
        else if code = SQL_CODE_HOUR_TO_SECOND then SQL_INTERVAL_HOUR_TO_SECOND
        else if code = SQL_CODE_MINUTE_TO_SECOND then SQL_INTERVAL_MINUTE_TO_SECOND
        else SQL_UNKNOWN_TYPE)
      else SQL_UNKNOWN_TYPE)"

definition isIntervalCode :: "SQLSMALLINT \<Rightarrow> bool" where
  "isIntervalCode code \<longleftrightarrow>
     code \<in> {SQL_CODE_YEAR, SQL_CODE_MONTH, SQL_CODE_DAY, SQL_CODE_HOUR, SQL_CODE_MINUTE,
       SQL_CODE_SECOND, SQL_CODE_YEAR_TO_MONTH, SQL_CODE_DAY_TO_HOUR, SQL_CODE_DAY_TO_MINUTE,
       SQL_CODE_DAY_TO_SECOND, SQL_CODE_HOUR_TO_MINUTE, SQL_CODE_HOUR_TO_SECOND,
       SQL_CODE_MINUTE_TO_SECOND}"

definition intervalCodeHasSecondComponent :: "SQLSMALLINT \<Rightarrow> bool" where
  "intervalCodeHasSecondComponent code \<longleftrightarrow>
     code \<in> {SQL_CODE_SECOND, SQL_CODE_DAY_TO_SECOND, SQL_CODE_HOUR_TO_SECOND,
       SQL_CODE_MINUTE_TO_SECOND}"

text \<open>The ODBC headers are those of version 3.8 (\<open>ODBCVER >= 0x0380\<close>), so the stream cases are there.\<close>

definition isInputParam :: "SQLSMALLINT \<Rightarrow> bool" where
  "isInputParam param_io_type \<longleftrightarrow>
     param_io_type \<in> {SQL_PARAM_INPUT, SQL_PARAM_INPUT_OUTPUT,
       SQL_PARAM_INPUT_OUTPUT_STREAM}"

definition isOutputParam :: "SQLSMALLINT \<Rightarrow> bool" where
  "isOutputParam param_io_type \<longleftrightarrow>
     param_io_type \<in> {SQL_PARAM_OUTPUT, SQL_PARAM_INPUT_OUTPUT, SQL_PARAM_OUTPUT_STREAM,
       SQL_PARAM_INPUT_OUTPUT_STREAM}"

definition isStreamParam :: "SQLSMALLINT \<Rightarrow> bool" where
  "isStreamParam param_io_type \<longleftrightarrow>
     param_io_type \<in> {SQL_PARAM_OUTPUT_STREAM, SQL_PARAM_INPUT_OUTPUT_STREAM}"

section \<open>Names of data source types\<close>

record BoundTypeInfo =
  c_type :: SQLSMALLINT
  sql_type :: SQLSMALLINT
  value_max_size :: SQLLEN
  precision :: int
  scale :: int
  is_nullable :: bool

definition default_BoundTypeInfo :: BoundTypeInfo where
  "default_BoundTypeInfo =
     \<lparr>c_type = SQL_C_DEFAULT, sql_type = SQL_UNKNOWN_TYPE, value_max_size = 0, precision = 0,
      scale = 0, is_nullable = False\<rparr>"

definition set_nullability :: "BoundTypeInfo \<Rightarrow> string \<Rightarrow> string" where
  "set_nullability ti nm = (if is_nullable ti then ''Nullable('' @ nm @ '')'' else nm)"

text \<open>The value of \<open>type_name\<close> after the \<open>switch\<close> over the C type, over the SQL type.\<close>

definition c_type_name :: "BoundTypeInfo \<Rightarrow> string" where
  "c_type_name ti =
    (let ty = c_type ti in
     if ty \<in> {SQL_C_WCHAR, SQL_C_CHAR} then
       set_nullability ti ''String''
     else if ty = SQL_C_BIT then
       set_nullability ti ''UInt8''
     else if ty \<in> {SQL_C_TINYINT, SQL_C_STINYINT} then
       set_nullability ti ''Int8''
     else if ty = SQL_C_UTINYINT then
       set_nullability ti ''UInt8''
     else if ty \<in> {SQL_C_SHORT, SQL_C_SSHORT} then
       set_nullability ti ''Int16''
     else if ty = SQL_C_USHORT then
       set_nullability ti ''UInt16''
     else if ty \<in> {SQL_C_LONG, SQL_C_SLONG} then
       set_nullability ti ''Int32''
     else if ty = SQL_C_ULONG then
       set_nullability ti ''UInt32''
     else if ty = SQL_C_SBIGINT then
       set_nullability ti ''Int64''
     else if ty = SQL_C_UBIGINT then
       set_nullability ti ''UInt64''
     else if ty = SQL_C_FLOAT then
       set_nullability ti ''Float32''
     else if ty = SQL_C_DOUBLE then
       set_nullability ti ''Float64''
     else if ty = SQL_C_NUMERIC then
       set_nullability ti
         (''Decimal('' @ show_int (precision ti) @ '', '' @ show_int (scale ti) @ '')'')
     else if ty = SQL_C_BINARY then
       set_nullability ti
         (if value_max_size ti > 0 then ''FixedString('' @ show_int (value_max_size ti) @ '')''
          else ''String'')
     else if ty = SQL_C_GUID then
       set_nullability ti ''UUID''
     else if ty \<in> {SQL_C_DATE, SQL_C_TYPE_DATE} then
       set_nullability ti ''Date32''
     else if ty \<in> {SQL_C_TIME, SQL_C_TYPE_TIME} then
       ''LowCardinality('' @ set_nullability ti ''String'' @ '')''
     else if ty \<in> {SQL_C_TIMESTAMP, SQL_C_TYPE_TIMESTAMP} then
       set_nullability ti ''DateTime''
     else if ty \<in> {SQL_C_INTERVAL_YEAR, SQL_C_INTERVAL_MONTH, SQL_C_INTERVAL_DAY,
       SQL_C_INTERVAL_HOUR, SQL_C_INTERVAL_MINUTE, SQL_C_INTERVAL_SECOND,
       SQL_C_INTERVAL_YEAR_TO_MONTH, SQL_C_INTERVAL_DAY_TO_HOUR, SQL_C_INTERVAL_DAY_TO_MINUTE,
       SQL_C_INTERVAL_DAY_TO_SECOND, SQL_C_INTERVAL_HOUR_TO_MINUTE,
       SQL_C_INTERVAL_HOUR_TO_SECOND, SQL_C_INTERVAL_MINUTE_TO_SECOND} then
       ''LowCardinality('' @ set_nullability ti ''String'' @ '')''
     else '''')"

definition sql_type_name :: "BoundTypeInfo \<Rightarrow> string" where
  "sql_type_name ti =
    (let ty = sql_type ti in
     if ty = SQL_TYPE_NULL then
       set_nullability ti ''Nothing''
     else if ty \<in> {SQL_WCHAR, SQL_CHAR} then
       set_nullability ti ''String''
     else if ty \<in> {SQL_WVARCHAR, SQL_VARCHAR} then
       ''LowCardinality('' @ set_nullability ti ''String'' @ '')''
     else if ty \<in> {SQL_WLONGVARCHAR, SQL_LONGVARCHAR} then
       set_nullability ti ''String''
     else if ty = SQL_BIT then
       set_nullability ti ''UInt8''
     else if ty = SQL_TINYINT then
       set_nullability ti ''Int8''
     else if ty = SQL_SMALLINT then
       set_nullability ti ''Int16''
     else if ty = SQL_INTEGER then
       set_nullability ti ''Int32''
     else if ty = SQL_BIGINT then
       set_nullability ti ''Int64''
     else if ty = SQL_REAL then
       set_nullability ti ''Float32''
     else if ty \<in> {SQL_FLOAT, SQL_DOUBLE} then
       set_nullability ti ''Float64''
     else if ty \<in> {SQL_DECIMAL, SQL_NUMERIC} then
       set_nullability ti
         (''Decimal('' @ show_int (precision ti) @ '', '' @ show_int (scale ti) @ '')'')
     else if ty = SQL_BINARY then
       set_nullability ti
         (if value_max_size ti > 0 then ''FixedString('' @ show_int (value_max_size ti) @ '')''
          else ''String'')
     else if ty = SQL_VARBINARY then
       ''LowCardinality('' @ set_nullability ti ''String'' @ '')''
     else if ty = SQL_LONGVARBINARY then
       set_nullability ti ''String''
     else if ty = SQL_GUID then
       set_nullability ti ''UUID''
     else if ty = SQL_TYPE_DATE then
       set_nullability ti ''Date32''
     else if ty = SQL_TYPE_TIME then
       ''LowCardinality('' @ set_nullability ti ''String'' @ '')''
     else if ty = SQL_TYPE_TIMESTAMP then
       set_nullability ti ''DateTime64(9)''
     else if ty \<in> {SQL_INTERVAL_MONTH, SQL_INTERVAL_YEAR, SQL_INTERVAL_YEAR_TO_MONTH,
       SQL_INTERVAL_DAY, SQL_INTERVAL_HOUR, SQL_INTERVAL_MINUTE, SQL_INTERVAL_SECOND,
       SQL_INTERVAL_DAY_TO_HOUR, SQL_INTERVAL_DAY_TO_MINUTE, SQL_INTERVAL_DAY_TO_SECOND,
       SQL_INTERVAL_HOUR_TO_MINUTE, SQL_INTERVAL_HOUR_TO_SECOND, SQL_INTERVAL_MINUTE_TO_SECOND}
       then
       ''LowCardinality('' @ set_nullability ti ''String'' @ '')''
     else '''')"

definition convertCTypeToDataSourceType :: "BoundTypeInfo \<Rightarrow> string result" where
  "convertCTypeToDataSourceType ti =
     (let nm = c_type_name ti in
      if nm = '''' then Inl (Runtime_Error ''Unable to deduce data source type from C type'')
      else Inr nm)"

definition convertSQLTypeToDataSourceType :: "BoundTypeInfo \<Rightarrow> string result" where
  "convertSQLTypeToDataSourceType ti =
     (let nm = sql_type_name ti in
      if nm = '''' then Inl (Runtime_Error ''Unable to deduce data source type from SQL type'')
      else Inr nm)"

text \<open>\<open>catch (...)\<close> around the conversion of the SQL type.\<close>

definition convertSQLOrCTypeToDataSourceType :: "BoundTypeInfo \<Rightarrow> string result" where
  "convertSQLOrCTypeToDataSourceType ti =
     (case convertSQLTypeToDataSourceType ti of
        Inl e \<Rightarrow> convertCTypeToDataSourceType ti
      | Inr nm \<Rightarrow> Inr nm)"

definition isMappedToStringDataSourceType :: "SQLSMALLINT \<Rightarrow> SQLSMALLINT \<Rightarrow> bool" where
  "isMappedToStringDataSourceType sqlt ct \<longleftrightarrow>
     sqlt \<in> {SQL_WCHAR, SQL_CHAR, SQL_WVARCHAR, SQL_VARCHAR, SQL_WLONGVARCHAR,
       SQL_LONGVARCHAR, SQL_BINARY, SQL_VARBINARY, SQL_LONGVARBINARY, SQL_TYPE_TIME,
       SQL_INTERVAL_MONTH, SQL_INTERVAL_YEAR, SQL_INTERVAL_YEAR_TO_MONTH, SQL_INTERVAL_DAY,
       SQL_INTERVAL_HOUR, SQL_INTERVAL_MINUTE, SQL_INTERVAL_SECOND, SQL_INTERVAL_DAY_TO_HOUR,
       SQL_INTERVAL_DAY_TO_MINUTE, SQL_INTERVAL_DAY_TO_SECOND, SQL_INTERVAL_HOUR_TO_MINUTE,
       SQL_INTERVAL_HOUR_TO_SECOND, SQL_INTERVAL_MINUTE_TO_SECOND}
     \<or> ct \<in> {SQL_C_WCHAR, SQL_C_CHAR, SQL_C_BINARY, SQL_C_TIME, SQL_C_TYPE_TIME,
       SQL_C_INTERVAL_YEAR, SQL_C_INTERVAL_MONTH, SQL_C_INTERVAL_DAY, SQL_C_INTERVAL_HOUR,
       SQL_C_INTERVAL_MINUTE, SQL_C_INTERVAL_SECOND, SQL_C_INTERVAL_YEAR_TO_MONTH,
       SQL_C_INTERVAL_DAY_TO_HOUR, SQL_C_INTERVAL_DAY_TO_MINUTE, SQL_C_INTERVAL_DAY_TO_SECOND,
       SQL_C_INTERVAL_HOUR_TO_MINUTE, SQL_C_INTERVAL_HOUR_TO_SECOND,
       SQL_C_INTERVAL_MINUTE_TO_SECOND}"

lemmas sql_type_defs = isVerboseType_def tryConvertSQLTypeToVerboseType_def
  isConciseDateTimeIntervalType_def convertSQLTypeToDateTimeIntervalCode_def
  convertDateTimeIntervalCodeToSQLType_def isIntervalCode_def intervalCodeHasSecondComponent_def

end
