(* ===== verification/Type_Parser.thy ===== *)
theory Type_Parser
  imports Prelude
begin

text \<open>
  The parser of ClickHouse type names, driver/utils/type_parser.cpp. A \<open>TypeAst *\<close> into
  the tree under construction is the path of element indices that leads to the node: the
  elements are a \<open>std::list\<close>, so appending a sibling moves no node. \<open>open_elements_\<close> is
  the list of such paths, its head the top of the stack.
\<close>

section \<open>Types\<close>

datatype meta = Array | Null | Nullable | Number | Terminal | Tuple | LowCardinality

datatype type_ast =
  TypeAst (ast_meta: meta) (ast_name: string) (ast_size: nat) (elements: "type_ast list")

text \<open>\<open>TypeAst()\<close> value-initialises the members that have no initialiser of their own.\<close>

definition fresh_ast :: type_ast where
  "fresh_ast = TypeAst Array '''' 0 []"

definition getTypeMeta :: "string \<Rightarrow> meta" where
  "getTypeMeta name =
     (if name = ''Array'' then Array
      else if name = ''Null'' then Null
      else if name = ''Nullable'' then Nullable
      else if name = ''Tuple'' then Tuple
      else if name = ''LowCardinality'' then LowCardinality
      else Terminal)"

datatype tp_type = Invalid | Name | Num | LPar | RPar | Comma | Eos

type_synonym tp_token = "tp_type \<times> string"

definition tp_blank :: "char \<Rightarrow> bool" where
  "tp_blank c \<longleftrightarrow> c = CHR '' '' \<or> c = ch_nl \<or> c = ch_tab \<or> c = ch_nul"

definition tp_alnum :: "char \<Rightarrow> bool" where [cctype]:
  "tp_alnum c \<longleftrightarrow> isalpha c \<or> isdigit c"

text \<open>The argument and the second component of the result are the text from \<open>cur_\<close> on.\<close>

fun nextToken :: "string \<Rightarrow> tp_token \<times> string" where
  "nextToken [] = ((Eos, ''''), [])"
| "nextToken (c # cs) =
     (if tp_blank c then nextToken cs
      else if c = CHR ''('' then ((LPar, [c]), cs)
      else if c = CHR '')'' then ((RPar, [c]), cs)
      else if c = CHR '','' then ((Comma, [c]), cs)
      else if c = ch_dquote \<or> c = ch_quote then
        (case dropWhile (\<lambda>x. x \<noteq> c) cs of
           [] \<Rightarrow> ((Invalid, ''''), [])
         | q # rest \<Rightarrow> ((Name, takeWhile (\<lambda>x. x \<noteq> c) cs), rest))
      else if isalpha c then ((Name, c # takeWhile tp_alnum cs), dropWhile tp_alnum cs)
      else if isdigit c then ((Num, c # takeWhile isdigit cs), dropWhile isdigit cs)
      else ((Invalid, ''''), c # cs))"

text \<open>\<open>fromString<int>\<close> of a run of digits, the only argument it has here.\<close>

definition fromString_int :: "string \<Rightarrow> nat option" where
  "fromString_int s = (let v = digits_value s in if v < 2 ^ 31 then Some v else None)"

section \<open>Paths into the tree\<close>

fun node_at :: "type_ast \<Rightarrow> nat list \<Rightarrow> type_ast" where
  "node_at t [] = t"
| "node_at t (i # p) = node_at (elements t ! i) p"

fun update_at :: "(type_ast \<Rightarrow> type_ast) \<Rightarrow> nat list \<Rightarrow> type_ast \<Rightarrow> type_ast" where
  "update_at f [] t = f t"
| "update_at f (i # p) t =
     TypeAst (ast_meta t) (ast_name t) (ast_size t)
       ((elements t)[i := update_at f p (elements t ! i)])"

fun valid_path :: "type_ast \<Rightarrow> nat list \<Rightarrow> bool" where
  "valid_path t [] \<longleftrightarrow> True"
| "valid_path t (i # p) \<longleftrightarrow> i < length (elements t) \<and> valid_path (elements t ! i) p"

section \<open>The parser\<close>

record type_parser =
  cur :: string
  tree :: type_ast
  type_ptr :: "nat list"
  open_elements :: "nat list list"

text \<open>
  How \<open>parse\<close> ends: it returns a boolean, \<open>fromString\<close> throws, or \<open>top()\<close> is called on an
  empty stack, which C++ leaves undefined.
\<close>

datatype parse_end = Returns bool | Bad_lexical_cast | Undefined

definition set_name :: "string \<Rightarrow> type_ast \<Rightarrow> type_ast" where
  "set_name v t = TypeAst (getTypeMeta v) v (ast_size t) (elements t)"

definition set_number :: "nat \<Rightarrow> type_ast \<Rightarrow> type_ast" where
  "set_number v t = TypeAst Number (ast_name t) v (elements t)"

definition add_element :: "type_ast \<Rightarrow> type_ast" where
  "add_element t = TypeAst (ast_meta t) (ast_name t) (ast_size t) (elements t @ [fresh_ast])"

text \<open>\<open>p->elements.emplace_back(TypeAst()); type_ = &p->elements.back();\<close> and the push of \<open>p\<close>.\<close>

definition open_element :: "nat list \<Rightarrow> type_parser \<Rightarrow> type_parser" where
  "open_element p st =
     st\<lparr>tree := update_at add_element p (tree st),
        type_ptr := p @ [length (elements (node_at (tree st) p))],
        open_elements := p # open_elements st\<rparr>"

definition parse_token :: "tp_token \<Rightarrow> type_parser \<Rightarrow> parse_end + type_parser" where
  "parse_token tok st =
     (case fst tok of
        Name \<Rightarrow> Inr (st\<lparr>tree := update_at (set_name (snd tok)) (type_ptr st) (tree st)\<rparr>)
      | Num \<Rightarrow>
          (case fromString_int (snd tok) of
             None \<Rightarrow> Inl Bad_lexical_cast
           | Some v \<Rightarrow> Inr (st\<lparr>tree := update_at (set_number v) (type_ptr st) (tree st)\<rparr>))
      | LPar \<Rightarrow> Inr (open_element (type_ptr st) st)
      | RPar \<Rightarrow>
          (case open_elements st of
             [] \<Rightarrow> Inl Undefined
           | p # ps \<Rightarrow> Inr (st\<lparr>type_ptr := p, open_elements := ps\<rparr>))
      | Comma \<Rightarrow>
          (case open_elements st of
             [] \<Rightarrow> Inl Undefined
           | p # ps \<Rightarrow> Inr (open_element p (st\<lparr>open_elements := ps\<rparr>)))
      | Eos \<Rightarrow> Inl (Returns True)
      | Invalid \<Rightarrow> Inl (Returns False))"

lemma nextToken_shorter [progress]:
  "nextToken s = (tok, rest) \<Longrightarrow> fst tok \<noteq> Eos \<Longrightarrow> fst tok \<noteq> Invalid \<Longrightarrow> length rest < length s"
proof (induction s rule: nextToken.induct)
  case (2 c cs)
  have drop: "length (dropWhile P cs) < Suc (length cs)" for P
    by (simp add: le_imp_less_Suc length_dropWhile_le)
  show ?case
  proof (cases "tp_blank c")
    case True
    then show ?thesis using 2 by (auto simp: less_Suc_eq)
  next
    case False
    then show ?thesis
      using 2(2-) drop[of tp_alnum] drop[of isdigit] drop[of "\<lambda>x. x \<noteq> c"]
      by (auto split: if_splits list.splits)
  qed
qed auto

text \<open>
  The \<open>do ... while (true)\<close> loop. Token \<open>Eos\<close> or \<open>Invalid\<close> ends it, every other token
  consumes text.
\<close>

function parse_loop :: "type_parser \<Rightarrow> parse_end \<times> type_ast" where
  "parse_loop st =
     (let (tok, rest) = nextToken (cur st) in
      case parse_token tok (st\<lparr>cur := rest\<rparr>) of
        Inl e \<Rightarrow> (e, tree st)
      | Inr st' \<Rightarrow> parse_loop st')"
  by auto
termination
proof (relation "measure (length \<circ> cur)")
  fix st tok rest st' p
  assume "p = nextToken (cur st)" "(tok, rest) = p"
    and step: "parse_token tok (st\<lparr>cur := rest\<rparr>) = Inr st'"
  then have "cur st' = rest" "fst tok \<noteq> Eos" "fst tok \<noteq> Invalid"
    by (auto simp: parse_token_def open_element_def split: tp_type.splits option.splits list.splits)
  moreover have "nextToken (cur st) = (tok, rest)" using \<open>p = _\<close> \<open>_ = p\<close> by simp
  ultimately show "(st', st) \<in> measure (length \<circ> cur)"
    using nextToken_shorter by auto
qed simp

declare parse_loop.simps [simp del]

text \<open>\<open>TypeParser parser{name}; parser.parse(&type)\<close>: how it ends, and the tree it leaves.\<close>

definition parse :: "string \<Rightarrow> type_ast \<Rightarrow> parse_end \<times> type_ast" where
  "parse name type =
     parse_loop \<lparr>cur = name, tree = type, type_ptr = [], open_elements = [[]]\<rparr>"

section \<open>Laws of paths\<close>

lemma node_at_append [simp]: "node_at t (p @ q) = node_at (node_at t p) q"
  by (induction t p rule: node_at.induct) simp_all

lemma valid_path_append [simp]:
  "valid_path t (p @ q) \<longleftrightarrow> valid_path t p \<and> valid_path (node_at t p) q"
  by (induction t p rule: node_at.induct) auto

lemma node_at_update_at [simp]:
  "valid_path t p \<Longrightarrow> node_at (update_at f p t) p = f (node_at t p)"
  by (induction f p t rule: update_at.induct) simp_all

lemma update_at_append:
  "update_at f (p @ q) t = update_at (update_at f q) p t"
  by (induction p arbitrary: t) simp_all

lemma update_at_fuse [simp]:
  "valid_path t p \<Longrightarrow> update_at g p (update_at f p t) = update_at (\<lambda>u. g (f u)) p t"
  by (induction f p t rule: update_at.induct) simp_all

lemma update_at_cong:
  "f (node_at t p) = g (node_at t p) \<Longrightarrow> update_at f p t = update_at g p t"
  by (induction f p t rule: update_at.induct) simp_all

text \<open>A change of the node at \<open>p\<close> that keeps its elements keeps every path valid.\<close>

lemma valid_path_update:
  assumes "\<And>u i. i < length (elements u) \<Longrightarrow>
      i < length (elements (f u)) \<and> elements (f u) ! i = elements u ! i"
  shows "valid_path t q \<Longrightarrow> valid_path (update_at f p t) q"
proof (induction p arbitrary: t q)
  case Nil
  then show ?case using assms[of _ t] by (cases q) auto
next
  case (Cons i p)
  then show ?case by (cases q; cases "i < length (elements t)") (auto simp: nth_list_update)
qed

section \<open>No dangling pointer, and no underflow on balanced names\<close>

text \<open>Every pointer the parser holds leads to a node of the tree.\<close>

definition pointers_ok :: "type_parser \<Rightarrow> bool" where
  "pointers_ok st \<longleftrightarrow>
     valid_path (tree st) (type_ptr st) \<and> list_all (valid_path (tree st)) (open_elements st)"

lemma list_all_valid_update:
  assumes "list_all (valid_path t) ps"
    and "\<And>q. valid_path t q \<Longrightarrow> valid_path (update_at f p t) q"
  shows "list_all (valid_path (update_at f p t)) ps"
  using assms by (auto simp: list_all_iff)

lemma valid_path_set [simp]:
  "valid_path t q \<Longrightarrow> valid_path (update_at (set_name v) p t) q"
  "valid_path t q \<Longrightarrow> valid_path (update_at (set_number n) p t) q"
  "valid_path t q \<Longrightarrow> valid_path (update_at add_element p t) q"
  by (rule valid_path_update; simp add: set_name_def set_number_def add_element_def nth_append)+

lemma open_element_ok:
  "pointers_ok st \<Longrightarrow> valid_path (tree st) p \<Longrightarrow> pointers_ok (open_element p st)"
  by (auto simp: pointers_ok_def open_element_def add_element_def intro: list_all_valid_update)

lemma parse_token_pointers_ok:
  assumes ok: "pointers_ok st" and step: "parse_token tok st = Inr st'"
  shows "pointers_ok st'"
proof -
  have set: "pointers_ok (st\<lparr>tree := update_at f (type_ptr st) (tree st)\<rparr>)"
    if "\<And>q. valid_path (tree st) q \<Longrightarrow> valid_path (update_at f (type_ptr st) (tree st)) q" for f
    using ok that by (auto simp: pointers_ok_def intro!: list_all_valid_update)
  show ?thesis
  proof (cases "fst tok")
    case LPar
    then show ?thesis using ok step
      by (auto simp: parse_token_def pointers_ok_def intro!: open_element_ok[unfolded pointers_ok_def])
  next
    case RPar
    then show ?thesis using ok step
      by (auto simp: parse_token_def pointers_ok_def split: list.splits)
  next
    case Comma
    then obtain p ps where "open_elements st = p # ps" "st' = open_element p (st\<lparr>open_elements := ps\<rparr>)"
      using step by (auto simp: parse_token_def split: list.splits)
    then show ?thesis using ok open_element_ok[of "st\<lparr>open_elements := ps\<rparr>" p]
      by (auto simp: pointers_ok_def)
  qed (use step set in \<open>auto simp: parse_token_def split: option.splits\<close>)
qed

text \<open>The states the loop of \<open>parse\<close> passes through.\<close>

inductive parser_reach :: "string \<Rightarrow> type_ast \<Rightarrow> type_parser \<Rightarrow> bool" for name t where
  start: "parser_reach name t \<lparr>cur = name, tree = t, type_ptr = [], open_elements = [[]]\<rparr>"
| step: "parser_reach name t st \<Longrightarrow> nextToken (cur st) = (tok, rest) \<Longrightarrow>
    parse_token tok (st\<lparr>cur := rest\<rparr>) = Inr st' \<Longrightarrow> parser_reach name t st'"

text \<open>Every pointer TypeParser::parse dereferences (type_ and the entries of
  open_elements_) leads to a node of the tree it builds, for any type name and any tree passed in.\<close>

theorem parse_pointers_valid:
  assumes "parser_reach name t st"
  shows "pointers_ok st"
  using assms
proof induction
  case start
  then show ?case by (simp add: pointers_ok_def)
next
  case (step st tok rest st')
  then have "pointers_ok (st\<lparr>cur := rest\<rparr>)" by (simp add: pointers_ok_def)
  then show ?case using step parse_token_pointers_ok by blast
qed

theorem parse_pointers_valid_witness:
  "pointers_ok (\<lparr>cur = ''b)'', tree = TypeAst Terminal ''a'' 0 [fresh_ast],
     type_ptr = [0], open_elements = [[], []]\<rparr>)"
proof (rule parse_pointers_valid[of "''a(b)''" fresh_ast])
  have "parser_reach ''a(b)'' fresh_ast
      \<lparr>cur = ''(b)'', tree = TypeAst Terminal ''a'' 0 [], type_ptr = [], open_elements = [[]]\<rparr>"
    by (rule parser_reach.step[OF parser_reach.start, of _ _ "(Name, ''a'')" "''(b)''"])
      (simp_all add: tp_blank_def cctype parse_token_def set_name_def getTypeMeta_def fresh_ast_def)
  from parser_reach.step[OF this, of "(LPar, ''('')" "''b)''"]
  show "parser_reach ''a(b)'' fresh_ast (\<lparr>cur = ''b)'', tree = TypeAst Terminal ''a'' 0 [fresh_ast],
     type_ptr = [0], open_elements = [[], []]\<rparr>)"
    by (simp add: tp_blank_def cctype parse_token_def open_element_def add_element_def)
qed

section \<open>Underflow of the stack\<close>

fun token_types :: "nat \<Rightarrow> string \<Rightarrow> tp_type list" where
  "token_types 0 s = []"
| "token_types (Suc n) s = (let (tok, rest) = nextToken s in fst tok # token_types n rest)"

text \<open>
  The height of the stack as the tokens go by: \<open>LPar\<close> raises it, \<open>RPar\<close> lowers it and, as
  \<open>Comma\<close> does, needs it above zero.
\<close>

fun underflows :: "nat \<Rightarrow> tp_type list \<Rightarrow> bool" where
  "underflows h [] \<longleftrightarrow> False"
| "underflows h (ty # tys) \<longleftrightarrow>
     (case ty of
        LPar \<Rightarrow> underflows (Suc h) tys
      | RPar \<Rightarrow> h = 0 \<or> underflows (h - 1) tys
      | Comma \<Rightarrow> h = 0 \<or> underflows h tys
      | Eos \<Rightarrow> False
      | Invalid \<Rightarrow> False
      | _ \<Rightarrow> underflows h tys)"

text \<open>A name of \<open>n\<close> characters has at most \<open>n\<close> tokens before \<open>Eos\<close>.\<close>

definition stack_underflow :: "string \<Rightarrow> bool" where
  "stack_underflow name \<longleftrightarrow> underflows 1 (token_types (Suc (length name)) name)"

lemma parse_loop_underflow:
  "fst (parse_loop st) \<noteq> Bad_lexical_cast \<Longrightarrow> length (cur st) < n \<Longrightarrow>
    fst (parse_loop st) = Undefined \<longleftrightarrow>
    underflows (length (open_elements st)) (token_types n (cur st))"
proof (induction st arbitrary: n rule: parse_loop.induct)
  case (1 st)
  obtain ty v rest where tok: "nextToken (cur st) = ((ty, v), rest)" by (metis surj_pair)
  obtain m where n: "n = Suc m" using 1(3) by (cases n) auto
  have shorter: "ty \<noteq> Eos \<Longrightarrow> ty \<noteq> Invalid \<Longrightarrow> length rest < m"
    using nextToken_shorter[OF tok] 1(3) n by simp
  note IH = 1(1)[OF tok[symmetric] refl]
  show ?case
  proof (cases "parse_token (ty, v) (st\<lparr>cur := rest\<rparr>)")
    case (Inl e)
    then show ?thesis using tok n 1(2)
      by (auto simp: parse_loop.simps[of st] parse_token_def
          split: tp_type.splits option.splits list.splits)
  next
    case (Inr st')
    then have "ty \<noteq> Eos" "ty \<noteq> Invalid" and cur: "cur st' = rest"
      by (auto simp: parse_token_def open_element_def split: tp_type.splits option.splits list.splits)
    then have "fst (parse_loop st') = Undefined \<longleftrightarrow>
        underflows (length (open_elements st')) (token_types m rest)"
      using IH[OF Inr, of m] shorter tok Inr 1(2) by (simp add: parse_loop.simps[of st])
    then show ?thesis using tok n Inr
      by (cases ty) (auto simp: parse_loop.simps[of st] parse_token_def open_element_def
          split: option.splits list.splits)
  qed
qed

text \<open>Unless a number in the type name exceeds the range of int, TypeParser::parse calls
  top() on the empty stack (undefined behaviour) exactly when some closing parenthesis or comma
  comes after more closing than opening parentheses, counting the one entry parse pushes itself.\<close>

theorem parse_undefined_iff:
  assumes "fst (parse name t) \<noteq> Bad_lexical_cast"
  shows "fst (parse name t) = Undefined \<longleftrightarrow> stack_underflow name"
  using parse_loop_underflow[of "\<lparr>cur = name, tree = t, type_ptr = [], open_elements = [[]]\<rparr>"
      "Suc (length name)"] assms
  by (simp add: parse_def stack_underflow_def)

lemmas parser_eval = parse_def parse_loop.simps parse_token_def open_element_def add_element_def
  set_name_def set_number_def getTypeMeta_def fresh_ast_def tp_blank_def cctype Let_def

theorem parse_undefined_iff_witness:
  "fst (parse ''A))'' fresh_ast) = Undefined \<and> fst (parse ''A)'' fresh_ast) = Returns True"
proof -
  have a: "fst (parse ''A)'' fresh_ast) = Returns True" by (simp add: parser_eval)
  have "stack_underflow ''A))''" by (simp add: stack_underflow_def tp_blank_def cctype)
  moreover have "fst (parse ''A))'' fresh_ast) \<noteq> Bad_lexical_cast" by (simp add: parser_eval)
  ultimately show ?thesis using parse_undefined_iff[of "''A))''" fresh_ast] a by simp
qed

section \<open>Printing and parsing\<close>

text \<open>The name of a type as the server writes it: a name, quoted unless it is a plain word, or a
  number, then its elements between parentheses, separated by a comma and a space.\<close>

definition plain_name :: "string \<Rightarrow> bool" where
  "plain_name n \<longleftrightarrow> (case n of [] \<Rightarrow> False | c # cs \<Rightarrow> isalpha c \<and> list_all tp_alnum cs)"

definition show_name :: "string \<Rightarrow> string" where
  "show_name n =
     (if plain_name n then n
      else if ch_quote \<notin> set n then ch_quote # n @ [ch_quote]
      else ch_dquote # n @ [ch_dquote])"

fun join :: "string list \<Rightarrow> string" where
  "join [] = ''''"
| "join [x] = x"
| "join (x # xs) = x @ '', '' @ join xs"

fun show_type :: "type_ast \<Rightarrow> string" where
  "show_type (TypeAst m n s es) =
     (if m = Number then show_nat s else show_name n)
     @ (if es = [] then '''' else ''('' @ join (map show_type es) @ '')'')"

text \<open>
  The trees that a type name denotes: the category is that of the name, a number has no name
  and fits \<open>int\<close>, and a name can be quoted one way or the other.
\<close>

fun proper :: "type_ast \<Rightarrow> bool" where
  "proper (TypeAst m n s es) \<longleftrightarrow>
     (if m = Number then n = '''' \<and> s < 2 ^ 31
      else m = getTypeMeta n \<and> s = 0
        \<and> (plain_name n \<or> ch_quote \<notin> set n \<or> ch_dquote \<notin> set n))
     \<and> list_all proper es"

definition delimited :: "string \<Rightarrow> bool" where
  "delimited rest \<longleftrightarrow> (case rest of [] \<Rightarrow> True | c # _ \<Rightarrow> c \<in> {CHR ''('', CHR '')'', CHR '',''})"

lemma delimited_stops: "delimited rest \<Longrightarrow> rest = [] \<or> \<not> tp_alnum (hd rest) \<and> \<not> isdigit (hd rest)"
  by (cases rest) (auto simp: delimited_def cctype)

lemma takeWhile_until [simp]: "c \<notin> set n \<Longrightarrow> takeWhile (\<lambda>x. x \<noteq> c) (n @ c # rest) = n"
  by (induction n) auto

lemma dropWhile_until [simp]: "c \<notin> set n \<Longrightarrow> dropWhile (\<lambda>x. x \<noteq> c) (n @ c # rest) = c # rest"
  by (induction n) auto

lemma nextToken_name:
  assumes "plain_name n \<or> ch_quote \<notin> set n \<or> ch_dquote \<notin> set n" "delimited rest"
  shows "nextToken (show_name n @ rest) = ((Name, n), rest)"
proof (cases "plain_name n")
  case True
  then obtain c cs where n: "n = c # cs" "isalpha c" "list_all tp_alnum cs"
    by (auto simp: plain_name_def split: list.splits)
  then have "\<not> tp_blank c" "c \<noteq> CHR ''(''" "c \<noteq> CHR '')''" "c \<noteq> CHR '',''" "c \<noteq> ch_quote" "c \<noteq> ch_dquote"
    by (auto simp: tp_blank_def cctype)
  moreover have "takeWhile tp_alnum (cs @ rest) = cs" "dropWhile tp_alnum (cs @ rest) = rest"
    using n(3) delimited_stops[OF assms(2)] by (simp_all add: takeWhile_run dropWhile_run disj_imp)
  ultimately show ?thesis using True n by (simp add: show_name_def)
qed (use assms in \<open>auto simp: show_name_def tp_blank_def\<close>)

lemma nextToken_number:
  assumes "delimited rest"
  shows "nextToken (show_nat v @ rest) = ((Num, show_nat v), rest)"
proof -
  obtain c cs where s: "show_nat v = c # cs" by (cases "show_nat v") auto
  then have c: "isdigit c" "list_all isdigit cs" using show_nat_digits[of v] by simp_all
  then have "\<not> tp_blank c" "c \<noteq> CHR ''(''" "c \<noteq> CHR '')''" "c \<noteq> CHR '',''" "c \<noteq> ch_quote"
      "c \<noteq> ch_dquote" "\<not> isalpha c"
    by (auto simp: tp_blank_def cctype)
  moreover have "takeWhile isdigit (cs @ rest) = cs" "dropWhile isdigit (cs @ rest) = rest"
    using c(2) delimited_stops[OF assms] by (simp_all add: takeWhile_run dropWhile_run disj_imp)
  ultimately show ?thesis using s c by simp
qed

text \<open>\<open>parse_loop\<close> reads the text of a proper tree into the fresh node it points to.\<close>

abbreviation at_state :: "string \<Rightarrow> type_ast \<Rightarrow> nat list \<Rightarrow> nat list list \<Rightarrow> type_parser" where
  "at_state s t p ps \<equiv> \<lparr>cur = s, tree = t, type_ptr = p, open_elements = ps\<rparr>"

lemma parse_loop_step:
  assumes "nextToken s = (tok, rest)"
    and "parse_token tok (at_state rest t p ps) = Inr st'"
  shows "parse_loop (at_state s t p ps) = parse_loop st'"
  using assms by (simp add: parse_loop.simps[of "at_state s t p ps"])

definition with_elements :: "type_ast list \<Rightarrow> type_ast \<Rightarrow> type_ast" where
  "with_elements es t = TypeAst (ast_meta t) (ast_name t) (ast_size t) es"

lemma elements_with [simp]: "elements (with_elements es t) = es"
  by (simp add: with_elements_def)

lemma with_elements_with [simp]: "with_elements fs (with_elements es t) = with_elements fs t"
  by (simp add: with_elements_def)

lemma add_element_with: "add_element t = with_elements (elements t @ [fresh_ast]) t"
  by (simp add: add_element_def with_elements_def)

lemma update_at_snoc:
  "valid_path t p \<Longrightarrow> elements (node_at t p) = es @ [x] \<Longrightarrow>
    update_at (\<lambda>_. y) (p @ [length es]) t = update_at (with_elements (es @ [y])) p t"
  unfolding update_at_append by (rule update_at_cong) (simp add: with_elements_def)

lemma nextToken_space [simp]: "nextToken (CHR '' '' # s) = nextToken s"
  by (simp add: tp_blank_def)

lemma nextToken_punct [simp]:
  "nextToken (CHR ''('' # s) = ((LPar, ''(''), s)"
  "nextToken (CHR '')'' # s) = ((RPar, '')''), s)"
  "nextToken (CHR '','' # s) = ((Comma, '',''), s)"
  by (simp_all add: tp_blank_def)

lemma parse_loop_space:
  "parse_loop (at_state (CHR '' '' # s) t p ps) = parse_loop (at_state s t p ps)"
  by (simp add: parse_loop.simps[of "at_state (CHR '' '' # s) t p ps"]
      parse_loop.simps[of "at_state s t p ps"] del: nextToken.simps
      split: prod.splits sum.splits)

definition blank_node :: "type_ast \<Rightarrow> bool" where
  "blank_node t \<longleftrightarrow> ast_name t = '''' \<and> ast_size t = 0 \<and> elements t = []"

lemma blank_fresh [simp]: "blank_node fresh_ast"
  by (simp add: blank_node_def fresh_ast_def)

lemma valid_path_updated [simp]: "valid_path t p \<Longrightarrow> valid_path (update_at f p t) p"
  by (induction f p t rule: update_at.induct) simp_all

definition reads_back :: "type_ast \<Rightarrow> bool" where
  "reads_back t \<longleftrightarrow>
     (\<forall>rest R p ps. delimited rest \<longrightarrow> valid_path R p \<longrightarrow> blank_node (node_at R p) \<longrightarrow>
        parse_loop (at_state (show_type t @ rest) R p ps)
        = parse_loop (at_state rest (update_at (\<lambda>_. t) p R) p ps))"

lemma reads_backD:
  "reads_back t \<Longrightarrow> delimited rest \<Longrightarrow> valid_path R p \<Longrightarrow> blank_node (node_at R p) \<Longrightarrow>
    parse_loop (at_state (show_type t @ rest) R p ps)
    = parse_loop (at_state rest (update_at (\<lambda>_. t) p R) p ps)"
  by (simp add: reads_back_def)

lemma delimited_punct [simp]:
  "delimited (CHR '')'' # s)" "delimited (CHR '','' # s)" "delimited (CHR ''('' # s)" "delimited []"
  by (simp_all add: delimited_def)

lemma read_elements:
  assumes "list_all reads_back es" "es \<noteq> []" "valid_path R p"
    "elements (node_at R p) = pre @ [fresh_ast]"
  shows "parse_loop (at_state (join (map show_type es) @ CHR '')'' # rest) R (p @ [length pre]) (p # ps))
      = parse_loop (at_state rest (update_at (with_elements (pre @ es)) p R) p ps)"
  using assms
proof (induction es arbitrary: pre R rule: induct_list012)
  case (2 e)
  then show ?case
    by (simp add: reads_backD update_at_snoc parse_loop_step[OF nextToken_punct(2)] parse_token_def)
next
  case (3 e e' es)
  let ?R = "update_at (with_elements (pre @ [e])) p R"
  let ?R' = "update_at (with_elements ((pre @ [e]) @ [fresh_ast])) p R"
  let ?s = "join (map show_type (e' # es)) @ CHR '')'' # rest"
  have "parse_loop (at_state (join (map show_type (e # e' # es)) @ CHR '')'' # rest) R (p @ [length pre]) (p # ps))
      = parse_loop (at_state ('', '' @ ?s) ?R (p @ [length pre]) (p # ps))"
    using 3 by (simp add: reads_backD update_at_snoc)
  also have "\<dots> = parse_loop (at_state ?s ?R' (p @ [length (pre @ [e])]) (p # ps))"
    using "3.prems"(3,4) by (simp add: parse_loop_step[OF nextToken_punct(3)] parse_token_def
        open_element_def add_element_with parse_loop_space)
  also have "\<dots> = parse_loop (at_state rest (update_at (with_elements ((pre @ [e]) @ e' # es)) p ?R') p ps)"
    using 3 by (intro "3.IH"(2)) simp_all
  finally show ?case using "3.prems"(3,4) by simp
qed simp

lemma proper_reads_back: "proper t \<Longrightarrow> reads_back t"
proof (induction t rule: show_type.induct)
  case (1 m n s es)
  let ?t0 = "TypeAst m n s []"
  have es: "list_all reads_back es" using 1 by (cases "es = []") (auto simp: list_all_iff)
  show ?case unfolding reads_back_def
  proof (intro allI impI)
    fix rest R p ps assume d: "delimited rest" and v: "valid_path R p" and b: "blank_node (node_at R p)"
    let ?rest = "(if es = [] then '''' else ''('' @ join (map show_type es) @ '')'') @ rest"
    have head: "parse_loop (at_state (show_type (TypeAst m n s es) @ rest) R p ps)
        = parse_loop (at_state ?rest (update_at (\<lambda>_. ?t0) p R) p ps)"
    proof (cases "m = Number")
      case True
      have "parse_token (Num, show_nat s) (at_state ?rest R p ps)
          = Inr (at_state ?rest (update_at (set_number s) p R) p ps)"
        using 1 True by (simp add: parse_token_def fromString_int_def)
      moreover have "update_at (set_number s) p R = update_at (\<lambda>_. ?t0) p R"
        using 1 True b by (intro update_at_cong) (simp add: set_number_def blank_node_def)
      ultimately show ?thesis
        using True d parse_loop_step[OF nextToken_number[of ?rest s]] by simp
    next
      case False
      have "parse_token (Name, n) (at_state ?rest R p ps)
          = Inr (at_state ?rest (update_at (set_name n) p R) p ps)"
        by (simp add: parse_token_def)
      moreover have "update_at (set_name n) p R = update_at (\<lambda>_. ?t0) p R"
        using 1 False b by (intro update_at_cong) (simp add: set_name_def blank_node_def)
      ultimately show ?thesis
        using False d 1 parse_loop_step[OF nextToken_name[of n ?rest]] by simp
    qed
    show "parse_loop (at_state (show_type (TypeAst m n s es) @ rest) R p ps)
        = parse_loop (at_state rest (update_at (\<lambda>_. TypeAst m n s es) p R) p ps)"
    proof (cases "es = []")
      case False
      let ?R0 = "update_at (\<lambda>_. ?t0) p R"
      let ?R1 = "update_at (\<lambda>_. TypeAst m n s [fresh_ast]) p R"
      have "parse_loop (at_state ?rest ?R0 p ps)
          = parse_loop (at_state (join (map show_type es) @ CHR '')'' # rest) ?R1 (p @ [0]) (p # ps))"
        using False v by (simp add: parse_loop_step[OF nextToken_punct(1)] parse_token_def
            open_element_def add_element_def)
      also have "\<dots> = parse_loop (at_state rest (update_at (with_elements es) p ?R1) p ps)"
        using read_elements[of es ?R1 p "[]"] es False v by simp
      finally show ?thesis using head v by (simp add: with_elements_def)
    qed (use head in simp)
  qed
qed

text \<open>C36: TypeParser::parse inverts the printing of type names: for every tree whose names can be
  quoted and whose sizes fit int, parse on the text the tree prints to returns true and leaves exactly
  that tree, whatever category the tree passed in has.\<close>

theorem parse_show_type:
  assumes "proper t" "blank_node t0"
  shows "parse (show_type t) t0 = (Returns True, t)"
proof -
  have "parse (show_type t) t0 = parse_loop (at_state [] t [] [[]])"
    using reads_backD[OF proper_reads_back[OF assms(1)], of "[]" t0 "[]" "[[]]"] assms(2)
    by (simp add: parse_def)
  then show ?thesis by (simp add: parse_loop.simps[of "at_state [] t [] [[]]"] parse_token_def)
qed

theorem parse_show_type_witness:
  "parse ''Nullable(DateTime64(3, 'Europe/Rome'))'' fresh_ast =
     (Returns True, TypeAst Nullable ''Nullable'' 0
       [TypeAst Terminal ''DateTime64'' 0
         [TypeAst Number '''' 3 [], TypeAst Terminal ''Europe/Rome'' 0 []]])"
proof -
  let ?t = "TypeAst Nullable ''Nullable'' 0 [TypeAst Terminal ''DateTime64'' 0
      [TypeAst Number '''' 3 [], TypeAst Terminal ''Europe/Rome'' 0 []]]"
  have "proper ?t" by (simp add: getTypeMeta_def plain_name_def cctype)
  moreover have "show_type ?t = ''Nullable(DateTime64(3, 'Europe/Rome'))''"
    by (simp add: show_name_def plain_name_def cctype show_nat.simps[of 3] digit_char_def)
      (simp add: char_of_def bit_Suc_0_iff)
  ultimately show ?thesis using parse_show_type[OF _ blank_fresh, of ?t] by (simp only:)
qed

end
