(* ===== verification/Column_Info.thy ===== *)
theory Column_Info
  imports Sql_Types Type_Parser
begin

text \<open>
  What a result set knows of a column: \<open>ColumnInfo\<close> of driver/result_set.cpp, filled from the
  type name the server sends by way of the type parser and the catalog.
\<close>

record ColumnInfo =
  col_name :: string
  col_type :: string
  type_without_parameters :: string
  type_without_parameters_id :: DataSourceTypeId
  display_size :: int
  display_size_so_far :: nat
  fixed_size :: nat
  col_precision :: nat
  col_scale :: nat
  col_is_nullable :: bool
  timezone :: string

definition fresh_ColumnInfo :: ColumnInfo where
  "fresh_ColumnInfo =
     \<lparr>col_name = '''', col_type = '''', type_without_parameters = '''',
      type_without_parameters_id = Unknown, display_size = SQL_NO_TOTAL, display_size_so_far = 0,
      fixed_size = 0, col_precision = 0, col_scale = 0, col_is_nullable = False, timezone = ''''\<rparr>"

text \<open>The branch of \<open>assignTypeInfo\<close> for a terminal type, by the id of its name.\<close>

definition syntax_error :: "string \<Rightarrow> ColumnInfo result" where
  "syntax_error nm = Inl (Runtime_Error (''Unexpected '' @ nm @ '' type specification syntax''))"

definition assign_terminal :: "string \<Rightarrow> type_ast list \<Rightarrow> ColumnInfo \<Rightarrow> ColumnInfo result" where
  "assign_terminal default_timezone es col =
     (case convertUnparametrizedTypeNameToTypeId (type_without_parameters col) of
        DateTime \<Rightarrow>
          if length es \<noteq> 0 \<and> length es \<noteq> 1 then syntax_error ''DateTime''
          else Inr (col\<lparr>col_precision := 0,
                 timezone := (if length es = 1 then ast_name (hd es) else default_timezone)\<rparr>)
      | DateTime64 \<Rightarrow>
          if length es \<noteq> 1 \<and> length es \<noteq> 2 then syntax_error ''DateTime64''
          else if 9 < ast_size (hd es) then syntax_error ''DateTime64''
          else Inr (col\<lparr>col_precision := ast_size (hd es),
                 timezone := (if length es = 2 then ast_name (last es) else default_timezone)\<rparr>)
      | Decimal \<Rightarrow>
          if length es \<noteq> 2 then syntax_error ''Decimal''
          else Inr (col\<lparr>col_precision := ast_size (hd es), col_scale := ast_size (last es)\<rparr>)
      | Decimal32 \<Rightarrow>
          if length es \<noteq> 1 then syntax_error ''Decimal32''
          else Inr (col\<lparr>col_precision := 9, col_scale := ast_size (hd es)\<rparr>)
      | Decimal64 \<Rightarrow>
          if length es \<noteq> 1 then syntax_error ''Decimal64''
          else Inr (col\<lparr>col_precision := 18, col_scale := ast_size (hd es)\<rparr>)
      | Decimal128 \<Rightarrow>
          if length es \<noteq> 1 then syntax_error ''Decimal128''
          else Inr (col\<lparr>col_precision := 38, col_scale := ast_size (hd es)\<rparr>)
      | _ \<Rightarrow> Inr (if length es = 1 then col\<lparr>fixed_size := ast_size (hd es)\<rparr> else col))"

text \<open>\<open>ast.elements.front()\<close> of a \<open>Nullable\<close> without elements has no meaning.\<close>

fun assignTypeInfo :: "string \<Rightarrow> type_ast \<Rightarrow> ColumnInfo \<Rightarrow> ColumnInfo result" where
  "assignTypeInfo default_timezone (TypeAst m n s es) col =
     (if m = Terminal then assign_terminal default_timezone es (col\<lparr>type_without_parameters := n\<rparr>)
      else if m = Nullable then
        (case es of
           [] \<Rightarrow> Inl (Undefined_Behaviour ''front() of an empty list'')
         | e # _ \<Rightarrow> assignTypeInfo default_timezone e (col\<lparr>col_is_nullable := True\<rparr>))
      else Inr (col\<lparr>type_without_parameters := ''String''\<rparr>))"

definition updateTypeInfo :: "ColumnInfo \<Rightarrow> ColumnInfo result" where
  "updateTypeInfo col0 =
     (let tid = convertUnparametrizedTypeNameToTypeId (type_without_parameters col0);
          col = col0\<lparr>type_without_parameters_id := tid\<rparr> in
      if tid = FixedString then Inr (col\<lparr>display_size := int (fixed_size col)\<rparr>)
      else if tid = String then Inr (col\<lparr>display_size := SQL_NO_TOTAL\<rparr>)
      else
        bind_result (convertTypeIdToUnparametrizedCanonicalTypeName tid) (\<lambda>tmp.
        let tmp_type_name = (if tid = Decimal32 \<or> tid = Decimal64 \<or> tid = Decimal128
              then ''Decimal'' else tmp) in
        bind_result (typeInfoFor tmp_type_name) (\<lambda>ti.
        Inr (col\<lparr>display_size := column_size ti\<rparr>))))"

text \<open>
  \<open>parseColumnType\<close> of api/sql_columns_resultset_mutator.cpp; \<open>tz\<close> is
  \<open>Poco::Timezone::name()\<close>. A number out of range and an empty stack leave it by an exception.
\<close>

definition parseColumnType :: "string \<Rightarrow> string \<Rightarrow> ColumnInfo result" where
  "parseColumnType tz nm =
     (case parse nm fresh_ast of
        (Returns True, ast) \<Rightarrow>
          bind_result (assignTypeInfo tz ast fresh_ColumnInfo) (\<lambda>ret.
          Inr (if convertUnparametrizedTypeNameToTypeId (type_without_parameters ret) = Unknown
               then ret\<lparr>type_without_parameters := ''String''\<rparr> else ret))
      | (Returns False, _) \<Rightarrow> Inr (fresh_ColumnInfo\<lparr>type_without_parameters := ''String''\<rparr>)
      | (Bad_lexical_cast, _) \<Rightarrow> Inl (Runtime_Error ''bad lexical cast'')
      | (Undefined, _) \<Rightarrow> Inl (Undefined_Behaviour ''top() of an empty stack''))"

section \<open>The catalog\<close>

lemmas catalog_simps = Types_table catalog_table_def default_sql_data_type_def type_info_def

lemma length_Types [simp]: "length Types = 25"
  by (simp add: Types_table catalog_table_def)

lemma type_id_nth_Types: "tid \<noteq> Unknown \<Longrightarrow> type_id (Types ! DataSourceTypeIdIndex tid) = tid"
  by (cases tid) (simp_all add: catalog_simps)

lemma distinct_type_names: "distinct (map type_name Types)"
  by (simp add: catalog_simps)

lemma find_by_name:
  "distinct (map f xs) \<Longrightarrow> x \<in> set xs \<Longrightarrow> find (\<lambda>y. f y = f x) xs = Some x"
  by (induction xs) auto

lemma typeInfoIfExistsFor_nth:
  "tid \<noteq> Unknown \<Longrightarrow> typeInfoIfExistsFor (type_name (Types ! DataSourceTypeIdIndex tid))
    = Some (Types ! DataSourceTypeIdIndex tid)"
  unfolding typeInfoIfExistsFor_def
  by (rule find_by_name[OF distinct_type_names]) (cases tid; simp)

lemma typeInfoIfExistsFor_Some:
  "typeInfoIfExistsFor nm = Some ti \<Longrightarrow> type_name ti = nm \<and> ti \<in> set Types"
  by (auto simp: typeInfoIfExistsFor_def find_Some_iff)

lemma Types_id:
  assumes "ti \<in> set Types"
  shows "type_id ti \<noteq> Unknown" "Types ! DataSourceTypeIdIndex (type_id ti) = ti"
  using assms by (auto simp: catalog_simps)

text \<open>Type names and type ids of the catalog are in bijection: a name is converted to an id
  other than Unknown exactly when converting that id back gives the name.\<close>

theorem type_name_id_bijection:
  "convertUnparametrizedTypeNameToTypeId nm = tid \<and> tid \<noteq> Unknown \<longleftrightarrow>
   convertTypeIdToUnparametrizedCanonicalTypeName tid = Inr nm"
proof
  assume a: "convertUnparametrizedTypeNameToTypeId nm = tid \<and> tid \<noteq> Unknown"
  then obtain ti where ti: "typeInfoIfExistsFor nm = Some ti" "tid = type_id ti"
    by (auto simp: convertUnparametrizedTypeNameToTypeId_def split: option.splits)
  then have "Types ! DataSourceTypeIdIndex tid = ti" "type_name ti = nm"
    using Types_id(2)[of ti] typeInfoIfExistsFor_Some[of nm ti] by auto
  then show "convertTypeIdToUnparametrizedCanonicalTypeName tid = Inr nm"
    using a by (cases tid) (simp_all add: convertTypeIdToUnparametrizedCanonicalTypeName_def)
next
  assume a: "convertTypeIdToUnparametrizedCanonicalTypeName tid = Inr nm"
  then have "tid \<noteq> Unknown" "nm = type_name (Types ! DataSourceTypeIdIndex tid)"
    by (auto simp: convertTypeIdToUnparametrizedCanonicalTypeName_def Let_def split: if_splits)
  then show "convertUnparametrizedTypeNameToTypeId nm = tid \<and> tid \<noteq> Unknown"
    by (simp add: convertUnparametrizedTypeNameToTypeId_def typeInfoIfExistsFor_nth type_id_nth_Types)
qed

end
