(* ===== verification/Type_Names.thy ===== *)
theory Type_Names
  imports Column_Info
begin

text \<open>
  The type names the driver writes into a query (Sql_Types) against the reading of type names
  of result columns (Type_Parser, Column_Info): every name it writes, its own parser reads as
  the type it stands for. Also the laws of verbose types and interval codes.
\<close>

section \<open>Verbose types and codes\<close>

text \<open>A verbose type and a code denote the concise type t exactly when t is a concise date-time
  or interval type of that verbose type and that code: the three conversions of type_info.cpp are one
  bijection, and every other pair gives SQL_UNKNOWN_TYPE.\<close>

theorem concise_type_bijection:
  assumes "t \<noteq> SQL_UNKNOWN_TYPE"
  shows "convertDateTimeIntervalCodeToSQLType code v = t \<longleftrightarrow>
    isConciseDateTimeIntervalType t \<and> tryConvertSQLTypeToVerboseType t = v
      \<and> convertSQLTypeToDateTimeIntervalCode t = code"
proof
  assume "convertDateTimeIntervalCodeToSQLType code v = t"
  then show "isConciseDateTimeIntervalType t \<and> tryConvertSQLTypeToVerboseType t = v
      \<and> convertSQLTypeToDateTimeIntervalCode t = code"
    using assms unfolding convertDateTimeIntervalCodeToSQLType_def
    by (simp split: if_splits; simp add: sql_type_defs)
next
  assume a: "isConciseDateTimeIntervalType t \<and> tryConvertSQLTypeToVerboseType t = v
      \<and> convertSQLTypeToDateTimeIntervalCode t = code"
  then have "t \<in> {91, 92, 93} \<union> {101..113}"
    by (auto simp: sql_type_defs split: if_splits)
  then show "convertDateTimeIntervalCodeToSQLType code v = t"
    using a by (auto simp: sql_type_defs split: if_splits)
qed

theorem concise_type_bijection_witness:
  "convertDateTimeIntervalCodeToSQLType SQL_CODE_DAY_TO_SECOND SQL_INTERVAL = SQL_INTERVAL_DAY_TO_SECOND"
  using concise_type_bijection[of SQL_INTERVAL_DAY_TO_SECOND SQL_CODE_DAY_TO_SECOND SQL_INTERVAL]
  by (simp add: sql_type_defs)

section \<open>Columns described by a type name\<close>



definition named_tree :: "string \<Rightarrow> type_ast list \<Rightarrow> type_ast" where
  "named_tree n es = TypeAst (getTypeMeta n) n 0 es"

definition number_tree :: "int \<Rightarrow> type_ast" where
  "number_tree v = TypeAst Number '''' (nat v) []"

lemma getTypeMeta_not_Number [simp]: "getTypeMeta n \<noteq> Number"
  by (simp add: getTypeMeta_def)

lemma named_tree_simps [simp]:
  "plain_name n \<Longrightarrow> proper (named_tree n es) \<longleftrightarrow> list_all proper es"
  "plain_name n \<Longrightarrow> show_type (named_tree n es) =
     n @ (if es = [] then '''' else ''('' @ join (map show_type es) @ '')'')"
  by (simp_all add: named_tree_def show_name_def)

lemma number_tree_simps [simp]:
  "v < 2 ^ 31 \<Longrightarrow> proper (number_tree v)"
  "0 \<le> v \<Longrightarrow> show_type (number_tree v) = show_int v"
  "ast_size (number_tree v) = nat v"
  by (auto simp: number_tree_def show_int_def)

lemma plain_names [simp]:
  "plain_name ''Nothing''" "plain_name ''String''" "plain_name ''FixedString''"
  "plain_name ''Int8''" "plain_name ''UInt8''" "plain_name ''Int16''" "plain_name ''UInt16''"
  "plain_name ''Int32''" "plain_name ''UInt32''" "plain_name ''Int64''" "plain_name ''UInt64''"
  "plain_name ''Float32''" "plain_name ''Float64''" "plain_name ''Decimal''" "plain_name ''UUID''"
  "plain_name ''Date32''" "plain_name ''DateTime''" "plain_name ''DateTime64''"
  "plain_name ''Nullable''" "plain_name ''LowCardinality''"
  by (simp_all add: plain_name_def cctype)

lemma name_ids [simp]:
  "convertUnparametrizedTypeNameToTypeId ''Nothing'' = Nothing"
  "convertUnparametrizedTypeNameToTypeId ''String'' = String"
  "convertUnparametrizedTypeNameToTypeId ''FixedString'' = FixedString"
  "convertUnparametrizedTypeNameToTypeId ''Int8'' = Int8"
  "convertUnparametrizedTypeNameToTypeId ''UInt8'' = UInt8"
  "convertUnparametrizedTypeNameToTypeId ''Int16'' = Int16"
  "convertUnparametrizedTypeNameToTypeId ''UInt16'' = UInt16"
  "convertUnparametrizedTypeNameToTypeId ''Int32'' = Int32"
  "convertUnparametrizedTypeNameToTypeId ''UInt32'' = UInt32"
  "convertUnparametrizedTypeNameToTypeId ''Int64'' = Int64"
  "convertUnparametrizedTypeNameToTypeId ''UInt64'' = UInt64"
  "convertUnparametrizedTypeNameToTypeId ''Float32'' = Float32"
  "convertUnparametrizedTypeNameToTypeId ''Float64'' = Float64"
  "convertUnparametrizedTypeNameToTypeId ''Decimal'' = Decimal"
  "convertUnparametrizedTypeNameToTypeId ''UUID'' = UUID"
  "convertUnparametrizedTypeNameToTypeId ''Date32'' = Date32"
  "convertUnparametrizedTypeNameToTypeId ''DateTime'' = DateTime"
  "convertUnparametrizedTypeNameToTypeId ''DateTime64'' = DateTime64"
  by (simp_all add: convertUnparametrizedTypeNameToTypeId_def typeInfoIfExistsFor_def catalog_simps)













text \<open>
  What a type holds, as the ODBC and the ClickHouse documentation have it: integers of a range, floating-point numbers
  of a number of bits, decimals of a precision and scale, texts (or bytes of any length), bytes of one length, dates,
  timestamps with a number of digits of the fraction, identifiers, or nothing. Times and intervals have no type of their
  own in ClickHouse and are texts.
\<close>

datatype value_kind =
    Integers int int | Floats nat | Decimals int int | Texts | Octets int | Dates | Timestamps nat | Guids | Nulls





text \<open>The values of a column, by the id of its type in the catalog of the driver.\<close>

definition source_kind :: "ColumnInfo \<Rightarrow> value_kind option" where
  "source_kind col =
    (case convertUnparametrizedTypeNameToTypeId (type_without_parameters col) of
       Nothing \<Rightarrow> Some Nulls
     | Int8 \<Rightarrow> Some (Integers (- 128) 127) | UInt8 \<Rightarrow> Some (Integers 0 255)
     | Int16 \<Rightarrow> Some (Integers (- 32768) 32767) | UInt16 \<Rightarrow> Some (Integers 0 65535)
     | Int32 \<Rightarrow> Some (Integers (- 2147483648) 2147483647) | UInt32 \<Rightarrow> Some (Integers 0 4294967295)
     | Int64 \<Rightarrow> Some (Integers (- 9223372036854775808) 9223372036854775807) | UInt64 \<Rightarrow> Some (Integers 0 18446744073709551615)
     | Float32 \<Rightarrow> Some (Floats 24) | Float64 \<Rightarrow> Some (Floats 53)
     | Decimal \<Rightarrow> Some (Decimals (int (col_precision col)) (int (col_scale col)))
     | String \<Rightarrow> Some Texts | FixedString \<Rightarrow> Some (Octets (int (fixed_size col)))
     | Date32 \<Rightarrow> Some Dates | DateTime \<Rightarrow> Some (Timestamps 0) | DateTime64 \<Rightarrow> Some (Timestamps (col_precision col))
     | UUID \<Rightarrow> Some Guids
     | _ \<Rightarrow> None)"










definition simple_kind :: "string \<Rightarrow> value_kind option" where
  "simple_kind n = source_kind (fresh_ColumnInfo\<lparr>type_without_parameters := n\<rparr>)"

lemma simple_kinds [simp]:
  "simple_kind ''Nothing'' = Some Nulls" "simple_kind ''String'' = Some Texts" "simple_kind ''Int8'' = Some (Integers (- 128) 127)"
  "simple_kind ''UInt8'' = Some (Integers 0 255)" "simple_kind ''Int16'' = Some (Integers (- 32768) 32767)"
  "simple_kind ''UInt16'' = Some (Integers 0 65535)" "simple_kind ''Int32'' = Some (Integers (- 2147483648) 2147483647)"
  "simple_kind ''UInt32'' = Some (Integers 0 4294967295)"
  "simple_kind ''Int64'' = Some (Integers (- 9223372036854775808) 9223372036854775807)"
  "simple_kind ''UInt64'' = Some (Integers 0 18446744073709551615)" "simple_kind ''Float32'' = Some (Floats 24)"
  "simple_kind ''Float64'' = Some (Floats 53)" "simple_kind ''UUID'' = Some Guids" "simple_kind ''Date32'' = Some Dates"
  by (simp_all add: simple_kind_def source_kind_def)

lemma source_kind_simple [simp]: "source_kind (c\<lparr>col_is_nullable := b, type_without_parameters := n\<rparr>) = source_kind (c\<lparr>type_without_parameters := n\<rparr>)"
  by (cases "convertUnparametrizedTypeNameToTypeId n") (simp_all add: source_kind_def)






















text \<open>A parameter whose SQL type was never set is sent as Nothing, whatever its C type:
  SQL_UNKNOWN_TYPE is the value of SQL_TYPE_NULL, so the fallback to the C type in
  convertSQLOrCTypeToDataSourceType is never taken for it.\<close>

theorem unset_sql_type_is_nothing:
  "convertSQLOrCTypeToDataSourceType (default_BoundTypeInfo\<lparr>c_type := ct\<rparr>) = Inr ''Nothing''"
  by (simp add: convertSQLOrCTypeToDataSourceType_def convertSQLTypeToDataSourceType_def
      sql_type_name_def default_BoundTypeInfo_def set_nullability_def)

text \<open>updateTypeInfo fails for no column that assignTypeInfo filled from a known type: it throws
  exactly when the name is not in the catalog.\<close>

theorem updateTypeInfo_throws_iff:
  "(\<exists>e. updateTypeInfo col = Inl e) \<longleftrightarrow>
   convertUnparametrizedTypeNameToTypeId (type_without_parameters col) = Unknown"
proof (cases "convertUnparametrizedTypeNameToTypeId (type_without_parameters col) = Unknown")
  case True
  then show ?thesis
    by (simp add: updateTypeInfo_def Let_def convertTypeIdToUnparametrizedCanonicalTypeName_def)
next
  case False
  let ?tid = "convertUnparametrizedTypeNameToTypeId (type_without_parameters col)"
  have "DataSourceTypeIdIndex ?tid < 25" using False by (cases ?tid) simp_all
  then have "convertTypeIdToUnparametrizedCanonicalTypeName ?tid
      = Inr (type_name (Types ! DataSourceTypeIdIndex ?tid))"
    by (simp add: convertTypeIdToUnparametrizedCanonicalTypeName_def Let_def)
  moreover have "typeInfoIfExistsFor ''Decimal'' \<noteq> None"
    by (simp add: typeInfoIfExistsFor_def catalog_simps)
  ultimately show ?thesis
    using False typeInfoIfExistsFor_nth[of ?tid]
    by (auto simp: updateTypeInfo_def Let_def typeInfoFor_def)
qed

end
