(* ===== verification/Attributes.thy ===== *)
theory Attributes
  imports Exceptions
begin

text \<open>
  \<open>AttributeContainer\<close> of driver/attributes.h and attributes.cpp: a map from integer keys to
  an integer (\<open>intptr_t\<close>, of 64 bits) or a string. An operation that calls the virtual
  \<open>onAttrChange\<close> takes it as an argument; it may throw and leaves the map as it is by then,
  so an operation returns its result or exception together with the map.
\<close>

section \<open>Integer casts\<close>

definition as_int16 :: "int \<Rightarrow> int" where [casts]: "as_int16 x = signed_take_bit 15 x"
definition as_int32 :: "int \<Rightarrow> int" where [casts]: "as_int32 x = signed_take_bit 31 x"
definition as_int64 :: "int \<Rightarrow> int" where [casts]: "as_int64 x = signed_take_bit 63 x"
definition as_size :: "int \<Rightarrow> nat" where [casts]: "as_size x = nat (take_bit 64 x)"

lemma signed_take_bit_id:
  "- (2 ^ n) \<le> x \<Longrightarrow> x < 2 ^ n \<Longrightarrow> signed_take_bit n x = (x :: int)"
  by (simp add: signed_take_bit_int_eq_self)

lemma as_int16_id [simp]: "- 32768 \<le> x \<Longrightarrow> x < 32768 \<Longrightarrow> as_int16 x = x"
  by (simp add: as_int16_def signed_take_bit_id)

lemma as_int32_id [simp]: "- 2147483648 \<le> x \<Longrightarrow> x < 2147483648 \<Longrightarrow> as_int32 x = x"
  by (simp add: as_int32_def signed_take_bit_id)

lemma as_int64_id [simp]: "- 9223372036854775808 \<le> x \<Longrightarrow> x < 9223372036854775808 \<Longrightarrow> as_int64 x = x"
  by (simp add: as_int64_def signed_take_bit_id)

lemma as_size_id [simp]: "0 \<le> x \<Longrightarrow> x < 18446744073709551616 \<Longrightarrow> as_size x = nat x"
  by (simp add: as_size_def take_bit_int_eq_self)

section \<open>Attributes\<close>

datatype attr_value = Int_attr int | Str_attr string

type_synonym attrs = "int \<Rightarrow> attr_value option"

definition hasAttrInteger :: "int \<Rightarrow> attrs \<Rightarrow> bool" where
  "hasAttrInteger attr a \<longleftrightarrow> (case a attr of Some (Int_attr _) \<Rightarrow> True | _ \<Rightarrow> False)"

definition hasAttrString :: "int \<Rightarrow> attrs \<Rightarrow> bool" where
  "hasAttrString attr a \<longleftrightarrow> (case a attr of Some (Str_attr _) \<Rightarrow> True | _ \<Rightarrow> False)"

definition hasAttr :: "int \<Rightarrow> attrs \<Rightarrow> bool" where
  "hasAttr attr a \<longleftrightarrow> a attr \<noteq> None"

text \<open>\<open>fromString<std::intptr_t>\<close>: leading white space, a sign, digits up to the end.\<close>

definition fromString_intptr :: "string \<Rightarrow> int result" where
  "fromString_intptr s =
     (let t = dropWhile isspace s;
          neg = (case t of [] \<Rightarrow> False | c # _ \<Rightarrow> c = CHR ''-'');
          ds = (case t of [] \<Rightarrow> [] | c # cs \<Rightarrow> if c = CHR ''-'' \<or> c = CHR ''+'' then cs else t);
          v = (if neg then - int (digits_value ds) else int (digits_value ds)) in
      if ds \<noteq> [] \<and> list_all isdigit ds \<and> - (2 ^ 63) \<le> v \<and> v < 2 ^ 63 then Inr v
      else Inl (Runtime_Error ''bad lexical cast''))"

text \<open>\<open>getAttrAs<T>\<close> for an integral or pointer type; \<open>cast\<close> is the conversion to \<open>T\<close>.\<close>

definition getAttrAs :: "(int \<Rightarrow> 'a) \<Rightarrow> int \<Rightarrow> 'a \<Rightarrow> attrs \<Rightarrow> 'a result" where
  "getAttrAs cast attr def a =
     (case a attr of
        None \<Rightarrow> Inr def
      | Some (Str_attr s) \<Rightarrow> bind_result (fromString_intptr s) (\<lambda>v. Inr (cast v))
      | Some (Int_attr v) \<Rightarrow> Inr (cast v))"

definition getAttrAs_string :: "int \<Rightarrow> string \<Rightarrow> attrs \<Rightarrow> string" where
  "getAttrAs_string attr def a =
     (case a attr of None \<Rightarrow> def | Some (Str_attr s) \<Rightarrow> s | Some (Int_attr v) \<Rightarrow> show_int v)"

definition setAttrSilent :: "int \<Rightarrow> attr_value \<Rightarrow> attrs \<Rightarrow> attrs" where
  "setAttrSilent attr v a = a(attr \<mapsto> v)"

text \<open>The comparison of the old value with the new one; values of different kinds differ.\<close>

fun attr_changed :: "attr_value \<Rightarrow> attr_value \<Rightarrow> bool" where
  "attr_changed (Str_attr s) (Str_attr t) \<longleftrightarrow> s \<noteq> t"
| "attr_changed (Int_attr i) (Int_attr j) \<longleftrightarrow> i \<noteq> j"
| "attr_changed _ _ \<longleftrightarrow> True"

type_synonym 'a attr_op = "attrs \<Rightarrow> 'a result \<times> attrs"

definition setAttr :: "(int \<Rightarrow> unit attr_op) \<Rightarrow> int \<Rightarrow> attr_value \<Rightarrow> unit attr_op" where
  "setAttr onAttrChange attr v a =
     (case a attr of
        None \<Rightarrow> onAttrChange attr (a(attr \<mapsto> v))
      | Some old \<Rightarrow>
          if attr_changed old v then onAttrChange attr (a(attr \<mapsto> v)) else (Inr (), a))"

definition resetAttr :: "int \<Rightarrow> attrs \<Rightarrow> attrs" where
  "resetAttr attr a = a(attr := None)"

definition resetAttrs :: "attrs \<Rightarrow> attrs" where
  "resetAttrs a = Map.empty"

text \<open>\<open>AttributeContainer::onAttrChange\<close> itself, which does nothing.\<close>

definition base_onAttrChange :: "int \<Rightarrow> unit attr_op" where
  "base_onAttrChange attr a = (Inr (), a)"

lemma attr_changed_iff [simp]: "attr_changed old v \<longleftrightarrow> old \<noteq> v"
  by (cases "(old, v)" rule: attr_changed.cases) auto

lemma setAttr_alt:
  "setAttr f attr v a = (if a attr = Some v then (Inr (), a) else f attr (a(attr \<mapsto> v)))"
  by (auto simp: setAttr_def split: option.splits)

lemma setAttr_base [simp]: "setAttr base_onAttrChange attr v a = (Inr (), a(attr \<mapsto> v))"
  by (auto simp: setAttr_alt base_onAttrChange_def)

lemma getAttrAs_simps [simp]:
  "a attr = None \<Longrightarrow> getAttrAs cast attr def a = Inr def"
  "a attr = Some (Int_attr v) \<Longrightarrow> getAttrAs cast attr def a = Inr (cast v)"
  by (simp_all add: getAttrAs_def)

section \<open>Vectors of records\<close>

text \<open>\<open>for (i = from; i <= num && i < v.size(); ++i) f(v[i])\<close>\<close>

definition touch_range :: "('a \<Rightarrow> 'a) \<Rightarrow> nat \<Rightarrow> nat \<Rightarrow> 'a list \<Rightarrow> 'a list" where
  "touch_range f from num v =
     foldl (\<lambda>v i. v[i := f (v ! i)]) v (filter (\<lambda>i. i < length v) [from..<Suc num])"

text \<open>\<open>while (v.size() <= m) v.push_back(x)\<close>\<close>

function fill_to :: "'a \<Rightarrow> nat \<Rightarrow> 'a list \<Rightarrow> 'a list" where
  "fill_to x m v = (if length v \<le> m then fill_to x m (v @ [x]) else v)"
  by auto
termination by (relation "measure (\<lambda>(x, m, v). Suc m - length v)") auto

declare fill_to.simps [simp del]

lemma length_touch [simp]: "length (foldl (\<lambda>v i. v[i := f (v ! i)]) v is) = length v"
  by (induction "is" arbitrary: v) simp_all

lemma length_touch_range [simp]: "length (touch_range f i n v) = length v"
  by (simp add: touch_range_def)

lemma nth_touch:
  "distinct is \<Longrightarrow> j < length v \<Longrightarrow>
    foldl (\<lambda>v i. v[i := f (v ! i)]) v is ! j = (if j \<in> set is then f (v ! j) else v ! j)"
  by (induction "is" arbitrary: v) (auto simp: nth_list_update, metis nth_list_update_neq)

lemma nth_touch_range:
  "j < length v \<Longrightarrow> touch_range f i n v ! j = (if i \<le> j \<and> j \<le> n then f (v ! j) else v ! j)"
  by (auto simp: touch_range_def nth_touch simp del: upt_Suc)

lemma fill_to_eq: "fill_to x m v = v @ replicate (Suc m - length v) x"
proof (induction x m v rule: fill_to.induct)
  case (1 x m v)
  show ?case
  proof (cases "length v \<le> m")
    case True
    then have "Suc m - length v = Suc (Suc m - length (v @ [x]))" by simp
    then show ?thesis using 1 True by (simp add: fill_to.simps[of x m v])
  qed (simp add: fill_to.simps[of x m v])
qed

section \<open>Containers of counted records\<close>

text \<open>
  What DiagnosticsContainer and Descriptor both promise of their vector of records with the count
  kept in an attribute of the header: asking for record \<open>n\<close> makes the count at least \<open>n\<close>,
  fills the new records afresh and keeps those that were counted. Record 0 is the header.
\<close>

locale counted_records =
  fixes ok :: "'s \<Rightarrow> bool"
    and count :: "'s \<Rightarrow> nat"
    and rec :: "'s \<Rightarrow> nat \<Rightarrow> 'r"
    and getrec :: "nat \<Rightarrow> 's \<Rightarrow> 's"
    and fresh :: 'r
    and limit :: nat
  assumes getrec_ok: "ok s \<Longrightarrow> n < limit \<Longrightarrow> ok (getrec n s)"
    and count_getrec: "ok s \<Longrightarrow> n < limit \<Longrightarrow> count (getrec n s) = max (count s) n"
    and rec_old: "ok s \<Longrightarrow> n < limit \<Longrightarrow> 1 \<le> i \<Longrightarrow> i \<le> count s \<Longrightarrow> rec (getrec n s) i = rec s i"
    and rec_new: "ok s \<Longrightarrow> n < limit \<Longrightarrow> count s < i \<Longrightarrow> i \<le> n \<Longrightarrow> rec (getrec n s) i = fresh"
begin

definition contents :: "'s \<Rightarrow> 'r list" where
  "contents s = map (rec s) [1..<Suc (count s)]"

lemma length_contents [simp]: "length (contents s) = count s"
  by (simp add: contents_def)

lemma nth_contents: "i < count s \<Longrightarrow> contents s ! i = rec s (Suc i)"
  by (simp add: contents_def nth_upt del: upt_Suc)

lemma contents_getrec:
  assumes "ok s" "n < limit"
  shows "contents (getrec n s) = contents s @ replicate (n - count s) fresh"
proof (rule nth_equalityI)
  show "length (contents (getrec n s)) = length (contents s @ replicate (n - count s) fresh)"
    using assms by (simp add: count_getrec)
next
  fix i assume "i < length (contents (getrec n s))"
  then have i: "i < max (count s) n" using assms by (simp add: count_getrec)
  show "contents (getrec n s) ! i = (contents s @ replicate (n - count s) fresh) ! i"
  proof (cases "i < count s")
    case True
    then show ?thesis using assms i rec_old[OF assms, of "Suc i"]
      by (simp add: nth_append nth_contents count_getrec)
  next
    case False
    then show ?thesis using assms i rec_new[OF assms, of "Suc i"]
      by (auto simp: nth_append nth_contents count_getrec)
  qed
qed

lemma contents_getrec_old: "ok s \<Longrightarrow> n < limit \<Longrightarrow> n \<le> count s \<Longrightarrow> contents (getrec n s) = contents s"
  by (simp add: contents_getrec)

lemma contents_getrec_twice:
  "ok s \<Longrightarrow> n < limit \<Longrightarrow> m < limit \<Longrightarrow> m \<le> n \<Longrightarrow>
    contents (getrec m (getrec n s)) = contents (getrec n s)"
  by (simp add: contents_getrec_old getrec_ok count_getrec)

end

end
