(* ===== verification/Diagnostics.thy ===== *)
theory Diagnostics
  imports Attributes
begin

text \<open>
  \<open>DiagnosticsContainer\<close> of driver/diagnostics.cpp: the vector of records, record 0 the
  header. A member that returns a reference is the new vector, in which the caller reads or
  writes the record at the index it asked for. \<open>getAttrAs<SQLINTEGER>\<close> of the header never
  sees a string, since no operation stores one there; \<open>header_count\<close> is its value as a
  \<open>size_t\<close>.
\<close>

type_synonym diag = "attrs list"

definition header_count :: "diag \<Rightarrow> nat result" where
  "header_count records =
     bind_result (getAttrAs as_int32 SQL_DIAG_NUMBER 0 (records ! 0)) (\<lambda>n. Inr (as_size n))"

definition set_plain :: "int \<Rightarrow> attr_value \<Rightarrow> attrs \<Rightarrow> attrs" where
  "set_plain attr v a = snd (setAttr base_onAttrChange attr v a)"

definition init_header :: "diag \<Rightarrow> diag" where
  "init_header records =
     (if records = [] then
        [set_plain SQL_DIAG_RETURNCODE (Int_attr SQL_SUCCESS)
           (set_plain SQL_DIAG_NUMBER (Int_attr 0) Map.empty)]
      else records)"

definition reset_range :: "nat \<Rightarrow> nat \<Rightarrow> diag \<Rightarrow> diag" where
  "reset_range = touch_range resetAttrs"

definition grow_to :: "nat \<Rightarrow> diag \<Rightarrow> diag" where
  "grow_to = fill_to Map.empty"

definition getDiagStatus :: "nat \<Rightarrow> diag \<Rightarrow> diag result" where
  "getDiagStatus num records0 =
     (let records = init_header records0 in
      if num = 0 then Inr records
      else
        bind_result (header_count records) (\<lambda>curr_rec_count.
        let rs = grow_to (max curr_rec_count num) (reset_range (curr_rec_count + 1) num records) in
        Inr (if curr_rec_count < num
             then rs[0 := set_plain SQL_DIAG_NUMBER (Int_attr (as_int64 (int num))) (rs ! 0)]
             else rs)))"

definition getDiagHeader :: "diag \<Rightarrow> diag result" where
  "getDiagHeader records = getDiagStatus 0 records"

definition setReturnCode :: "int \<Rightarrow> diag \<Rightarrow> diag result" where
  "setReturnCode rc records =
     bind_result (getDiagHeader records) (\<lambda>rs.
     Inr (rs[0 := set_plain SQL_DIAG_RETURNCODE (Int_attr rc) (rs ! 0)]))"

definition getReturnCode :: "diag \<Rightarrow> (int \<times> diag) result" where
  "getReturnCode records =
     bind_result (getDiagHeader records) (\<lambda>rs.
     bind_result (getAttrAs as_int16 SQL_DIAG_RETURNCODE SQL_SUCCESS (rs ! 0)) (\<lambda>rc.
     Inr (rc, rs)))"

definition getDiagStatusCount :: "diag \<Rightarrow> (nat \<times> diag) result" where
  "getDiagStatusCount records =
     bind_result (getDiagHeader records) (\<lambda>rs.
     bind_result (header_count rs) (\<lambda>n. Inr (n, rs)))"

definition insertDiagStatus :: "attrs \<Rightarrow> diag \<Rightarrow> diag result" where
  "insertDiagStatus rec records =
     bind_result (getDiagStatusCount records) (\<lambda>(n, rs).
     bind_result (getDiagStatus (n + 1) rs) (\<lambda>rs'.
     Inr (rs'[n + 1 := rec])))"

definition resetDiag :: "diag \<Rightarrow> diag result" where
  "resetDiag records =
     bind_result (getDiagHeader records) (\<lambda>rs.
     Inr (rs[0 := set_plain SQL_DIAG_RETURNCODE (Int_attr SQL_SUCCESS)
                   (set_plain SQL_DIAG_NUMBER (Int_attr 0) (rs ! 0))]))"

text \<open>The record \<open>fillDiag\<close> builds; the overload without a native code stores none.\<close>

definition diag_record :: "string \<Rightarrow> string \<Rightarrow> int option \<Rightarrow> attrs" where
  "diag_record sql_status msg native =
     (let r = set_plain SQL_DIAG_MESSAGE_TEXT (Str_attr msg)
                (set_plain SQL_DIAG_SQLSTATE (Str_attr sql_status) Map.empty) in
      case native of None \<Rightarrow> r | Some code \<Rightarrow> set_plain SQL_DIAG_NATIVE (Int_attr code) r)"

definition fillDiag :: "string \<Rightarrow> string \<Rightarrow> int option \<Rightarrow> diag \<Rightarrow> diag result" where
  "fillDiag sql_status msg native records =
     insertDiagStatus (diag_record sql_status msg native) records"

definition fillDiag_rc :: "int \<Rightarrow> string \<Rightarrow> string \<Rightarrow> int option \<Rightarrow> diag \<Rightarrow> diag result" where
  "fillDiag_rc rc sql_status msg native records =
     bind_result (setReturnCode rc records) (fillDiag sql_status msg native)"

text \<open>The loop of \<open>copyDiagnosticsRecords\<close> over \<open>i\<close>, \<open>left\<close> rounds to go.\<close>

fun copy_loop :: "nat \<Rightarrow> nat \<Rightarrow> diag \<Rightarrow> diag \<Rightarrow> (diag \<times> diag) result" where
  "copy_loop 0 i src to = Inr (src, to)"
| "copy_loop (Suc left) i src to =
     bind_result (getDiagStatus i src) (\<lambda>src'.
     bind_result (insertDiagStatus (src' ! i) to) (\<lambda>to'.
     copy_loop left (i + 1) src' to'))"

definition copyDiagnosticsRecords :: "diag \<Rightarrow> diag \<Rightarrow> (diag \<times> diag) result" where
  "copyDiagnosticsRecords src to =
     bind_result (getDiagStatusCount src) (\<lambda>(count, src'). copy_loop count 1 src' to)"

section \<open>The records as a list\<close>

lemma set_plain_upd [simp]: "set_plain attr v a = a(attr \<mapsto> v)"
  by (simp add: set_plain_def)

text \<open>A count of 2147483647 records is out of reach of the 32-bit header field.\<close>

definition diag_limit :: nat where
  "diag_limit = 2147483647"

definition diag_count :: "diag \<Rightarrow> nat" where
  "diag_count records =
     (case records of [] \<Rightarrow> 0
      | h # _ \<Rightarrow> (case h SQL_DIAG_NUMBER of Some (Int_attr n) \<Rightarrow> nat n | _ \<Rightarrow> 0))"

definition diag_ok :: "diag \<Rightarrow> bool" where
  "diag_ok records \<longleftrightarrow>
     records = []
     \<or> (\<exists>n rc. (records ! 0) SQL_DIAG_NUMBER = Some (Int_attr (int n)) \<and> n < length records
          \<and> n < diag_limit \<and> (records ! 0) SQL_DIAG_RETURNCODE = Some (Int_attr rc))"

definition diag_get :: "nat \<Rightarrow> diag \<Rightarrow> diag" where
  "diag_get n records = (case getDiagStatus n records of Inr rs \<Rightarrow> rs | Inl _ \<Rightarrow> records)"

lemma length_reset_range [simp]: "length (reset_range i n rs) = length rs"
  by (simp add: reset_range_def)

lemma nth_reset_range:
  "j < length rs \<Longrightarrow> reset_range i n rs ! j = (if i \<le> j \<and> j \<le> n then Map.empty else rs ! j)"
  by (simp add: reset_range_def nth_touch_range resetAttrs_def)

lemma grow_to_eq: "grow_to m rs = rs @ replicate (Suc m - length rs) Map.empty"
  by (simp add: grow_to_def fill_to_eq)

lemma header_count_ok:
  assumes "diag_ok records" "records \<noteq> []"
  shows "header_count records = Inr (diag_count records)"
  using assms by (cases records) (auto simp: diag_ok_def header_count_def diag_count_def diag_limit_def)

lemma init_header_ok [simp]:
  "diag_ok records \<Longrightarrow> diag_ok (init_header records)" "init_header records \<noteq> []"
  "diag_count (init_header records) = diag_count records"
  by (auto simp: init_header_def diag_ok_def diag_count_def diag_limit_def)

lemma nth_init_header: "1 \<le> i \<Longrightarrow> i \<le> diag_count rs \<Longrightarrow> init_header rs ! i = rs ! i"
  by (auto simp: init_header_def diag_count_def)

lemma diag_count_length: "diag_ok rs \<Longrightarrow> rs \<noteq> [] \<Longrightarrow> diag_count rs < length rs"
  by (cases rs) (auto simp: diag_ok_def diag_count_def)

lemma getDiagStatus_shape:
  assumes ok: "diag_ok records" and n: "n < diag_limit"
  shows "\<exists>rs. getDiagStatus n records = Inr rs \<and> diag_ok rs \<and> rs \<noteq> []
    \<and> diag_count rs = max (diag_count records) n \<and> max (diag_count records) n < length rs
    \<and> (\<forall>i. 1 \<le> i \<longrightarrow> i \<le> diag_count records \<longrightarrow> rs ! i = records ! i)
    \<and> (\<forall>i. diag_count records < i \<longrightarrow> i \<le> n \<longrightarrow> rs ! i = Map.empty)
    \<and> (rs ! 0) SQL_DIAG_RETURNCODE = (init_header records ! 0) SQL_DIAG_RETURNCODE"
proof (cases "n = 0")
  case True
  have "diag_count (init_header records) < length (init_header records)"
    using diag_count_length[of "init_header records"] ok by simp
  then show ?thesis using True ok nth_init_header[of _ records]
    by (auto simp: getDiagStatus_def Let_def)
next
  case False
  let ?h = "init_header records" and ?c = "diag_count records"
  let ?g = "grow_to (max ?c n) (reset_range (?c + 1) n ?h)"
  let ?rs = "if ?c < n then ?g[0 := set_plain SQL_DIAG_NUMBER (Int_attr (as_int64 (int n))) (?g ! 0)] else ?g"
  have h: "diag_ok ?h" "?h \<noteq> []" using ok by simp_all
  have "header_count ?h = Inr ?c" using header_count_ok[OF h] by simp
  then have eq: "getDiagStatus n records = Inr ?rs"
    using False by (simp add: getDiagStatus_def Let_def)
  have len: "max ?c n < length ?g" "length ?h \<le> length ?g"
    by (simp_all only: grow_to_eq length_append length_replicate length_reset_range)
  have g: "?g ! i = (if i < length ?h then (if ?c + 1 \<le> i \<and> i \<le> n then Map.empty else ?h ! i)
      else Map.empty)" if "i < length ?g" for i
    using that by (auto simp: grow_to_eq nth_append nth_reset_range)
  have g0: "?g ! 0 = ?h ! 0" using g[of 0] len h(2) by (cases ?g) auto
  have ch: "?c < length ?h" using diag_count_length[OF h] by simp
  obtain k rc where hd: "(?h ! 0) SQL_DIAG_NUMBER = Some (Int_attr (int k))" "k < diag_limit"
      "(?h ! 0) SQL_DIAG_RETURNCODE = Some (Int_attr rc)"
    using h by (auto simp: diag_ok_def)
  have "diag_count ?h = k" using hd h(2) unfolding diag_count_def by (cases ?h) auto
  then have k: "k = ?c" by simp
  have ne: "?g \<noteq> []" using len by auto
  have "diag_ok ?rs" "diag_count ?rs = max ?c n"
    using ne hd k g0 len n ch
    by (auto simp: diag_ok_def diag_count_def diag_limit_def neq_Nil_conv nth_list_update split: list.splits)
  moreover have "max ?c n < length ?rs" "?rs \<noteq> []" using len ne by auto
  moreover have "?rs ! i = records ! i" if "1 \<le> i" "i \<le> ?c" for i
    using that g[of i] len ch nth_init_header[OF that] by auto
  moreover have "?rs ! i = Map.empty" if "?c < i" "i \<le> n" for i
    using that g[of i] len by auto
  moreover have "(?rs ! 0) SQL_DIAG_RETURNCODE = (?h ! 0) SQL_DIAG_RETURNCODE"
    using g0 ne len by (auto simp: nth_list_update)
  ultimately show ?thesis using eq by blast
qed

lemma getDiagStatus_get:
  "diag_ok rs \<Longrightarrow> n < diag_limit \<Longrightarrow> getDiagStatus n rs = Inr (diag_get n rs)"
  using getDiagStatus_shape[of rs n] by (auto simp: diag_get_def)

lemma diag_get_facts:
  assumes "diag_ok rs" "n < diag_limit"
  shows "diag_ok (diag_get n rs)" "diag_get n rs \<noteq> []"
    "diag_count (diag_get n rs) = max (diag_count rs) n"
    "max (diag_count rs) n < length (diag_get n rs)"
    "1 \<le> i \<Longrightarrow> i \<le> diag_count rs \<Longrightarrow> diag_get n rs ! i = rs ! i"
    "diag_count rs < i \<Longrightarrow> i \<le> n \<Longrightarrow> diag_get n rs ! i = Map.empty"
    "(diag_get n rs ! 0) SQL_DIAG_RETURNCODE = (init_header rs ! 0) SQL_DIAG_RETURNCODE"
  using getDiagStatus_shape[OF assms] by (auto simp: diag_get_def)

interpretation diag: counted_records diag_ok diag_count "(!)" diag_get Map.empty diag_limit
  by unfold_locales (simp_all add: diag_get_facts)

text \<open>The diagnostics as their reader sees them: the records in order, and the return code.\<close>

definition diag_list :: "diag \<Rightarrow> attrs list" where
  "diag_list records = diag.contents records"

definition diag_rc :: "diag \<Rightarrow> int" where
  "diag_rc records = (case records of [] \<Rightarrow> SQL_SUCCESS
     | h # _ \<Rightarrow> (case h SQL_DIAG_RETURNCODE of Some (Int_attr rc) \<Rightarrow> rc | _ \<Rightarrow> SQL_SUCCESS))"

lemma diag_list_get: "diag_ok rs \<Longrightarrow> n < diag_limit \<Longrightarrow> n \<le> diag_count rs \<Longrightarrow> diag_list (diag_get n rs) = diag_list rs"
  by (simp add: diag_list_def diag.contents_getrec_old)

lemma diag_rc_get:
  assumes "diag_ok rs" "n < diag_limit"
  shows "diag_rc (diag_get n rs) = diag_rc rs"
proof -
  have "diag_rc x = (case (x ! 0) SQL_DIAG_RETURNCODE of Some (Int_attr rc) \<Rightarrow> rc | _ \<Rightarrow> SQL_SUCCESS)"
    if "x \<noteq> []" for x using that by (cases x) (simp_all add: diag_rc_def)
  then show ?thesis
    using diag_get_facts(2,7)[OF assms] by (cases rs) (simp_all add: init_header_def diag_rc_def)
qed

lemma getDiagHeader_get: "diag_ok rs \<Longrightarrow> getDiagHeader rs = Inr (diag_get 0 rs)"
  by (simp add: getDiagHeader_def getDiagStatus_get diag_limit_def)

lemma getDiagStatusCount_ok:
  "diag_ok rs \<Longrightarrow> getDiagStatusCount rs = Inr (diag_count rs, diag_get 0 rs)"
  by (simp add: getDiagStatusCount_def getDiagHeader_get header_count_ok diag_get_facts diag_limit_def)

lemma update_header:
  assumes "diag_ok rs" "rs \<noteq> []" "h SQL_DIAG_NUMBER = (rs ! 0) SQL_DIAG_NUMBER"
    "h SQL_DIAG_RETURNCODE = Some (Int_attr rc)"
  shows "diag_ok (rs[0 := h])" "diag_list (rs[0 := h]) = diag_list rs" "diag_rc (rs[0 := h]) = rc"
proof -
  show "diag_ok (rs[0 := h])" using assms by (auto simp: diag_ok_def)
  have "diag_count (rs[0 := h]) = diag_count rs" using assms by (cases rs) (auto simp: diag_count_def)
  then show "diag_list (rs[0 := h]) = diag_list rs" by (auto simp: diag_list_def diag.contents_def)
  show "diag_rc (rs[0 := h]) = rc" using assms by (cases rs) (auto simp: diag_rc_def)
qed

lemma diag_count_update [simp]: "diag_count (rs[Suc n := x]) = diag_count rs"
  by (cases rs) (simp_all add: diag_count_def)

lemma diag_rc_update [simp]: "diag_rc (rs[Suc n := x]) = diag_rc rs"
  by (cases rs) (simp_all add: diag_rc_def)

lemma insertDiagStatus_appended:
  assumes ok: "diag_ok rs" and n: "diag_count rs + 1 < diag_limit"
  shows "\<exists>rs'. insertDiagStatus rec rs = Inr rs' \<and> diag_ok rs'
    \<and> diag_list rs' = diag_list rs @ [rec] \<and> diag_rc rs' = diag_rc rs"
proof -
  let ?c = "diag_count rs" and ?h = "diag_get 0 rs"
  let ?r = "diag_get (?c + 1) ?h" and ?rs = "(diag_get (?c + 1) (diag_get 0 rs))[?c + 1 := rec]"
  have lim: "0 < diag_limit" by (simp add: diag_limit_def)
  note r0 = diag_get_facts[OF ok lim]
  have c0: "diag_count ?h = ?c" using r0(3) by simp
  note r = diag_get_facts[OF r0(1) n]
  have ins: "insertDiagStatus rec rs = Inr ?rs"
    using ok n by (simp add: insertDiagStatus_def getDiagStatusCount_ok getDiagStatus_get r0)
  have hd: "?rs ! 0 = ?r ! 0" by simp
  have ne: "?rs \<noteq> []" using r(2) by simp
  have cnt: "diag_count ?rs = ?c + 1"
    using r(3) c0 by (simp only: diag_count_update Suc_eq_plus1[symmetric])
  have "diag_ok ?rs" using r(1,2) by (auto simp: diag_ok_def)
  moreover have "diag_list ?rs = diag_list rs @ [rec]"
  proof (rule nth_equalityI)
    fix i assume "i < length (diag_list ?rs)"
    then have i: "i < ?c + 1" using cnt by (simp add: diag_list_def)
    then show "diag_list ?rs ! i = (diag_list rs @ [rec]) ! i"
      using r(4,5) r0(5) c0 cnt
      by (cases "i < ?c") (simp_all add: diag_list_def diag.nth_contents nth_append less_Suc_eq)
  qed (use cnt in \<open>simp add: diag_list_def\<close>)
  moreover have "diag_rc ?rs = diag_rc rs"
    using diag_rc_get[OF r0(1) n] diag_rc_get[OF ok lim] by simp
  ultimately show ?thesis using ins by blast
qed

text \<open>Inserting a diagnostic record appends it to the records and changes nothing else: the
  return code and the earlier records stay, whatever stale records the vector still holds from before a
  reset.\<close>

theorem insertDiagStatus_appends:
  assumes "diag_ok rs" "diag_count rs + 1 < diag_limit"
  shows "\<exists>rs'. insertDiagStatus rec rs = Inr rs' \<and> diag_ok rs'
    \<and> diag_list rs' = diag_list rs @ [rec] \<and> diag_rc rs' = diag_rc rs"
  by (rule insertDiagStatus_appended[OF assms])

lemma diag_ok_Nil [simp]: "diag_ok []"
  by (simp add: diag_ok_def)

lemma diag_list_Nil [simp]: "diag_list [] = []"
  by (simp add: diag_list_def diag.contents_def diag_count_def)

theorem insertDiagStatus_appends_witness:
  "\<exists>rs'. insertDiagStatus (diag_record ''HY000'' ''x'' None) [] = Inr rs' \<and> diag_ok rs'
    \<and> diag_list rs' = diag_list [] @ [diag_record ''HY000'' ''x'' None] \<and> diag_rc rs' = diag_rc []"
  by (rule insertDiagStatus_appends) (simp_all add: diag_count_def diag_limit_def)

lemma setReturnCode_ok:
  assumes "diag_ok rs"
  shows "\<exists>rs'. setReturnCode rc rs = Inr rs' \<and> diag_ok rs' \<and> diag_list rs' = diag_list rs \<and> diag_rc rs' = rc"
proof -
  have lim: "0 < diag_limit" by (simp add: diag_limit_def)
  let ?h = "diag_get 0 rs"
  note h = diag_get_facts(1,2)[OF assms lim]
  have eq: "setReturnCode rc rs = Inr (?h[0 := (?h ! 0)(SQL_DIAG_RETURNCODE \<mapsto> Int_attr rc)])"
    using assms by (simp add: setReturnCode_def getDiagHeader_get)
  show ?thesis
    using eq update_header[OF h, of "(?h ! 0)(SQL_DIAG_RETURNCODE \<mapsto> Int_attr rc)" rc]
      diag_list_get[OF assms lim] by auto
qed

text \<open>fillDiag with a return code sets the code of the header and appends one record that reads
  back the SQLSTATE, the message and the native error code it was given.\<close>

theorem fillDiag_rc_records:
  assumes ok: "diag_ok rs" and n: "diag_count rs + 1 < diag_limit"
  shows "\<exists>rs'. fillDiag_rc rc st msg (Some native) rs = Inr rs' \<and> diag_ok rs' \<and> diag_rc rs' = rc
    \<and> diag_list rs' = diag_list rs @ [last (diag_list rs')]
    \<and> getAttrAs_string SQL_DIAG_SQLSTATE '''' (last (diag_list rs')) = st
    \<and> getAttrAs_string SQL_DIAG_MESSAGE_TEXT '''' (last (diag_list rs')) = msg
    \<and> getAttrAs id SQL_DIAG_NATIVE 0 (last (diag_list rs')) = Inr native"
proof -
  obtain rs1 where rs1: "setReturnCode rc rs = Inr rs1" "diag_ok rs1" "diag_list rs1 = diag_list rs" "diag_rc rs1 = rc"
    using setReturnCode_ok[OF ok] by blast
  have "diag_count rs1 = diag_count rs"
    using arg_cong[OF rs1(3), of length] by (simp add: diag_list_def)
  then have n1: "diag_count rs1 + 1 < diag_limit" using n by simp
  obtain rs' where "insertDiagStatus (diag_record st msg (Some native)) rs1 = Inr rs'" "diag_ok rs'"
      "diag_list rs' = diag_list rs1 @ [diag_record st msg (Some native)]" "diag_rc rs' = diag_rc rs1"
    using insertDiagStatus_appended[OF rs1(2) n1] by blast
  then show ?thesis using rs1
    by (simp add: fillDiag_rc_def fillDiag_def diag_record_def getAttrAs_string_def)
qed

theorem fillDiag_rc_records_witness:
  "\<exists>rs'. fillDiag_rc SQL_ERROR ''07002'' ''COUNT field incorrect'' (Some 1) [] = Inr rs' \<and> diag_ok rs'
    \<and> diag_rc rs' = SQL_ERROR \<and> diag_list rs' = diag_list [] @ [last (diag_list rs')]
    \<and> getAttrAs_string SQL_DIAG_SQLSTATE '''' (last (diag_list rs')) = ''07002''
    \<and> getAttrAs_string SQL_DIAG_MESSAGE_TEXT '''' (last (diag_list rs')) = ''COUNT field incorrect''
    \<and> getAttrAs id SQL_DIAG_NATIVE 0 (last (diag_list rs')) = Inr 1"
  by (rule fillDiag_rc_records) (simp_all add: diag_count_def diag_limit_def)

text \<open>resetDiag leaves no record to read and the return code SQL_SUCCESS, whatever was there.\<close>

theorem resetDiag_clears:
  assumes "diag_ok rs"
  shows "\<exists>rs'. resetDiag rs = Inr rs' \<and> diag_ok rs' \<and> diag_list rs' = [] \<and> diag_rc rs' = SQL_SUCCESS"
proof -
  have lim: "0 < diag_limit" by (simp add: diag_limit_def)
  let ?h = "diag_get 0 rs"
  let ?rs = "?h[0 := (?h ! 0)(SQL_DIAG_NUMBER \<mapsto> Int_attr 0, SQL_DIAG_RETURNCODE \<mapsto> Int_attr SQL_SUCCESS)]"
  have ne: "?h \<noteq> []" using diag_get_facts(2)[OF assms lim] .
  have "resetDiag rs = Inr ?rs" using assms by (simp add: resetDiag_def getDiagHeader_get)
  moreover have "diag_ok ?rs" "diag_count ?rs = 0" "diag_rc ?rs = SQL_SUCCESS"
    using ne lim by (cases ?h; simp add: diag_ok_def diag_count_def diag_rc_def)+
  ultimately show ?thesis by (auto simp: diag_list_def diag.contents_def)
qed

theorem resetDiag_clears_witness:
  "\<exists>rs'. resetDiag [] = Inr rs' \<and> diag_ok rs' \<and> diag_list rs' = [] \<and> diag_rc rs' = SQL_SUCCESS"
  by (rule resetDiag_clears) simp

lemma copy_loop_appends:
  assumes "diag_ok src" "diag_ok to" "i + left = diag_count src + 1" "1 \<le> i"
    "diag_count to + left < diag_limit"
  shows "\<exists>src' to'. copy_loop left i src to = Inr (src', to') \<and> diag_ok src' \<and> diag_ok to'
    \<and> diag_list src' = diag_list src \<and> diag_rc to' = diag_rc to
    \<and> diag_list to' = diag_list to @ drop (i - 1) (diag_list src)"
  using assms
proof (induction left i src to rule: copy_loop.induct)
  case (1 i src to)
  then show ?case by (simp add: diag_list_def)
next
  case (2 left i src to)
  have lim: "i < diag_limit" "i \<le> diag_count src"
  proof -
    obtain n where "diag_count src < diag_limit"
      using 2(2) by (cases src) (auto simp: diag_ok_def diag_count_def diag_limit_def)
    then show "i < diag_limit" "i \<le> diag_count src" using 2(4) by simp_all
  qed
  let ?src = "diag_get i src"
  have src: "getDiagStatus i src = Inr ?src" "diag_ok ?src" "diag_list ?src = diag_list src"
      "?src ! i = src ! i" "diag_count ?src = diag_count src"
    using 2(2,5) lim diag_get_facts[of src i] by (simp_all add: getDiagStatus_get diag_list_get)
  obtain to' where to': "insertDiagStatus (?src ! i) to = Inr to'" "diag_ok to'"
      "diag_list to' = diag_list to @ [?src ! i]" "diag_rc to' = diag_rc to"
    using insertDiagStatus_appended[of to "?src ! i"] 2(3,6) by auto
  have "diag_count to' = diag_count to + 1"
    using arg_cong[OF to'(3), of length] by (simp add: diag_list_def)
  then obtain src2 to2 where IH: "copy_loop left (i + 1) ?src to' = Inr (src2, to2)" "diag_ok src2"
      "diag_ok to2" "diag_list src2 = diag_list ?src" "diag_rc to2 = diag_rc to'"
      "diag_list to2 = diag_list to' @ drop i (diag_list ?src)"
    using "2.IH"[of ?src to'] 2(4,5,6) src to' by auto
  have "drop (i - 1) (diag_list src) = (src ! i) # drop i (diag_list src)"
    using lim 2(5) Cons_nth_drop_Suc[of "i - 1" "diag_list src"]
    by (simp add: diag_list_def diag.nth_contents)
  then show ?case using IH src to' by simp
qed

text \<open>copyDiagnosticsRecords appends the records of the source, in their order, to those of the
  target and leaves the source and the target's return code as they were.\<close>

theorem copyDiagnosticsRecords_appends:
  assumes "diag_ok src" "diag_ok to" "diag_count to + diag_count src < diag_limit"
  shows "\<exists>src' to'. copyDiagnosticsRecords src to = Inr (src', to') \<and> diag_ok src' \<and> diag_ok to'
    \<and> diag_list src' = diag_list src \<and> diag_rc to' = diag_rc to
    \<and> diag_list to' = diag_list to @ diag_list src"
proof -
  have lim: "0 < diag_limit" by (simp add: diag_limit_def)
  note h = diag_get_facts[OF assms(1) lim]
  show ?thesis
    using copy_loop_appends[of "diag_get 0 src" to 1 "diag_count src"] h(1,3) assms
      diag_list_get[OF assms(1) lim]
    by (simp add: copyDiagnosticsRecords_def getDiagStatusCount_ok)
qed

theorem copyDiagnosticsRecords_appends_witness:
  "\<exists>src' to'. copyDiagnosticsRecords [] [] = Inr (src', to') \<and> diag_ok src' \<and> diag_ok to'
    \<and> diag_list src' = diag_list [] \<and> diag_rc to' = diag_rc [] \<and> diag_list to' = diag_list [] @ diag_list []"
  by (rule copyDiagnosticsRecords_appends) (simp_all add: diag_count_def diag_limit_def)

end
