(* ===== verification/Descriptor.thy ===== *)
theory Descriptor
  imports Attributes Sql_Types
begin

text \<open>
  Descriptors: driver/descriptor.cpp, and the initialisation of their records by
  \<open>Connection::initAsDescRec\<close> (driver/connection.cpp). A record is an attribute container
  whose \<open>onAttrChange\<close> keeps the type fields together; it may throw after it has changed
  some of them, so its operations return the record along with the exception.
\<close>

section \<open>Operations on a record\<close>

definition op_return :: "'a \<Rightarrow> 'a attr_op" where
  "op_return x a = (Inr x, a)"

definition op_throw :: "exn \<Rightarrow> 'a attr_op" where
  "op_throw e a = (Inl e, a)"

definition op_bind :: "'a attr_op \<Rightarrow> ('a \<Rightarrow> 'b attr_op) \<Rightarrow> 'b attr_op" where
  "op_bind m k a = (case m a of (Inl e, a') \<Rightarrow> (Inl e, a') | (Inr x, a') \<Rightarrow> k x a')"

definition op_then :: "'a attr_op \<Rightarrow> 'b attr_op \<Rightarrow> 'b attr_op" where
  "op_then m k = op_bind m (\<lambda>_. k)"

definition op_get :: "(int \<Rightarrow> 'a) \<Rightarrow> int \<Rightarrow> 'a \<Rightarrow> 'a attr_op" where
  "op_get cast attr def a = (getAttrAs cast attr def a, a)"

definition op_silent :: "int \<Rightarrow> int \<Rightarrow> unit attr_op" where
  "op_silent attr v a = (Inr (), setAttrSilent attr (Int_attr v) a)"

definition op_when :: "bool \<Rightarrow> unit attr_op \<Rightarrow> unit attr_op" where
  "op_when b m = (if b then m else op_return ())"

text \<open>\<open>if (getAttrAs<SQLPOINTER>(SQL_DESC_DATA_PTR, 0)) setAttrSilent(SQL_DESC_DATA_PTR, 0);\<close>\<close>

definition reset_data_ptr :: "unit attr_op" where
  "reset_data_ptr = op_bind (op_get id SQL_DESC_DATA_PTR 0) (\<lambda>p.
     op_when (p \<noteq> 0) (op_silent SQL_DESC_DATA_PTR 0))"

text \<open>The defaults of the attributes that depend on the type.\<close>

definition type_defaults :: "SQLSMALLINT \<Rightarrow> unit attr_op" where
  "type_defaults type =
     (if type \<in> {SQL_CHAR, SQL_WCHAR, SQL_VARCHAR, SQL_WVARCHAR, SQL_LONGVARCHAR, SQL_WLONGVARCHAR}
      then op_then (op_silent SQL_DESC_LENGTH 1) (op_silent SQL_DESC_PRECISION 0)
      else if type \<in> {SQL_DECIMAL, SQL_NUMERIC}
      then op_then (op_silent SQL_DESC_SCALE 0) (op_silent SQL_DESC_PRECISION 38)
      else if type = SQL_FLOAT then op_silent SQL_DESC_PRECISION 6
      else if type = SQL_DATETIME then
        op_bind (op_get as_int16 SQL_DESC_DATETIME_INTERVAL_CODE 0) (\<lambda>code.
        if code \<in> {SQL_CODE_DATE, SQL_CODE_TIME} then op_silent SQL_DESC_PRECISION 0
        else if code = SQL_CODE_TIMESTAMP then op_silent SQL_DESC_PRECISION 6
        else op_return ())
      else if type = SQL_INTERVAL then
        op_bind (op_get as_int16 SQL_DESC_DATETIME_INTERVAL_CODE 0) (\<lambda>code.
        op_then (op_when (isIntervalCode code) (op_silent SQL_DESC_DATETIME_INTERVAL_PRECISION 2))
                (op_when (intervalCodeHasSecondComponent code) (op_silent SQL_DESC_PRECISION 6)))
      else op_return ())"

definition on_type :: "unit attr_op" where
  "on_type = op_bind (op_get as_int16 SQL_DESC_TYPE 0) (\<lambda>type.
     op_then
      (if isConciseDateTimeIntervalType type
       then op_throw (SqlException ''Inconsistent descriptor information'' ''HY021'')
       else if isVerboseType type then
         op_bind (op_get as_int16 SQL_DESC_DATETIME_INTERVAL_CODE 0) (\<lambda>code.
         op_when (code \<noteq> 0)
           (op_then (op_silent SQL_DESC_CONCISE_TYPE (convertDateTimeIntervalCodeToSQLType code type))
                    reset_data_ptr))
       else
         op_then (op_silent SQL_DESC_CONCISE_TYPE type)
         (op_then (op_silent SQL_DESC_DATETIME_INTERVAL_CODE 0) reset_data_ptr))
      (type_defaults type))"

text \<open>\<open>setAttr(SQL_DESC_TYPE, v)\<close>, whose call of \<open>onAttrChange\<close> is the case of the type.\<close>

definition set_type :: "SQLSMALLINT \<Rightarrow> unit attr_op" where
  "set_type v = setAttr (\<lambda>_. on_type) SQL_DESC_TYPE (Int_attr v)"

definition on_concise_type :: "unit attr_op" where
  "on_concise_type = op_bind (op_get as_int16 SQL_DESC_CONCISE_TYPE 0) (\<lambda>type.
     if isConciseDateTimeIntervalType type then
       op_then (op_silent SQL_DESC_DATETIME_INTERVAL_CODE (convertSQLTypeToDateTimeIntervalCode type))
       (op_then (set_type (tryConvertSQLTypeToVerboseType type)) reset_data_ptr)
     else if \<not> isVerboseType type then
       op_then (op_silent SQL_DESC_DATETIME_INTERVAL_CODE 0) (op_then (set_type type) reset_data_ptr)
     else op_return ())"

definition on_code :: "unit attr_op" where
  "on_code = op_bind (op_get as_int16 SQL_DESC_DATETIME_INTERVAL_CODE 0) (\<lambda>code.
     op_bind (op_get as_int16 SQL_DESC_TYPE SQL_UNKNOWN_TYPE) (\<lambda>type.
     op_when (code \<noteq> 0 \<and> isVerboseType type)
       (op_then (op_silent SQL_DESC_CONCISE_TYPE (convertDateTimeIntervalCodeToSQLType code type))
                reset_data_ptr)))"

definition consistencyCheck :: "unit attr_op" where
  "consistencyCheck = op_return ()"

definition on_data_ptr :: "unit attr_op" where
  "on_data_ptr = op_bind (op_get id SQL_DESC_DATA_PTR 0) (\<lambda>p. op_when (p \<noteq> 0) consistencyCheck)"

definition on_name :: "unit attr_op" where
  "on_name a =
     op_silent SQL_DESC_UNNAMED
       (if getAttrAs_string SQL_DESC_NAME '''' a = '''' then SQL_UNNAMED else SQL_NAMED) a"

definition on_unnamed :: "unit attr_op" where
  "on_unnamed = op_bind (op_get as_int16 SQL_DESC_UNNAMED SQL_UNNAMED) (\<lambda>unnamed a.
     if unnamed = SQL_UNNAMED then (Inr (), setAttrSilent SQL_DESC_NAME (Str_attr '''') a)
     else (Inr (), a))"

definition onAttrChange :: "int \<Rightarrow> unit attr_op" where
  "onAttrChange attr =
     (if attr = SQL_DESC_TYPE then on_type
      else if attr = SQL_DESC_CONCISE_TYPE then on_concise_type
      else if attr = SQL_DESC_DATETIME_INTERVAL_CODE then on_code
      else if attr = SQL_DESC_DATA_PTR then on_data_ptr
      else if attr = SQL_DESC_NAME then on_name
      else if attr = SQL_DESC_UNNAMED then on_unnamed
      else op_return ())"

text \<open>\<open>DescriptorRecord::setAttr\<close> of an integer or pointer.\<close>

definition set_attr :: "int \<Rightarrow> int \<Rightarrow> unit attr_op" where
  "set_attr attr v = setAttr onAttrChange attr (Int_attr v)"

lemma set_type_is_setAttr: "set_type v = set_attr SQL_DESC_TYPE v"
  by (rule ext) (simp add: set_type_def set_attr_def setAttr_alt onAttrChange_def)

section \<open>Initial records\<close>

definition initAsADRec :: "unit attr_op" where
  "initAsADRec a =
     op_then (set_attr SQL_DESC_TYPE SQL_C_DEFAULT)
     (op_then (set_attr SQL_DESC_OCTET_LENGTH_PTR 0)
     (op_then (set_attr SQL_DESC_INDICATOR_PTR 0)
              (set_attr SQL_DESC_DATA_PTR 0))) (resetAttrs a)"

definition initAsIDRec :: "unit attr_op" where
  "initAsIDRec a = (Inr (), resetAttrs a)"

definition initAsDescRec :: "int \<Rightarrow> unit attr_op" where
  "initAsDescRec desc_role =
     (if desc_role = SQL_ATTR_APP_ROW_DESC then initAsADRec
      else if desc_role = SQL_ATTR_APP_PARAM_DESC then initAsADRec
      else if desc_role = SQL_ATTR_IMP_ROW_DESC then initAsIDRec
      else if desc_role = SQL_ATTR_IMP_PARAM_DESC
      then op_then initAsIDRec (set_attr SQL_DESC_PARAMETER_TYPE SQL_PARAM_INPUT)
      else op_return ())"

lemmas op_defs = op_return_def op_throw_def op_bind_def op_then_def op_get_def op_silent_def
  op_when_def reset_data_ptr_def set_attr_def setAttr_alt setAttrSilent_def

lemma initAsADRec_is:
  "initAsADRec a = (Inr (), [SQL_DESC_TYPE \<mapsto> Int_attr SQL_C_DEFAULT,
     SQL_DESC_CONCISE_TYPE \<mapsto> Int_attr SQL_C_DEFAULT, SQL_DESC_DATETIME_INTERVAL_CODE \<mapsto> Int_attr 0,
     SQL_DESC_OCTET_LENGTH_PTR \<mapsto> Int_attr 0, SQL_DESC_INDICATOR_PTR \<mapsto> Int_attr 0,
     SQL_DESC_DATA_PTR \<mapsto> Int_attr 0])"
  by (simp add: initAsADRec_def op_defs onAttrChange_def on_type_def on_data_ptr_def
      consistencyCheck_def type_defaults_def getAttrAs_def resetAttrs_def sql_type_defs)

text \<open>Initialising a record of an application descriptor gives it type and concise type
  SQL_C_DEFAULT, interval code 0 and null pointers, as the comment in initAsADRec says, and it never
  throws.\<close>

theorem initAsADRec_record:
  "initAsADRec a = (Inr (), [SQL_DESC_TYPE \<mapsto> Int_attr SQL_C_DEFAULT,
     SQL_DESC_CONCISE_TYPE \<mapsto> Int_attr SQL_C_DEFAULT, SQL_DESC_DATETIME_INTERVAL_CODE \<mapsto> Int_attr 0,
     SQL_DESC_OCTET_LENGTH_PTR \<mapsto> Int_attr 0, SQL_DESC_INDICATOR_PTR \<mapsto> Int_attr 0,
     SQL_DESC_DATA_PTR \<mapsto> Int_attr 0])"
  by (rule initAsADRec_is)

section \<open>Descriptors\<close>

record descriptor =
  desc_attrs :: attrs
  desc_records :: "attrs list"

text \<open>No initialisation of a record throws (\<open>initAsDescRec_returns\<close> below), so its effect is the record it leaves.\<close>

definition init_rec :: "int \<Rightarrow> attrs \<Rightarrow> attrs" where
  "init_rec desc_role a = snd (initAsDescRec desc_role a)"

definition new_Descriptor :: descriptor where
  "new_Descriptor = \<lparr>desc_attrs = [SQL_DESC_COUNT \<mapsto> Int_attr 0], desc_records = []\<rparr>"

definition set_desc_attr :: "int \<Rightarrow> int \<Rightarrow> descriptor \<Rightarrow> descriptor" where
  "set_desc_attr attr v d =
     d\<lparr>desc_attrs := snd (setAttr base_onAttrChange attr (Int_attr v) (desc_attrs d))\<rparr>"

definition getRecordCount :: "descriptor \<Rightarrow> nat result" where
  "getRecordCount d =
     bind_result (getAttrAs as_int16 SQL_DESC_COUNT 0 (desc_attrs d)) (\<lambda>n. Inr (as_size n))"

definition ensure_bookmark :: "int \<Rightarrow> descriptor \<Rightarrow> descriptor" where
  "ensure_bookmark current_role d =
     (if desc_records d = [] then d\<lparr>desc_records := [init_rec current_role Map.empty]\<rparr> else d)"

text \<open>The reference \<open>getRecord\<close> returns is the record at index \<open>num\<close> of the new descriptor.\<close>

definition getRecord :: "nat \<Rightarrow> int \<Rightarrow> descriptor \<Rightarrow> descriptor result" where
  "getRecord num current_role d0 =
     (let d = ensure_bookmark current_role d0 in
      if num = 0 then Inr d
      else
        bind_result (getRecordCount d) (\<lambda>curr_rec_count.
        let touched = touch_range (init_rec current_role) (curr_rec_count + 1) num (desc_records d);
            records = fill_to (init_rec current_role Map.empty) (max curr_rec_count num) touched;
            d' = d\<lparr>desc_records := records\<rparr> in
        Inr (if curr_rec_count < num then set_desc_attr SQL_DESC_COUNT (as_int64 (int num)) d' else d')))"

text \<open>
  \<open>Descriptor::operator=\<close>; \<open>same\<close> says whether the two are one object. The check of the
  records with a data pointer does nothing (\<open>consistencyCheck\<close>).
\<close>

definition assign_descriptor :: "bool \<Rightarrow> descriptor \<Rightarrow> descriptor \<Rightarrow> descriptor result" where
  "assign_descriptor same d other =
     (if same then Inr d
      else
        bind_result (getAttrAs as_int16 SQL_DESC_ALLOC_TYPE 0 (desc_attrs d)) (\<lambda>alloc_type.
        Inr (if hasAttrInteger SQL_DESC_ALLOC_TYPE (desc_attrs d)
             then set_desc_attr SQL_DESC_ALLOC_TYPE alloc_type other
             else other\<lparr>desc_attrs := resetAttr SQL_DESC_ALLOC_TYPE (desc_attrs other)\<rparr>)))"

definition initAsAD :: "bool \<Rightarrow> descriptor \<Rightarrow> descriptor" where
  "initAsAD user d =
     set_desc_attr SQL_DESC_BIND_TYPE SQL_BIND_TYPE_DEFAULT
     (set_desc_attr SQL_DESC_BIND_OFFSET_PTR 0
     (set_desc_attr SQL_DESC_ARRAY_STATUS_PTR 0
     (set_desc_attr SQL_DESC_ARRAY_SIZE 1
     (set_desc_attr SQL_DESC_ALLOC_TYPE (if user then SQL_DESC_ALLOC_USER else SQL_DESC_ALLOC_AUTO)
     (d\<lparr>desc_attrs := resetAttrs (desc_attrs d)\<rparr>)))))"

definition initAsID :: "descriptor \<Rightarrow> descriptor" where
  "initAsID d =
     set_desc_attr SQL_DESC_ROWS_PROCESSED_PTR 0
     (set_desc_attr SQL_DESC_ARRAY_STATUS_PTR 0
     (set_desc_attr SQL_DESC_ALLOC_TYPE SQL_DESC_ALLOC_AUTO
     (d\<lparr>desc_attrs := resetAttrs (desc_attrs d)\<rparr>)))"

definition initAsDesc :: "int \<Rightarrow> bool \<Rightarrow> descriptor \<Rightarrow> descriptor" where
  "initAsDesc role user d =
     (if role = SQL_ATTR_APP_ROW_DESC then initAsAD user d
      else if role = SQL_ATTR_APP_PARAM_DESC then initAsAD user d
      else if role = SQL_ATTR_IMP_ROW_DESC then initAsID d
      else if role = SQL_ATTR_IMP_PARAM_DESC then initAsID d
      else d)"

section \<open>The laws of counted records\<close>

lemma fst_set_attr_plain:
  "attr \<notin> {SQL_DESC_TYPE, SQL_DESC_CONCISE_TYPE, SQL_DESC_DATETIME_INTERVAL_CODE, SQL_DESC_DATA_PTR,
     SQL_DESC_NAME, SQL_DESC_UNNAMED} \<Longrightarrow> set_attr attr v a = (Inr (), a(attr \<mapsto> Int_attr v))"
  by (auto simp: set_attr_def setAttr_alt onAttrChange_def op_return_def)

definition desc_roles :: "int set" where
  "desc_roles = {SQL_ATTR_APP_ROW_DESC, SQL_ATTR_APP_PARAM_DESC, SQL_ATTR_IMP_ROW_DESC,
     SQL_ATTR_IMP_PARAM_DESC}"

lemma initAsDescRec_returns: "fst (initAsDescRec desc_role a) = Inr ()"
  by (simp add: initAsDescRec_def initAsADRec_is initAsIDRec_def op_then_def op_bind_def op_return_def
      fst_set_attr_plain)

lemma init_rec_fresh:
  "desc_role \<in> desc_roles \<Longrightarrow> init_rec desc_role a = init_rec desc_role Map.empty"
  by (auto simp: init_rec_def initAsDescRec_def initAsADRec_is initAsIDRec_def op_then_def op_bind_def
      desc_roles_def resetAttrs_def fst_set_attr_plain)

definition desc_limit :: nat where
  "desc_limit = 32768"

definition desc_count :: "descriptor \<Rightarrow> nat" where
  "desc_count d = (case desc_attrs d SQL_DESC_COUNT of Some (Int_attr n) \<Rightarrow> nat n | _ \<Rightarrow> 0)"

definition desc_ok :: "descriptor \<Rightarrow> bool" where
  "desc_ok d \<longleftrightarrow> (desc_attrs d SQL_DESC_COUNT = None
       \<or> (\<exists>n. desc_attrs d SQL_DESC_COUNT = Some (Int_attr (int n)) \<and> n < desc_limit))
     \<and> desc_count d \<le> length (desc_records d)
     \<and> (desc_records d \<noteq> [] \<longrightarrow> desc_count d < length (desc_records d))"

definition desc_get :: "int \<Rightarrow> nat \<Rightarrow> descriptor \<Rightarrow> descriptor" where
  "desc_get desc_role n d = (case getRecord n desc_role d of Inr d' \<Rightarrow> d' | Inl _ \<Rightarrow> d)"

lemma desc_ok_new [simp]: "desc_ok new_Descriptor"
  by (auto simp: desc_ok_def new_Descriptor_def desc_limit_def desc_count_def)

lemma getRecordCount_ok: "desc_ok d \<Longrightarrow> getRecordCount d = Inr (desc_count d)"
  by (auto simp: desc_ok_def getRecordCount_def desc_count_def desc_limit_def)

lemma set_desc_attr_simps [simp]:
  "desc_records (set_desc_attr attr v d) = desc_records d"
  "desc_attrs (set_desc_attr attr v d) = (desc_attrs d)(attr \<mapsto> Int_attr v)"
  by (simp_all add: set_desc_attr_def)

lemma ensure_bookmark_facts:
  assumes "desc_ok d"
  shows "desc_ok (ensure_bookmark r d)" "desc_records (ensure_bookmark r d) \<noteq> []"
    "desc_count (ensure_bookmark r d) = desc_count d"
    "1 \<le> i \<Longrightarrow> i \<le> desc_count d \<Longrightarrow> desc_records (ensure_bookmark r d) ! i = desc_records d ! i"
  using assms by (auto simp: ensure_bookmark_def desc_ok_def desc_count_def)

lemma getRecord_shape:
  assumes ok: "desc_ok d" and n: "n < desc_limit" and role: "r \<in> desc_roles"
  shows "\<exists>d'. getRecord n r d = Inr d' \<and> desc_ok d'
    \<and> desc_count d' = max (desc_count d) n \<and> max (desc_count d) n < length (desc_records d')
    \<and> (\<forall>i. 1 \<le> i \<longrightarrow> i \<le> desc_count d \<longrightarrow> desc_records d' ! i = desc_records d ! i)
    \<and> (\<forall>i. desc_count d < i \<longrightarrow> i \<le> n \<longrightarrow> desc_records d' ! i = init_rec r Map.empty)"
proof -
  let ?b = "ensure_bookmark r d" and ?c = "desc_count d"
  note b = ensure_bookmark_facts[OF ok, where r = r]
  have cb: "?c < length (desc_records ?b)" using b(1-3) by (auto simp: desc_ok_def)
  show ?thesis
  proof (cases "n = 0")
    case True
    then show ?thesis using b cb by (auto simp: getRecord_def Let_def)
  next
    case False
    let ?v = "fill_to (init_rec r Map.empty) (max ?c n)
        (touch_range (init_rec r) (?c + 1) n (desc_records ?b))"
    let ?w = "?b\<lparr>desc_records := ?v\<rparr>"
    let ?d = "if ?c < n then set_desc_attr SQL_DESC_COUNT (as_int64 (int n)) ?w else ?w"
    have "getRecordCount ?b = Inr ?c" using getRecordCount_ok[OF b(1)] b(3) by simp
    then have eq: "getRecord n r d = Inr ?d" using False by (simp add: getRecord_def Let_def)
    have recs: "desc_records ?d = ?v" by simp
    have len: "max ?c n < length ?v"
      by (simp only: fill_to_eq length_append length_replicate length_touch_range)
    have v: "?v ! i = (if i < length (desc_records ?b)
        then (if ?c + 1 \<le> i \<and> i \<le> n then init_rec r Map.empty else desc_records ?b ! i)
        else init_rec r Map.empty)" if "i < length ?v" for i
      using that init_rec_fresh[OF role]
      by (auto simp: fill_to_eq nth_append nth_touch_range)
    have cnt: "desc_count ?d = max ?c n" using n b(3) by (auto simp: desc_count_def desc_limit_def)
    have "desc_ok ?d"
    proof -
      have "(desc_attrs ?b) SQL_DESC_COUNT = None
          \<or> (\<exists>m. desc_attrs ?b SQL_DESC_COUNT = Some (Int_attr (int m)) \<and> m < desc_limit)"
        using b(1) by (simp add: desc_ok_def)
      then have "(desc_attrs ?d) SQL_DESC_COUNT = None
          \<or> (\<exists>m. desc_attrs ?d SQL_DESC_COUNT = Some (Int_attr (int m)) \<and> m < desc_limit)"
        using n by (auto simp: desc_limit_def)
      then show ?thesis using cnt len less_imp_le[OF len]
        by (simp only: desc_ok_def recs) simp
    qed
    moreover have "desc_records ?d ! i = desc_records d ! i" if "1 \<le> i" "i \<le> ?c" for i
      using that v[of i] len cb b(4)[OF that] recs by auto
    moreover have "desc_records ?d ! i = init_rec r Map.empty" if "?c < i" "i \<le> n" for i
      using that v[of i] len recs by auto
    ultimately show ?thesis using eq cnt len recs by metis
  qed
qed

lemma getRecord_get: "desc_ok d \<Longrightarrow> n < desc_limit \<Longrightarrow> r \<in> desc_roles \<Longrightarrow> getRecord n r d = Inr (desc_get r n d)"
  using getRecord_shape[of d n r] by (auto simp: desc_get_def)

lemma desc_get_facts:
  assumes "desc_ok d" "n < desc_limit" "r \<in> desc_roles"
  shows "desc_ok (desc_get r n d)" "desc_count (desc_get r n d) = max (desc_count d) n"
    "max (desc_count d) n < length (desc_records (desc_get r n d))"
    "1 \<le> i \<Longrightarrow> i \<le> desc_count d \<Longrightarrow> desc_records (desc_get r n d) ! i = desc_records d ! i"
    "desc_count d < i \<Longrightarrow> i \<le> n \<Longrightarrow> desc_records (desc_get r n d) ! i = init_rec r Map.empty"
  using getRecord_shape[OF assms] by (auto simp: desc_get_def)

lemma role_simps [simp]:
  "SQL_ATTR_APP_ROW_DESC \<in> desc_roles" "SQL_ATTR_APP_PARAM_DESC \<in> desc_roles"
  "SQL_ATTR_IMP_ROW_DESC \<in> desc_roles" "SQL_ATTR_IMP_PARAM_DESC \<in> desc_roles"
  by (simp_all add: desc_roles_def)

interpretation ard: counted_records desc_ok desc_count "\<lambda>d. (!) (desc_records d)"
    "desc_get SQL_ATTR_APP_ROW_DESC" "init_rec SQL_ATTR_APP_ROW_DESC Map.empty" desc_limit
  by unfold_locales (simp_all add: desc_get_facts)

interpretation apd: counted_records desc_ok desc_count "\<lambda>d. (!) (desc_records d)"
    "desc_get SQL_ATTR_APP_PARAM_DESC" "init_rec SQL_ATTR_APP_PARAM_DESC Map.empty" desc_limit
  by unfold_locales (simp_all add: desc_get_facts)

interpretation ipd: counted_records desc_ok desc_count "\<lambda>d. (!) (desc_records d)"
    "desc_get SQL_ATTR_IMP_PARAM_DESC" "init_rec SQL_ATTR_IMP_PARAM_DESC Map.empty" desc_limit
  by unfold_locales (simp_all add: desc_get_facts)

text \<open>The counted records of a descriptor, the bookmark record left out.\<close>

definition desc_list :: "descriptor \<Rightarrow> attrs list" where
  "desc_list d = map ((!) (desc_records d)) [1..<Suc (desc_count d)]"

lemma desc_list_contents: "desc_list d = ard.contents d" "desc_list d = apd.contents d"
    "desc_list d = ipd.contents d"
  by (simp_all add: desc_list_def ard.contents_def apd.contents_def ipd.contents_def)

interpretation ird: counted_records desc_ok desc_count "\<lambda>d. (!) (desc_records d)"
    "desc_get SQL_ATTR_IMP_ROW_DESC" "init_rec SQL_ATTR_IMP_ROW_DESC Map.empty" desc_limit
  by unfold_locales (simp_all add: desc_get_facts)

lemma desc_list_ird: "desc_list d = ird.contents d"
  by (simp add: desc_list_def ird.contents_def)

section \<open>What the operations guarantee\<close>

text \<open>Asking a descriptor for record n, below 32768, makes its records at least n long: those it
  had stay, in place and unchanged, and every new one is initialised for the role, even where the vector
  still holds a record from before the count was lowered.\<close>

theorem getRecord_extends:
  assumes "desc_ok d" "n < desc_limit" "r \<in> desc_roles"
  shows "\<exists>d'. getRecord n r d = Inr d' \<and> desc_ok d' \<and> n < length (desc_records d')
    \<and> desc_list d' = desc_list d @ replicate (n - desc_count d) (init_rec r Map.empty)"
proof -
  have "desc_list (desc_get r n d) = desc_list d @ replicate (n - desc_count d) (init_rec r Map.empty)"
    using assms(3) ard.contents_getrec[OF assms(1,2)] apd.contents_getrec[OF assms(1,2)]
      ird.contents_getrec[OF assms(1,2)] ipd.contents_getrec[OF assms(1,2)]
    unfolding desc_roles_def desc_list_contents(1)[symmetric] desc_list_contents(2)[symmetric]
      desc_list_contents(3)[symmetric] desc_list_ird[symmetric]
    by (elim insertE emptyE) simp_all
  then show ?thesis
    using getRecord_get[OF assms] desc_get_facts(1,3)[OF assms] by auto
qed

theorem getRecord_extends_witness:
  "\<exists>d'. getRecord 3 SQL_ATTR_IMP_PARAM_DESC new_Descriptor = Inr d' \<and> desc_ok d'
    \<and> 3 < length (desc_records d')
    \<and> desc_list d' = desc_list new_Descriptor
        @ replicate (3 - desc_count new_Descriptor) (init_rec SQL_ATTR_IMP_PARAM_DESC Map.empty)"
  by (rule getRecord_extends) (simp_all add: desc_limit_def)

text \<open>Record 32768 does not fit the 16-bit count: after getRecord(32768) the descriptor reports
  2^64 - 32768 records, so the next getRecord would append that many.\<close>

theorem record_count_overflow:
  "bind_result (getRecord 32768 SQL_ATTR_APP_PARAM_DESC new_Descriptor) getRecordCount
    = Inr (2 ^ 64 - 32768)"
  by (simp add: getRecord_def ensure_bookmark_def getRecordCount_def new_Descriptor_def Let_def
      getAttrAs_def as_int16_def as_size_def as_int64_def)

lemma reset_data_ptr_eq:
  assumes "\<And>s. a SQL_DESC_DATA_PTR \<noteq> Some (Str_attr s)"
  shows "reset_data_ptr a = (Inr (), if a SQL_DESC_DATA_PTR = None \<or> a SQL_DESC_DATA_PTR = Some (Int_attr 0)
    then a else a(SQL_DESC_DATA_PTR \<mapsto> Int_attr 0))"
  using assms by (auto simp: op_defs getAttrAs_def split: option.splits attr_value.splits)

definition detail_attrs :: "int set" where
  "detail_attrs = {SQL_DESC_LENGTH, SQL_DESC_PRECISION, SQL_DESC_SCALE,
     SQL_DESC_DATETIME_INTERVAL_PRECISION}"

lemma type_defaults_frame:
  assumes "a SQL_DESC_DATETIME_INTERVAL_CODE = Some (Int_attr c)"
  shows "\<exists>a'. type_defaults ty a = (Inr (), a') \<and> (\<forall>k. k \<notin> detail_attrs \<longrightarrow> a' k = a k)"
  using assms by (auto simp: type_defaults_def op_defs detail_attrs_def)

text \<open>The attributes of the type hold integers.\<close>

definition numeric :: "attrs \<Rightarrow> bool" where
  "numeric a \<longleftrightarrow> (\<forall>k \<in> {SQL_DESC_TYPE, SQL_DESC_CONCISE_TYPE, SQL_DESC_DATETIME_INTERVAL_CODE,
     SQL_DESC_DATA_PTR}. \<forall>s. a k \<noteq> Some (Str_attr s))"

text \<open>What \<open>reset_data_ptr\<close> leaves.\<close>

definition reset_ptr :: "attrs \<Rightarrow> attrs" where
  "reset_ptr a = (if a SQL_DESC_DATA_PTR = None \<or> a SQL_DESC_DATA_PTR = Some (Int_attr 0)
    then a else a(SQL_DESC_DATA_PTR \<mapsto> Int_attr 0))"

lemma reset_data_ptr_is: "numeric a \<Longrightarrow> reset_data_ptr a = (Inr (), reset_ptr a)"
  using reset_data_ptr_eq[of a] by (simp add: reset_ptr_def numeric_def)

lemma reset_data_ptr_free:
  "numeric a \<Longrightarrow> k \<noteq> SQL_DESC_DATA_PTR \<Longrightarrow> snd (reset_data_ptr a) k = a k"
  by (simp add: reset_data_ptr_is reset_ptr_def)

lemma concise_range: "isConciseDateTimeIntervalType t \<Longrightarrow> - 32768 \<le> t \<and> t < 32768"
  by (auto simp: sql_type_defs split: if_splits)

lemma concise_code:
  assumes "isConciseDateTimeIntervalType t"
  defines "v \<equiv> tryConvertSQLTypeToVerboseType t" and "c \<equiv> convertSQLTypeToDateTimeIntervalCode t"
  shows "convertDateTimeIntervalCodeToSQLType c v = t" "as_int16 v = v" "as_int16 c = c" "c \<noteq> 0"
    "isVerboseType v" "\<not> isConciseDateTimeIntervalType v"
proof -
  have t: "t \<in> {91, 92, 93, 101, 102, 103, 104, 105, 106, 107, 108, 109, 110, 111, 112, 113}"
    using assms(1) by (auto simp: sql_type_defs split: if_splits)
  show "convertDateTimeIntervalCodeToSQLType c v = t" "as_int16 v = v" "as_int16 c = c" "c \<noteq> 0"
      "isVerboseType v" "\<not> isConciseDateTimeIntervalType v"
    using t by (auto simp: v_def c_def sql_type_defs)
qed

lemma set_type_verbose:
  assumes "numeric a" "a SQL_DESC_DATETIME_INTERVAL_CODE = Some (Int_attr c)" "as_int16 c = c" "c \<noteq> 0"
    "isVerboseType v" "\<not> isConciseDateTimeIntervalType v" "as_int16 v = v"
    "a SQL_DESC_CONCISE_TYPE = Some (Int_attr (convertDateTimeIntervalCodeToSQLType c v))"
  shows "\<exists>a'. set_type v a = (Inr (), a') \<and> a' SQL_DESC_TYPE = Some (Int_attr v)
    \<and> (\<forall>k. k \<notin> detail_attrs \<union> {SQL_DESC_TYPE, SQL_DESC_DATA_PTR} \<longrightarrow> a' k = a k) \<and> numeric a'"
proof (cases "a SQL_DESC_TYPE = Some (Int_attr v)")
  case True
  then show ?thesis using assms(1) by (auto simp: set_type_def setAttr_alt)
next
  case False
  let ?b = "a(SQL_DESC_TYPE \<mapsto> Int_attr v)"
  let ?d = "if a SQL_DESC_DATA_PTR = None \<or> a SQL_DESC_DATA_PTR = Some (Int_attr 0)
      then ?b else ?b(SQL_DESC_DATA_PTR \<mapsto> Int_attr 0)"
  have b: "?b(SQL_DESC_CONCISE_TYPE \<mapsto> Int_attr (convertDateTimeIntervalCodeToSQLType c v)) = ?b"
    using assms(8) by auto
  have r: "reset_data_ptr ?b = (Inr (), ?d)"
    using assms(1) reset_data_ptr_eq[of ?b] by (simp add: numeric_def)
  have "?d SQL_DESC_DATETIME_INTERVAL_CODE = Some (Int_attr c)" using assms(2) by simp
  then obtain a' where a': "type_defaults v ?d = (Inr (), a')" "\<And>k. k \<notin> detail_attrs \<Longrightarrow> a' k = ?d k"
    using type_defaults_frame[of ?d c v] by blast
  have g: "getAttrAs as_int16 SQL_DESC_TYPE 0 ?b = Inr v"
      "getAttrAs as_int16 SQL_DESC_DATETIME_INTERVAL_CODE 0 ?b = Inr c"
    using assms(2,3,7) by simp_all
  have "on_type ?b = (Inr (), a')"
    using assms(4-6) r a'(1) b g
    by (simp add: on_type_def op_bind_def op_then_def op_get_def op_when_def op_silent_def
        setAttrSilent_def del: fun_upd_apply)
  then have "set_type v a = (Inr (), a')" using False by (simp add: set_type_def setAttr_alt)
  moreover have "numeric a'" using a'(2) assms(1) by (auto simp: numeric_def detail_attrs_def)
  moreover have "a' SQL_DESC_TYPE = Some (Int_attr v)" using a'(2) by (simp add: detail_attrs_def)
  moreover have "a' k = a k" if "k \<notin> detail_attrs \<union> {SQL_DESC_TYPE, SQL_DESC_DATA_PTR}" for k
    using that a'(2)[of k] by auto
  ultimately show ?thesis by blast
qed

lemma set_concise_datetime:
  assumes num: "numeric a" and t: "isConciseDateTimeIntervalType t"
    and new: "a SQL_DESC_CONCISE_TYPE \<noteq> Some (Int_attr t)"
  shows "\<exists>a'. set_attr SQL_DESC_CONCISE_TYPE t a = (Inr (), a')
    \<and> a' SQL_DESC_CONCISE_TYPE = Some (Int_attr t)
    \<and> a' SQL_DESC_TYPE = Some (Int_attr (tryConvertSQLTypeToVerboseType t))
    \<and> a' SQL_DESC_DATETIME_INTERVAL_CODE = Some (Int_attr (convertSQLTypeToDateTimeIntervalCode t))
    \<and> a' SQL_DESC_DATA_PTR \<in> {None, Some (Int_attr 0)} \<and> numeric a'"
proof -
  let ?v = "tryConvertSQLTypeToVerboseType t" and ?c = "convertSQLTypeToDateTimeIntervalCode t"
  let ?b = "a(SQL_DESC_CONCISE_TYPE \<mapsto> Int_attr t)"
  let ?d = "?b(SQL_DESC_DATETIME_INTERVAL_CODE \<mapsto> Int_attr ?c)"
  have "numeric ?d" using num by (simp add: numeric_def)
  then obtain e where e: "set_type ?v ?d = (Inr (), e)" "e SQL_DESC_TYPE = Some (Int_attr ?v)"
      "\<And>k. k \<notin> detail_attrs \<union> {SQL_DESC_TYPE, SQL_DESC_DATA_PTR} \<Longrightarrow> e k = ?d k" "numeric e"
    using set_type_verbose[of ?d ?c ?v] concise_code[OF t] by auto
  let ?f = "if e SQL_DESC_DATA_PTR = None \<or> e SQL_DESC_DATA_PTR = Some (Int_attr 0)
      then e else e(SQL_DESC_DATA_PTR \<mapsto> Int_attr 0)"
  have "reset_data_ptr e = (Inr (), ?f)" using e(4) reset_data_ptr_eq[of e] by (simp add: numeric_def)
  then have "on_concise_type ?b = (Inr (), ?f)"
    using e(1) t concise_range[OF t]
    by (simp add: on_concise_type_def op_bind_def op_then_def op_get_def op_silent_def setAttrSilent_def)
  then have "set_attr SQL_DESC_CONCISE_TYPE t a = (Inr (), ?f)"
    using new by (simp add: set_attr_def setAttr_alt onAttrChange_def)
  moreover have "numeric ?f" using e(4) by (simp add: numeric_def)
  ultimately show ?thesis using e(2,3) by (simp add: detail_attrs_def)
qed

text \<open>Setting the concise type of a record to a date-time or interval type it did not have makes
  the three type fields agree: the type is its verbose type, the code its interval code, the concise type
  the value set; the data pointer is unbound.\<close>

theorem set_concise_type_consistent:
  assumes num: "numeric a" and t: "isConciseDateTimeIntervalType t"
    and new: "a SQL_DESC_CONCISE_TYPE \<noteq> Some (Int_attr t)"
  shows "\<exists>a'. set_attr SQL_DESC_CONCISE_TYPE t a = (Inr (), a')
    \<and> a' SQL_DESC_CONCISE_TYPE = Some (Int_attr t)
    \<and> a' SQL_DESC_TYPE = Some (Int_attr (tryConvertSQLTypeToVerboseType t))
    \<and> a' SQL_DESC_DATETIME_INTERVAL_CODE = Some (Int_attr (convertSQLTypeToDateTimeIntervalCode t))
    \<and> a' SQL_DESC_DATA_PTR \<in> {None, Some (Int_attr 0)}"
  using set_concise_datetime[OF num t new] by blast

theorem set_concise_type_consistent_witness:
  "\<exists>a'. set_attr SQL_DESC_CONCISE_TYPE SQL_TYPE_TIMESTAMP [SQL_DESC_DATA_PTR \<mapsto> Int_attr 4096] = (Inr (), a')
    \<and> a' SQL_DESC_CONCISE_TYPE = Some (Int_attr SQL_TYPE_TIMESTAMP)
    \<and> a' SQL_DESC_TYPE = Some (Int_attr (tryConvertSQLTypeToVerboseType SQL_TYPE_TIMESTAMP))
    \<and> a' SQL_DESC_DATETIME_INTERVAL_CODE
        = Some (Int_attr (convertSQLTypeToDateTimeIntervalCode SQL_TYPE_TIMESTAMP))
    \<and> a' SQL_DESC_DATA_PTR \<in> {None, Some (Int_attr 0)}"
  by (rule set_concise_type_consistent) (simp_all add: numeric_def sql_type_defs)

text \<open>Setting SQL_DESC_TYPE to a concise date-time or interval type is refused with HY021, but the
  record keeps the refused type and the concise type it had: the fields disagree after the error.\<close>

theorem refused_type_is_kept:
  assumes "isConciseDateTimeIntervalType t" "a SQL_DESC_TYPE \<noteq> Some (Int_attr t)"
  shows "set_attr SQL_DESC_TYPE t a =
    (Inl (SqlException ''Inconsistent descriptor information'' ''HY021''), a(SQL_DESC_TYPE \<mapsto> Int_attr t))"
  using assms concise_range[OF assms(1)]
  by (simp add: set_attr_def setAttr_alt onAttrChange_def on_type_def op_bind_def op_then_def op_get_def
      op_throw_def)

theorem refused_type_is_kept_witness:
  "set_attr SQL_DESC_TYPE SQL_TYPE_DATE [SQL_DESC_TYPE \<mapsto> Int_attr SQL_INTEGER] =
    (Inl (SqlException ''Inconsistent descriptor information'' ''HY021''),
     [SQL_DESC_TYPE \<mapsto> Int_attr SQL_TYPE_DATE])"
  using refused_type_is_kept[of SQL_TYPE_DATE "[SQL_DESC_TYPE \<mapsto> Int_attr SQL_INTEGER]"]
  by (simp add: sql_type_defs)

text \<open>The precision SQL_TYPE_TIMESTAMP brings (6) is set only when the verbose type changes: a
  record that was a date or time keeps the precision of that type.\<close>

theorem timestamp_precision_depends_on_history:
  assumes "numeric a" "a SQL_DESC_CONCISE_TYPE \<noteq> Some (Int_attr SQL_TYPE_TIMESTAMP)"
  shows "snd (set_attr SQL_DESC_CONCISE_TYPE SQL_TYPE_TIMESTAMP a) SQL_DESC_PRECISION =
    (if a SQL_DESC_TYPE = Some (Int_attr SQL_DATETIME) then a SQL_DESC_PRECISION else Some (Int_attr 6))"
proof -
  let ?d = "a(SQL_DESC_CONCISE_TYPE \<mapsto> Int_attr SQL_TYPE_TIMESTAMP,
      SQL_DESC_DATETIME_INTERVAL_CODE \<mapsto> Int_attr SQL_CODE_TIMESTAMP)"
  have c: "isConciseDateTimeIntervalType SQL_TYPE_TIMESTAMP"
      "tryConvertSQLTypeToVerboseType SQL_TYPE_TIMESTAMP = SQL_DATETIME"
      "convertSQLTypeToDateTimeIntervalCode SQL_TYPE_TIMESTAMP = SQL_CODE_TIMESTAMP"
      "convertDateTimeIntervalCodeToSQLType SQL_CODE_TIMESTAMP SQL_DATETIME = SQL_TYPE_TIMESTAMP"
      "isVerboseType SQL_DATETIME" "\<not> isConciseDateTimeIntervalType SQL_DATETIME"
    by (simp_all add: sql_type_defs)
  have num: "numeric ?d" "numeric (?d(SQL_DESC_TYPE \<mapsto> Int_attr SQL_DATETIME))"
    using assms(1) by (simp_all add: numeric_def)
  have "getAttrAs as_int16 SQL_DESC_CONCISE_TYPE 0 (a(SQL_DESC_CONCISE_TYPE \<mapsto> Int_attr SQL_TYPE_TIMESTAMP))
      = Inr SQL_TYPE_TIMESTAMP" by simp
  then have whole: "set_attr SQL_DESC_CONCISE_TYPE SQL_TYPE_TIMESTAMP a
      = op_then (set_type SQL_DATETIME) reset_data_ptr ?d"
    using assms(2) c by (simp add: set_attr_def setAttr_alt onAttrChange_def on_concise_type_def
        op_bind_def op_then_def op_get_def op_silent_def setAttrSilent_def del: fun_upd_apply)
  show ?thesis
  proof (cases "a SQL_DESC_TYPE = Some (Int_attr SQL_DATETIME)")
    case True
    then show ?thesis using whole num(1)
      by (simp add: op_then_def op_bind_def set_type_def setAttr_alt reset_data_ptr_free)
  next
    case False
    let ?t = "?d(SQL_DESC_TYPE \<mapsto> Int_attr SQL_DATETIME)"
    have u: "?t(SQL_DESC_CONCISE_TYPE \<mapsto> Int_attr SQL_TYPE_TIMESTAMP) = ?t" by auto
    have g: "getAttrAs as_int16 SQL_DESC_TYPE 0 ?t = Inr SQL_DATETIME"
        "getAttrAs as_int16 SQL_DESC_DATETIME_INTERVAL_CODE 0 ?t = Inr SQL_CODE_TIMESTAMP"
        "getAttrAs as_int16 SQL_DESC_DATETIME_INTERVAL_CODE 0 (reset_ptr ?t) = Inr SQL_CODE_TIMESTAMP"
      by (simp_all add: reset_ptr_def)
    have "on_type ?t = (Inr (), (reset_ptr ?t)(SQL_DESC_PRECISION \<mapsto> Int_attr 6))"
      using c g u num(2) by (simp add: on_type_def type_defaults_def op_bind_def op_then_def op_get_def
          op_when_def op_silent_def setAttrSilent_def reset_data_ptr_is del: fun_upd_apply)
    moreover have "numeric ((reset_ptr ?t)(SQL_DESC_PRECISION \<mapsto> Int_attr 6))"
      using num(2) by (simp add: numeric_def reset_ptr_def)
    ultimately show ?thesis using whole False
      by (simp add: op_then_def op_bind_def set_type_def setAttr_alt reset_data_ptr_free)
  qed
qed

theorem timestamp_precision_depends_on_history_witness:
  "snd (set_attr SQL_DESC_CONCISE_TYPE SQL_TYPE_TIMESTAMP
     [SQL_DESC_TYPE \<mapsto> Int_attr SQL_DATETIME, SQL_DESC_PRECISION \<mapsto> Int_attr 0]) SQL_DESC_PRECISION
    = Some (Int_attr 0)"
  using timestamp_precision_depends_on_history
    [of "[SQL_DESC_TYPE \<mapsto> Int_attr SQL_DATETIME, SQL_DESC_PRECISION \<mapsto> Int_attr 0]"]
  by (simp add: numeric_def)

end
