(* ===== verification/Binding.thy ===== *)
theory Binding
  imports Descriptor
begin

text \<open>
  SQLBindCol and SQLBindParameter (\<open>BindCol\<close>, \<open>BindParameter\<close> of driver/api/impl/impl.cpp)
  on the effective descriptors of a statement. An application pointer is an integer, \<open>nullptr\<close>
  is 0. An exception leaves the descriptors as they are when it is thrown, so every step returns
  them with its result.
\<close>

section \<open>Steps on a descriptor\<close>

type_synonym 'a desc_op = "descriptor \<Rightarrow> 'a result \<times> descriptor"

text \<open>An operation on the record that \<open>getRecord\<close> returned a reference to.\<close>

definition on_record :: "nat \<Rightarrow> 'a attr_op \<Rightarrow> 'a desc_op" where
  "on_record num m d =
     (let (r, a) = m (desc_records d ! num) in
      (r, d\<lparr>desc_records := (desc_records d)[num := a]\<rparr>))"

definition getCTypeOctetLength :: "SQLSMALLINT \<Rightarrow> int result" where
  "getCTypeOctetLength ct =
     (if ct = SQL_C_BIT then Inr 1
      else if ct = SQL_C_TINYINT then Inr 1
      else if ct = SQL_C_STINYINT then Inr 1
      else if ct = SQL_C_UTINYINT then Inr 1
      else if ct = SQL_C_SHORT then Inr 2
      else if ct = SQL_C_SSHORT then Inr 2
      else if ct = SQL_C_USHORT then Inr 2
      else if ct = SQL_C_LONG then Inr 4
      else if ct = SQL_C_SLONG then Inr 4
      else if ct = SQL_C_ULONG then Inr 4
      else if ct = SQL_C_SBIGINT then Inr 8
      else if ct = SQL_C_UBIGINT then Inr 8
      else if ct = SQL_C_FLOAT then Inr 4
      else if ct = SQL_C_DOUBLE then Inr 8
      else if ct = SQL_C_GUID then Inr 16
      else if ct = SQL_C_NUMERIC then Inr 19
      else if ct \<in> {SQL_C_DATE, SQL_C_TYPE_DATE} then Inr 6
      else if ct \<in> {SQL_C_TIME, SQL_C_TYPE_TIME} then Inr 6
      else if ct \<in> {SQL_C_TIMESTAMP, SQL_C_TYPE_TIMESTAMP} then Inr 16
      else Inl (Runtime_Error ''Unable to determine octet length of C data type''))"

definition op_result :: "'a result \<Rightarrow> 'a attr_op" where
  "op_result r a = (r, a)"

text \<open>Whether a record has any of the three pointers set.\<close>

definition is_bound :: "attrs \<Rightarrow> bool result" where
  "is_bound a =
     bind_result (getAttrAs id SQL_DESC_DATA_PTR 0 a) (\<lambda>p.
     if p \<noteq> 0 then Inr True else
     bind_result (getAttrAs id SQL_DESC_OCTET_LENGTH_PTR 0 a) (\<lambda>q.
     if q \<noteq> 0 then Inr True else
     bind_result (getAttrAs id SQL_DESC_INDICATOR_PTR 0 a) (\<lambda>i. Inr (i \<noteq> 0))))"

text \<open>The loop that looks for the highest bound record at or below \<open>n\<close>.\<close>

fun highest_bound :: "int \<Rightarrow> nat \<Rightarrow> descriptor \<Rightarrow> nat result \<times> descriptor" where
  "highest_bound role 0 d = (Inr 0, d)"
| "highest_bound role (Suc n) d =
     (case getRecord (Suc n) role d of
        Inl e \<Rightarrow> (Inl e, d)
      | Inr d' \<Rightarrow>
          (case is_bound (desc_records d' ! Suc n) of
             Inl e \<Rightarrow> (Inl e, d')
           | Inr True \<Rightarrow> (Inr (Suc n), d')
           | Inr False \<Rightarrow> highest_bound role n d'))"

text \<open>\<open>if\<close> the record to unbind is the highest: lower the count to the highest record still bound.\<close>

definition unbind_highest :: "int \<Rightarrow> nat \<Rightarrow> nat \<Rightarrow> unit desc_op" where
  "unbind_highest role num record_count d =
     (case highest_bound role (min record_count (num - 1)) d of
        (Inl e, d') \<Rightarrow> (Inl e, d')
      | (Inr n, d') \<Rightarrow> (Inr (), set_desc_attr SQL_DESC_COUNT (int n) d'))"

section \<open>SQLBindCol\<close>

definition bind_col_record :: "SQLSMALLINT \<Rightarrow> int \<Rightarrow> SQLLEN \<Rightarrow> int \<Rightarrow> unit attr_op" where
  "bind_col_record TargetType TargetValuePtr BufferLength StrLen_or_Ind =
     op_then (set_attr SQL_DESC_CONCISE_TYPE TargetType)
     (op_then
       (if TargetType \<in> {SQL_C_CHAR, SQL_C_WCHAR, SQL_C_BINARY} then
          if BufferLength < 0 then op_throw (SqlException ''Invalid string or buffer length'' ''HY090'')
          else op_then (set_attr SQL_DESC_LENGTH BufferLength) (set_attr SQL_DESC_OCTET_LENGTH BufferLength)
        else op_bind (op_result (getCTypeOctetLength TargetType)) (set_attr SQL_DESC_OCTET_LENGTH))
     (op_then (set_attr SQL_DESC_OCTET_LENGTH_PTR StrLen_or_Ind)
     (op_then (set_attr SQL_DESC_INDICATOR_PTR StrLen_or_Ind)
              (set_attr SQL_DESC_DATA_PTR TargetValuePtr))))"

text \<open>The body of \<open>BindCol\<close> on the effective ARD; \<open>column_offsets\<close> is the map SQLGetData keeps.\<close>

record col_state =
  ard_desc :: descriptor
  column_offsets :: "nat \<Rightarrow> nat option"

definition BindCol_desc :: "nat \<Rightarrow> SQLSMALLINT \<Rightarrow> int \<Rightarrow> SQLLEN \<Rightarrow> int \<Rightarrow> unit desc_op" where
  "BindCol_desc ColumnNumber TargetType TargetValuePtr BufferLength StrLen_or_Ind d =
     (case getRecordCount d of
        Inl e \<Rightarrow> (Inl e, d)
      | Inr ard_record_count \<Rightarrow>
          if TargetValuePtr = 0 \<and> StrLen_or_Ind = 0 \<and> ard_record_count \<le> ColumnNumber
          then unbind_highest SQL_ATTR_APP_ROW_DESC ColumnNumber ard_record_count d
          else
            (case getRecord ColumnNumber SQL_ATTR_APP_ROW_DESC d of
               Inl e \<Rightarrow> (Inl e, d)
             | Inr d1 \<Rightarrow>
                 (case on_record ColumnNumber
                    (bind_col_record TargetType TargetValuePtr BufferLength StrLen_or_Ind) d1 of
                    (Inl e, d2) \<Rightarrow> (Inl e, set_desc_attr SQL_DESC_COUNT (as_int64 (int ard_record_count)) d2)
                  | (Inr _, d2) \<Rightarrow> (Inr (), d2))))"

definition BindCol :: "nat \<Rightarrow> SQLSMALLINT \<Rightarrow> int \<Rightarrow> SQLLEN \<Rightarrow> int \<Rightarrow> col_state \<Rightarrow> unit result \<times> col_state" where
  "BindCol ColumnNumber TargetType TargetValuePtr BufferLength StrLen_or_Ind st =
     (if ColumnNumber < 1 then (Inl (SqlException ''Invalid descriptor index'' ''07009''), st)
      else
        (let (r, d) = BindCol_desc ColumnNumber TargetType TargetValuePtr BufferLength StrLen_or_Ind (ard_desc st) in
         (r, \<lparr>ard_desc = d, column_offsets = Map.empty\<rparr>)))"

section \<open>SQLBindParameter\<close>

record param_state =
  apd_desc :: descriptor
  ipd_desc :: descriptor

type_synonym param_op = "param_state \<Rightarrow> unit result \<times> param_state"

definition then_param :: "param_op \<Rightarrow> param_op \<Rightarrow> param_op" where
  "then_param m k st = (case m st of (Inl e, st') \<Rightarrow> (Inl e, st') | (Inr _, st') \<Rightarrow> k st')"

definition on_apd :: "nat \<Rightarrow> unit attr_op \<Rightarrow> param_op" where
  "on_apd num m st = (let (r, d) = on_record num m (apd_desc st) in (r, st\<lparr>apd_desc := d\<rparr>))"

definition on_ipd :: "nat \<Rightarrow> unit attr_op \<Rightarrow> param_op" where
  "on_ipd num m st = (let (r, d) = on_record num m (ipd_desc st) in (r, st\<lparr>ipd_desc := d\<rparr>))"

text \<open>The three \<open>switch\<close> statements of \<open>BindParameter\<close>.\<close>

definition column_size_attr :: "SQLSMALLINT \<Rightarrow> int \<Rightarrow> unit attr_op" where
  "column_size_attr parameter_type col_size =
     (if parameter_type \<in> {SQL_CHAR, SQL_WCHAR, SQL_VARCHAR, SQL_WVARCHAR, SQL_LONGVARCHAR,
           SQL_WLONGVARCHAR, SQL_BINARY, SQL_VARBINARY, SQL_LONGVARBINARY, SQL_TYPE_DATE, SQL_TYPE_TIME,
           SQL_TYPE_TIMESTAMP, SQL_INTERVAL_MONTH, SQL_INTERVAL_YEAR, SQL_INTERVAL_YEAR_TO_MONTH,
           SQL_INTERVAL_DAY, SQL_INTERVAL_HOUR, SQL_INTERVAL_MINUTE, SQL_INTERVAL_SECOND,
           SQL_INTERVAL_DAY_TO_HOUR, SQL_INTERVAL_DAY_TO_MINUTE, SQL_INTERVAL_DAY_TO_SECOND,
           SQL_INTERVAL_HOUR_TO_MINUTE, SQL_INTERVAL_HOUR_TO_SECOND, SQL_INTERVAL_MINUTE_TO_SECOND}
      then set_attr SQL_DESC_LENGTH (as_int64 col_size)
      else if parameter_type \<in> {SQL_DECIMAL, SQL_NUMERIC, SQL_FLOAT, SQL_REAL, SQL_DOUBLE}
      then set_attr SQL_DESC_PRECISION (as_int64 col_size)
      else op_return ())"

definition decimal_digits_attr :: "SQLSMALLINT \<Rightarrow> int \<Rightarrow> unit attr_op" where
  "decimal_digits_attr parameter_type decimal_digits =
     (if parameter_type \<in> {SQL_TYPE_TIME, SQL_TYPE_TIMESTAMP, SQL_INTERVAL_SECOND,
           SQL_INTERVAL_DAY_TO_SECOND, SQL_INTERVAL_HOUR_TO_SECOND, SQL_INTERVAL_MINUTE_TO_SECOND}
      then set_attr SQL_DESC_PRECISION decimal_digits
      else if parameter_type \<in> {SQL_NUMERIC, SQL_DECIMAL} then set_attr SQL_DESC_SCALE decimal_digits
      else op_return ())"

definition octet_length_attr :: "SQLSMALLINT \<Rightarrow> SQLLEN \<Rightarrow> unit attr_op" where
  "octet_length_attr parameter_c_type buffer_length =
     (if parameter_c_type \<in> {SQL_C_CHAR, SQL_C_WCHAR, SQL_C_BINARY} then
        if buffer_length < 0 then op_throw (SqlException ''Invalid string or buffer length'' ''HY090'')
        else set_attr SQL_DESC_OCTET_LENGTH buffer_length
      else op_bind (op_result (getCTypeOctetLength parameter_c_type)) (set_attr SQL_DESC_OCTET_LENGTH))"

definition bind_parameter_records ::
  "nat \<Rightarrow> SQLSMALLINT \<Rightarrow> SQLSMALLINT \<Rightarrow> SQLSMALLINT \<Rightarrow> int \<Rightarrow> int \<Rightarrow> int \<Rightarrow> SQLLEN \<Rightarrow> int \<Rightarrow> param_op" where
  "bind_parameter_records num input_output_type value_type parameter_type col_size decimal_digits
      parameter_value_ptr buffer_length StrLen_or_IndPtr =
     then_param (on_ipd num (set_attr SQL_DESC_PARAMETER_TYPE input_output_type))
     (then_param (on_apd num (set_attr SQL_DESC_CONCISE_TYPE
        (if value_type = SQL_C_DEFAULT then convertSQLTypeToCType parameter_type else value_type)))
     (then_param (on_ipd num (set_attr SQL_DESC_CONCISE_TYPE parameter_type))
     (then_param (on_ipd num (column_size_attr parameter_type col_size))
     (then_param (on_ipd num (decimal_digits_attr parameter_type decimal_digits))
     (then_param (on_apd num (octet_length_attr (convertSQLTypeToCType parameter_type) buffer_length))
     (on_apd num
       (op_then (set_attr SQL_DESC_OCTET_LENGTH_PTR StrLen_or_IndPtr)
       (op_then (set_attr SQL_DESC_INDICATOR_PTR StrLen_or_IndPtr)
                (set_attr SQL_DESC_DATA_PTR parameter_value_ptr)))))))))"

definition BindParameter ::
  "nat \<Rightarrow> SQLSMALLINT \<Rightarrow> SQLSMALLINT \<Rightarrow> SQLSMALLINT \<Rightarrow> int \<Rightarrow> int \<Rightarrow> int \<Rightarrow> SQLLEN \<Rightarrow> int \<Rightarrow> param_op" where
  "BindParameter num input_output_type value_type parameter_type col_size decimal_digits
      parameter_value_ptr buffer_length StrLen_or_IndPtr st =
     (if num < 1 then (Inl (SqlException ''Invalid descriptor index'' ''07009''), st)
      else
        (case (getRecordCount (apd_desc st), getRecordCount (ipd_desc st)) of
           (Inl e, _) \<Rightarrow> (Inl e, st)
         | (Inr _, Inl e) \<Rightarrow> (Inl e, st)
         | (Inr apd_record_count, Inr ipd_record_count) \<Rightarrow>
             if parameter_value_ptr = 0 \<and> StrLen_or_IndPtr = 0 \<and> apd_record_count \<le> num then
               (let (r, d) = unbind_highest SQL_ATTR_APP_PARAM_DESC num apd_record_count (apd_desc st) in
                (r, st\<lparr>apd_desc := d\<rparr>))
             else
               (case getRecord num SQL_ATTR_APP_PARAM_DESC (apd_desc st) of
                  Inl e \<Rightarrow> (Inl e, st)
                | Inr apd1 \<Rightarrow>
                    (case getRecord num SQL_ATTR_IMP_PARAM_DESC (ipd_desc st) of
                       Inl e \<Rightarrow> (Inl e, st\<lparr>apd_desc := apd1\<rparr>)
                     | Inr ipd1 \<Rightarrow>
                         (case bind_parameter_records num input_output_type value_type parameter_type
                            col_size decimal_digits parameter_value_ptr buffer_length StrLen_or_IndPtr
                            \<lparr>apd_desc = apd1, ipd_desc = ipd1\<rparr> of
                            (Inl e, st') \<Rightarrow>
                              (Inl e, \<lparr>apd_desc = set_desc_attr SQL_DESC_COUNT (as_int64 (int apd_record_count)) (apd_desc st'),
                                       ipd_desc = set_desc_attr SQL_DESC_COUNT (as_int64 (int ipd_record_count)) (ipd_desc st')\<rparr>)
                          | (Inr _, st') \<Rightarrow> (Inr (), st'))))))"

section \<open>Frames\<close>

lemma set_attr_free [simp]:
  "set_attr SQL_DESC_LENGTH v a = (Inr (), a(SQL_DESC_LENGTH \<mapsto> Int_attr v))"
  "set_attr SQL_DESC_OCTET_LENGTH v a = (Inr (), a(SQL_DESC_OCTET_LENGTH \<mapsto> Int_attr v))"
  "set_attr SQL_DESC_OCTET_LENGTH_PTR v a = (Inr (), a(SQL_DESC_OCTET_LENGTH_PTR \<mapsto> Int_attr v))"
  "set_attr SQL_DESC_INDICATOR_PTR v a = (Inr (), a(SQL_DESC_INDICATOR_PTR \<mapsto> Int_attr v))"
  "set_attr SQL_DESC_PARAMETER_TYPE v a = (Inr (), a(SQL_DESC_PARAMETER_TYPE \<mapsto> Int_attr v))"
  "set_attr SQL_DESC_PRECISION v a = (Inr (), a(SQL_DESC_PRECISION \<mapsto> Int_attr v))"
  "set_attr SQL_DESC_SCALE v a = (Inr (), a(SQL_DESC_SCALE \<mapsto> Int_attr v))"
  by (rule fst_set_attr_plain; simp)+

lemma set_attr_data_ptr [simp]:
  "set_attr SQL_DESC_DATA_PTR v a = (Inr (), a(SQL_DESC_DATA_PTR \<mapsto> Int_attr v))"
  by (auto simp: set_attr_def setAttr_alt onAttrChange_def on_data_ptr_def consistencyCheck_def op_bind_def
      op_get_def op_when_def op_return_def)

lemma on_record_facts:
  assumes "on_record num m d = (r, d')"
  shows "desc_count d' = desc_count d" "length (desc_records d') = length (desc_records d)"
    "i \<noteq> num \<Longrightarrow> desc_records d' ! i = desc_records d ! i" "desc_ok d' \<longleftrightarrow> desc_ok d"
    "desc_attrs d' = desc_attrs d"
    "num < length (desc_records d) \<Longrightarrow> (r, desc_records d' ! num) = m (desc_records d ! num)"
  using assms by (auto simp: on_record_def desc_count_def desc_ok_def split: prod.splits)

lemma set_count_ok:
  assumes "desc_ok d" "n \<le> desc_count d"
  shows "desc_ok (set_desc_attr SQL_DESC_COUNT (as_int64 (int n)) d)"
    "desc_count (set_desc_attr SQL_DESC_COUNT (as_int64 (int n)) d) = n"
proof -
  have n: "n < desc_limit" using assms by (auto simp: desc_ok_def desc_count_def desc_limit_def)
  then show c: "desc_count (set_desc_attr SQL_DESC_COUNT (as_int64 (int n)) d) = n"
    by (simp add: desc_count_def desc_limit_def)
  show "desc_ok (set_desc_attr SQL_DESC_COUNT (as_int64 (int n)) d)"
    using n assms c by (auto simp: desc_ok_def desc_limit_def)
qed

text \<open>When BindCol throws after it has looked up the record, the number of bound columns is what it
  was and every other column's record is untouched.\<close>

theorem BindCol_error_restores_count:
  assumes ok: "desc_ok (ard_desc st)" and num: "1 \<le> num" "num < desc_limit"
    and err: "BindCol num ty ptr len ind st = (Inl e, st')" and bind: "ptr \<noteq> 0 \<or> ind \<noteq> 0"
  shows "desc_ok (ard_desc st') \<and> desc_count (ard_desc st') = desc_count (ard_desc st)
    \<and> (\<forall>i. 1 \<le> i \<longrightarrow> i \<le> desc_count (ard_desc st) \<longrightarrow> i \<noteq> num
          \<longrightarrow> desc_records (ard_desc st') ! i = desc_records (ard_desc st) ! i)"
proof -
  let ?d = "ard_desc st" and ?g = "desc_get SQL_ATTR_APP_ROW_DESC num (ard_desc st)"
  note g = desc_get_facts[OF ok num(2) role_simps(1)]
  obtain r d2 where m: "on_record num (bind_col_record ty ptr len ind) ?g = (r, d2)" by fastforce
  note f = on_record_facts[OF m]
  have st': "ard_desc st' = set_desc_attr SQL_DESC_COUNT (as_int64 (int (desc_count ?d))) d2"
    using err bind num m ok
    by (auto simp: BindCol_def BindCol_desc_def getRecordCount_ok getRecord_get split: sum.splits)
  have "desc_ok d2" "desc_count ?d \<le> desc_count d2" using f(1,4) g(1,2) by auto
  then show ?thesis using set_count_ok[of d2 "desc_count ?d"] f(3) g(4) st' by simp
qed

theorem BindCol_error_restores_count_witness:
  "\<exists>st'. BindCol 2 SQL_C_CHAR 4096 (- 1) 0 \<lparr>ard_desc = new_Descriptor, column_offsets = Map.empty\<rparr>
     = (Inl (SqlException ''Invalid string or buffer length'' ''HY090''), st')
    \<and> desc_count (ard_desc st') = 0"
proof -
  let ?st = "\<lparr>ard_desc = new_Descriptor, column_offsets = Map.empty\<rparr>"
  obtain r st' where st': "BindCol 2 SQL_C_CHAR 4096 (- 1) 0 ?st = (r, st')" by fastforce
  let ?g = "desc_get SQL_ATTR_APP_ROW_DESC 2 new_Descriptor"
  have rec: "desc_records ?g ! 2 = init_rec SQL_ATTR_APP_ROW_DESC Map.empty"
    using desc_get_facts(5)[OF desc_ok_new, of 2 SQL_ATTR_APP_ROW_DESC 2]
    by (simp add: desc_limit_def new_Descriptor_def desc_count_def)
  have "set_attr SQL_DESC_CONCISE_TYPE SQL_C_CHAR (init_rec SQL_ATTR_APP_ROW_DESC Map.empty) =
      (Inr (), snd (set_attr SQL_DESC_CONCISE_TYPE SQL_C_CHAR (init_rec SQL_ATTR_APP_ROW_DESC Map.empty)))"
    by (simp add: init_rec_def initAsDescRec_def initAsADRec_is op_defs onAttrChange_def
        on_concise_type_def set_type_def on_type_def type_defaults_def sql_type_defs getAttrAs_def)
  then have "r = Inl (SqlException ''Invalid string or buffer length'' ''HY090'')"
    using st' rec by (auto simp: BindCol_def BindCol_desc_def getRecordCount_ok getRecord_get desc_limit_def
        on_record_def bind_col_record_def op_then_def op_bind_def op_throw_def split: prod.splits sum.splits)
  then show ?thesis
    using BindCol_error_restores_count[of ?st 2 SQL_C_CHAR 4096 "- 1" 0] st'
    by (simp add: desc_limit_def) (simp add: new_Descriptor_def desc_count_def)
qed

section \<open>Binding succeeds\<close>

lemma op_then_Inr: "m a = (Inr x, b) \<Longrightarrow> op_then m k a = k b"
  by (simp add: op_then_def op_bind_def)

lemma op_bind_Inr: "m a = (Inr x, b) \<Longrightarrow> op_bind m k a = k x b"
  by (simp add: op_bind_def)

lemma op_silent_eq: "op_silent k v a = (Inr (), a(k \<mapsto> Int_attr v))"
  by (simp add: op_silent_def setAttrSilent_def)

lemma numeric_upd [simp]: "numeric a \<Longrightarrow> numeric (a(k \<mapsto> Int_attr v))"
  by (simp add: numeric_def)

lemma numeric_reset_ptr [simp]: "numeric a \<Longrightarrow> numeric (reset_ptr a)"
  by (simp add: reset_ptr_def)

lemma reset_ptr_free [simp]: "k \<noteq> SQL_DESC_DATA_PTR \<Longrightarrow> reset_ptr a k = a k"
  by (simp add: reset_ptr_def)

lemma set_type_other:
  assumes num: "numeric a" and t: "\<not> isConciseDateTimeIntervalType t" "\<not> isVerboseType t"
    "- 32768 \<le> t" "t < 32768" and cur: "a SQL_DESC_CONCISE_TYPE = Some (Int_attr t)"
  shows "\<exists>b. set_type t a = (Inr (), b) \<and> numeric b \<and> b SQL_DESC_CONCISE_TYPE = Some (Int_attr t)"
proof (cases "a SQL_DESC_TYPE = Some (Int_attr t)")
  case True
  then show ?thesis using num cur by (simp add: set_type_def setAttr_alt)
next
  case False
  let ?a = "a(SQL_DESC_TYPE \<mapsto> Int_attr t)"
  let ?c = "reset_ptr (?a(SQL_DESC_CONCISE_TYPE \<mapsto> Int_attr t, SQL_DESC_DATETIME_INTERVAL_CODE \<mapsto> Int_attr 0))"
  have "?c SQL_DESC_DATETIME_INTERVAL_CODE = Some (Int_attr 0)" by simp
  then obtain b where b: "type_defaults t ?c = (Inr (), b)" "\<And>k. k \<notin> detail_attrs \<Longrightarrow> b k = ?c k"
    using type_defaults_frame[of ?c 0 t] by blast
  have "on_type ?a = (Inr (), b)"
    unfolding on_type_def using t num b(1)
    by (simp add: op_bind_Inr[of "op_get as_int16 SQL_DESC_TYPE 0" _ t] op_get_def op_then_def op_bind_def
        op_silent_eq reset_data_ptr_is)
  moreover have "numeric b"
    using b(2) num numeric_reset_ptr[of "?a(SQL_DESC_CONCISE_TYPE \<mapsto> Int_attr t, SQL_DESC_DATETIME_INTERVAL_CODE \<mapsto> Int_attr 0)"]
    by (simp add: numeric_def detail_attrs_def)
  moreover have "b SQL_DESC_CONCISE_TYPE = Some (Int_attr t)"
    using b(2)[of SQL_DESC_CONCISE_TYPE] by (simp add: detail_attrs_def)
  ultimately show ?thesis using False by (simp add: set_type_def setAttr_alt)
qed

lemma set_concise_returns:
  assumes num: "numeric a" and t: "- 32768 \<le> t" "t < 32768"
  shows "\<exists>b. set_attr SQL_DESC_CONCISE_TYPE t a = (Inr (), b) \<and> numeric b
    \<and> b SQL_DESC_CONCISE_TYPE = Some (Int_attr t)"
proof (cases "a SQL_DESC_CONCISE_TYPE = Some (Int_attr t)")
  case True
  then show ?thesis using num by (simp add: set_attr_def setAttr_alt)
next
  case new: False
  let ?a = "a(SQL_DESC_CONCISE_TYPE \<mapsto> Int_attr t)"
  have g: "getAttrAs as_int16 SQL_DESC_CONCISE_TYPE 0 ?a = Inr t" using t by simp
  show ?thesis
  proof (cases "isConciseDateTimeIntervalType t \<or> isVerboseType t")
    case True
    then show ?thesis
    proof
      assume "isConciseDateTimeIntervalType t"
      then show ?thesis using set_concise_datetime[OF num _ new] by blast
    next
      assume "isVerboseType t"
      then have "\<not> isConciseDateTimeIntervalType t" by (simp add: isConciseDateTimeIntervalType_def)
      then show ?thesis using new num g \<open>isVerboseType t\<close>
        by (simp add: set_attr_def setAttr_alt onAttrChange_def on_concise_type_def op_bind_def op_get_def
            op_return_def del: fun_upd_apply) simp
    qed
  next
    case False
    obtain b where b: "set_type t (?a(SQL_DESC_DATETIME_INTERVAL_CODE \<mapsto> Int_attr 0)) = (Inr (), b)"
        "numeric b" "b SQL_DESC_CONCISE_TYPE = Some (Int_attr t)"
      using set_type_other[of "?a(SQL_DESC_DATETIME_INTERVAL_CODE \<mapsto> Int_attr 0)" t] num t False by auto
    have "set_attr SQL_DESC_CONCISE_TYPE t a = (Inr (), reset_ptr b)"
      using new False g b(1,2)
      by (simp add: set_attr_def setAttr_alt onAttrChange_def on_concise_type_def op_bind_def op_then_def
          op_get_def op_silent_eq reset_data_ptr_is del: fun_upd_apply)
    then show ?thesis using b by simp
  qed
qed

text \<open>What a bound column's record holds; the sizes of the fixed C types are those of the ODBC
  structures.\<close>

definition column_bound :: "SQLSMALLINT \<Rightarrow> int \<Rightarrow> SQLLEN \<Rightarrow> int \<Rightarrow> attrs \<Rightarrow> bool" where
  "column_bound ty ptr len ind a \<longleftrightarrow>
     a SQL_DESC_CONCISE_TYPE = Some (Int_attr ty) \<and> a SQL_DESC_DATA_PTR = Some (Int_attr ptr)
     \<and> a SQL_DESC_OCTET_LENGTH_PTR = Some (Int_attr ind) \<and> a SQL_DESC_INDICATOR_PTR = Some (Int_attr ind)
     \<and> a SQL_DESC_OCTET_LENGTH = Some (Int_attr
          (if ty \<in> {SQL_C_CHAR, SQL_C_WCHAR, SQL_C_BINARY} then len
           else (case getCTypeOctetLength ty of Inr n \<Rightarrow> n | Inl _ \<Rightarrow> 0)))"

definition bindable :: "SQLSMALLINT \<Rightarrow> SQLLEN \<Rightarrow> bool" where
  "bindable ty len \<longleftrightarrow>
     (if ty \<in> {SQL_C_CHAR, SQL_C_WCHAR, SQL_C_BINARY} then 0 \<le> len
      else (\<exists>n. getCTypeOctetLength ty = Inr n))"

lemma bind_col_record_bound:
  assumes "numeric a" "- 32768 \<le> ty" "ty < 32768" "bindable ty len"
  shows "\<exists>b. bind_col_record ty ptr len ind a = (Inr (), b) \<and> column_bound ty ptr len ind b"
proof -
  obtain b where "set_attr SQL_DESC_CONCISE_TYPE ty a = (Inr (), b)" "b SQL_DESC_CONCISE_TYPE = Some (Int_attr ty)"
    using set_concise_returns[OF assms(1-3)] by blast
  then show ?thesis using assms(4)
    by (auto simp: bind_col_record_def op_then_Inr op_bind_def op_result_def op_then_def bindable_def
        column_bound_def)
qed

text \<open>BindCol of a column with a buffer, a C type of known length (or a character or binary buffer
  of non-negative length) succeeds; the column is counted, its record holds type, pointers and length, and
  the other columns' records are untouched.\<close>

theorem BindCol_binds:
  assumes ok: "desc_ok (ard_desc st)" and num: "1 \<le> num" "num < desc_limit"
    and ty: "- 32768 \<le> ty" "ty < 32768" "bindable ty len" and bind: "ptr \<noteq> 0 \<or> ind \<noteq> 0"
    and recs: "num \<le> desc_count (ard_desc st) \<Longrightarrow> numeric (desc_records (ard_desc st) ! num)"
  shows "\<exists>st'. BindCol num ty ptr len ind st = (Inr (), st') \<and> desc_ok (ard_desc st')
    \<and> desc_count (ard_desc st') = max (desc_count (ard_desc st)) num
    \<and> column_bound ty ptr len ind (desc_records (ard_desc st') ! num)
    \<and> (\<forall>i. 1 \<le> i \<longrightarrow> i \<le> desc_count (ard_desc st) \<longrightarrow> i \<noteq> num
          \<longrightarrow> desc_records (ard_desc st') ! i = desc_records (ard_desc st) ! i)
    \<and> column_offsets st' = Map.empty"
proof -
  let ?d = "ard_desc st" and ?g = "desc_get SQL_ATTR_APP_ROW_DESC num (ard_desc st)"
  note g = desc_get_facts[OF ok num(2) role_simps(1)]
  have fresh: "numeric (init_rec SQL_ATTR_APP_ROW_DESC Map.empty)"
    by (simp add: init_rec_def initAsDescRec_def initAsADRec_is numeric_def)
  have "numeric (desc_records ?g ! num)"
    using recs g(4)[OF num(1)] g(5)[of num] fresh by (cases "num \<le> desc_count ?d") auto
  then obtain b where b: "bind_col_record ty ptr len ind (desc_records ?g ! num) = (Inr (), b)"
      "column_bound ty ptr len ind b"
    using bind_col_record_bound[OF _ ty] by blast
  obtain r d2 where m: "on_record num (bind_col_record ty ptr len ind) ?g = (r, d2)" by fastforce
  note f = on_record_facts[OF m]
  have "num < length (desc_records ?g)" using g(3) by simp
  then have r: "r = Inr ()" "desc_records d2 ! num = b" using f(6) b(1) by simp_all
  have "BindCol num ty ptr len ind st = (Inr (), \<lparr>ard_desc = d2, column_offsets = Map.empty\<rparr>)"
    using bind num m ok r(1) by (auto simp: BindCol_def BindCol_desc_def getRecordCount_ok getRecord_get)
  then show ?thesis using f(1,3,4) g(1,2,4) r(2) b(2) by simp
qed

theorem BindCol_binds_witness:
  "\<exists>st'. BindCol 3 SQL_C_CHAR 4096 256 8192 \<lparr>ard_desc = new_Descriptor, column_offsets = Map.empty\<rparr> = (Inr (), st')
    \<and> desc_count (ard_desc st') = 3 \<and> column_bound SQL_C_CHAR 4096 256 8192 (desc_records (ard_desc st') ! 3)"
  using BindCol_binds[of "\<lparr>ard_desc = new_Descriptor, column_offsets = Map.empty\<rparr>" 3 SQL_C_CHAR 256 4096 8192]
  by (auto simp: desc_limit_def bindable_def new_Descriptor_def desc_count_def desc_ok_new[unfolded new_Descriptor_def])

section \<open>Parameters\<close>

abbreviation (input) apd_rec :: "nat \<Rightarrow> param_state \<Rightarrow> attrs" where
  "apd_rec num st \<equiv> desc_records (apd_desc st) ! num"

abbreviation (input) ipd_rec :: "nat \<Rightarrow> param_state \<Rightarrow> attrs" where
  "ipd_rec num st \<equiv> desc_records (ipd_desc st) ! num"

text \<open>One step on each record leaves the rest of both descriptors alone.\<close>

definition same_but :: "nat \<Rightarrow> param_state \<Rightarrow> param_state \<Rightarrow> bool" where
  "same_but num st st' \<longleftrightarrow>
     desc_attrs (apd_desc st') = desc_attrs (apd_desc st) \<and> desc_attrs (ipd_desc st') = desc_attrs (ipd_desc st)
     \<and> length (desc_records (apd_desc st')) = length (desc_records (apd_desc st))
     \<and> length (desc_records (ipd_desc st')) = length (desc_records (ipd_desc st))
     \<and> (\<forall>i. i \<noteq> num \<longrightarrow> apd_rec i st' = apd_rec i st \<and> ipd_rec i st' = ipd_rec i st)"

lemma same_but_refl [simp]: "same_but num st st"
  by (simp add: same_but_def)

lemma same_but_trans: "same_but num st st' \<Longrightarrow> same_but num st' st'' \<Longrightarrow> same_but num st st''"
  by (auto simp: same_but_def)

lemma on_apd_step:
  assumes "m (apd_rec num st) = (r, b)" "num < length (desc_records (apd_desc st))"
  shows "\<exists>st'. on_apd num m st = (r, st') \<and> same_but num st st' \<and> apd_rec num st' = b
    \<and> ipd_rec num st' = ipd_rec num st"
  using assms by (auto simp: on_apd_def on_record_def same_but_def)

lemma on_ipd_step:
  assumes "m (ipd_rec num st) = (r, b)" "num < length (desc_records (ipd_desc st))"
  shows "\<exists>st'. on_ipd num m st = (r, st') \<and> same_but num st st' \<and> ipd_rec num st' = b
    \<and> apd_rec num st' = apd_rec num st"
  using assms by (auto simp: on_ipd_def on_record_def same_but_def)

lemma column_size_attr_ok:
  "\<exists>b. column_size_attr pty n a = (Inr (), b) \<and> (\<forall>k. k \<notin> detail_attrs \<longrightarrow> b k = a k)"
  by (auto simp: column_size_attr_def op_return_def detail_attrs_def)

lemma decimal_digits_attr_ok:
  "\<exists>b. decimal_digits_attr pty n a = (Inr (), b) \<and> (\<forall>k. k \<notin> detail_attrs \<longrightarrow> b k = a k)"
  by (auto simp: decimal_digits_attr_def op_return_def detail_attrs_def)

text \<open>What \<open>octet_length_attr\<close> stores, or the exception it throws.\<close>

definition octet_length_of :: "SQLSMALLINT \<Rightarrow> SQLLEN \<Rightarrow> int result" where
  "octet_length_of ct len =
     (if ct \<in> {SQL_C_CHAR, SQL_C_WCHAR, SQL_C_BINARY} then
        if len < 0 then Inl (SqlException ''Invalid string or buffer length'' ''HY090'') else Inr len
      else getCTypeOctetLength ct)"

lemma octet_length_attr_of:
  "octet_length_attr ct len a = (case octet_length_of ct len of
     Inl e \<Rightarrow> (Inl e, a) | Inr n \<Rightarrow> (Inr (), a(SQL_DESC_OCTET_LENGTH \<mapsto> Int_attr n)))"
  by (auto simp: octet_length_attr_def octet_length_of_def op_throw_def op_bind_def op_result_def
      split: sum.splits)

abbreviation (input) effective_c_type :: "SQLSMALLINT \<Rightarrow> SQLSMALLINT \<Rightarrow> SQLSMALLINT" where
  "effective_c_type vty pty \<equiv> (if vty = SQL_C_DEFAULT then convertSQLTypeToCType pty else vty)"

lemma convertSQLTypeToCType_range: "- 32768 \<le> convertSQLTypeToCType t" "convertSQLTypeToCType t < 32768"
  by (simp_all add: convertSQLTypeToCType_def)

lemma then_param_Inr: "m st = (Inr (), st') \<Longrightarrow> then_param m k st = k st'"
  by (simp add: then_param_def)

text \<open>The two records of a bound parameter, up to the octet length.\<close>

lemma bind_parameter_prefix:
  assumes len: "num < length (desc_records (apd_desc st))" "num < length (desc_records (ipd_desc st))"
    and num: "numeric (apd_rec num st)" "numeric (ipd_rec num st)"
    and range: "- 32768 \<le> vty" "vty < 32768" "- 32768 \<le> pty" "pty < 32768"
  shows "\<exists>s. same_but num st s \<and> apd_rec num s SQL_DESC_CONCISE_TYPE = Some (Int_attr (effective_c_type vty pty))
    \<and> ipd_rec num s SQL_DESC_CONCISE_TYPE = Some (Int_attr pty)
    \<and> bind_parameter_records num io vty pty csize digits ptr blen ind st =
       then_param (on_apd num (octet_length_attr (convertSQLTypeToCType pty) blen))
         (on_apd num
           (op_then (set_attr SQL_DESC_OCTET_LENGTH_PTR ind)
           (op_then (set_attr SQL_DESC_INDICATOR_PTR ind) (set_attr SQL_DESC_DATA_PTR ptr)))) s"
proof -
  let ?ct = "effective_c_type vty pty"
  have ct: "- 32768 \<le> ?ct" "?ct < 32768" using range convertSQLTypeToCType_range[of pty] by auto
  obtain s1 where s1: "on_ipd num (set_attr SQL_DESC_PARAMETER_TYPE io) st = (Inr (), s1)" "same_but num st s1"
      "ipd_rec num s1 = (ipd_rec num st)(SQL_DESC_PARAMETER_TYPE \<mapsto> Int_attr io)" "apd_rec num s1 = apd_rec num st"
    using on_ipd_step[of "set_attr SQL_DESC_PARAMETER_TYPE io" st num] len by auto
  obtain a2 where a2: "set_attr SQL_DESC_CONCISE_TYPE ?ct (apd_rec num s1) = (Inr (), a2)"
      "a2 SQL_DESC_CONCISE_TYPE = Some (Int_attr ?ct)"
    using set_concise_returns[OF _ ct, of "apd_rec num s1"] num s1(4) by auto
  obtain s2 where s2: "on_apd num (set_attr SQL_DESC_CONCISE_TYPE ?ct) s1 = (Inr (), s2)" "same_but num s1 s2"
      "apd_rec num s2 = a2" "ipd_rec num s2 = ipd_rec num s1"
    using on_apd_step[of "set_attr SQL_DESC_CONCISE_TYPE ?ct" s1 num, OF a2(1)] len s1(2) by (auto simp: same_but_def)
  obtain b3 where b3: "set_attr SQL_DESC_CONCISE_TYPE pty (ipd_rec num s2) = (Inr (), b3)"
      "b3 SQL_DESC_CONCISE_TYPE = Some (Int_attr pty)"
    using set_concise_returns[OF _ range(3,4), of "ipd_rec num s2"] num s1(3) s2(4) by auto
  obtain s3 where s3: "on_ipd num (set_attr SQL_DESC_CONCISE_TYPE pty) s2 = (Inr (), s3)" "same_but num s2 s3"
      "ipd_rec num s3 = b3" "apd_rec num s3 = apd_rec num s2"
    using on_ipd_step[of "set_attr SQL_DESC_CONCISE_TYPE pty" s2 num, OF b3(1)] len same_but_trans[OF s1(2) s2(2)] by (auto simp: same_but_def)
  obtain b4 where b4: "column_size_attr pty csize (ipd_rec num s3) = (Inr (), b4)"
      "\<And>k. k \<notin> detail_attrs \<Longrightarrow> b4 k = ipd_rec num s3 k"
    using column_size_attr_ok by metis
  have l3: "same_but num st s3" using same_but_trans s1(2) s2(2) s3(2) by blast
  obtain s4 where s4: "on_ipd num (column_size_attr pty csize) s3 = (Inr (), s4)" "same_but num s3 s4"
      "ipd_rec num s4 = b4" "apd_rec num s4 = apd_rec num s3"
    using on_ipd_step[of "column_size_attr pty csize" s3 num, OF b4(1)] len l3 by (auto simp: same_but_def)
  obtain b5 where b5: "decimal_digits_attr pty digits (ipd_rec num s4) = (Inr (), b5)"
      "\<And>k. k \<notin> detail_attrs \<Longrightarrow> b5 k = ipd_rec num s4 k"
    using decimal_digits_attr_ok by metis
  have l4: "same_but num st s4" using same_but_trans l3 s4(2) by blast
  obtain s5 where s5: "on_ipd num (decimal_digits_attr pty digits) s4 = (Inr (), s5)" "same_but num s4 s5"
      "ipd_rec num s5 = b5" "apd_rec num s5 = apd_rec num s4"
    using on_ipd_step[of "decimal_digits_attr pty digits" s4 num, OF b5(1)] len l4 by (auto simp: same_but_def)
  have "same_but num st s5" using same_but_trans l4 s5(2) by blast
  moreover have "ipd_rec num s5 SQL_DESC_CONCISE_TYPE = Some (Int_attr pty)"
    using b3(2) b4(2)[of SQL_DESC_CONCISE_TYPE] b5(2)[of SQL_DESC_CONCISE_TYPE] s3(3) s4(3) s5(3)
    by (simp add: detail_attrs_def)
  moreover have "apd_rec num s5 SQL_DESC_CONCISE_TYPE = Some (Int_attr ?ct)"
    using a2(2) s2(3) s3(4) s4(4) s5(4) by simp
  ultimately show ?thesis
    unfolding bind_parameter_records_def
    by (intro exI[of _ s5]) (simp add: then_param_def s1(1) s2(1) s3(1) s4(1) s5(1))
qed

definition params_ok :: "nat \<Rightarrow> param_state \<Rightarrow> bool" where
  "params_ok num st \<longleftrightarrow>
     desc_ok (apd_desc st) \<and> desc_ok (ipd_desc st) \<and> 1 \<le> num \<and> num < desc_limit
     \<and> (num \<le> desc_count (apd_desc st) \<longrightarrow> numeric (apd_rec num st))
     \<and> (num \<le> desc_count (ipd_desc st) \<longrightarrow> numeric (ipd_rec num st))"

lemma params_looked_up:
  assumes "params_ok num st"
  defines "a \<equiv> desc_get SQL_ATTR_APP_PARAM_DESC num (apd_desc st)"
    and "i \<equiv> desc_get SQL_ATTR_IMP_PARAM_DESC num (ipd_desc st)"
  shows "num < length (desc_records a)" "num < length (desc_records i)"
    "numeric (desc_records a ! num)" "numeric (desc_records i ! num)"
proof -
  have ok: "desc_ok (apd_desc st)" "desc_ok (ipd_desc st)" "1 \<le> num" "num < desc_limit"
    using assms(1) by (simp_all add: params_ok_def)
  note ga = desc_get_facts[OF ok(1,4) role_simps(2)] and gi = desc_get_facts[OF ok(2,4) role_simps(4)]
  show "num < length (desc_records a)" "num < length (desc_records i)"
    using ga(3) gi(3) by (simp_all add: a_def i_def)
  have "numeric (init_rec SQL_ATTR_APP_PARAM_DESC Map.empty)" "numeric (init_rec SQL_ATTR_IMP_PARAM_DESC Map.empty)"
    by (simp_all add: init_rec_def initAsDescRec_def initAsADRec_is initAsIDRec_def op_then_def op_bind_def
        fst_set_attr_plain resetAttrs_def numeric_def)
  then show "numeric (desc_records a ! num)" "numeric (desc_records i ! num)"
    using assms(1) ga(4)[OF ok(3)] ga(5)[of num] gi(4)[OF ok(3)] gi(5)[of num]
    by (cases "num \<le> desc_count (apd_desc st)"; cases "num \<le> desc_count (ipd_desc st)";
        simp add: params_ok_def a_def i_def)+
qed

lemma BindParameter_looked_up:
  assumes "params_ok num st" "ptr \<noteq> 0 \<or> ind \<noteq> 0"
  shows "BindParameter num io vty pty csize digits ptr blen ind st =
    (case bind_parameter_records num io vty pty csize digits ptr blen ind
       \<lparr>apd_desc = desc_get SQL_ATTR_APP_PARAM_DESC num (apd_desc st),
        ipd_desc = desc_get SQL_ATTR_IMP_PARAM_DESC num (ipd_desc st)\<rparr> of
       (Inl e, st') \<Rightarrow>
         (Inl e, \<lparr>apd_desc = set_desc_attr SQL_DESC_COUNT (as_int64 (int (desc_count (apd_desc st)))) (apd_desc st'),
                  ipd_desc = set_desc_attr SQL_DESC_COUNT (as_int64 (int (desc_count (ipd_desc st)))) (ipd_desc st')\<rparr>)
     | (Inr _, st') \<Rightarrow> (Inr (), st'))"
  using assms by (auto simp: BindParameter_def params_ok_def getRecordCount_ok getRecord_get)

text \<open>BindParameter of a parameter with a buffer succeeds exactly when a length is known for the
  C type that goes with its SQL type. Then both descriptors count it, its records hold the types and
  pointers, and the octet length is that of the SQL type's default C type, not of the C type the
  application's buffer has.\<close>

theorem BindParameter_binds:
  assumes ok: "params_ok num st" and bind: "ptr \<noteq> 0 \<or> ind \<noteq> 0"
    and range: "- 32768 \<le> vty" "vty < 32768" "- 32768 \<le> pty" "pty < 32768"
    and oct: "octet_length_of (convertSQLTypeToCType pty) blen = Inr n"
  shows "\<exists>st'. BindParameter num io vty pty csize digits ptr blen ind st = (Inr (), st')
    \<and> desc_count (apd_desc st') = max (desc_count (apd_desc st)) num
    \<and> desc_count (ipd_desc st') = max (desc_count (ipd_desc st)) num
    \<and> apd_rec num st' SQL_DESC_CONCISE_TYPE = Some (Int_attr (effective_c_type vty pty))
    \<and> apd_rec num st' SQL_DESC_DATA_PTR = Some (Int_attr ptr)
    \<and> apd_rec num st' SQL_DESC_OCTET_LENGTH = Some (Int_attr n)
    \<and> ipd_rec num st' SQL_DESC_CONCISE_TYPE = Some (Int_attr pty)"
proof -
  let ?st = "\<lparr>apd_desc = desc_get SQL_ATTR_APP_PARAM_DESC num (apd_desc st),
        ipd_desc = desc_get SQL_ATTR_IMP_PARAM_DESC num (ipd_desc st)\<rparr>"
  note l = params_looked_up[OF ok]
  have okd: "desc_ok (apd_desc st)" "desc_ok (ipd_desc st)" "num < desc_limit"
    using ok by (simp_all add: params_ok_def)
  obtain s where s: "same_but num ?st s" "apd_rec num s SQL_DESC_CONCISE_TYPE = Some (Int_attr (effective_c_type vty pty))"
      "ipd_rec num s SQL_DESC_CONCISE_TYPE = Some (Int_attr pty)"
      "bind_parameter_records num io vty pty csize digits ptr blen ind ?st =
       then_param (on_apd num (octet_length_attr (convertSQLTypeToCType pty) blen))
         (on_apd num
           (op_then (set_attr SQL_DESC_OCTET_LENGTH_PTR ind)
           (op_then (set_attr SQL_DESC_INDICATOR_PTR ind) (set_attr SQL_DESC_DATA_PTR ptr)))) s"
    using bind_parameter_prefix[of num ?st vty pty io csize digits ptr blen ind] l range by auto
  obtain s1 where s1: "on_apd num (octet_length_attr (convertSQLTypeToCType pty) blen) s = (Inr (), s1)" "same_but num s s1"
      "apd_rec num s1 = (apd_rec num s)(SQL_DESC_OCTET_LENGTH \<mapsto> Int_attr n)" "ipd_rec num s1 = ipd_rec num s"
    using on_apd_step[of "octet_length_attr (convertSQLTypeToCType pty) blen" s num] l(1) s(1) oct
    by (auto simp: octet_length_attr_of same_but_def)
  let ?m = "op_then (set_attr SQL_DESC_OCTET_LENGTH_PTR ind)
      (op_then (set_attr SQL_DESC_INDICATOR_PTR ind) (set_attr SQL_DESC_DATA_PTR ptr))"
  obtain s2 where s2: "on_apd num ?m s1 = (Inr (), s2)" "same_but num s1 s2"
      "apd_rec num s2 = (apd_rec num s1)(SQL_DESC_OCTET_LENGTH_PTR \<mapsto> Int_attr ind,
         SQL_DESC_INDICATOR_PTR \<mapsto> Int_attr ind, SQL_DESC_DATA_PTR \<mapsto> Int_attr ptr)"
      "ipd_rec num s2 = ipd_rec num s1"
    using on_apd_step[of ?m s1 num] l(1) same_but_trans[OF s(1) s1(2)]
    by (auto simp: op_then_def op_bind_def same_but_def)
  have "same_but num ?st s2" using same_but_trans s(1) s1(2) s2(2) by blast
  then have "desc_count (apd_desc s2) = desc_count (apd_desc ?st)" "desc_count (ipd_desc s2) = desc_count (ipd_desc ?st)"
    by (simp_all add: same_but_def desc_count_def)
  moreover have "BindParameter num io vty pty csize digits ptr blen ind st = (Inr (), s2)"
    using BindParameter_looked_up[OF ok bind] s(4) by (simp add: then_param_def s1(1) s2(1))
  ultimately show ?thesis
    using s(2,3) s1(3,4) s2(3,4) desc_get_facts(2)[OF okd(1,3) role_simps(2)]
      desc_get_facts(2)[OF okd(2,3) role_simps(4)] by simp
qed

lemma params_ok_new: "1 \<le> num \<Longrightarrow> num < desc_limit \<Longrightarrow>
    params_ok num \<lparr>apd_desc = new_Descriptor, ipd_desc = new_Descriptor\<rparr>"
  by (auto simp: params_ok_def desc_count_def new_Descriptor_def desc_ok_new[unfolded new_Descriptor_def])

theorem BindParameter_binds_witness:
  "\<exists>st'. BindParameter 1 SQL_PARAM_INPUT SQL_C_CHAR SQL_INTEGER 0 0 4096 100 0
       \<lparr>apd_desc = new_Descriptor, ipd_desc = new_Descriptor\<rparr> = (Inr (), st')
    \<and> apd_rec 1 st' SQL_DESC_CONCISE_TYPE = Some (Int_attr SQL_C_CHAR)
    \<and> apd_rec 1 st' SQL_DESC_OCTET_LENGTH = Some (Int_attr 4)"
proof -
  have "octet_length_of (convertSQLTypeToCType SQL_INTEGER) 100 = Inr 4"
    by (simp add: octet_length_of_def convertSQLTypeToCType_def getCTypeOctetLength_def)
  from BindParameter_binds[OF params_ok_new[of 1] _ _ _ _ _ this, of 4096 0 SQL_C_CHAR SQL_PARAM_INPUT 0 0]
  show ?thesis by (simp add: desc_limit_def) blast
qed

text \<open>Parameters of an interval type cannot be bound: BindParameter always fails for them, after its
  switch statements have handled their length and precision, because no octet length is known for an
  interval C type; the parameter counts of both descriptors are what they were.\<close>

theorem BindParameter_interval_fails:
  assumes ok: "params_ok num st" and bind: "ptr \<noteq> 0 \<or> ind \<noteq> 0"
    and range: "- 32768 \<le> vty" "vty < 32768" and pty: "101 \<le> pty" "pty \<le> 113"
  shows "\<exists>st'. BindParameter num io vty pty csize digits ptr blen ind st =
      (Inl (Runtime_Error ''Unable to determine octet length of C data type''), st')
    \<and> desc_count (apd_desc st') = desc_count (apd_desc st) \<and> desc_count (ipd_desc st') = desc_count (ipd_desc st)"
proof -
  let ?st = "\<lparr>apd_desc = desc_get SQL_ATTR_APP_PARAM_DESC num (apd_desc st),
        ipd_desc = desc_get SQL_ATTR_IMP_PARAM_DESC num (ipd_desc st)\<rparr>"
  let ?e = "Runtime_Error ''Unable to determine octet length of C data type''"
  note l = params_looked_up[OF ok]
  have okd: "desc_ok (apd_desc st)" "desc_ok (ipd_desc st)" "num < desc_limit"
    using ok by (simp_all add: params_ok_def)
  have "pty \<in> {101, 102, 103, 104, 105, 106, 107, 108, 109, 110, 111, 112, 113}"
    using pty by simp presburger
  then have oct: "octet_length_of (convertSQLTypeToCType pty) blen = Inl ?e"
    by (elim insertE emptyE) (simp_all add: octet_length_of_def convertSQLTypeToCType_def getCTypeOctetLength_def)
  obtain s where s: "same_but num ?st s"
      "bind_parameter_records num io vty pty csize digits ptr blen ind ?st =
       then_param (on_apd num (octet_length_attr (convertSQLTypeToCType pty) blen))
         (on_apd num
           (op_then (set_attr SQL_DESC_OCTET_LENGTH_PTR ind)
           (op_then (set_attr SQL_DESC_INDICATOR_PTR ind) (set_attr SQL_DESC_DATA_PTR ptr)))) s"
    using bind_parameter_prefix[of num ?st vty pty io csize digits ptr blen ind] l range pty by auto
  obtain s1 where s1: "on_apd num (octet_length_attr (convertSQLTypeToCType pty) blen) s = (Inl ?e, s1)" "same_but num s s1"
    using on_apd_step[of "octet_length_attr (convertSQLTypeToCType pty) blen" s num] l(1) s(1) oct
    by (auto simp: octet_length_attr_of same_but_def)
  have "same_but num ?st s1" using same_but_trans s(1) s1(2) by blast
  moreover have "desc_count (set_desc_attr SQL_DESC_COUNT (as_int64 (int (desc_count d))) d') = desc_count d"
    if "desc_ok d" for d d'
  proof -
    have "desc_count d < desc_limit" using that by (auto simp: desc_ok_def desc_count_def desc_limit_def)
    then show ?thesis by (simp add: desc_count_def desc_limit_def)
  qed
  ultimately show ?thesis
    using BindParameter_looked_up[OF ok bind] s(2) s1(1) okd(1,2) by (simp add: then_param_def)
qed

theorem BindParameter_interval_fails_witness:
  "\<exists>st'. BindParameter 1 SQL_PARAM_INPUT SQL_C_DEFAULT SQL_INTERVAL_DAY 2 0 4096 28 0
       \<lparr>apd_desc = new_Descriptor, ipd_desc = new_Descriptor\<rparr>
     = (Inl (Runtime_Error ''Unable to determine octet length of C data type''), st')"
  using BindParameter_interval_fails[OF params_ok_new[of 1], of 4096 0 SQL_C_DEFAULT SQL_INTERVAL_DAY
      SQL_PARAM_INPUT 2 0 28]
  by (simp add: desc_limit_def) blast

end
