(* ===== verification/Query_Params.thy ===== *)
theory Query_Params
  imports Binding "HOL-Library.Sublist"
begin

text \<open>
  The parameters of a query: \<open>Statement::extractParametersinfo\<close>, \<open>buildFinalQuery\<close>,
  \<open>getParamFinalName\<close> and \<open>getParamsBindingInfo\<close> of driver/statement.cpp. The UUID
  generator of Poco is an argument: \<open>uuids n\<close> is the text of the n-th UUID it creates. The
  loop that asks for UUIDs until one is new may run for ever, which is the outer \<open>None\<close>.
  Application memory is a map \<open>mem\<close> from addresses to the 64-bit integers there.
\<close>

section \<open>Placeholders\<close>

record ParamInfo =
  info_name :: string
  tmp_placeholder :: string

text \<open>\<open>generate_placeholder\<close>: the placeholder and the number of UUIDs created by then.\<close>

partial_function (option) generate_placeholder ::
  "(nat \<Rightarrow> string) \<Rightarrow> string \<Rightarrow> nat \<Rightarrow> (string \<times> nat) option" where
  "generate_placeholder uuids query n =
     (let placeholder = CHR ''@'' # uuids n in
      if sublist placeholder query then generate_placeholder uuids query (n + 1)
      else Some (placeholder, n + 1))"

definition name_char :: "char \<Rightarrow> bool" where
  "name_char c \<longleftrightarrow> c = CHR ''_'' \<or> isalpha c \<or> isdigit c"

text \<open>The characters after \<open>@\<close> that belong to the name; a digit cannot be the first.\<close>

definition param_word :: "string \<Rightarrow> string" where
  "param_word rest =
     (case rest of [] \<Rightarrow> []
      | c # cs \<Rightarrow> if c = CHR ''_'' \<or> isalpha c then c # takeWhile name_char cs else [])"

text \<open>
  The loop over the query, which is \<open>left @ rest\<close> at each round, \<open>left\<close> what is behind
  \<open>i\<close>. \<open>quoted_by\<close> is the NUL character outside quotes. The result is the rewritten query
  and the parameters; an exception leaves the statement unprepared.
\<close>

function (sequential) extract_loop ::
  "(nat \<Rightarrow> string) \<Rightarrow> nat \<Rightarrow> char \<Rightarrow> string \<Rightarrow> string \<Rightarrow> ParamInfo list
     \<Rightarrow> (string \<times> ParamInfo list) result option" where
  "extract_loop uuids n quoted_by left [] params = Some (Inr (left, params))"
| "extract_loop uuids n quoted_by left (chr # rest) params =
     (if chr = ch_bslash then
        (case rest of
           [] \<Rightarrow> Some (Inr (left @ [chr], params))
         | c # rest' \<Rightarrow> extract_loop uuids n quoted_by (left @ [chr, c]) rest' params)
      else if chr = ch_dquote \<or> chr = ch_quote then
        if quoted_by = chr then
          (case rest of
             [] \<Rightarrow> extract_loop uuids n ch_nul (left @ [chr]) rest params
           | c # rest' \<Rightarrow>
               if c = chr then extract_loop uuids n quoted_by (left @ [chr, c]) rest' params
               else extract_loop uuids n ch_nul (left @ [chr]) rest params)
        else extract_loop uuids n chr (left @ [chr]) rest params
      else if chr = CHR ''?'' \<and> quoted_by = ch_nul then
        (case generate_placeholder uuids (left @ chr # rest) n of
           None \<Rightarrow> None
         | Some (p, n') \<Rightarrow>
             extract_loop uuids n' quoted_by (left @ p) rest
               (params @ [\<lparr>info_name = '''', tmp_placeholder = p\<rparr>]))
      else if chr = CHR ''@'' \<and> quoted_by = ch_nul then
        (let name = CHR ''@'' # param_word rest in
         if length name = 1 then Some (Inl (SqlException ''Syntax error or access violation'' ''42000''))
         else
           (case generate_placeholder uuids (left @ chr # rest) n of
              None \<Rightarrow> None
            | Some (p, n') \<Rightarrow>
                extract_loop uuids n' quoted_by (left @ p) (drop (length (param_word rest)) rest)
                  (params @ [\<lparr>info_name = name, tmp_placeholder = p\<rparr>])))
      else extract_loop uuids n quoted_by (left @ [chr]) rest params)"
  by pat_completeness auto
termination by (relation "measure (\<lambda>(_, _, _, _, rest, _). length rest)") auto

definition extract_params :: "(nat \<Rightarrow> string) \<Rightarrow> string \<Rightarrow> (string \<times> ParamInfo list) result option" where
  "extract_params uuids query = extract_loop uuids 0 ch_nul [] query []"

text \<open>
  \<open>extractParametersinfo\<close> as a whole: the IPD keeps only the records the APD has too, and
  gets at least as many as there are parameters.
\<close>

record prepared =
  query :: string
  parameters :: "ParamInfo list"
  descs :: param_state

definition extractParametersinfo :: "(nat \<Rightarrow> string) \<Rightarrow> prepared \<Rightarrow> prepared result option" where
  "extractParametersinfo uuids st =
     (case (getRecordCount (apd_desc (descs st)), getRecordCount (ipd_desc (descs st))) of
        (Inl e, _) \<Rightarrow> Some (Inl e)
      | (Inr _, Inl e) \<Rightarrow> Some (Inl e)
      | (Inr apd_record_count, Inr ipd_count) \<Rightarrow>
          (let ipd_record_count = min ipd_count apd_record_count;
               ipd1 = set_desc_attr SQL_DESC_COUNT (as_int64 (int ipd_record_count)) (ipd_desc (descs st)) in
           (case extract_params uuids (query st) of
              None \<Rightarrow> None
            | Some (Inl e) \<Rightarrow> Some (Inl e)
            | Some (Inr (q, ps)) \<Rightarrow>
                if ipd_record_count < length ps then
                  Some (bind_result (getRecord (length ps) SQL_ATTR_IMP_PARAM_DESC ipd1) (\<lambda>ipd2.
                    Inr \<lparr>query = q, parameters = ps, descs = (descs st)\<lparr>ipd_desc := ipd2\<rparr>\<rparr>))
                else Some (Inr \<lparr>query = q, parameters = ps, descs = (descs st)\<lparr>ipd_desc := ipd1\<rparr>\<rparr>))))"

section \<open>Bindings and names\<close>

text \<open>\<open>BindingInfo\<close> and \<open>ParamBindingInfo\<close>; the fields the statement does not read of a
  parameter are left out.\<close>

record ParamBindingInfo =
  bi_io_type :: SQLSMALLINT
  bi_c_type :: SQLSMALLINT
  bi_sql_type :: SQLSMALLINT
  bi_value :: int
  bi_value_max_size :: SQLLEN
  bi_value_size :: int
  bi_indicator :: int
  bi_precision :: int
  bi_scale :: int
  bi_is_nullable :: bool

definition isNullParamValue :: "(int \<Rightarrow> int) \<Rightarrow> ParamBindingInfo \<Rightarrow> bool" where
  "isNullParamValue mem b \<longleftrightarrow> bi_value b = 0 \<or> (bi_indicator b \<noteq> 0 \<and> mem (bi_indicator b) = SQL_NULL_DATA)"

definition tryStripParamPrefix :: "string \<Rightarrow> string" where
  "tryStripParamPrefix nm = (case nm of [] \<Rightarrow> [] | c # cs \<Rightarrow> if c = CHR ''@'' then cs else nm)"

text \<open>\<open>getParamFinalName\<close>; the records the descriptor counts are there, so the lookup is a read.\<close>

definition getParamFinalName :: "prepared \<Rightarrow> nat \<Rightarrow> string result" where
  "getParamFinalName st param_idx =
     (let fallback =
        (if param_idx < length (parameters st) \<and> info_name (parameters st ! param_idx) \<noteq> ''''
         then tryStripParamPrefix (info_name (parameters st ! param_idx))
         else ''odbc_positional_'' @ show_nat (param_idx + 1)) in
      bind_result (getRecordCount (ipd_desc (descs st))) (\<lambda>count.
      if param_idx < count then
        bind_result (getRecord (param_idx + 1) SQL_ATTR_IMP_PARAM_DESC (ipd_desc (descs st))) (\<lambda>d.
        let ipd_record = desc_records d ! (param_idx + 1) in
        bind_result (getAttrAs as_int16 SQL_DESC_UNNAMED SQL_UNNAMED ipd_record) (\<lambda>unnamed.
        Inr (if unnamed \<noteq> SQL_UNNAMED then tryStripParamPrefix (getAttrAs_string SQL_DESC_NAME '''' ipd_record)
             else fallback)))
      else Inr fallback))"

definition offset_ptr :: "int \<Rightarrow> int \<Rightarrow> int \<Rightarrow> int \<Rightarrow> int" where
  "offset_ptr ptr idx increment bind_offset = (if ptr \<noteq> 0 then ptr + idx * increment + bind_offset else 0)"

definition param_binding :: "nat \<Rightarrow> int \<Rightarrow> int \<Rightarrow> attrs \<Rightarrow> attrs \<Rightarrow> ParamBindingInfo result" where
  "param_binding param_set_idx bind_type bind_offset apd_record ipd_record =
     bind_result (getAttrAs id SQL_DESC_DATA_PTR 0 apd_record) (\<lambda>data_ptr.
     bind_result (getAttrAs id SQL_DESC_OCTET_LENGTH_PTR 0 apd_record) (\<lambda>sz_ptr.
     bind_result (getAttrAs id SQL_DESC_INDICATOR_PTR 0 apd_record) (\<lambda>ind_ptr.
     bind_result (getAttrAs as_int16 SQL_DESC_PARAMETER_TYPE SQL_PARAM_INPUT ipd_record) (\<lambda>io.
     bind_result (getAttrAs as_int16 SQL_DESC_CONCISE_TYPE SQL_C_DEFAULT apd_record) (\<lambda>ct.
     bind_result (getAttrAs as_int16 SQL_DESC_CONCISE_TYPE SQL_UNKNOWN_TYPE ipd_record) (\<lambda>st.
     bind_result (getAttrAs id SQL_DESC_OCTET_LENGTH 0 apd_record) (\<lambda>max_size.
     let next_value_ptr_increment = (if bind_type = SQL_PARAM_BIND_BY_COLUMN then max_size else bind_type);
         next_sz_ind_ptr_increment = (if bind_type = SQL_PARAM_BIND_BY_COLUMN then 8 else bind_type) in
     bind_result (getAttrAs as_int16 SQL_DESC_NULLABLE
       (if isMappedToStringDataSourceType st ct then SQL_NO_NULLS else SQL_NULLABLE) ipd_record) (\<lambda>nl.
     bind_result (getAttrAs as_int16 SQL_DESC_SCALE 0 ipd_record) (\<lambda>sc.
     bind_result (getAttrAs as_int16 SQL_DESC_PRECISION
       (if st = SQL_DECIMAL \<or> st = SQL_NUMERIC then 38 else 0) ipd_record) (\<lambda>pr.
     Inr \<lparr>bi_io_type = io, bi_c_type = ct, bi_sql_type = st,
          bi_value = offset_ptr data_ptr (int param_set_idx) next_value_ptr_increment bind_offset,
          bi_value_max_size = max_size,
          bi_value_size = offset_ptr sz_ptr (int param_set_idx) next_sz_ind_ptr_increment bind_offset,
          bi_indicator = offset_ptr ind_ptr (int param_set_idx) next_sz_ind_ptr_increment bind_offset,
          bi_precision = pr, bi_scale = sc, bi_is_nullable = (nl = SQL_NULLABLE)\<rparr>))))))))))"

fun collect :: "'a result list \<Rightarrow> 'a list result" where
  "collect [] = Inr []"
| "collect (r # rs) = bind_result r (\<lambda>x. bind_result (collect rs) (\<lambda>xs. Inr (x # xs)))"

definition getParamsBindingInfo :: "(int \<Rightarrow> int) \<Rightarrow> param_state \<Rightarrow> nat \<Rightarrow> ParamBindingInfo list result" where
  "getParamsBindingInfo mem st param_set_idx =
     bind_result (getRecordCount (apd_desc st)) (\<lambda>apd_record_count.
     bind_result (getRecordCount (ipd_desc st)) (\<lambda>ipd_record_count.
     bind_result (getAttrAs id SQL_DESC_BIND_TYPE SQL_BIND_BY_COLUMN (desc_attrs (apd_desc st))) (\<lambda>bind_type.
     bind_result (getAttrAs id SQL_DESC_BIND_OFFSET_PTR 0 (desc_attrs (apd_desc st))) (\<lambda>bind_offset_ptr.
     collect (map (\<lambda>param_num.
         bind_result (getRecord param_num SQL_ATTR_APP_PARAM_DESC (apd_desc st)) (\<lambda>apd.
         bind_result (getRecord param_num SQL_ATTR_IMP_PARAM_DESC (ipd_desc st)) (\<lambda>ipd.
         param_binding param_set_idx bind_type (if bind_offset_ptr \<noteq> 0 then mem bind_offset_ptr else 0)
           (desc_records apd ! param_num) (desc_records ipd ! param_num))))
       [1..<Suc (min apd_record_count ipd_record_count)])))))"

section \<open>The final query\<close>

text \<open>\<open>std::string::find\<close> and \<open>replace\<close>.\<close>

fun find_sub :: "string \<Rightarrow> string \<Rightarrow> nat option" where
  "find_sub p [] = (if p = [] then Some 0 else None)"
| "find_sub p (c # cs) = (if prefix p (c # cs) then Some 0 else map_option Suc (find_sub p cs))"

definition replace_at :: "nat \<Rightarrow> nat \<Rightarrow> string \<Rightarrow> string \<Rightarrow> string" where
  "replace_at pos len new s = take pos s @ new @ drop (pos + len) s"

definition param_type :: "(int \<Rightarrow> int) \<Rightarrow> ParamBindingInfo list \<Rightarrow> nat \<Rightarrow> string result" where
  "param_type mem param_bindings i =
     (if length param_bindings \<le> i then Inr ''Nullable(Nothing)''
      else
        (let b = param_bindings ! i in
         convertSQLOrCTypeToDataSourceType
           \<lparr>c_type = bi_c_type b, sql_type = bi_sql_type b, value_max_size = bi_value_max_size b,
            precision = bi_precision b, scale = bi_scale b,
            is_nullable = (bi_is_nullable b \<or> isNullParamValue mem b)\<rparr>))"

text \<open>The loop of \<open>buildFinalQuery\<close> over the parameters from \<open>i\<close> on.\<close>

fun build_loop :: "(nat \<Rightarrow> string result) \<Rightarrow> (nat \<Rightarrow> string result) \<Rightarrow> nat \<Rightarrow> ParamInfo list \<Rightarrow> string
    \<Rightarrow> string result" where
  "build_loop types names i [] prepared_query = Inr prepared_query"
| "build_loop types names i (p # ps) prepared_query =
     bind_result (types i) (\<lambda>ty.
     case find_sub (tmp_placeholder p) prepared_query of
       None \<Rightarrow> Inl (SqlException ''COUNT field incorrect'' ''07002'')
     | Some pos \<Rightarrow>
         bind_result (names i) (\<lambda>nm.
         build_loop types names (i + 1) ps
           (replace_at pos (length (tmp_placeholder p)) (''{'' @ nm @ '':'' @ ty @ ''}'') prepared_query)))"

definition buildFinalQuery :: "(int \<Rightarrow> int) \<Rightarrow> prepared \<Rightarrow> ParamBindingInfo list \<Rightarrow> string result" where
  "buildFinalQuery mem st param_bindings =
     build_loop (param_type mem param_bindings) (getParamFinalName st) 0 (parameters st) (query st)"

end
