(* ===== verification/Query_Spec.thy ===== *)
theory Query_Spec
  imports Query_Params
begin

text \<open>
  What happens to the parameters of a query between SQLPrepare and the request: the markers are
  cut out with placeholders (Query_Params), the placeholders replaced by typed parameters, the
  escape sequences translated (Escape_Spec). The specification cuts the query at its markers and
  puts the typed parameters in their place; placeholders do not occur in it.
\<close>

section \<open>Cutting a query at its markers\<close>

text \<open>
  \<open>seen\<close> is what was read since the last marker. The result has the text before each marker
  with the marker, and the text after the last one.
\<close>

function (sequential) split_params :: "char \<Rightarrow> string \<Rightarrow> string \<Rightarrow> ((string \<times> string) list \<times> string) result" where
  "split_params quoted_by seen [] = Inr ([], seen)"
| "split_params quoted_by seen (c # rest) =
     (if c = ch_bslash then
        (case rest of [] \<Rightarrow> Inr ([], seen @ [c])
         | d # rest' \<Rightarrow> split_params quoted_by (seen @ [c, d]) rest')
      else if c = ch_dquote \<or> c = ch_quote then
        if quoted_by = c then
          (case rest of [] \<Rightarrow> split_params ch_nul (seen @ [c]) rest
           | d # rest' \<Rightarrow>
               if d = c then split_params quoted_by (seen @ [c, d]) rest'
               else split_params ch_nul (seen @ [c]) rest)
        else split_params c (seen @ [c]) rest
      else if c = CHR ''?'' \<and> quoted_by = ch_nul then
        bind_result (split_params quoted_by [] rest) (\<lambda>(segs, post). Inr ((seen, ''?'') # segs, post))
      else if c = CHR ''@'' \<and> quoted_by = ch_nul then
        if param_word rest = [] then Inl (SqlException ''Syntax error or access violation'' ''42000'')
        else
          bind_result (split_params quoted_by [] (drop (length (param_word rest)) rest)) (\<lambda>(segs, post).
          Inr ((seen, CHR ''@'' # param_word rest) # segs, post))
      else split_params quoted_by (seen @ [c]) rest)"
  by pat_completeness auto
termination by (relation "measure (\<lambda>(_, _, rest). length rest)") auto

fun weave :: "string list \<Rightarrow> string list \<Rightarrow> string \<Rightarrow> string" where
  "weave (t # ts) (m # ms) post = t @ m @ weave ts ms post"
| "weave _ _ post = post"

definition marker_name :: "string \<Rightarrow> string" where
  "marker_name m = (if m = ''?'' then '''' else m)"

lemma param_word_prefix: "param_word rest @ drop (length (param_word rest)) rest = rest"
  by (cases rest) (simp_all add: param_word_def flip: dropWhile_eq_drop)

lemma scan_cases:
  fixes c quoted_by :: char and rest :: string
  obtains (bslash_end) "c = ch_bslash" "rest = []"
    | (bslash) d rest' where "c = ch_bslash" "rest = d # rest'"
    | (doubled) rest' where "c \<noteq> ch_bslash" "c = ch_dquote \<or> c = ch_quote" "quoted_by = c" "rest = c # rest'"
    | (closing_end) "c \<noteq> ch_bslash" "c = ch_dquote \<or> c = ch_quote" "quoted_by = c" "rest = []"
    | (closing) d rest' where "c \<noteq> ch_bslash" "c = ch_dquote \<or> c = ch_quote" "quoted_by = c" "rest = d # rest'" "d \<noteq> c"
    | (openq) "c \<noteq> ch_bslash" "c = ch_dquote \<or> c = ch_quote" "quoted_by \<noteq> c"
    | (positional) "c = CHR ''?''" "quoted_by = ch_nul"
    | (named) "c = CHR ''@''" "quoted_by = ch_nul"
    | (quoted) "c \<noteq> ch_bslash" "\<not> (c = ch_dquote \<or> c = ch_quote)" "quoted_by \<noteq> ch_nul"
    | (plain) "c \<noteq> ch_bslash" "\<not> (c = ch_dquote \<or> c = ch_quote)" "c \<noteq> CHR ''?''" "c \<noteq> CHR ''@''"
proof (cases "c = ch_bslash")
  case True
  then show thesis using that(1,2) by (cases rest) simp_all
next
  case no_bslash: False
  show thesis
  proof (cases "c = ch_dquote \<or> c = ch_quote")
    case quote: True
    show thesis
    proof (cases "quoted_by = c")
      case True
      note here = no_bslash quote True
      show thesis
      proof (cases rest)
        case Nil
        then show thesis by (rule that(4) [OF here])
      next
        case (Cons d rest')
        then show thesis using that(3,5) [OF here] by (cases "d = c") simp_all
      qed
    next
      case False
      then show thesis by (rule that(6) [OF no_bslash quote])
    qed
  next
    case False
    then show thesis
      using that(7-10) no_bslash by (cases "quoted_by = ch_nul"; cases "c = CHR ''?''"; cases "c = CHR ''@''") simp_all
  qed
qed

lemma split_params_weave:
  "split_params quoted_by seen rest = Inr (segs, post) \<Longrightarrow>
    weave (map fst segs) (map snd segs) post = seen @ rest"
proof (induction quoted_by seen rest arbitrary: segs post rule: split_params.induct)
  case (2 quoted_by seen c rest)
  show ?case
  proof (cases rule: scan_cases [where c = c and rest = rest and quoted_by = quoted_by])
    case positional
    from "2.prems" positional obtain segs' where
      "split_params quoted_by [] rest = Inr (segs', post)" "segs = (seen, ''?'') # segs'"
      by (auto split: sum.splits prod.splits)
    then show ?thesis using "2.IH"(6) [of segs' post] positional by simp
  next
    case named
    from "2.prems" named obtain segs' where
      "split_params quoted_by [] (drop (length (param_word rest)) rest) = Inr (segs', post)"
      "segs = (seen, CHR ''@'' # param_word rest) # segs'" "param_word rest \<noteq> []"
      by (auto split: sum.splits prod.splits if_splits)
    moreover have "weave (map fst segs') (map snd segs') post = [] @ drop (length (param_word rest)) rest"
      by (rule "2.IH"(7)) (use named calculation in simp_all)
    ultimately show ?thesis using named param_word_prefix [of rest] by simp
  next
    case bslash_end
    then show ?thesis using "2.prems" by simp
  next
    case (bslash d rest')
    then show ?thesis using "2.prems" "2.IH"(1) by simp
  next
    case (doubled rest')
    then show ?thesis using "2.prems" "2.IH"(3) by simp
  next
    case closing_end
    then show ?thesis using "2.prems" by simp
  next
    case (closing d rest')
    then show ?thesis using "2.prems" "2.IH"(4) by simp
  next
    case openq
    then show ?thesis using "2.prems" "2.IH"(5) by simp
  next
    case quoted
    then show ?thesis using "2.prems" "2.IH"(8) by simp
  next
    case plain
    then show ?thesis using "2.prems" "2.IH"(8) by simp
  qed
qed simp

section \<open>Placeholders\<close>

lemma generate_placeholder_new:
  assumes "generate_placeholder uuids q n = Some (p, n')"
  shows "\<not> sublist p q \<and> (\<exists>u. p = CHR ''@'' # uuids u)"
proof -
  have "generate_placeholder uuids q n = Some r \<Longrightarrow>
      \<not> sublist (fst r) q \<and> (\<exists>u. fst r = CHR ''@'' # uuids u)" for r
    by (rule generate_placeholder.raw_induct[of "\<lambda>uuids q n r. \<not> sublist (fst r) q \<and> (\<exists>u. fst r = CHR ''@'' # uuids u)"])
      (auto simp: Let_def split: if_splits)
  from this[OF assms] show ?thesis by simp
qed

text \<open>The placeholder of the i-th marker is new to the seen before every marker up to its own.\<close>

definition new_placeholders :: "(nat \<Rightarrow> string) \<Rightarrow> string \<Rightarrow> string list \<Rightarrow> string list \<Rightarrow> bool" where
  "new_placeholders uuids base ts ps \<longleftrightarrow>
     length ts = length ps
     \<and> (\<forall>i < length ps. (\<exists>u. ps ! i = CHR ''@'' # uuids u) \<and> \<not> sublist (ps ! i) base
          \<and> (\<forall>j \<le> i. \<not> sublist (ps ! i) (ts ! j)))"

lemma new_placeholders_Nil [simp]: "new_placeholders uuids base [] []"
  by (simp add: new_placeholders_def)

lemma sublist_pieces: "sublist x t \<Longrightarrow> sublist x (base @ t @ p)" "sublist x base \<Longrightarrow> sublist x (base @ t)"
  by (simp_all add: sublist_append)

lemma new_placeholders_Cons:
  assumes "new_placeholders uuids (base @ t @ p) ts ps" "p = CHR ''@'' # uuids u" "\<not> sublist p (base @ t)"
  shows "new_placeholders uuids base (t # ts) (p # ps)"
proof -
  have len: "length ts = length ps" using assms(1) by (simp add: new_placeholders_def)
  have "(\<exists>u. (p # ps) ! i = CHR ''@'' # uuids u) \<and> \<not> sublist ((p # ps) ! i) base
      \<and> (\<forall>j \<le> i. \<not> sublist ((p # ps) ! i) ((t # ts) ! j))" if "i < Suc (length ps)" for i
  proof (cases i)
    case 0
    then show ?thesis using assms(2,3) sublist_pieces [of p] by (auto simp: sublist_append)
  next
    case (Suc k)
    then have k: "\<exists>u. ps ! k = CHR ''@'' # uuids u" "\<not> sublist (ps ! k) (base @ t @ p)"
        "\<forall>j \<le> k. \<not> sublist (ps ! k) (ts ! j)"
      using assms(1) that by (auto simp: new_placeholders_def)
    then have "\<not> sublist (ps ! k) base" "\<not> sublist (ps ! k) t"
      using sublist_pieces [of "ps ! k"] by (auto simp: sublist_append)
    moreover have "\<not> sublist (ps ! k) ((t # ts) ! j)" if "j \<le> Suc k" for j
      using that k(3) \<open>\<not> sublist (ps ! k) t\<close> by (cases j) auto
    ultimately show ?thesis using Suc k(1) by simp
  qed
  then show ?thesis using len by (simp add: new_placeholders_def)
qed

text \<open>One marker cut: what the loop over the rest has found is put behind it.\<close>

lemma marker_step:
  assumes gp: "generate_placeholder uuids ((base @ seen) @ c # rest) n = Some (p, n')"
    and rec: "new_placeholders uuids (base @ seen @ p) (map fst segs) (map tmp_placeholder new)"
  shows "new_placeholders uuids base (map fst ((seen, m) # segs))
           (map tmp_placeholder (\<lparr>info_name = nm, tmp_placeholder = p\<rparr> # new))"
proof -
  from generate_placeholder_new [OF gp] obtain u where
    "\<not> sublist p ((base @ seen) @ c # rest)" "p = CHR ''@'' # uuids u" by blast
  moreover have "sublist (base @ seen) ((base @ seen) @ c # rest)" by simp
  ultimately show ?thesis
    using new_placeholders_Cons [OF rec, of u] sublist_order.order_trans by (metis list.simps(9) fst_conv ParamInfo.select_convs(2))
qed

lemma extract_loop_splits:
  assumes "extract_loop uuids n quoted_by left rest params = Some (Inr (q', ps))" "left = base @ seen"
  shows "\<exists>segs post new. split_params quoted_by seen rest = Inr (segs, post) \<and> ps = params @ new
    \<and> map info_name new = map (marker_name \<circ> snd) segs
    \<and> q' = base @ weave (map fst segs) (map tmp_placeholder new) post
    \<and> new_placeholders uuids base (map fst segs) (map tmp_placeholder new)"
  using assms
proof (induction uuids n quoted_by left rest params arbitrary: base seen rule: extract_loop.induct)
  case (1 uuids n quoted_by left params)
  then show ?case by simp
next
  case (2 uuids n quoted_by left c rest params)
  show ?case
  proof (cases rule: scan_cases [where c = c and rest = rest and quoted_by = quoted_by])
    case positional
    from "2.prems"(1) positional obtain p n' where
      gp: "generate_placeholder uuids (left @ c # rest) n = Some (p, n')" and
      ex: "extract_loop uuids n' quoted_by (left @ p) rest
        (params @ [\<lparr>info_name = '''', tmp_placeholder = p\<rparr>]) = Some (Inr (q', ps))"
      by (auto split: option.splits)
    have "\<exists>segs post new. split_params quoted_by [] rest = Inr (segs, post)
      \<and> ps = (params @ [\<lparr>info_name = '''', tmp_placeholder = p\<rparr>]) @ new
      \<and> map info_name new = map (marker_name \<circ> snd) segs
      \<and> q' = (base @ seen @ p) @ weave (map fst segs) (map tmp_placeholder new) post
      \<and> new_placeholders uuids (base @ seen @ p) (map fst segs) (map tmp_placeholder new)"
      by (rule "2.IH"(6)) (use positional gp ex "2.prems"(2) in simp_all)
    then obtain segs post new where r: "split_params quoted_by [] rest = Inr (segs, post)"
      "ps = params @ \<lparr>info_name = '''', tmp_placeholder = p\<rparr> # new"
      "map info_name new = map (marker_name \<circ> snd) segs"
      "q' = base @ seen @ p @ weave (map fst segs) (map tmp_placeholder new) post"
      "new_placeholders uuids (base @ seen @ p) (map fst segs) (map tmp_placeholder new)" by auto
    have "split_params quoted_by seen (c # rest) = Inr ((seen, ''?'') # segs, post)"
      using positional r(1) by simp
    then show ?thesis
      using r marker_step [OF gp [unfolded "2.prems"(2)] r(5), of "''?''" "''''"]
      by (intro exI [of _ "(seen, ''?'') # segs"] exI [of _ post] exI [of _ "\<lparr>info_name = '''', tmp_placeholder = p\<rparr> # new"])
        (simp add: marker_name_def)
  next
    case named
    let ?w = "param_word rest"
    from "2.prems"(1) named obtain p n' where word: "?w \<noteq> []" and
      gp: "generate_placeholder uuids (left @ c # rest) n = Some (p, n')" and
      ex: "extract_loop uuids n' quoted_by (left @ p) (drop (length ?w) rest)
        (params @ [\<lparr>info_name = c # ?w, tmp_placeholder = p\<rparr>]) = Some (Inr (q', ps))"
      by (auto split: option.splits if_splits)
    have "\<exists>segs post new. split_params quoted_by [] (drop (length ?w) rest) = Inr (segs, post)
      \<and> ps = (params @ [\<lparr>info_name = c # ?w, tmp_placeholder = p\<rparr>]) @ new
      \<and> map info_name new = map (marker_name \<circ> snd) segs
      \<and> q' = (base @ seen @ p) @ weave (map fst segs) (map tmp_placeholder new) post
      \<and> new_placeholders uuids (base @ seen @ p) (map fst segs) (map tmp_placeholder new)"
      by (rule "2.IH"(7)) (use named word gp ex "2.prems"(2) in simp_all)
    then obtain segs post new where r: "split_params quoted_by [] (drop (length ?w) rest) = Inr (segs, post)"
      "ps = params @ \<lparr>info_name = c # ?w, tmp_placeholder = p\<rparr> # new"
      "map info_name new = map (marker_name \<circ> snd) segs"
      "q' = base @ seen @ p @ weave (map fst segs) (map tmp_placeholder new) post"
      "new_placeholders uuids (base @ seen @ p) (map fst segs) (map tmp_placeholder new)" by auto
    have "split_params quoted_by seen (c # rest) = Inr ((seen, c # ?w) # segs, post)"
      using named word r(1) by simp
    then show ?thesis
      using r named marker_step [OF gp [unfolded "2.prems"(2)] r(5), of "c # ?w" "c # ?w"]
      by (intro exI [of _ "(seen, c # ?w) # segs"] exI [of _ post] exI [of _ "\<lparr>info_name = c # ?w, tmp_placeholder = p\<rparr> # new"])
        (simp add: marker_name_def)
  qed (use 2 in \<open>simp; fail\<close>)+
qed

section \<open>Placeholders are found where they were put\<close>

lemma sublist_Cons_sep:
  assumes "c \<notin> set p"
  shows "sublist p (xs @ c # ys) \<longleftrightarrow> sublist p xs \<or> sublist p ys"
proof (cases "p = []")
  case ne: False
  show ?thesis
  proof
  assume "sublist p (xs @ c # ys)"
  then obtain as bs where split: "xs @ c # ys = as @ p @ bs" by (auto simp: sublist_def)
  then consider us where "as = xs @ us" "us @ p @ bs = c # ys" | us where "xs = as @ us" "us @ c # ys = p @ bs"
    by (auto simp: append_eq_append_conv2)
  then show "sublist p xs \<or> sublist p ys"
  proof cases
    case 1
    then show ?thesis using assms ne by (cases us) (auto simp: Cons_eq_append_conv sublist_def append_eq_Cons_conv)
  next
    case 2
    then obtain ws where "us = p @ ws \<or> (us @ ws = p \<and> c # ys = ws @ bs)"
      by (auto simp: append_eq_append_conv2)
    then show ?thesis using 2(1) assms by (cases ws) auto
  qed
  qed (auto simp: sublist_append sublist_Cons_right)
qed simp

lemma find_sub_first:
  assumes "c \<notin> set u" "\<not> sublist (c # u) xs"
  shows "find_sub (c # u) (xs @ (c # u) @ ys) = Some (length xs)"
  using assms(2)
proof (induction xs)
  case (Cons x xs)
  have "\<not> prefix (c # u) ((x # xs) @ (c # u) @ ys)"
  proof
    assume "prefix (c # u) ((x # xs) @ (c # u) @ ys)"
    then consider "prefix (c # u) (x # xs)" | zs where "c # u = (x # xs) @ zs" "prefix zs ((c # u) @ ys)"
      unfolding prefix_append [of _ "x # xs"] by blast
    then show False
    proof cases
      case 1
      then show False using Cons.prems by blast
    next
      case 2
      then show False using assms(1) Cons.prems by (cases zs) auto
    qed
  qed
  then show ?case using Cons by (simp add: sublist_Cons_right)
qed simp

lemma replace_at_here [simp]:
  "replace_at (length xs) (length p) new (xs @ p @ ys) = xs @ new @ ys"
  by (simp add: replace_at_def)

text \<open>The text of a UUID has no \<open>@\<close> and no brace.\<close>

definition plain_uuids :: "(nat \<Rightarrow> string) \<Rightarrow> bool" where
  "plain_uuids uuids \<longleftrightarrow> (\<forall>n. set (uuids n) \<inter> {CHR ''@'', CHR ''{'', CHR ''}''} = {})"

text \<open>What was built so far ends a typed parameter, or nothing was built.\<close>

definition built :: "string \<Rightarrow> bool" where
  "built front \<longleftrightarrow> front = [] \<or> (\<exists>d. front = d @ ''}'')"

lemma placeholder_not_in_built:
  assumes "p = CHR ''@'' # uuids u" "plain_uuids uuids" "built front"
    and "\<not> sublist p front" "\<not> sublist p t" "CHR ''@'' \<notin> set m"
  shows "\<not> sublist p (front @ t)" "\<not> sublist p (front @ t @ ''{'' @ m @ ''}'')"
proof -
  have seps: "CHR ''{'' \<notin> set p" "CHR ''}'' \<notin> set p"
    using assms(1,2) by (auto simp: plain_uuids_def)
  show dt: "\<not> sublist p (front @ t)"
  proof (cases "front = []")
    case False
    then obtain d where d: "front = d @ ''}''" using assms(3) by (auto simp: built_def)
    then show ?thesis
      using assms(1,4,5) sublist_Cons_sep [OF seps(2), of d t] sublist_Cons_sep [OF seps(2), of d "[]"] by simp
  qed (use assms(5) in simp)
  have "\<not> sublist p m"
  proof
    assume "sublist p m"
    then have "set p \<subseteq> set m" by (rule set_mono_sublist)
    then show False using assms(1,6) by simp
  qed
  then show "\<not> sublist p (front @ t @ ''{'' @ m @ ''}'')"
    using dt sublist_Cons_sep [OF seps(1), of "front @ t" "m @ ''}''"] sublist_Cons_sep [OF seps(2), of m "[]"] assms(1)
    by simp
qed

lemma new_placeholders_tail:
  assumes "new_placeholders uuids front (t # ts) (p # ps)" "plain_uuids uuids" "built front" "CHR ''@'' \<notin> set m"
  shows "new_placeholders uuids (front @ t @ ''{'' @ m @ ''}'') ts ps"
proof -
  have "(\<exists>u. ps ! i = CHR ''@'' # uuids u) \<and> \<not> sublist (ps ! i) (front @ t @ ''{'' @ m @ ''}'')
      \<and> (\<forall>j \<le> i. \<not> sublist (ps ! i) (ts ! j))" if "i < length ps" for i
  proof -
    have *: "\<exists>u. ps ! i = CHR ''@'' # uuids u" "\<not> sublist (ps ! i) front"
        "\<forall>j \<le> Suc i. \<not> sublist (ps ! i) ((t # ts) ! j)"
      using assms(1) [unfolded new_placeholders_def, THEN conjunct2, rule_format, of "Suc i"] that by auto
    from *(3) [rule_format, of 0] have "\<not> sublist (ps ! i) t" by simp
    moreover have "\<not> sublist (ps ! i) (ts ! j)" if "j \<le> i" for j using *(3) [rule_format, of "Suc j"] that by simp
    moreover from *(1) obtain u where "ps ! i = CHR ''@'' # uuids u" ..
    ultimately show ?thesis using placeholder_not_in_built(2) [OF _ assms(2,3) *(2) _ assms(4)] *(1) by blast
  qed
  then show ?thesis using assms(1) by (simp add: new_placeholders_def)
qed

definition typed_param :: "string \<Rightarrow> string \<Rightarrow> string" where
  "typed_param nm ty = ''{'' @ nm @ '':'' @ ty @ ''}''"

lemma build_loop_weave:
  assumes "new_placeholders uuids front ts (map tmp_placeholder ps)" "plain_uuids uuids" "built front"
    and "\<forall>k < length ps. types (i + k) = Inr (ty (i + k)) \<and> names (i + k) = Inr (nm (i + k))
           \<and> CHR ''@'' \<notin> set (ty (i + k)) \<and> CHR ''@'' \<notin> set (nm (i + k))"
  shows "build_loop types names i ps (front @ weave ts (map tmp_placeholder ps) post)
    = Inr (front @ weave ts (map (\<lambda>k. typed_param (nm k) (ty k)) [i..<i + length ps]) post)"
  using assms
proof (induction ps arbitrary: i front ts)
  case Nil
  then show ?case by (cases ts) simp_all
next
  case (Cons p ps)
  from Cons.prems(1) obtain t ts' where ts: "ts = t # ts'" by (cases ts) (auto simp: new_placeholders_def)
  let ?m = "nm i @ '':'' @ ty i"
  have here: "types i = Inr (ty i)" "names i = Inr (nm i)" "CHR ''@'' \<notin> set ?m"
    using Cons.prems(4) [rule_format, of 0] by simp_all
  obtain u where p: "tmp_placeholder p = CHR ''@'' # uuids u"
    and "\<not> sublist (tmp_placeholder p) front" "\<not> sublist (tmp_placeholder p) t"
    using Cons.prems(1) [unfolded new_placeholders_def ts, THEN conjunct2, rule_format, of 0] by auto
  then have "\<not> sublist (tmp_placeholder p) (front @ t)"
    using placeholder_not_in_built(1) [OF p Cons.prems(2,3)] here(3) by blast
  moreover have "CHR ''@'' \<notin> set (uuids u)" using Cons.prems(2) by (auto simp: plain_uuids_def)
  ultimately have find: "find_sub (tmp_placeholder p) ((front @ t) @ tmp_placeholder p @ rest) = Some (length (front @ t))" for rest
    unfolding p by (rule find_sub_first [rotated])
  have new: "new_placeholders uuids (front @ t @ ''{'' @ ?m @ ''}'') ts' (map tmp_placeholder ps)"
    by (rule new_placeholders_tail) (use Cons.prems ts here in simp_all)
  have rest: "\<forall>k < length ps. types (i + 1 + k) = Inr (ty (i + 1 + k)) \<and> names (i + 1 + k) = Inr (nm (i + 1 + k))
      \<and> CHR ''@'' \<notin> set (ty (i + 1 + k)) \<and> CHR ''@'' \<notin> set (nm (i + 1 + k))"
    using Cons.prems(4) [rule_format, of "Suc _"] by simp
  have bt: "built (front @ t @ ''{'' @ ?m @ ''}'')" by (simp add: built_def)
  let ?rest = "weave ts' (map tmp_placeholder ps) post"
  have "build_loop types names i (p # ps) (front @ weave ts (map tmp_placeholder (p # ps)) post)
      = build_loop types names (i + 1) ps ((front @ t @ ''{'' @ ?m @ ''}'') @ ?rest)"
    using find [of ?rest] replace_at_here [of "front @ t" "tmp_placeholder p" "''{'' @ ?m @ ''}''" ?rest]
    by (simp add: here(1,2) ts del: bind_result_Inr)
  also have "\<dots> = Inr ((front @ t @ ''{'' @ ?m @ ''}'') @ weave ts' (map (\<lambda>k. typed_param (nm k) (ty k)) [i + 1..<i + 1 + length ps]) post)"
    by (rule Cons.IH [OF new Cons.prems(2) bt rest])
  finally show ?case by (simp add: ts typed_param_def upt_conv_Cons del: upt_Suc bind_result_Inr build_loop.simps)
qed

section \<open>The letters of generated type names\<close>

lemma type_name_letters:
  fixes P :: "char \<Rightarrow> bool"
  assumes "list_all P ''Nullable(),0123456789LowCardinality(FixedString DecimalUUIDFloat32Int8DateTime64Nothing''"
    and "list_all P (show_int (precision ti))" "list_all P (show_int (scale ti))"
    and "0 < value_max_size ti \<Longrightarrow> list_all P (show_int (value_max_size ti))"
  shows "list_all P (sql_type_name ti)" "list_all P (c_type_name ti)"
proof -
  have if_all: "(b \<Longrightarrow> list_all P x) \<Longrightarrow> (\<not> b \<Longrightarrow> list_all P y) \<Longrightarrow> list_all P (if b then x else y)" for b x y
    by simp
  have nul: "list_all P x \<Longrightarrow> list_all P (set_nullability ti x)" for x
    using assms(1) by (simp add: set_nullability_def)
  have rules: "list_all P ''Nothing''" "list_all P ''String''" "list_all P ''UInt8''" 
    "list_all P ''LowCardinality(''" "list_all P '')''" "list_all P ''Decimal(''"
    "list_all P '', ''" "list_all P ''FixedString(''"
    using assms(1) by simp_all
  show "list_all P (sql_type_name ti)"
    unfolding sql_type_name_def Let_def
    by (intro if_all nul list_all_append [THEN iffD2] conjI; (rule assms; assumption)?; insert assms(1); simp)
  show "list_all P (c_type_name ti)"
    unfolding c_type_name_def Let_def
    by (intro if_all nul list_all_append [THEN iffD2] conjI; (rule assms; assumption)?; insert assms(1); simp)
qed

lemma convert_type_letters:
  assumes "convertSQLOrCTypeToDataSourceType ti = Inr nm" "list_all P (sql_type_name ti)" "list_all P (c_type_name ti)"
  shows "list_all P nm"
  using assms
  by (auto simp: convertSQLOrCTypeToDataSourceType_def convertSQLTypeToDataSourceType_def
    convertCTypeToDataSourceType_def Let_def split: if_splits sum.splits)

lemma no_at_show_int: "list_all (\<lambda>c. c \<noteq> CHR ''@'') (show_int i)"
proof -
  have "\<not> isdigit (CHR ''@'')" by code_simp
  then have "list_all (\<lambda>c. c \<noteq> CHR ''@'') (show_nat n)" for n
    using show_nat_digits [of n] by (auto simp: list_all_iff)
  then show ?thesis by (simp add: show_int_def)
qed

lemma param_type_no_at:
  assumes "param_type mem bs i = Inr ty"
  shows "CHR ''@'' \<notin> set ty"
proof -
  let ?P = "\<lambda>c. c \<noteq> CHR ''@''"
  have all: "list_all ?P nm" if "convertSQLOrCTypeToDataSourceType ti = Inr nm" for ti nm
    by (rule convert_type_letters [OF that]; rule type_name_letters [OF _ no_at_show_int no_at_show_int no_at_show_int]; simp)
  have "list_all ?P ty"
  proof (cases "length bs \<le> i")
    case False
    then show ?thesis using assms by (intro all) (simp add: param_type_def Let_def)
  qed (use assms in \<open>auto simp: param_type_def\<close>)
  then show ?thesis by (auto simp: list_all_iff)
qed

section \<open>The loop over UUIDs ends\<close>

lemma fresh_uuid:
  fixes uuids :: "nat \<Rightarrow> string"
  assumes "inj uuids"
  shows "\<exists>m \<ge> n. \<not> sublist (CHR ''@'' # uuids m) q"
proof (rule ccontr)
  assume "\<not> ?thesis"
  then have "range (\<lambda>k. CHR ''@'' # uuids (n + k)) \<subseteq> set (sublists q)" by auto
  then have "finite (range (\<lambda>k. CHR ''@'' # uuids (n + k)))" by (rule finite_subset) simp
  moreover have "inj (\<lambda>k. CHR ''@'' # uuids (n + k))" by (rule injI) (auto dest: injD [OF assms])
  ultimately show False using finite_imageD infinite_UNIV_nat by blast
qed

lemma generate_placeholder_returns_at:
  "\<not> sublist (CHR ''@'' # uuids (n + k)) q \<Longrightarrow> generate_placeholder uuids q n \<noteq> None"
proof (induction k arbitrary: n)
  case 0
  then show ?case by (subst generate_placeholder.simps) (simp add: Let_def)
next
  case (Suc k)
  then show ?case by (subst generate_placeholder.simps) (simp add: Let_def)
qed

lemma generate_placeholder_returns:
  "inj uuids \<Longrightarrow> generate_placeholder uuids q n \<noteq> None"
  using fresh_uuid [of uuids n q] generate_placeholder_returns_at [of uuids n _ q] le_Suc_ex by metis

lemma extract_loop_returns:
  "inj uuids \<Longrightarrow> extract_loop uuids n quoted_by left rest params \<noteq> None"
proof (induction uuids n quoted_by left rest params rule: extract_loop.induct)
  case (2 uuids n quoted_by left c rest params)
  note ret = generate_placeholder_returns [OF "2.prems", of "left @ c # rest" n]
  show ?case
  proof (cases rule: scan_cases [where c = c and rest = rest and quoted_by = quoted_by])
    case positional
    then obtain p n' where "generate_placeholder uuids (left @ c # rest) n = Some (p, n')" using ret by auto
    then show ?thesis using "2.IH"(6) [of "(p, n')" p n'] positional "2.prems" by simp
  next
    case named
    then obtain p n' where "generate_placeholder uuids (left @ c # rest) n = Some (p, n')" using ret by auto
    then show ?thesis using "2.IH"(7) [of _ "(p, n')" p n'] named "2.prems" by (simp add: Let_def)
  qed (use "2.IH" "2.prems" in \<open>simp; fail\<close>)+
qed simp

text \<open>Whatever the query, cutting out its parameters ends, as long as the UUID generator never
  repeats itself: only finitely many UUIDs can occur in the query.\<close>

theorem extract_params_returns:
  assumes "inj uuids"
  shows "\<exists>r. extract_params uuids q = Some r"
  using extract_loop_returns [OF assms] by (auto simp: extract_params_def)

theorem extract_params_returns_witness:
  "\<exists>r. extract_params (\<lambda>n. replicate n CHR ''a'') ''SELECT ?, @aa, @x'' = Some r"
  by (rule extract_params_returns) (simp add: inj_on_def)

section \<open>The final query\<close>

lemma new_placeholders_base: "new_placeholders uuids base ts ps \<Longrightarrow> new_placeholders uuids [] ts ps"
  by (auto simp: new_placeholders_def)

lemma final_query_weave:
  assumes "extract_params uuids q = Some (Inr (q', ps))" "plain_uuids uuids"
    and "query st = q'" "parameters st = ps"
    and "\<forall>k < length ps. param_type mem bs k = Inr (ty k) \<and> getParamFinalName st k = Inr (nm k)
          \<and> CHR ''@'' \<notin> set (nm k)"
  shows "\<exists>segs post. split_params ch_nul [] q = Inr (segs, post)
    \<and> weave (map fst segs) (map snd segs) post = q
    \<and> map info_name ps = map (marker_name \<circ> snd) segs
    \<and> buildFinalQuery mem st bs =
        Inr (weave (map fst segs) (map (\<lambda>k. typed_param (nm k) (ty k)) [0..<length ps]) post)"
proof -
  from extract_loop_splits [OF assms(1) [unfolded extract_params_def], of "[]" "[]"]
  obtain segs post where r: "split_params ch_nul [] q = Inr (segs, post)"
    "map info_name ps = map (marker_name \<circ> snd) segs"
    "q' = weave (map fst segs) (map tmp_placeholder ps) post"
    "new_placeholders uuids [] (map fst segs) (map tmp_placeholder ps)" by auto
  have "build_loop (param_type mem bs) (getParamFinalName st) 0 ps ([] @ weave (map fst segs) (map tmp_placeholder ps) post)
      = Inr ([] @ weave (map fst segs) (map (\<lambda>k. typed_param (nm k) (ty k)) [0..<0 + length ps]) post)"
    by (rule build_loop_weave [OF r(4) assms(2)]) (use assms(5) param_type_no_at in \<open>auto simp: built_def\<close>)
  then show ?thesis
    using r split_params_weave [OF r(1)] assms(3,4) by (auto simp: buildFinalQuery_def)
qed

section \<open>Markers outside quoted texts\<close>

text \<open>A quoted text behind its opening quote \<open>q\<close>, and what is behind it: it ends at the first \<open>q\<close> that is
  neither escaped by a backslash nor doubled. A quote of the other kind is a character of the text.\<close>

fun quoted_text :: "char \<Rightarrow> string \<Rightarrow> string \<times> string" where
  "quoted_text q [] = ([], [])"
| "quoted_text q (c # rest) =
     (if c = ch_bslash then
        (case rest of [] \<Rightarrow> ([c], []) | d # rest' \<Rightarrow> apfst (\<lambda>w. c # d # w) (quoted_text q rest'))
      else if c = q then
        (case rest of [] \<Rightarrow> ([c], [])
         | d # rest' \<Rightarrow> if d = q then apfst (\<lambda>w. c # d # w) (quoted_text q rest') else ([c], rest))
      else apfst (Cons c) (quoted_text q rest))"

lemma quoted_text_length: "length (snd (quoted_text q s)) \<le> length s"
proof (induction q s rule: quoted_text.induct)
  case (2 q c rest)
  then show ?case by (cases rest) (simp_all add: le_SucI)
qed simp

abbreviation (input) is_quote :: "char \<Rightarrow> bool" where
  "is_quote c \<equiv> c = ch_quote \<or> c = ch_dquote"

text \<open>The query cut at the markers outside quoted texts.\<close>

function (sequential) cut_markers :: "string \<Rightarrow> string \<Rightarrow> ((string \<times> string) list \<times> string) result" where
  "cut_markers seen [] = Inr ([], seen)"
| "cut_markers seen (c # rest) =
     (if c = ch_bslash then
        (case rest of [] \<Rightarrow> Inr ([], seen @ [c]) | d # rest' \<Rightarrow> cut_markers (seen @ [c, d]) rest')
      else if is_quote c then
        cut_markers (seen @ c # fst (quoted_text c rest)) (snd (quoted_text c rest))
      else if c = CHR ''?'' then
        bind_result (cut_markers [] rest) (\<lambda>(segs, post). Inr ((seen, ''?'') # segs, post))
      else if c = CHR ''@'' then
        if param_word rest = [] then Inl (SqlException ''Syntax error or access violation'' ''42000'')
        else
          bind_result (cut_markers [] (drop (length (param_word rest)) rest)) (\<lambda>(segs, post).
          Inr ((seen, CHR ''@'' # param_word rest) # segs, post))
      else cut_markers (seen @ [c]) rest)"
  by pat_completeness auto
termination
  by (relation "measure (\<lambda>(_, rest). length rest)") (simp_all add: quoted_text_length le_imp_less_Suc)

text \<open>An unescaped \<open>q\<close> occurs.\<close>

fun bare_quote :: "char \<Rightarrow> string \<Rightarrow> bool" where
  "bare_quote q [] \<longleftrightarrow> False"
| "bare_quote q (c # rest) \<longleftrightarrow>
     (if c = ch_bslash then (case rest of [] \<Rightarrow> False | d # rest' \<Rightarrow> bare_quote q rest') else c = q \<or> bare_quote q rest)"

definition other_quote :: "char \<Rightarrow> char" where
  "other_quote q = (if q = ch_quote then ch_dquote else ch_quote)"

text \<open>No quoted text of the query has an unescaped quote of the other kind.\<close>

function (sequential) one_kind_of_quote :: "string \<Rightarrow> bool" where
  "one_kind_of_quote [] = True"
| "one_kind_of_quote (c # rest) =
     (if c = ch_bslash then (case rest of [] \<Rightarrow> True | d # rest' \<Rightarrow> one_kind_of_quote rest')
      else if is_quote c then
        (\<not> bare_quote (other_quote c) (fst (quoted_text c rest))) \<and> one_kind_of_quote (snd (quoted_text c rest))
      else one_kind_of_quote rest)"
  by pat_completeness auto
termination
proof (relation "measure length", goal_cases)
  case (3 c rest)
  then show ?case using quoted_text_length [of c rest] by (simp add: le_imp_less_Suc)
qed simp_all

text \<open>Then the scan of the driver, which keeps the last quote it has seen, agrees.\<close>

lemma other_quote_cases: "is_quote q \<Longrightarrow> is_quote c \<Longrightarrow> q \<noteq> c \<Longrightarrow> other_quote q = c"
  by (auto simp: other_quote_def)

lemma split_params_quoted:
  assumes "is_quote q" "\<not> bare_quote (other_quote q) (fst (quoted_text q rest))"
  shows "split_params q seen rest = split_params ch_nul (seen @ fst (quoted_text q rest)) (snd (quoted_text q rest))"
  using assms
proof (induction q rest arbitrary: seen rule: quoted_text.induct)
  case (2 q c rest)
  have q: "q \<noteq> ch_nul" "q \<noteq> ch_bslash" "q \<noteq> CHR ''?''" "q \<noteq> CHR ''@''" "q = ch_dquote \<or> q = ch_quote" using "2.prems"(1) by auto
  show ?case
  proof (cases rule: scan_cases [where c = c and rest = rest and quoted_by = q])
    case (bslash d rest')
    have "split_params q (seen @ [c, d]) rest' = split_params ch_nul ((seen @ [c, d]) @ fst (quoted_text q rest')) (snd (quoted_text q rest'))"
      by (rule "2.IH"(1) [OF bslash "2.prems"(1)]) (use bslash "2.prems"(2) in simp)
    then show ?thesis using bslash by simp
  next
    case (doubled rest')
    have "split_params q (seen @ [c, q]) rest' = split_params ch_nul ((seen @ [c, q]) @ fst (quoted_text q rest')) (snd (quoted_text q rest'))"
      by (rule "2.IH"(2)) (use doubled "2.prems" in simp_all)
    then show ?thesis using doubled by simp
  next
    case openq
    have "other_quote q = c" by (rule other_quote_cases) (use openq "2.prems"(1) in blast)+
    then have False using openq "2.prems"(2) by simp
    then show ?thesis ..
  next
    case quoted
    have "c \<noteq> q" using quoted q(5) by blast
    moreover from this have "split_params q (seen @ [c]) rest = split_params ch_nul ((seen @ [c]) @ fst (quoted_text q rest)) (snd (quoted_text q rest))"
      by (intro "2.IH"(3)) (use quoted "2.prems" in simp_all)
    ultimately show ?thesis using quoted by simp
  next
    case plain
    have "c \<noteq> q" using plain q(5) by blast
    moreover from this have "split_params q (seen @ [c]) rest = split_params ch_nul ((seen @ [c]) @ fst (quoted_text q rest)) (snd (quoted_text q rest))"
      by (intro "2.IH"(3)) (use plain "2.prems" in simp_all)
    ultimately show ?thesis using plain by simp
  next
    case bslash_end
    then show ?thesis by simp
  next
    case closing_end
    then show ?thesis by simp
  next
    case closing
    then show ?thesis by simp
  next
    case positional
    then show ?thesis using q(1) by blast
  next
    case named
    then show ?thesis using q(1) by blast
  qed
qed simp

lemma one_kind_of_quote_word: "one_kind_of_quote rest \<Longrightarrow> one_kind_of_quote (drop (length (param_word rest)) rest)"
proof -
  have "\<forall>c \<in> set (param_word rest). c \<noteq> ch_bslash \<and> \<not> is_quote c"
    by (cases rest) (auto simp: param_word_def name_char_def cctype dest: set_takeWhileD)
  moreover have "one_kind_of_quote (w @ s) \<longleftrightarrow> one_kind_of_quote s" if "\<forall>c \<in> set w. c \<noteq> ch_bslash \<and> \<not> is_quote c" for w s
    using that by (induction w) simp_all
  ultimately show "one_kind_of_quote rest \<Longrightarrow> one_kind_of_quote (drop (length (param_word rest)) rest)"
    using param_word_prefix [of rest] by metis
qed

lemma split_params_cut: "one_kind_of_quote rest \<Longrightarrow> split_params ch_nul seen rest = cut_markers seen rest"
proof (induction seen rest rule: cut_markers.induct)
  case (2 seen c rest)
  show ?case
  proof (cases rule: scan_cases [where c = c and rest = rest and quoted_by = ch_nul])
    case bslash
    then show ?thesis using "2.IH"(1) "2.prems" by simp
  next
    case openq
    then have "is_quote c" by auto
    then have "split_params ch_nul seen (c # rest) = split_params c (seen @ [c]) rest" using openq by simp
    also have "\<dots> = split_params ch_nul (seen @ c # fst (quoted_text c rest)) (snd (quoted_text c rest))"
      using split_params_quoted [OF \<open>is_quote c\<close>, of rest "seen @ [c]"] "2.prems" openq(1) \<open>is_quote c\<close> by simp
    also have "\<dots> = cut_markers (seen @ c # fst (quoted_text c rest)) (snd (quoted_text c rest))"
      using "2.IH"(2) "2.prems" openq(1) \<open>is_quote c\<close> by simp
    finally show ?thesis using openq(1) \<open>is_quote c\<close> by simp
  next
    case positional
    then show ?thesis using "2.IH"(3) "2.prems" by simp
  next
    case named
    then show ?thesis using "2.IH"(4) "2.prems" one_kind_of_quote_word [of rest] by simp
  next
    case plain
    then show ?thesis using "2.IH"(5) "2.prems" by simp
  next
    case doubled
    then have False by auto
    then show ?thesis ..
  next
    case closing
    then have False by auto
    then show ?thesis ..
  next
    case closing_end
    then have False by auto
    then show ?thesis ..
  qed simp_all
qed simp

text \<open>C8: The final query is the text of the application with each marker outside quoted text, and nothing else,
  replaced by the typed parameter of its position, for queries whose quoted texts have no unescaped quote of the other
  kind. Where one has, the scan of the driver loses count (\<open>other_quote_hides_markers\<close>). Escaped characters are
  skipped; placeholders are new to the text, so that each is found where it was put.\<close>

theorem final_query_substitutes:
  assumes "extract_params uuids q = Some (Inr (q', ps))" "plain_uuids uuids" "one_kind_of_quote q"
    and "query st = q'" "parameters st = ps"
    and "\<forall>k < length ps. param_type mem bs k = Inr (ty k) \<and> getParamFinalName st k = Inr (nm k)
          \<and> CHR ''@'' \<notin> set (nm k)"
  shows "\<exists>segs post. cut_markers [] q = Inr (segs, post)
    \<and> weave (map fst segs) (map snd segs) post = q
    \<and> map info_name ps = map (marker_name \<circ> snd) segs
    \<and> buildFinalQuery mem st bs =
        Inr (weave (map fst segs) (map (\<lambda>k. typed_param (nm k) (ty k)) [0..<length ps]) post)"
  using final_query_weave [OF assms(1,2,4-6)] split_params_cut [OF assms(3), of "[]"] by simp

definition two_markers :: prepared where
  "two_markers = \<lparr>query = ''@1 - @2'',
     parameters = [\<lparr>info_name = '''', tmp_placeholder = ''@1''\<rparr>, \<lparr>info_name = ''@x'', tmp_placeholder = ''@2''\<rparr>],
     descs = \<lparr>apd_desc = new_Descriptor, ipd_desc = new_Descriptor\<rparr>\<rparr>"

lemma two_markers_names:
  "getParamFinalName two_markers 0 = Inr ''odbc_positional_1''" "getParamFinalName two_markers 1 = Inr ''x''"
  by code_simp+

lemma two_markers_extracted:
  "extract_params (\<lambda>n. show_nat (n + 1)) ''? - @x'' = Some (Inr (query two_markers, parameters two_markers))"
proof -
  have "generate_placeholder (\<lambda>n. show_nat (n + 1)) ''? - @x'' 0 = Some (''@1'', 1)"
    "generate_placeholder (\<lambda>n. show_nat (n + 1)) ''@1 - @x'' 1 = Some (''@2'', 2)"
    by (subst generate_placeholder.simps; code_simp)+
  then show ?thesis by (simp add: extract_params_def two_markers_def param_word_def name_char_def cctype)
qed

lemma plain_show_nat: "plain_uuids (\<lambda>n. show_nat (n + 1))"
proof -
  have "\<not> isdigit (CHR ''@'')" "\<not> isdigit (CHR ''{'')" "\<not> isdigit (CHR ''}'')" by code_simp+
  then show ?thesis using show_nat_digits by (auto simp: plain_uuids_def list_all_iff)
qed

lemma two_markers_params:
  "\<forall>k < length (parameters two_markers). param_type mem [] k = Inr ''Nullable(Nothing)''
      \<and> getParamFinalName two_markers k = Inr ([''odbc_positional_1'', ''x''] ! k)"
  using two_markers_names by (auto simp: param_type_def two_markers_def less_Suc_eq)

theorem final_query_substitutes_witness:
  "\<exists>segs post. cut_markers [] ''? - @x'' = Inr (segs, post)
    \<and> weave (map fst segs) (map snd segs) post = ''? - @x''
    \<and> map info_name (parameters two_markers) = map (marker_name \<circ> snd) segs
    \<and> buildFinalQuery (\<lambda>a. 0) two_markers [] =
        Inr (weave (map fst segs) (map (\<lambda>k. typed_param ([''odbc_positional_1'', ''x''] ! k) ''Nullable(Nothing)'')
          [0..<length (parameters two_markers)]) post)"
  by (rule final_query_substitutes [OF two_markers_extracted plain_show_nat])
    (use two_markers_params in \<open>auto simp: two_markers_def less_Suc_eq\<close>)

section \<open>Quotes of the other kind\<close>

lemma extract_loop_inert:
  assumes "ch_bslash \<notin> set w" "ch_quote \<notin> set w" "ch_dquote \<notin> set w" "quoted_by \<noteq> ch_nul"
  shows "extract_loop uuids n quoted_by left (w @ rest) params = extract_loop uuids n quoted_by (left @ w) rest params"
  using assms(1-3)
proof (induction w arbitrary: left)
  case (Cons c w)
  then have "c \<noteq> ch_bslash" "c \<noteq> ch_quote" "c \<noteq> ch_dquote" by auto
  then show ?case using assms(4) Cons.IH [of "left @ [c]"] Cons.prems by simp
qed simp

text \<open>A double quote inside a string literal (or an apostrophe inside a quoted identifier) makes
  the scan forget which quote it is in, so that the closing quote opens a new one: every marker after
  the literal is then taken for quoted text and no parameter is found.\<close>

theorem other_quote_hides_markers:
  assumes "{c, d} = {ch_quote, ch_dquote}"
    and "\<forall>w \<in> {pre, w1, w2, post}. set w \<inter> {ch_bslash, ch_quote, ch_dquote} = {}"
    and "CHR ''?'' \<notin> set pre" "CHR ''@'' \<notin> set pre"
  shows "extract_params uuids (pre @ c # w1 @ d # w2 @ c # post)
    = Some (Inr (pre @ c # w1 @ d # w2 @ c # post, []))"
proof -
  have q: "c \<in> {ch_quote, ch_dquote}" "d \<in> {ch_quote, ch_dquote}" "c \<noteq> d" "c \<noteq> ch_nul" "d \<noteq> ch_nul"
    using assms(1) by (auto simp: doubleton_eq_iff)
  have plain: "ch_bslash \<notin> set w" "ch_quote \<notin> set w" "ch_dquote \<notin> set w" if "w \<in> {pre, w1, w2, post}" for w
    using assms(2) that by auto
  have "extract_loop uuids 0 ch_nul left (p @ rest) [] = extract_loop uuids 0 ch_nul (left @ p) rest []"
    if "set p \<subseteq> set pre" for p left rest
    using that
  proof (induction p arbitrary: left)
    case (Cons a p)
    then have "a \<noteq> ch_bslash" "a \<noteq> ch_quote" "a \<noteq> ch_dquote" "a \<noteq> CHR ''?''" "a \<noteq> CHR ''@''"
      using assms(3,4) plain [of pre] by auto
    then show ?case using Cons.IH [of "left @ [a]"] Cons.prems by simp
  qed simp
  from this [of pre "[]" "c # w1 @ d # w2 @ c # post"]
  have "extract_params uuids (pre @ c # w1 @ d # w2 @ c # post) = extract_loop uuids 0 ch_nul pre (c # w1 @ d # w2 @ c # post) []"
    by (simp add: extract_params_def)
  also have "\<dots> = extract_loop uuids 0 c (pre @ [c]) (w1 @ d # w2 @ c # post) []"
    using q by auto
  also have "\<dots> = extract_loop uuids 0 c ((pre @ [c]) @ w1) (d # w2 @ c # post) []"
    by (rule extract_loop_inert) (use q plain in auto)
  also have "\<dots> = extract_loop uuids 0 d (((pre @ [c]) @ w1) @ [d]) (w2 @ c # post) []"
    using q by auto
  also have "\<dots> = extract_loop uuids 0 d ((((pre @ [c]) @ w1) @ [d]) @ w2) (c # post) []"
    by (rule extract_loop_inert) (use q plain in auto)
  also have "\<dots> = extract_loop uuids 0 c (((((pre @ [c]) @ w1) @ [d]) @ w2) @ [c]) (post @ []) []"
    using q by auto
  also have "\<dots> = extract_loop uuids 0 c ((((((pre @ [c]) @ w1) @ [d]) @ w2) @ [c]) @ post) [] []"
    by (rule extract_loop_inert) (use q plain in auto)
  finally show ?thesis by simp
qed

theorem other_quote_hides_markers_witness:
  "extract_params (\<lambda>n. show_nat n) (''SELECT '' @ ch_quote # ''5'' @ ch_dquote # ''x'' @ ch_quote # '', ?'')
    = Some (Inr (''SELECT '' @ ch_quote # ''5'' @ ch_dquote # ''x'' @ ch_quote # '', ?'', []))"
  by (rule other_quote_hides_markers) auto

end
