(* ===== verification/Lexer.thy ===== *)
theory Lexer
  imports Prelude
begin

text \<open>
  The lexer of escape sequences, driver/escaping/lexer.cpp. A \<open>lexer\<close> record is a
  \<open>Lexer\<close> object: \<open>unread\<close> is the text from \<open>cur_\<close> to \<open>end_\<close>, \<open>readed\<close> the deque
  \<open>readed_\<close> of tokens looked at but not consumed, \<open>emit_space\<close> the flag
  \<open>emit_space_\<close>. An enumerator pasted by the X-macros (\<open>FN_##NAME\<close>,
  \<open>SQL_TSI_##NAME\<close>) is a constructor applied to NAME. Characters are classified as in
  the "C" locale. A token's literal is the text its \<open>StringView\<close> covers.
\<close>

section \<open>Tokens\<close>

datatype ttype =
    INVALID | EOS | SPACE | OTHER
  | IDENT | NUMBER | STRING | PARAM
  | FN | D | T | TS
  | FN_of string
  | SQL_TSI_of string
  | COMMA | LPARENT | RPARENT | LCURLY | RCURLY | COLON

record token =
  ttype :: ttype
  literal :: string

definition isInvalid :: "token \<Rightarrow> bool" where
  "isInvalid t \<longleftrightarrow> ttype t = INVALID"

section \<open>Keywords\<close>

text \<open>The table of escaping/function_declare.h: token name and ClickHouse function.\<close>

definition function_declare :: "(string \<times> string) list" where
  "function_declare =
    [(''ASCII'', ''ascii''), (''BIT_LENGTH'', ''''), (''CHAR'', ''char''),
     (''CHAR_LENGTH'', ''lengthUTF8''), (''CHARACTER_LENGTH'', ''lengthUTF8''),
     (''CONCAT'', ''concat''), (''DIFFERENCE'', ''''), (''INSERT'', ''''),
     (''LCASE'', ''lowerUTF8''), (''LEFT'', ''leftUTF8''), (''LENGTH'', ''lengthUTF8''),
     (''LOCATE'', ''''), (''LTRIM'', ''''), (''OCTET_LENGTH'', ''length''),
     (''POSITION'', ''POSITION''), (''REPEAT'', ''repeat''), (''REPLACE'', ''replaceAll''),
     (''RIGHT'', ''rightUTF8''), (''RTRIM'', ''trimRight''), (''SOUNDEX'', ''soundex''),
     (''SPACE'', ''''), (''SUBSTRING'', ''substringUTF8''), (''UCASE'', ''upperUTF8''),
     (''LOWER'', ''lowerUTF8''), (''UPPER'', ''upperUTF8''),
     (''ABS'', ''abs''), (''ACOS'', ''acos''), (''ASIN'', ''asin''), (''ATAN'', ''atan''),
     (''ATAN2'', ''atan2''), (''CEILING'', ''ceil''), (''COS'', ''cos''), (''COT'', ''''),
     (''DEGREES'', ''degrees''), (''EXP'', ''exp''), (''FLOOR'', ''floor''), (''LOG'', ''log''),
     (''LOG10'', ''log10''), (''MOD'', ''modulo''), (''PI'', ''pi''), (''POWER'', ''pow''),
     (''RADIANS'', ''radians''), (''RAND'', ''randCanonical''), (''ROUND'', ''round''),
     (''SIGN'', ''sign''), (''SIN'', ''sin''), (''SQRT'', ''sqrt''), (''TAN'', ''tan''),
     (''TRUNCATE'', ''trunc''),
     (''CURRENT_DATE'', ''today''), (''CURRENT_TIME'', ''''), (''CURRENT_TIMESTAMP'', ''''),
     (''CURDATE'', ''today''), (''CURTIME'', ''now64''), (''DAYNAME'', ''''),
     (''DAYOFMONTH'', ''toDayOfMonth''), (''DAYOFWEEK'', ''''),
     (''DAYOFYEAR'', '' toDayOfYear''), (''EXTRACT'', ''EXTRACT''), (''HOUR'', ''toHour''),
     (''MINUTE'', ''toMinute''), (''MONTH'', ''toMonth''), (''MONTHNAME'', ''''),
     (''NOW'', ''now''), (''SECOND'', ''toSecond''), (''TIMESTAMPADD'', ''''),
     (''TIMESTAMPDIFF'', ''dateDiff''), (''WEEK'', ''toISOWeek''), (''QUARTER'', ''toQuarter''),
     (''YEAR'', ''toYear''),
     (''DATABASE'', ''database''), (''IFNULL'', ''ifNull''), (''USER'', ''user''),
     (''CONVERT'', '''')]"

text \<open>
  \<open>KEYWORDS\<close> as the list its initialiser gives; \<open>unordered_map\<close> keeps the first entry
  of a key, which \<open>map_of\<close> does too. The DECLARE lines of lexer_declare.h carry the
  full name (\<open>SQL_TSI_DAY\<close>), the DECLARE_SQL_TSI lines the short one (\<open>DAY\<close>).
\<close>

definition tsi_names :: "string list" where
  "tsi_names = [''FRAC_SECOND'', ''SECOND'', ''MINUTE'', ''HOUR'', ''DAY'', ''WEEK'', ''MONTH'',
     ''QUARTER'', ''YEAR'']"

definition KEYWORDS :: "(string \<times> ttype) list" where
  "KEYWORDS =
     [(''FN'', FN), (''D'', D), (''T'', T), (''TS'', TS)]
     @ map (\<lambda>(n, _). (n, FN_of n)) function_declare
     @ map (\<lambda>n. (''SQL_TSI_'' @ n, SQL_TSI_of n)) tsi_names
     @ map (\<lambda>n. (n, SQL_TSI_of n)) tsi_names"

definition LookupIdent :: "string \<Rightarrow> ttype" where
  "LookupIdent ident = (case map_of KEYWORDS ident of Some k \<Rightarrow> k | None \<Rightarrow> IDENT)"

definition to_upper :: "string \<Rightarrow> string" where
  "to_upper str = map toupper str"

section \<open>Recognising one token\<close>

text \<open>
  Each scanner returns what it found, the characters it moved \<open>cur_\<close> over and the
  characters left. The loop of a quoted string starts after the opening quote.
\<close>

fun string_body :: "bool \<Rightarrow> string \<Rightarrow> bool \<times> string \<times> string" where
  "string_body has_slash [] = (False, [], [])"
| "string_body has_slash (c # cs) =
     (if c = ch_bslash \<and> \<not> has_slash then
        (let (ok, lit, rest) = string_body True cs in (ok, c # lit, rest))
      else if c = ch_quote \<and> \<not> has_slash then (True, [c], cs)
      else (let (ok, lit, rest) = string_body False cs in (ok, c # lit, rest)))"

text \<open>The search for the closing backtick; the flag is \<open>found_closing_backtick\<close>.\<close>

fun backtick_body :: "string \<Rightarrow> bool \<times> string \<times> string" where
  "backtick_body [] = (False, [], [])"
| "backtick_body (c # cs) =
     (if c = ch_btick then (True, [c], cs)
      else (let (ok, lit, rest) = backtick_body cs in (ok, c # lit, rest)))"

definition ident_char :: "char \<Rightarrow> bool" where [cctype]:
  "ident_char c \<longleftrightarrow> isalpha c \<or> isdigit c \<or> c = CHR ''_''"

definition ident_start :: "char \<Rightarrow> bool" where [cctype]:
  "ident_start c \<longleftrightarrow> isalpha c \<or> c = CHR ''_'' \<or> c = ch_btick"

text \<open>One round of the identifier loop: a quoted or a plain segment.\<close>

definition ident_segment :: "char \<Rightarrow> string \<Rightarrow> bool \<times> bool \<times> string \<times> string" where
  "ident_segment c cs =
     (if c = ch_btick then
        (let (ok, lit, rest) = backtick_body cs in (ok, True, c # lit, rest))
      else if isalpha c \<or> c = CHR ''_'' then
        (True, False, c # takeWhile ident_char cs, dropWhile ident_char cs)
      else (False, False, [], c # cs))"

lemma backtick_body_split:
  "backtick_body cs = (ok, lit, rest) \<Longrightarrow> lit @ rest = cs"
  by (induction cs arbitrary: ok lit rest) (auto split: if_splits prod.splits)

lemma string_body_split:
  "string_body hs cs = (ok, lit, rest) \<Longrightarrow> lit @ rest = cs"
  by (induction cs arbitrary: hs ok lit rest) (auto split: if_splits prod.splits)

lemma ident_segment_split:
  "ident_segment c cs = (ok, bt, lit, rest) \<Longrightarrow> lit @ rest = c # cs"
  by (auto simp: ident_segment_def dest: backtick_body_split split: if_splits prod.splits)

lemma ident_segment_shorter:
  assumes "ident_segment c cs = (ok, bt, lit, d # ds)"
  shows "length ds < Suc (length cs)"
  using arg_cong [OF ident_segment_split [OF assms], of length] by simp

lemma ident_segment_ok:
  "ident_segment c cs = (True, bt, lit, rest) \<Longrightarrow> lit \<noteq> []"
  by (auto simp: ident_segment_def split: if_splits prod.splits)

text \<open>
  The identifier loop: \<open>None\<close> for the INVALID returns, otherwise whether a dot or a
  backtick was met; then the characters moved over and those left.
\<close>

function ident_loop :: "bool \<Rightarrow> bool \<Rightarrow> string \<Rightarrow> (bool \<times> bool) option \<times> string \<times> string" where
  "ident_loop has_dot has_bt [] = (Some (has_dot, has_bt), [], [])"
| "ident_loop has_dot has_bt (c # cs) =
     (case ident_segment c cs of
        (False, _, lit, rest) \<Rightarrow> (None, lit, rest)
      | (True, bt, lit, rest) \<Rightarrow>
          (case rest of
             [] \<Rightarrow> (Some (has_dot, has_bt \<or> bt), lit, [])
           | d # ds \<Rightarrow>
               if d = CHR ''.'' then
                 (let (r, lit', rest') = ident_loop True (has_bt \<or> bt) ds
                  in (r, lit @ d # lit', rest'))
               else (Some (has_dot, has_bt \<or> bt), lit, rest)))"
  by pat_completeness auto
termination
  by (relation "measure (\<lambda>(_, _, cs). length cs)")
    (auto dest: ident_segment_shorter [OF sym])

declare ident_loop.simps(2) [simp del]

lemma ident_loop_split:
  "ident_loop dt bt cs = (r, lit, rest) \<Longrightarrow> lit @ rest = cs"
proof (induction dt bt cs arbitrary: r lit rest rule: ident_loop.induct)
  case (2 dt bt c cs)
  then show ?case
    by (fastforce simp: ident_loop.simps(2) [of dt bt c cs]
        split: prod.splits bool.splits list.splits if_splits dest: ident_segment_split)
qed simp

text \<open>The loop of a number after its first character.\<close>

fun number_body :: "bool \<Rightarrow> bool \<Rightarrow> string \<Rightarrow> bool \<times> string \<times> string" where
  "number_body has_dot has_minus [] = (True, [], [])"
| "number_body has_dot has_minus (c # cs) =
     (if c = CHR ''.'' then
        (if has_dot then (False, [], c # cs)
         else (let (ok, lit, rest) = number_body True has_minus cs in (ok, c # lit, rest)))
      else if c = CHR ''-'' \<and> has_minus then (False, [], c # cs)
      else if \<not> isdigit c then (True, [], c # cs)
      else (let (ok, lit, rest) = number_body has_dot has_minus cs in (ok, c # lit, rest)))"

lemma number_body_split:
  "number_body dt mn cs = (ok, lit, rest) \<Longrightarrow> lit @ rest = cs"
  by (induction cs arbitrary: dt mn ok lit rest) (auto split: if_splits prod.splits)

definition skipped :: "char \<Rightarrow> bool" where [cctype]:
  "skipped c \<longleftrightarrow> c = ch_nul \<or> c = CHR '' '' \<or> c = ch_tab \<or> c = ch_ff \<or> c = ch_nl \<or> c = ch_cr"

definition delimiter :: "char \<Rightarrow> ttype option" where
  "delimiter c =
     (if c = CHR ''('' then Some LPARENT else if c = CHR '')'' then Some RPARENT
      else if c = CHR ''{'' then Some LCURLY else if c = CHR ''}'' then Some RCURLY
      else if c = CHR '','' then Some COMMA else if c = CHR '':'' then Some COLON
      else if c = CHR ''?'' then Some PARAM else None)"

definition Token :: "ttype \<Rightarrow> string \<Rightarrow> token" where
  "Token ty lit = \<lparr>ttype = ty, literal = lit\<rparr>"

lemma Token_simps [simp]: "ttype (Token ty lit) = ty" "literal (Token ty lit) = lit"
  by (simp_all add: Token_def)

text \<open>The \<open>default:\<close> case, at a character that is neither white space nor a delimiter nor a quote.\<close>

definition scan_default :: "char \<Rightarrow> string \<Rightarrow> token \<times> string" where
  "scan_default c cs =
     (if isalpha c \<or> c = CHR ''_'' \<or> c = ch_btick then
        (case ident_loop False False (c # cs) of
           (None, lit, rest) \<Rightarrow> (Token INVALID lit, rest)
         | (Some (has_dot, has_bt), lit, rest) \<Rightarrow>
             (Token (if has_dot \<or> has_bt then IDENT else LookupIdent (to_upper lit)) lit, rest))
      else if isdigit c \<or> c = CHR ''.'' \<or> c = CHR ''-'' then
        (let (ok, lit, rest) = number_body (c = CHR ''.'') (c = CHR ''-'') cs
         in (Token (if ok then NUMBER else INVALID) (c # lit), rest))
      else
        (Token OTHER (takeWhile (\<lambda>d. \<not> isspace d) (c # cs)),
         dropWhile (\<lambda>d. \<not> isspace d) (c # cs)))"

fun scan_token :: "bool \<Rightarrow> string \<Rightarrow> token \<times> string" where
  "scan_token emit [] = (Token EOS [], [])"
| "scan_token emit (c # cs) =
     (if skipped c then (if emit then (Token SPACE [c], cs) else scan_token emit cs)
      else case delimiter c of
        Some ty \<Rightarrow> (Token ty [c], cs)
      | None \<Rightarrow>
          if c = ch_quote then
            (let (ok, lit, rest) = string_body False cs
             in (Token (if ok then STRING else INVALID) (c # lit), rest))
          else scan_default c cs)"

section \<open>The Lexer object\<close>

record lexer =
  unread :: string
  readed :: "token list"
  emit_space :: bool

definition Lexer :: "string \<Rightarrow> lexer" where
  "Lexer txt = \<lparr>unread = txt, readed = [], emit_space = False\<rparr>"

definition NextToken :: "lexer \<Rightarrow> token \<times> lexer" where
  "NextToken lx =
     (let (t, rest) = scan_token (emit_space lx) (unread lx) in (t, lx\<lparr>unread := rest\<rparr>))"

definition Consume :: "lexer \<Rightarrow> token \<times> lexer" where
  "Consume lx =
     (case readed lx of
        t # ts \<Rightarrow> (t, lx\<lparr>readed := ts\<rparr>)
      | [] \<Rightarrow> NextToken lx)"

function LookAhead_fill :: "nat \<Rightarrow> lexer \<Rightarrow> lexer" where
  "LookAhead_fill n lx =
     (if length (readed lx) < n + 1 then
        (let (t, lx') = NextToken lx in LookAhead_fill n (lx'\<lparr>readed := readed lx' @ [t]\<rparr>))
      else lx)"
  by pat_completeness auto
termination
  by (relation "measure (\<lambda>(n, lx). n + 1 - length (readed lx))")
    (auto simp: NextToken_def split: prod.splits)

declare LookAhead_fill.simps [simp del]

definition LookAhead :: "nat \<Rightarrow> lexer \<Rightarrow> token \<times> lexer" where
  "LookAhead n lx = (let lx' = LookAhead_fill n lx in (readed lx' ! n, lx'))"

definition Peek :: "lexer \<Rightarrow> token \<times> lexer" where
  "Peek lx = LookAhead 0 lx"

text \<open>\<open>if (readed_.empty()) readed_.push_back(NextToken());\<close>, shared by the two below.\<close>

definition push_if_empty :: "lexer \<Rightarrow> lexer" where
  "push_if_empty lx =
     (if readed lx = [] then (let (t, lx') = NextToken lx in lx'\<lparr>readed := [t]\<rparr>) else lx)"

definition Consume_expected :: "ttype \<Rightarrow> lexer \<Rightarrow> token \<times> lexer" where
  "Consume_expected expected lx =
     (let lx' = push_if_empty lx in
      if ttype (hd (readed lx')) = expected
      then (hd (readed lx'), lx'\<lparr>readed := tl (readed lx')\<rparr>)
      else (Token INVALID [], lx'))"

definition Match :: "ttype \<Rightarrow> lexer \<Rightarrow> bool \<times> lexer" where
  "Match expected lx =
     (let lx' = push_if_empty lx in
      if ttype (hd (readed lx')) \<noteq> expected then (False, lx')
      else (True, snd (Consume lx')))"

definition SetEmitSpaces :: "bool \<Rightarrow> lexer \<Rightarrow> lexer" where
  "SetEmitSpaces value lx = lx\<lparr>emit_space := value\<rparr>"

definition GetEmitSpaces :: "lexer \<Rightarrow> bool" where
  "GetEmitSpaces lx = emit_space lx"

section \<open>What one scan consumes\<close>

lemma scan_default_split:
  assumes "scan_default c cs = (t, rest)"
  shows "literal t @ rest = c # cs"
  using assms
  by (auto simp: scan_default_def simp del: takeWhile.simps dropWhile.simps
      split: if_splits prod.splits option.splits dest: ident_loop_split number_body_split)

lemma scan_token_split:
  assumes "scan_token emit cs = (t, rest)"
  shows "\<exists>ws. list_all skipped ws \<and> (emit \<longrightarrow> ws = []) \<and> cs = ws @ literal t @ rest"
  using assms
proof (induction cs)
  case Nil
  then show ?case by auto
next
  case (Cons c cs)
  show ?case
  proof (cases "skipped c \<and> \<not> emit")
    case True
    with Cons obtain ws where "list_all skipped ws" "cs = ws @ literal t @ rest" by auto
    with True show ?thesis by (intro exI [of _ "c # ws"]) simp
  next
    case False
    with Cons.prems have "c # cs = literal t @ rest"
      by (auto split: if_splits option.splits prod.splits dest: scan_default_split string_body_split)
    then show ?thesis by (intro exI [of _ "[]"]) simp
  qed
qed

lemma scan_token_length: "scan_token emit cs = (t, rest) \<Longrightarrow> length (literal t) + length rest \<le> length cs"
  by (auto dest!: scan_token_split)

lemma scan_token_set: "scan_token emit cs = (t, rest) \<Longrightarrow> set rest \<subseteq> set cs"
  by (auto dest!: scan_token_split)

text \<open>What a keyword lookup may answer: never a layout or delimiter type.\<close>

fun word_type :: "ttype \<Rightarrow> bool" where
  "word_type IDENT = True" | "word_type FN = True" | "word_type D = True"
| "word_type T = True" | "word_type TS = True"
| "word_type (FN_of _) = True" | "word_type (SQL_TSI_of _) = True"
| "word_type _ = False"

lemma KEYWORDS_word_type: "list_all (word_type \<circ> snd) KEYWORDS"
  by (auto simp: KEYWORDS_def list_all_iff)

lemma LookupIdent_word_type: "word_type (LookupIdent w)"
proof (cases "map_of KEYWORDS w")
  case (Some k)
  then have "(w, k) \<in> set KEYWORDS" by (rule map_of_SomeD)
  with KEYWORDS_word_type have "word_type k" by (force simp only: list_all_iff comp_apply snd_conv)
  with Some show ?thesis by (simp add: LookupIdent_def)
qed (simp add: LookupIdent_def)

lemma word_type_neq: "word_type k \<Longrightarrow> k \<notin> {SPACE, EOS, INVALID, LCURLY, RCURLY, COLON, STRING}"
  by (cases k) auto

lemma LookupIdent_neq [simp]:
  "LookupIdent w \<noteq> SPACE" "LookupIdent w \<noteq> EOS" "LookupIdent w \<noteq> INVALID" "LookupIdent w \<noteq> RCURLY"
  "LookupIdent w \<noteq> COLON" "LookupIdent w \<noteq> LCURLY" "LookupIdent w \<noteq> STRING"
  using word_type_neq [OF LookupIdent_word_type, of w] by simp_all

lemma scan_default_type:
  "ttype (fst (scan_default c cs)) \<notin> {SPACE, EOS, LCURLY, RCURLY, COLON, STRING}"
proof (cases "ident_loop False False (c # cs)")
  case (fields r lit rest)
  then show ?thesis
    by (cases r) (simp_all add: scan_default_def Let_def case_prod_beta
        del: takeWhile.simps dropWhile.simps)
qed

lemma scan_token_space:
  "scan_token emit cs = (t, rest) \<Longrightarrow> ttype t = SPACE \<Longrightarrow> literal t \<noteq> []"
proof (induction cs)
  case (Cons c cs)
  then show ?case using scan_default_type [of c cs]
    by (auto simp: delimiter_def split: if_splits option.splits prod.splits)
qed auto

lemma scan_token_EOS:
  "scan_token emit cs = (t, rest) \<Longrightarrow> ttype t = EOS \<Longrightarrow> rest = []"
proof (induction cs)
  case (Cons c cs)
  then show ?case using scan_default_type [of c cs]
    by (auto simp: delimiter_def split: if_splits option.splits prod.splits)
qed simp

text \<open>
  Only at a vertical tab can a token be empty: \<open>isspace\<close> knows it, the switch of
  \<open>NextToken\<close> does not.
\<close>

lemma scan_default_nonempty:
  assumes "c \<noteq> ch_vt" "\<not> skipped c" and sc: "scan_default c cs = (t, rest)"
  shows "literal t \<noteq> []"
proof -
  have "\<not> isspace c" using assms(1,2) by (auto simp: isspace_iff skipped_def)
  moreover have "lit \<noteq> []" if "ident_start c" "ident_loop False False (c # cs) = (r, lit, rest)" for r lit
    using that by (auto simp: ident_loop.simps(2) [of False False c cs] ident_segment_def ident_start_def
        split: if_splits prod.splits bool.splits list.splits)
  ultimately show ?thesis using sc
    by (auto simp: scan_default_def ident_start_def split: if_splits prod.splits option.splits)
qed

lemma scan_token_nonempty:
  "scan_token emit cs = (t, rest) \<Longrightarrow> ch_vt \<notin> set cs \<Longrightarrow> literal t = [] \<Longrightarrow> ttype t = EOS"
proof (induction cs)
  case (Cons c cs)
  then show ?case using scan_default_nonempty [of c cs]
    by (auto split: if_splits option.splits prod.splits)
qed auto

declare scan_token.simps [simp del]

section \<open>The token stream behind the interface\<close>

text \<open>
  What the escape processor relies on: looking ahead does not change what is consumed,
  and consuming anything but the end of the stream makes the stream shorter.
\<close>

locale token_stream =
  fixes peek :: "'s \<Rightarrow> token \<times> 's"
    and consume :: "'s \<Rightarrow> token \<times> 's"
    and ok :: "'s \<Rightarrow> bool"
    and left :: "'s \<Rightarrow> nat"
  assumes peek_ok: "ok s \<Longrightarrow> ok (snd (peek s))"
    and peek_left: "left (snd (peek s)) \<le> left s"
    and peek_peek: "peek (snd (peek s)) = peek s"
    and consume_peek: "consume (snd (peek s)) = consume s"
    and consume_type: "fst (consume s) = fst (peek s)"
    and consume_ok: "ok s \<Longrightarrow> ok (snd (consume s))"
    and consume_left: "left (snd (consume s)) \<le> left s"
    and consume_shrinks: "ok s \<Longrightarrow> ttype (fst (consume s)) \<noteq> EOS \<Longrightarrow> left (snd (consume s)) < left s"
begin

lemma peeked_consume:
  assumes "ok s" "ttype (fst (peek s)) = ty" "ty \<noteq> EOS"
  shows "left (snd (consume (snd (peek s)))) < left s"
  using assms consume_shrinks [of s] by (simp add: consume_peek consume_type)

text \<open>A run of consumes reads the stream's tokens up to EOS: it cannot go on for ever.\<close>

lemma consume_run_bound:
  assumes "ok s" and "\<forall>i<n. ttype (fst (consume (((\<lambda>s. snd (consume s)) ^^ i) s))) \<noteq> EOS"
  shows "n + left (((\<lambda>s. snd (consume s)) ^^ n) s) \<le> left s \<and> ok (((\<lambda>s. snd (consume s)) ^^ n) s)"
  using assms
proof (induction n)
  case (Suc n)
  then have IH: "n + left (((\<lambda>s. snd (consume s)) ^^ n) s) \<le> left s"
    "ok (((\<lambda>s. snd (consume s)) ^^ n) s)" by auto
  have "ttype (fst (consume (((\<lambda>s. snd (consume s)) ^^ n) s))) \<noteq> EOS" using Suc.prems(2) by blast
  with IH(2) have "left (((\<lambda>s. snd (consume s)) ^^ Suc n) s) < left (((\<lambda>s. snd (consume s)) ^^ n) s)"
    using consume_shrinks by simp
  with IH show ?case using consume_ok by auto
qed simp

end

definition token_ok :: "token \<Rightarrow> bool" where
  "token_ok t \<longleftrightarrow> (literal t = [] \<longrightarrow> ttype t = EOS)"

definition lexer_ok :: "lexer \<Rightarrow> bool" where
  "lexer_ok lx \<longleftrightarrow> ch_vt \<notin> set (unread lx) \<and> list_all token_ok (readed lx)"

definition lexer_left :: "lexer \<Rightarrow> nat" where
  "lexer_left lx = length (unread lx) + sum_list (map (length \<circ> literal) (readed lx))"

lemma Peek_unfold:
  "Peek lx =
     (case readed lx of
        t # ts \<Rightarrow> (t, lx)
      | [] \<Rightarrow> (let (t, lx') = NextToken lx in (t, lx'\<lparr>readed := [t]\<rparr>)))"
proof -
  have *: "LookAhead_fill 0 lx' = lx'" if "readed lx' \<noteq> []" for lx'
    using that by (subst LookAhead_fill.simps) simp
  show ?thesis
    by (cases "readed lx") (auto simp: Peek_def LookAhead_def * Let_def NextToken_def
        LookAhead_fill.simps [of 0 lx] split: prod.splits)
qed

lemma push_if_empty_Peek: "push_if_empty lx = snd (Peek lx)"
  by (auto simp: push_if_empty_def Peek_unfold Let_def split: list.splits prod.splits)

lemma hd_push_if_empty: "hd (readed (push_if_empty lx)) = fst (Peek lx)"
  by (auto simp: push_if_empty_def Peek_unfold Let_def split: list.splits prod.splits)

lemma Match_Peek:
  "Match ty lx =
     (if ttype (fst (Peek lx)) = ty then (True, snd (Consume (snd (Peek lx)))) else (False, snd (Peek lx)))"
  by (simp add: Match_def hd_push_if_empty push_if_empty_Peek [symmetric])

lemma Consume_expected_Peek:
  "Consume_expected ty lx =
     (if ttype (fst (Peek lx)) = ty then Consume (snd (Peek lx)) else (Token INVALID [], snd (Peek lx)))"
  by (auto simp: Consume_expected_def Consume_def Peek_unfold push_if_empty_def Let_def
      split: list.splits prod.splits)

lemma NextToken_readed [simp]: "NextToken lx = (t, lx') \<Longrightarrow> readed lx' = readed lx"
  by (auto simp: NextToken_def split: prod.splits)

lemma NextToken_left:
  "NextToken lx = (t, lx') \<Longrightarrow> length (literal t) + length (unread lx') \<le> length (unread lx)"
  by (auto simp: NextToken_def dest: scan_token_length split: prod.splits)

lemma NextToken_ok:
  "NextToken lx = (t, lx') \<Longrightarrow> ch_vt \<notin> set (unread lx) \<Longrightarrow> token_ok t \<and> ch_vt \<notin> set (unread lx')"
  by (auto simp: NextToken_def token_ok_def dest: scan_token_nonempty scan_token_set [THEN subsetD]
      split: prod.splits)

lemma lexer_readed_same: "readed lx = ts \<Longrightarrow> lx\<lparr>readed := ts\<rparr> = lx"
  by (cases lx) simp

interpretation lexer_stream: token_stream Peek Consume lexer_ok lexer_left
proof unfold_locales
  fix s :: lexer
  obtain t s' where nt: "NextToken s = (t, s')" by (cases "NextToken s")
  note defs = Peek_unfold Consume_def lexer_ok_def lexer_left_def nt NextToken_readed [OF nt]
  show "lexer_ok s \<Longrightarrow> lexer_ok (snd (Peek s))"
    using NextToken_ok [OF nt] by (auto simp: defs split: list.splits)
  show "lexer_left (snd (Peek s)) \<le> lexer_left s"
    using NextToken_left [OF nt] by (auto simp: defs split: list.splits)
  show "Peek (snd (Peek s)) = Peek s"
    using nt by (auto simp: defs split: list.splits)
  show "Consume (snd (Peek s)) = Consume s"
    by (cases "readed s") (simp_all add: defs lexer_readed_same)
  show "fst (Consume s) = fst (Peek s)"
    by (auto simp: defs split: list.splits)
  show "lexer_ok s \<Longrightarrow> lexer_ok (snd (Consume s))"
    using NextToken_ok [OF nt] by (auto simp: defs split: list.splits)
  show "lexer_left (snd (Consume s)) \<le> lexer_left s"
    using NextToken_left [OF nt] by (auto simp: defs split: list.splits)
  show "lexer_left (snd (Consume s)) < lexer_left s"
    if "lexer_ok s" "ttype (fst (Consume s)) \<noteq> EOS"
    using that NextToken_left [OF nt] NextToken_ok [OF nt] NextToken_readed [OF nt]
    by (cases "literal t") (auto simp: defs token_ok_def split: list.splits)
qed

lemma lexer_ok_Lexer: "ch_vt \<notin> set s \<Longrightarrow> lexer_ok (Lexer s)"
  by (simp add: lexer_ok_def Lexer_def)

lemma lexer_left_Lexer: "lexer_left (Lexer s) = length s"
  by (simp add: lexer_left_def Lexer_def)

lemma SetEmitSpaces_simps [simp]:
  "lexer_ok (SetEmitSpaces b lx) = lexer_ok lx" "lexer_left (SetEmitSpaces b lx) = lexer_left lx"
  by (simp_all add: SetEmitSpaces_def lexer_ok_def lexer_left_def)

end
