(* ===== verification/Escape_Sequences.thy ===== *)
theory Escape_Sequences
  imports Lexer
begin

text \<open>
  The translation of ODBC escape sequences, driver/escaping/escape_sequences.cpp. A
  function taking \<open>Lexer & lex\<close> takes and returns the lexer; \<open>std::optional\<close> is the
  inner \<open>option\<close> of its result. The recursion of the C++ code has no bound of its own, so
  the model spends fuel: the outer \<open>None\<close> means that the fuel ran out. The last section
  proves how much is enough, and that at a vertical tab no amount is.
\<close>

type_synonym 'a px = "('a option \<times> lexer) option"

text \<open>\<open>auto x = f(lex); if (!x) return nullopt;\<close> and \<open>if (!lex.Match(ty)) return nullopt;\<close>\<close>

definition px_bind :: "'a px \<Rightarrow> ('a \<Rightarrow> lexer \<Rightarrow> 'b px) \<Rightarrow> 'b px" where
  "px_bind m k =
     (case m of None \<Rightarrow> None | Some (None, lx) \<Rightarrow> Some (None, lx) | Some (Some a, lx) \<Rightarrow> k a lx)"

definition px_expect :: "ttype \<Rightarrow> lexer \<Rightarrow> (lexer \<Rightarrow> 'a px) \<Rightarrow> 'a px" where
  "px_expect ty lx k = (let (b, lx') = Match ty lx in if b then k lx' else Some (None, lx'))"

text \<open>\<open>lex.SetEmitSpaces(true)\<close> right after a nested call, whatever it returned.\<close>

definition px_emit :: "'a px \<Rightarrow> 'a px" where
  "px_emit m = (case m of None \<Rightarrow> None | Some (r, lx) \<Rightarrow> Some (r, SetEmitSpaces True lx))"

definition px_return :: "'a \<Rightarrow> lexer \<Rightarrow> 'a px" where
  "px_return a lx = Some (Some a, lx)"

section \<open>Tables\<close>

definition fn_convert_map :: "(string \<times> string) list" where
  "fn_convert_map =
    [(''SQL_TINYINT'', ''UInt8''), (''SQL_SMALLINT'', ''UInt16''), (''SQL_INTEGER'', ''Int32''),
     (''SQL_BIGINT'', ''Int64''), (''SQL_REAL'', ''Float32''), (''SQL_DOUBLE'', ''Float64''),
     (''SQL_CHAR'', ''String''), (''SQL_VARCHAR'', ''String''), (''SQL_TIME'', ''Time''),
     (''SQL_TYPE_TIME'', ''Time''), (''SQL_DATE'', ''Date32''), (''SQL_TYPE_DATE'', ''Date32''),
     (''SQL_TIMESTAMP'', ''DateTime''), (''SQL_TYPE_TIMESTAMP'', ''DateTime'')]"

definition function_map :: "ttype \<Rightarrow> string option" where
  "function_map ty = (case ty of FN_of n \<Rightarrow> map_of function_declare n | _ \<Rightarrow> None)"

definition sq :: "string \<Rightarrow> string" where
  "sq s = ch_quote # s @ [ch_quote]"

definition literal_map :: "ttype \<Rightarrow> string option" where
  "literal_map ty = (case ty of SQL_TSI_of n \<Rightarrow>
     map_of [(''FRAC_SECOND'', sq ''nanosecond''), (''SECOND'', sq ''second''),
       (''MINUTE'', sq ''minute''), (''HOUR'', sq ''hour''), (''DAY'', sq ''day''),
       (''WEEK'', sq ''week''), (''MONTH'', sq ''month''), (''QUARTER'', sq ''quarter''),
       (''YEAR'', sq ''year'')] n | _ \<Rightarrow> None)"

definition timeadd_func_map :: "ttype \<Rightarrow> string option" where
  "timeadd_func_map ty = (case ty of SQL_TSI_of n \<Rightarrow>
     map_of [(''FRAC_SECOND'', ''addNanoseconds''), (''SECOND'', ''addSeconds''),
       (''MINUTE'', ''addMinutes''), (''HOUR'', ''addHours''), (''DAY'', ''addDays''),
       (''WEEK'', ''addWeeks''), (''MONTH'', ''addMonths''), (''QUARTER'', ''addQuarters''),
       (''YEAR'', ''addYears'')] n | _ \<Rightarrow> None)"

section \<open>Loops without nesting\<close>

lemma Match_SPACE_smaller:
  assumes "Match SPACE lx = (True, lx')"
  shows "2 * length (unread lx') + length (readed lx') < 2 * length (unread lx) + length (readed lx)"
proof (cases "readed lx")
  case Nil
  obtain t l1 where nt: "NextToken lx = (t, l1)" by (cases "NextToken lx")
  from assms have sp: "ttype t = SPACE" and lx': "lx' = l1\<lparr>readed := []\<rparr>"
    using Nil nt by (auto simp: Match_Peek Peek_unfold Consume_def split: if_splits)
  from nt sp have "literal t \<noteq> []"
    by (auto simp: NextToken_def dest: scan_token_space split: prod.splits)
  with NextToken_left [OF nt] Nil lx' show ?thesis by (cases "literal t") auto
next
  case (Cons t ts)
  with assms show ?thesis by (auto simp: Match_Peek Peek_unfold Consume_def split: if_splits)
qed

text \<open>\<open>while (lex.Match(Token::SPACE)) {}\<close>\<close>

function skip_spaces :: "lexer \<Rightarrow> lexer" where
  "skip_spaces lx = (let (b, lx') = Match SPACE lx in if b then skip_spaces lx' else lx')"
  by pat_completeness auto
termination
  by (relation "measure (\<lambda>lx. 2 * length (unread lx) + length (readed lx))")
    (auto dest: Match_SPACE_smaller [OF sym])

declare skip_spaces.simps [simp del]

definition processTime :: "lexer \<Rightarrow> string px" where
  "processTime lx =
     (let (d, lx') = Consume_expected STRING lx in
      if isInvalid d then Some (None, lx')
      else px_return (''cast('' @ literal d @ '' as Time)'') lx')"

definition processDate :: "lexer \<Rightarrow> string px" where
  "processDate lx =
     (let (d, lx') = Consume_expected STRING lx in
      if isInvalid d then Some (None, lx')
      else px_return (''toDate32('' @ literal d @ '')'') lx')"

definition processDateTime :: "lexer \<Rightarrow> string px" where
  "processDateTime lx =
     (let (d, lx') = Consume_expected STRING lx in
      if isInvalid d then Some (None, lx')
      else px_return (''toDateTime64('' @ literal d @ '', 9)'') lx')"

text \<open>The copying loop of a \<open>{name:type}\<close> parameter.\<close>

fun query_parameter_loop :: "nat \<Rightarrow> string \<Rightarrow> lexer \<Rightarrow> string px" where
  "query_parameter_loop 0 result lx = None"
| "query_parameter_loop (Suc n) result lx =
     (let (t, lx) = Peek lx in
      if ttype t = RCURLY then px_return result lx
      else
        (let (tok, lx) = Consume lx in
         if ttype tok = EOS then Some (None, lx)
         else query_parameter_loop n (result @ literal tok) lx))"

definition processClickHouseQueryParameter :: "nat \<Rightarrow> token \<Rightarrow> lexer \<Rightarrow> string px" where
  "processClickHouseQueryParameter n name lx =
     (let emit_sp = GetEmitSpaces lx in
      px_bind (query_parameter_loop n (''{'' @ literal name) (SetEmitSpaces True lx))
        (\<lambda>result lx. px_return (result @ ''}'') (SetEmitSpaces emit_sp lx)))"

section \<open>The functions with their own translation\<close>

text \<open>
  One definition per branch of \<open>processFunction\<close>; \<open>arg\<close> stands for the call
  \<open>processFunctionArgument(seq, lex)\<close>.
\<close>

definition fn_CONVERT :: "(lexer \<Rightarrow> string px) \<Rightarrow> lexer \<Rightarrow> string px" where
  "fn_CONVERT arg lx =
     px_expect LPARENT lx (\<lambda>lx. px_bind (arg lx) (\<lambda>num lx.
       px_expect COMMA (skip_spaces lx) (\<lambda>lx.
         let (ty, lx) = Consume (skip_spaces lx) in
         if ttype ty \<noteq> IDENT then Some (None, lx)
         else case map_of fn_convert_map (literal ty) of
             None \<Rightarrow> Some (None, lx)
           | Some target \<Rightarrow> px_expect RPARENT (skip_spaces lx) (\<lambda>lx.
               px_return (''CAST('' @ num @ '' AS '' @ target @ '')'') lx))))"

text \<open>The shape shared by the functions of one argument.\<close>

definition fn_unary :: "(string \<Rightarrow> string) \<Rightarrow> (lexer \<Rightarrow> string px) \<Rightarrow> lexer \<Rightarrow> string px" where
  "fn_unary out arg lx =
     px_expect LPARENT lx (\<lambda>lx. px_bind (arg lx) (\<lambda>a lx.
       px_expect RPARENT lx (\<lambda>lx. px_return (out a) lx)))"

definition fn_BIT_LENGTH :: "(lexer \<Rightarrow> string px) \<Rightarrow> lexer \<Rightarrow> string px" where
  "fn_BIT_LENGTH = fn_unary (\<lambda>expr. ''(length('' @ expr @ '') * 8)'')"

definition soundex_digit :: "string \<Rightarrow> string \<Rightarrow> string \<Rightarrow> string" where
  "soundex_digit i s1 s2 =
     ''equals(substring(soundex('' @ s1 @ ''),'' @ i @ '',1), substring(soundex('' @ s2 @ ''),'' @ i @ '',1))''"

definition fn_DIFFERENCE :: "(lexer \<Rightarrow> string px) \<Rightarrow> lexer \<Rightarrow> string px" where
  "fn_DIFFERENCE arg lx =
     px_expect LPARENT lx (\<lambda>lx. px_bind (arg lx) (\<lambda>str1 lx.
       px_expect COMMA lx (\<lambda>lx. px_bind (arg lx) (\<lambda>str2 lx.
         px_expect RPARENT lx (\<lambda>lx.
           px_return (''('' @ soundex_digit ''1'' str1 str2 @ '' + '' @ soundex_digit ''2'' str1 str2
             @ '' + '' @ soundex_digit ''3'' str1 str2 @ '' + '' @ soundex_digit ''4'' str1 str2 @ '')'') lx)))))"

definition fn_INSERT :: "string \<Rightarrow> (lexer \<Rightarrow> string px) \<Rightarrow> lexer \<Rightarrow> string px" where
  "fn_INSERT seq arg lx =
     (let (b, lx) = Match LPARENT lx in
      if \<not> b then px_return seq lx
      else px_bind (arg lx) (\<lambda>src lx. px_expect COMMA lx (\<lambda>lx.
        px_bind (arg lx) (\<lambda>start lx. px_expect COMMA lx (\<lambda>lx.
        px_bind (arg lx) (\<lambda>len lx. px_expect COMMA lx (\<lambda>lx.
        px_bind (arg lx) (\<lambda>replace lx. px_expect RPARENT lx (\<lambda>lx.
          px_return (''overlayUTF8('' @ src @ '', '' @ replace @ '', '' @ start @ '', '' @ len @ '')'') lx)))))))))"

definition fn_SPACE :: "(lexer \<Rightarrow> string px) \<Rightarrow> lexer \<Rightarrow> string px" where
  "fn_SPACE = fn_unary (\<lambda>count. ''repeat('' @ sq '' '' @ '', '' @ count @ '')'')"

definition fn_COT :: "(lexer \<Rightarrow> string px) \<Rightarrow> lexer \<Rightarrow> string px" where
  "fn_COT = fn_unary (\<lambda>expr. ''(cos('' @ expr @ '') / sin ('' @ expr @ ''))'')"

definition fn_CURRENT_TIME :: "(lexer \<Rightarrow> string px) \<Rightarrow> lexer \<Rightarrow> string px" where
  "fn_CURRENT_TIME arg lx =
     (let (b, lx) = Match LPARENT lx in
      if b then px_bind (arg lx) (\<lambda>precision lx.
        px_expect RPARENT lx (\<lambda>lx. px_return (''now64('' @ precision @ '')'') lx))
      else px_return ''now64()'' lx)"

definition fn_DAYNAME :: "(lexer \<Rightarrow> string px) \<Rightarrow> lexer \<Rightarrow> string px" where
  "fn_DAYNAME = fn_unary (\<lambda>date. ''dateName('' @ sq ''weekday'' @ '', '' @ date @ '')'')"

definition fn_MONTHNAME :: "(lexer \<Rightarrow> string px) \<Rightarrow> lexer \<Rightarrow> string px" where
  "fn_MONTHNAME = fn_unary (\<lambda>date. ''dateName('' @ sq ''month'' @ '', '' @ date @ '')'')"

definition fn_TIMESTAMPADD :: "(lexer \<Rightarrow> string px) \<Rightarrow> lexer \<Rightarrow> string px" where
  "fn_TIMESTAMPADD arg lx =
     px_expect LPARENT lx (\<lambda>lx.
       let (ty, lx) = Consume lx in
       case timeadd_func_map (ttype ty) of
         None \<Rightarrow> Some (None, lx)
       | Some func \<Rightarrow>
           px_expect COMMA lx (\<lambda>lx. px_bind (arg lx) (\<lambda>ramount lx.
             px_expect COMMA (skip_spaces lx) (\<lambda>lx. px_bind (arg lx) (\<lambda>rdate lx.
               px_expect RPARENT (skip_spaces lx) (\<lambda>lx.
                 px_return (func @ ''('' @ rdate @ '', '' @ ramount @ '')'') lx))))))"

definition fn_LOCATE :: "(lexer \<Rightarrow> string px) \<Rightarrow> lexer \<Rightarrow> string px" where
  "fn_LOCATE arg lx =
     px_expect LPARENT lx (\<lambda>lx. px_bind (arg lx) (\<lambda>needle lx.
       px_expect COMMA lx (\<lambda>lx. px_bind (arg lx) (\<lambda>haystack lx.
         let (b, lx) = Match COMMA lx in
         px_bind (if b then arg lx else px_return ''1'' lx) (\<lambda>offset lx.
           px_expect RPARENT lx (\<lambda>lx.
             px_return (''position('' @ haystack @ '','' @ needle @ '',accurateCast('' @ offset
               @ '','' @ sq ''UInt64'' @ ''))'') lx))))))"

definition fn_LTRIM :: "(lexer \<Rightarrow> string px) \<Rightarrow> lexer \<Rightarrow> string px" where
  "fn_LTRIM = fn_unary (\<lambda>param. ''replaceRegexpOne('' @ param @ '', ''
     @ sq (''^'' @ [ch_bslash, ch_bslash] @ ''s+'') @ '', '' @ sq '''' @ '')'')"

definition fn_DAYOFWEEK :: "(lexer \<Rightarrow> string px) \<Rightarrow> lexer \<Rightarrow> string px" where
  "fn_DAYOFWEEK = fn_unary (\<lambda>param.
     ''if(toDayOfWeek('' @ param @ '') = 7, 1, toDayOfWeek('' @ param @ '') + 1)'')"

text \<open>
  The chain of \<open>if (fn.type == FN_...)\<close> down to the lookup in \<open>function_map\<close>: the first
  entry with the name is taken, as the first comparison that holds.
\<close>

definition special_functions ::
  "string \<Rightarrow> (lexer \<Rightarrow> string px) \<Rightarrow> (string \<times> (lexer \<Rightarrow> string px)) list" where
  "special_functions seq arg =
    [(''CONVERT'', fn_CONVERT arg), (''BIT_LENGTH'', fn_BIT_LENGTH arg),
     (''DIFFERENCE'', fn_DIFFERENCE arg), (''INSERT'', fn_INSERT seq arg), (''SPACE'', fn_SPACE arg),
     (''COT'', fn_COT arg), (''CURRENT_TIME'', fn_CURRENT_TIME arg),
     (''CURRENT_TIMESTAMP'', fn_CURRENT_TIME arg), (''DAYNAME'', fn_DAYNAME arg),
     (''MONTHNAME'', fn_MONTHNAME arg), (''TIMESTAMPADD'', fn_TIMESTAMPADD arg),
     (''LOCATE'', fn_LOCATE arg), (''LTRIM'', fn_LTRIM arg), (''DAYOFWEEK'', fn_DAYOFWEEK arg)]"

definition special_function ::
  "string \<Rightarrow> (lexer \<Rightarrow> string px) \<Rightarrow> ttype \<Rightarrow> (lexer \<Rightarrow> string px) option" where
  "special_function seq arg ty =
     (case ty of FN_of name \<Rightarrow> map_of (special_functions seq arg) name | _ \<Rightarrow> None)"

section \<open>The recursive descent\<close>

function (sequential) processParentheses :: "nat \<Rightarrow> string \<Rightarrow> lexer \<Rightarrow> string px"
  and parentheses_loop :: "nat \<Rightarrow> string \<Rightarrow> string \<Rightarrow> lexer \<Rightarrow> string px"
  and processFunctionArgument :: "nat \<Rightarrow> string \<Rightarrow> lexer \<Rightarrow> string px"
  and argument_loop :: "nat \<Rightarrow> string \<Rightarrow> string \<Rightarrow> lexer \<Rightarrow> string px"
  and processFunction :: "nat \<Rightarrow> string \<Rightarrow> lexer \<Rightarrow> string px"
  and function_loop :: "nat \<Rightarrow> string \<Rightarrow> string \<Rightarrow> string \<Rightarrow> lexer \<Rightarrow> string px"
  and processEscapeSequencesImpl :: "nat \<Rightarrow> string \<Rightarrow> lexer \<Rightarrow> string px"
  and escape_loop :: "nat \<Rightarrow> string \<Rightarrow> string \<Rightarrow> lexer \<Rightarrow> string px"
where
  "processParentheses 0 seq lx = None"
| "processParentheses (Suc n) seq lx =
     (let (t, lx) = Consume (SetEmitSpaces True lx) in parentheses_loop n seq (literal t) lx)"
| "parentheses_loop 0 seq result lx = None"
| "parentheses_loop (Suc n) seq result lx =
     (let (tok, lx) = Peek lx in
      if ttype tok = RPARENT then px_return (result @ literal tok) (snd (Consume lx))
      else if ttype tok = LPARENT then
        px_bind (processParentheses n seq lx) (\<lambda>p lx. parentheses_loop n seq (result @ p) lx)
      else if ttype tok = LCURLY then
        px_bind (px_emit (processEscapeSequencesImpl n seq (SetEmitSpaces False lx)))
          (\<lambda>p lx. parentheses_loop n seq (result @ p) lx)
      else if ttype tok = EOS \<or> ttype tok = INVALID then px_return result lx
      else parentheses_loop n seq (result @ literal tok) (snd (Consume lx)))"
| "processFunctionArgument 0 seq lx = None"
| "processFunctionArgument (Suc n) seq lx = argument_loop n seq [] (SetEmitSpaces True lx)"
| "argument_loop 0 seq result lx = None"
| "argument_loop (Suc n) seq result lx =
     (let (tok, lx) = Peek lx in
      if ttype tok \<in> {RPARENT, COMMA, EOS, INVALID} then px_return result (SetEmitSpaces False lx)
      else if ttype tok = LPARENT then
        px_bind (processParentheses n seq lx) (\<lambda>p lx. argument_loop n seq (result @ p) lx)
      else if ttype tok = LCURLY then
        px_bind (px_emit (processEscapeSequencesImpl n seq (SetEmitSpaces False lx)))
          (\<lambda>p lx. argument_loop n seq (result @ p) lx)
      else argument_loop n seq (result @ literal tok) (snd (Consume lx)))"
| "processFunction 0 seq lx = None"
| "processFunction (Suc n) seq lx =
     (let (fn, lx) = Consume lx in
      case special_function seq (processFunctionArgument n seq) (ttype fn) of
        Some f \<Rightarrow> f lx
      | None \<Rightarrow>
          (case function_map (ttype fn) of
             Some func \<Rightarrow> function_loop n seq func func (SetEmitSpaces True lx)
           | None \<Rightarrow> px_return seq lx))"
| "function_loop 0 seq func result lx = None"
| "function_loop (Suc n) seq func result lx =
     (let (tok, lx) = Peek lx in
      if ttype tok = RCURLY then px_return result (SetEmitSpaces False lx)
      else if ttype tok = LCURLY then
        px_bind (px_emit (processEscapeSequencesImpl n seq (SetEmitSpaces False lx)))
          (\<lambda>p lx. function_loop n seq func (result @ p) lx)
      else if ttype tok = EOS \<or> ttype tok = INVALID then px_return result (SetEmitSpaces False lx)
      else if ttype tok = FN_of ''EXTRACT'' then
        px_bind (processFunction n seq lx) (\<lambda>p lx. function_loop n seq func (result @ p) lx)
      else
        function_loop n seq func
          (result @ (case literal_map (ttype tok) of
             Some l \<Rightarrow> if func \<noteq> ''EXTRACT'' then l else literal tok | None \<Rightarrow> literal tok))
          (snd (Consume lx)))"
| "processEscapeSequencesImpl 0 seq lx = None"
| "processEscapeSequencesImpl (Suc n) seq lx =
     (let (b, lx) = Match LCURLY lx in
      if \<not> b then px_return seq lx else escape_loop n seq [] lx)"
| "escape_loop 0 seq result lx = None"
| "escape_loop (Suc n) seq result lx =
     (let (tok, lx) = Consume (skip_spaces lx) in
      if ttype tok = FN then
        px_bind (processFunction n seq lx) (\<lambda>p lx. escape_loop n seq (result @ p) lx)
      else if ttype tok = T then
        px_bind (processTime lx) (\<lambda>p lx. escape_loop n seq (result @ p) lx)
      else if ttype tok = D then
        px_bind (processDate lx) (\<lambda>p lx. escape_loop n seq (result @ p) lx)
      else if ttype tok = TS then
        px_bind (processDateTime lx) (\<lambda>p lx. escape_loop n seq (result @ p) lx)
      else if ttype tok = RCURLY then px_return result lx
      else
        (let (t, lx) = Peek lx in
         if ttype t = COLON then
           px_bind (processClickHouseQueryParameter n tok lx)
             (\<lambda>p lx. escape_loop n seq (result @ p) lx)
         else Some (None, lx)))"
  by pat_completeness auto
termination
  by (relation "measure (\<lambda>x. case x of
      Inl (Inl (Inl (n, _))) \<Rightarrow> n | Inl (Inl (Inr (n, _))) \<Rightarrow> n
    | Inl (Inr (Inl (n, _))) \<Rightarrow> n | Inl (Inr (Inr (n, _))) \<Rightarrow> n
    | Inr (Inl (Inl (n, _))) \<Rightarrow> n | Inr (Inl (Inr (n, _))) \<Rightarrow> n
    | Inr (Inr (Inl (n, _))) \<Rightarrow> n | Inr (Inr (Inr (n, _))) \<Rightarrow> n)") simp_all

definition processEscapeSequences :: "nat \<Rightarrow> string \<Rightarrow> string option option" where
  "processEscapeSequences n seq = map_option fst (processEscapeSequencesImpl n seq (Lexer seq))"

text \<open>\<open>processIdentifierOrFunction\<close>, which no other function calls.\<close>

definition processIdentifierOrFunction :: "nat \<Rightarrow> string \<Rightarrow> lexer \<Rightarrow> string px" where
  "processIdentifierOrFunction n seq lx =
     (let (tok, lx) = Peek (skip_spaces lx);
          finish = (\<lambda>result lx. px_return result (skip_spaces lx)) in
      if ttype tok = LCURLY then
        px_bind (px_emit (processEscapeSequencesImpl n seq (SetEmitSpaces False lx))) finish
      else if ttype tok = LPARENT then px_bind (processParentheses n seq lx) finish
      else
        (let (t1, lx') = (if ttype tok = IDENT \<or> function_map (ttype tok) \<noteq> None
                          then LookAhead 1 lx else (Token INVALID [], lx)) in
         if ttype t1 = LPARENT then
           px_bind (processParentheses n seq (snd (Consume lx')))
             (\<lambda>p lx. finish (literal tok @ p) lx)
         else if ttype tok \<in> {NUMBER, IDENT, STRING, PARAM} then
           finish (literal tok) (snd (Consume lx'))
         else px_return [] lx'))"

section \<open>The whole query\<close>

text \<open>
  The scan of \<open>replaceEscapeSequences\<close>: \<open>ret\<close> is the output so far, \<open>pending\<close> the
  text from \<open>st\<close> to \<open>p\<close>, \<open>level\<close> the brace depth. \<open>None\<close> is running out of
  fuel; \<open>Some None\<close> are the two returns of the unchanged query.
\<close>

fun replace_loop :: "nat \<Rightarrow> string \<Rightarrow> string \<Rightarrow> nat \<Rightarrow> string \<Rightarrow> string option option" where
  "replace_loop n ret pending level [] = Some (Some (ret @ pending))"
| "replace_loop n ret pending level (c # cs) =
     (if c = CHR ''{'' then
        (if level = 0 then replace_loop n (ret @ pending) [c] (Suc level) cs
         else replace_loop n ret (pending @ [c]) (Suc level) cs)
      else if c = CHR ''}'' then
        (case level of
           0 \<Rightarrow> Some None
         | Suc 0 \<Rightarrow>
             (case processEscapeSequences n (pending @ [c]) of
                None \<Rightarrow> None
              | Some None \<Rightarrow> Some None
              | Some (Some processed) \<Rightarrow> replace_loop n (ret @ processed) [] 0 cs)
         | Suc (Suc l) \<Rightarrow> replace_loop n ret (pending @ [c]) (Suc l) cs)
      else replace_loop n ret (pending @ [c]) level cs)"

definition replaceEscapeSequences :: "nat \<Rightarrow> string \<Rightarrow> string option" where
  "replaceEscapeSequences n query =
     (case replace_loop n [] [] 0 query of
        None \<Rightarrow> None | Some None \<Rightarrow> Some query | Some (Some ret) \<Rightarrow> Some ret)"

section \<open>Progress and enough fuel\<close>

definition finishes :: "'a px \<Rightarrow> nat \<Rightarrow> bool" where
  "finishes m b \<longleftrightarrow> (\<exists>r lx. m = Some (r, lx) \<and> lexer_ok lx \<and> lexer_left lx \<le> b)"

lemma finishes_return [progress]: "lexer_ok lx \<Longrightarrow> lexer_left lx \<le> b \<Longrightarrow> finishes (px_return a lx) b"
  by (auto simp: finishes_def px_return_def)

lemma finishes_nullopt [progress]: "lexer_ok lx \<Longrightarrow> lexer_left lx \<le> b \<Longrightarrow> finishes (Some (None, lx)) b"
  by (auto simp: finishes_def)

lemma finishes_mono: "finishes m b \<Longrightarrow> b \<le> c \<Longrightarrow> finishes m c"
  by (auto simp: finishes_def)

lemma finishes_bind [progress]:
  assumes "finishes m b" "b \<le> c"
    and "\<And>a lx. lexer_ok lx \<Longrightarrow> lexer_left lx \<le> b \<Longrightarrow> finishes (k a lx) c"
  shows "finishes (px_bind m k) c"
proof -
  from assms(1) obtain r lx where m: "m = Some (r, lx)" "lexer_ok lx" "lexer_left lx \<le> b"
    by (auto simp: finishes_def)
  show ?thesis
    using m assms(2,3) by (cases r) (auto simp: px_bind_def finishes_def)
qed

lemma finishes_emit [progress]: "finishes m b \<Longrightarrow> finishes (px_emit m) b"
  by (auto simp: finishes_def px_emit_def)

lemma Peek_facts:
  assumes "Peek lx = (t, lx')" "lexer_ok lx"
  shows "lexer_ok lx'" "lexer_left lx' \<le> lexer_left lx"
    "lexer_ok (snd (Consume lx'))" "lexer_left (snd (Consume lx')) \<le> lexer_left lx"
    "ttype t \<noteq> EOS \<Longrightarrow> lexer_left (snd (Consume lx')) < lexer_left lx"
    "Peek lx' = (t, lx')" "fst (Consume lx') = t"
  using assms lexer_stream.peek_ok [of lx] lexer_stream.peek_left [of lx]
    lexer_stream.consume_ok [of lx] lexer_stream.consume_left [of lx]
    lexer_stream.peeked_consume [of lx "ttype t"] lexer_stream.consume_peek [of lx]
    lexer_stream.peek_peek [of lx] lexer_stream.consume_type [of lx]
  by auto

lemma Consume_facts:
  assumes "Consume lx = (t, lx')" "lexer_ok lx"
  shows "lexer_ok lx'" "lexer_left lx' \<le> lexer_left lx"
    "ttype t \<noteq> EOS \<Longrightarrow> lexer_left lx' < lexer_left lx"
  using assms lexer_stream.consume_ok [of lx] lexer_stream.consume_left [of lx]
    lexer_stream.consume_shrinks [of lx] by auto

lemma Match_facts:
  assumes "Match ty lx = (b, lx')" "lexer_ok lx"
  shows "lexer_ok lx'" "lexer_left lx' \<le> lexer_left lx"
    "b \<Longrightarrow> lx' = snd (Consume (snd (Peek lx)))"
  using assms Peek_facts [of lx "fst (Peek lx)" "snd (Peek lx)"]
  by (auto simp: Match_Peek split: if_splits)

lemma skip_spaces_facts: "lexer_ok lx \<Longrightarrow> lexer_ok (skip_spaces lx) \<and> lexer_left (skip_spaces lx) \<le> lexer_left lx"
proof (induction lx rule: skip_spaces.induct)
  case (1 lx)
  obtain b lx' where m: "Match SPACE lx = (b, lx')" by (cases "Match SPACE lx")
  have "lexer_ok lx'" "lexer_left lx' \<le> lexer_left lx"
    using Match_facts [OF m "1.prems"] by auto
  then show ?case
    using "1.IH" [OF m [symmetric] refl] m
    by (cases b) (auto simp: skip_spaces.simps [of lx])
qed

lemma finishes_expect [progress]:
  assumes "lexer_ok lx" "lexer_left lx \<le> b"
    and "\<And>lx'. lexer_ok lx' \<Longrightarrow> lexer_left lx' \<le> b \<Longrightarrow> finishes (k lx') b"
  shows "finishes (px_expect ty lx k) b"
proof (cases "Match ty lx")
  case (Pair b' lx')
  show ?thesis
    using assms Match_facts [OF Pair assms(1)]
    by (auto simp: px_expect_def Pair finishes_def)
qed

lemma finishes_string_token:
  assumes "lexer_ok lx" "lexer_left lx \<le> b"
  shows "finishes (processTime lx) b" "finishes (processDate lx) b" "finishes (processDateTime lx) b"
  using assms Peek_facts [of lx "fst (Peek lx)" "snd (Peek lx)"]
  by (auto simp: processTime_def processDate_def processDateTime_def Consume_expected_Peek isInvalid_def
      split_def intro!: progress)

text \<open>A translation finishes when its calls for arguments do.\<close>

definition arg_finishes :: "(lexer \<Rightarrow> string px) \<Rightarrow> nat \<Rightarrow> bool" where
  "arg_finishes arg b \<longleftrightarrow> (\<forall>lx. lexer_ok lx \<longrightarrow> lexer_left lx \<le> b \<longrightarrow> finishes (arg lx) b)"

lemma arg_finishesD:
  "arg_finishes arg b \<Longrightarrow> lexer_ok lx \<Longrightarrow> lexer_left lx \<le> b \<Longrightarrow> finishes (arg lx) b"
  by (simp add: arg_finishes_def)

lemma finishes_Consume [progress]:
  assumes "lexer_ok lx" "lexer_left lx \<le> b"
    and "\<And>t lx'. lexer_ok lx' \<Longrightarrow> lexer_left lx' \<le> b \<Longrightarrow> finishes (k t lx') b"
  shows "finishes (Let (Consume lx) (case_prod k)) b"
proof (cases "Consume lx")
  case (Pair t lx')
  show ?thesis using Consume_facts [OF Pair assms(1)] assms(2,3) by (simp add: Pair)
qed

lemma finishes_Match [progress]:
  assumes "lexer_ok lx" "lexer_left lx \<le> b"
    and "\<And>t lx'. lexer_ok lx' \<Longrightarrow> lexer_left lx' \<le> b \<Longrightarrow> finishes (k t lx') b"
  shows "finishes (Let (Match ty lx) (case_prod k)) b"
proof (cases "Match ty lx")
  case (Pair t lx')
  show ?thesis using Match_facts [OF Pair assms(1)] assms(2,3) by (simp add: Pair)
qed

lemma finishes_if [progress]:
  "(c \<Longrightarrow> finishes m b) \<Longrightarrow> (\<not> c \<Longrightarrow> finishes m' b) \<Longrightarrow> finishes (if c then m else m') b"
  by simp

lemma finishes_case_option [progress]:
  "(x = None \<Longrightarrow> finishes m b) \<Longrightarrow> (\<And>y. x = Some y \<Longrightarrow> finishes (k y) b) \<Longrightarrow>
     finishes (case x of None \<Rightarrow> m | Some y \<Rightarrow> k y) b"
  by (cases x) auto

lemma skip_spaces_ok [progress]: "lexer_ok lx \<Longrightarrow> lexer_ok (skip_spaces lx)"
  and skip_spaces_left [progress]: "lexer_ok lx \<Longrightarrow> lexer_left lx \<le> b \<Longrightarrow> lexer_left (skip_spaces lx) \<le> b"
  using skip_spaces_facts [of lx] by auto

lemma fn_unary_finishes:
  "arg_finishes arg b \<Longrightarrow> lexer_ok lx \<Longrightarrow> lexer_left lx \<le> b \<Longrightarrow> finishes (fn_unary out arg lx) b"
  unfolding fn_unary_def by (intro progress order_refl | erule arg_finishesD | simp)+

lemma fn_CONVERT_finishes:
  "arg_finishes arg b \<Longrightarrow> lexer_ok lx \<Longrightarrow> lexer_left lx \<le> b \<Longrightarrow> finishes (fn_CONVERT arg lx) b"
  unfolding fn_CONVERT_def by (intro progress order_refl | erule arg_finishesD | simp)+

lemma fn_DIFFERENCE_finishes:
  "arg_finishes arg b \<Longrightarrow> lexer_ok lx \<Longrightarrow> lexer_left lx \<le> b \<Longrightarrow> finishes (fn_DIFFERENCE arg lx) b"
  unfolding fn_DIFFERENCE_def by (intro progress order_refl | erule arg_finishesD | simp)+

lemma fn_INSERT_finishes:
  "arg_finishes arg b \<Longrightarrow> lexer_ok lx \<Longrightarrow> lexer_left lx \<le> b \<Longrightarrow> finishes (fn_INSERT seq arg lx) b"
  unfolding fn_INSERT_def by (intro progress order_refl | erule arg_finishesD | simp)+

lemma fn_CURRENT_TIME_finishes:
  "arg_finishes arg b \<Longrightarrow> lexer_ok lx \<Longrightarrow> lexer_left lx \<le> b \<Longrightarrow> finishes (fn_CURRENT_TIME arg lx) b"
  unfolding fn_CURRENT_TIME_def by (intro progress order_refl | erule arg_finishesD | simp)+

lemma fn_TIMESTAMPADD_finishes:
  "arg_finishes arg b \<Longrightarrow> lexer_ok lx \<Longrightarrow> lexer_left lx \<le> b \<Longrightarrow> finishes (fn_TIMESTAMPADD arg lx) b"
  unfolding fn_TIMESTAMPADD_def by (intro progress order_refl | erule arg_finishesD | simp)+

lemma fn_LOCATE_finishes:
  "arg_finishes arg b \<Longrightarrow> lexer_ok lx \<Longrightarrow> lexer_left lx \<le> b \<Longrightarrow> finishes (fn_LOCATE arg lx) b"
  unfolding fn_LOCATE_def by (intro progress order_refl | erule arg_finishesD | simp)+

lemmas translation_finishes =
  fn_unary_finishes fn_CONVERT_finishes fn_DIFFERENCE_finishes fn_INSERT_finishes
  fn_CURRENT_TIME_finishes fn_TIMESTAMPADD_finishes fn_LOCATE_finishes

lemma special_functions_finish:
  assumes "arg_finishes arg b" "lexer_ok lx" "lexer_left lx \<le> b"
  shows "list_all (\<lambda>(_, f). finishes (f lx) b) (special_functions seq arg)"
  using assms
  by (simp add: special_functions_def fn_BIT_LENGTH_def fn_SPACE_def fn_COT_def fn_DAYNAME_def
      fn_MONTHNAME_def fn_LTRIM_def fn_DAYOFWEEK_def translation_finishes)

lemma special_function_finishes:
  assumes "special_function seq arg ty = Some f" "arg_finishes arg b" "lexer_ok lx" "lexer_left lx \<le> b"
  shows "finishes (f lx) b"
proof -
  from assms(1) obtain name where "map_of (special_functions seq arg) name = Some f"
    by (cases ty) (simp_all add: special_function_def)
  then have "(name, f) \<in> set (special_functions seq arg)" by (rule map_of_SomeD)
  with special_functions_finish [OF assms(2-4), of seq] show ?thesis
    by (force simp only: list_all_iff prod.case)
qed

text \<open>Once a token has been looked at, the emit flag no longer matters for consuming it.\<close>

lemma Peek_nonempty: "Peek lx = (t, lx') \<Longrightarrow> readed lx' \<noteq> []"
  by (auto simp: Peek_unfold split: list.splits prod.splits)

lemma Peek_SetEmit:
  assumes "readed lx \<noteq> []"
  shows "Peek (SetEmitSpaces b lx) = (fst (Peek lx), SetEmitSpaces b lx)"
    "lexer_left (snd (Consume (SetEmitSpaces b lx))) = lexer_left (snd (Consume lx))"
  using assms by (cases "readed lx"; simp add: Peek_unfold Consume_def SetEmitSpaces_def lexer_left_def)+

lemma Peek_consume_emit:
  assumes "Peek lx = (t, lx')" "lexer_ok lx" "ttype t \<noteq> EOS"
  shows "lexer_left (snd (Consume (SetEmitSpaces b lx'))) < lexer_left lx"
  using Peek_SetEmit(2) [OF Peek_nonempty [OF assms(1)], of b] Peek_facts(5) [OF assms(1,2)] assms(3) by simp

text \<open>What each function needs, over the text \<open>b\<close> that bounds what it may read.\<close>

definition enough :: "nat \<Rightarrow> string \<Rightarrow> bool" where
  "enough n seq \<longleftrightarrow> (\<forall>lx b. lexer_ok lx \<longrightarrow>
     (lexer_left (snd (Consume (SetEmitSpaces True lx))) \<le> b \<longrightarrow> 3 * b + 2 \<le> n \<longrightarrow>
        finishes (processParentheses n seq lx) b) \<and>
     (\<forall>r. lexer_left lx \<le> b \<longrightarrow> 3 * b + 1 \<le> n \<longrightarrow> finishes (parentheses_loop n seq r lx) b) \<and>
     (lexer_left lx \<le> b \<longrightarrow> 3 * b + 2 \<le> n \<longrightarrow> finishes (processFunctionArgument n seq lx) b) \<and>
     (\<forall>r. lexer_left lx \<le> b \<longrightarrow> 3 * b + 1 \<le> n \<longrightarrow> finishes (argument_loop n seq r lx) b) \<and>
     (lexer_left (snd (Consume lx)) \<le> b \<longrightarrow> 3 * b + 3 \<le> n \<longrightarrow> finishes (processFunction n seq lx) b) \<and>
     (\<forall>f r. lexer_left lx \<le> b \<longrightarrow> 3 * b + 1 \<le> n \<longrightarrow> finishes (function_loop n seq f r lx) b) \<and>
     (ttype (fst (Peek lx)) = LCURLY \<longrightarrow> lexer_left lx \<le> Suc b \<longrightarrow> 3 * b + 2 \<le> n \<longrightarrow>
        finishes (processEscapeSequencesImpl n seq lx) b) \<and>
     (\<forall>r. lexer_left lx \<le> b \<longrightarrow> 3 * b + 1 \<le> n \<longrightarrow> finishes (escape_loop n seq r lx) b))"

lemma enoughD:
  assumes "enough n seq" "lexer_ok lx"
  shows "lexer_left (snd (Consume (SetEmitSpaces True lx))) \<le> b \<Longrightarrow> 3 * b + 2 \<le> n \<Longrightarrow>
        finishes (processParentheses n seq lx) b"
    "lexer_left lx \<le> b \<Longrightarrow> 3 * b + 1 \<le> n \<Longrightarrow> finishes (parentheses_loop n seq r lx) b"
    "lexer_left lx \<le> b \<Longrightarrow> 3 * b + 2 \<le> n \<Longrightarrow> finishes (processFunctionArgument n seq lx) b"
    "lexer_left lx \<le> b \<Longrightarrow> 3 * b + 1 \<le> n \<Longrightarrow> finishes (argument_loop n seq r lx) b"
    "lexer_left (snd (Consume lx)) \<le> b \<Longrightarrow> 3 * b + 3 \<le> n \<Longrightarrow> finishes (processFunction n seq lx) b"
    "lexer_left lx \<le> b \<Longrightarrow> 3 * b + 1 \<le> n \<Longrightarrow> finishes (function_loop n seq f r lx) b"
    "ttype (fst (Peek lx)) = LCURLY \<Longrightarrow> lexer_left lx \<le> Suc b \<Longrightarrow> 3 * b + 2 \<le> n \<Longrightarrow>
        finishes (processEscapeSequencesImpl n seq lx) b"
    "lexer_left lx \<le> b \<Longrightarrow> 3 * b + 1 \<le> n \<Longrightarrow> finishes (escape_loop n seq r lx) b"
  using assms unfolding enough_def by blast+

lemma finishes_parentheses_call:
  assumes "enough n seq" "lexer_ok lx" "lexer_left lx \<le> b" "3 * b \<le> n"
    and pk: "Peek lx = (t, lx')" "ttype t = LPARENT"
    and k: "\<And>p lx. lexer_ok lx \<Longrightarrow> Suc (lexer_left lx) \<le> b \<Longrightarrow> finishes (k p lx) b"
  shows "finishes (px_bind (processParentheses n seq lx') k) b"
proof -
  have "lexer_left (snd (Consume (SetEmitSpaces True lx'))) < lexer_left lx"
    using Peek_consume_emit [OF pk(1) assms(2)] pk(2) by simp
  then have "finishes (processParentheses n seq lx') (b - 1)" and "b \<noteq> 0"
    using assms(3,4) Peek_facts(1) [OF pk(1) assms(2)] by (auto intro!: enoughD(1) [OF assms(1)])
  then show ?thesis by (intro finishes_bind [of _ "b - 1"]) (use k in auto)
qed

lemma finishes_escape_call:
  assumes "enough n seq" "lexer_ok lx" "lexer_left lx \<le> b" "3 * b \<le> n"
    and pk: "Peek lx = (t, lx')" "ttype t = LCURLY"
    and k: "\<And>p lx. lexer_ok lx \<Longrightarrow> Suc (lexer_left lx) \<le> b \<Longrightarrow> finishes (k p lx) b"
  shows "finishes (px_bind (px_emit (processEscapeSequencesImpl n seq (SetEmitSpaces False lx'))) k) b"
proof -
  have "lexer_left (snd (Consume (SetEmitSpaces True lx'))) < lexer_left lx"
    using Peek_consume_emit [OF pk(1) assms(2)] pk(2) by simp
  then have "b \<noteq> 0" using assms(3) by simp
  have "finishes (processEscapeSequencesImpl n seq (SetEmitSpaces False lx')) (b - 1)"
    using assms(3,4) \<open>b \<noteq> 0\<close> Peek_facts(1,2,6) [OF pk(1) assms(2)] pk(2)
    by (intro enoughD(7) [OF assms(1)])
      (auto simp: Peek_SetEmit(1) [OF Peek_nonempty [OF pk(1)]])
  then show ?thesis
    by (intro finishes_bind [of _ "b - 1"] finishes_emit) (use k \<open>b \<noteq> 0\<close> in auto)
qed

lemma finishes_next:
  assumes "lexer_ok lx" "lexer_left lx \<le> b" "Peek lx = (t, lx')" "ttype t \<noteq> EOS" "3 * b \<le> n"
    and k: "\<And>lx b. lexer_ok lx \<Longrightarrow> lexer_left lx \<le> b \<Longrightarrow> 3 * b + 1 \<le> n \<Longrightarrow> finishes (k lx) b"
  shows "finishes (k (snd (Consume lx'))) b"
proof -
  have "lexer_left (snd (Consume lx')) < lexer_left lx" "lexer_ok (snd (Consume lx'))"
    using Peek_facts(3,5) [OF assms(3,1)] assms(4) by auto
  then have "finishes (k (snd (Consume lx'))) (b - 1)" using assms(2,5) by (intro k) auto
  then show ?thesis by (rule finishes_mono) simp
qed

lemma parentheses_loop_step:
  assumes en: "enough n seq" and ok: "lexer_ok lx" and b: "lexer_left lx \<le> b" and "3 * b + 1 \<le> Suc n"
  shows "finishes (parentheses_loop (Suc n) seq r lx) b"
proof -
  obtain t lx' where pk: "Peek lx = (t, lx')" by (cases "Peek lx")
  note pf = Peek_facts [OF pk ok] and n = \<open>3 * b + 1 \<le> Suc n\<close>
  have loop: "finishes (parentheses_loop n seq r' l) c"
    if "lexer_ok l" "lexer_left l \<le> c" "3 * c + 1 \<le> n" for r' l c
    using that by (rule enoughD(2) [OF en])
  have again: "finishes (parentheses_loop n seq r' l) b"
    if "lexer_ok l" "Suc (lexer_left l) \<le> b" for r' l
    using that n by (intro finishes_mono [OF loop, of _ "b - 1"]) auto
  show ?thesis
    unfolding parentheses_loop.simps pk Let_def prod.case
    by (intro finishes_if finishes_return finishes_parentheses_call [OF en ok b _ pk] again
        finishes_escape_call [OF en ok b _ pk] finishes_next [where n = n, OF ok b pk] loop)
      (use n b pf in auto)
qed

lemma argument_loop_step:
  assumes en: "enough n seq" and ok: "lexer_ok lx" and b: "lexer_left lx \<le> b" and "3 * b + 1 \<le> Suc n"
  shows "finishes (argument_loop (Suc n) seq r lx) b"
proof -
  obtain t lx' where pk: "Peek lx = (t, lx')" by (cases "Peek lx")
  note pf = Peek_facts [OF pk ok] and n = \<open>3 * b + 1 \<le> Suc n\<close>
  have loop: "finishes (argument_loop n seq r' l) c"
    if "lexer_ok l" "lexer_left l \<le> c" "3 * c + 1 \<le> n" for r' l c
    using that by (rule enoughD(4) [OF en])
  have again: "finishes (argument_loop n seq r' l) b"
    if "lexer_ok l" "Suc (lexer_left l) \<le> b" for r' l
    using that n by (intro finishes_mono [OF loop, of _ "b - 1"]) auto
  show ?thesis
    unfolding argument_loop.simps pk Let_def prod.case
    by (intro finishes_if finishes_return finishes_parentheses_call [OF en ok b _ pk] again
        finishes_escape_call [OF en ok b _ pk] finishes_next [where n = n, OF ok b pk] loop)
      (use n b pf in auto)
qed

lemma function_loop_step:
  assumes en: "enough n seq" and ok: "lexer_ok lx" and b: "lexer_left lx \<le> b" and "3 * b + 1 \<le> Suc n"
  shows "finishes (function_loop (Suc n) seq f r lx) b"
proof -
  obtain t lx' where pk: "Peek lx = (t, lx')" by (cases "Peek lx")
  note pf = Peek_facts [OF pk ok] and n = \<open>3 * b + 1 \<le> Suc n\<close>
  have loop: "finishes (function_loop n seq f r' l) c"
    if "lexer_ok l" "lexer_left l \<le> c" "3 * c + 1 \<le> n" for r' l c
    using that by (rule enoughD(6) [OF en])
  have again: "finishes (function_loop n seq f r' l) b"
    if "lexer_ok l" "Suc (lexer_left l) \<le> b" for r' l
    using that n by (intro finishes_mono [OF loop, of _ "b - 1"]) auto
  have ext: "finishes (px_bind (processFunction n seq lx') (\<lambda>p lx. function_loop n seq f (r @ p) lx)) b"
    if ty: "ttype t = FN_of ''EXTRACT''"
  proof (rule finishes_bind [of _ "b - 1"])
    have "lexer_left (snd (Consume lx')) < b" using pf(5) ty b by simp
    then show "finishes (processFunction n seq lx') (b - 1)"
      using pf(1) n by (intro enoughD(5) [OF en]) auto
    show "finishes (function_loop n seq f (r @ p) l) b" if "lexer_ok l" "lexer_left l \<le> b - 1" for p l
      using that \<open>lexer_left (snd (Consume lx')) < b\<close> by (intro again) auto
  qed simp
  show ?thesis
    unfolding function_loop.simps pk Let_def prod.case
    by (intro finishes_if finishes_return ext again
        finishes_escape_call [OF en ok b _ pk] finishes_next [where n = n, OF ok b pk] loop)
      (use n b pf in auto)
qed

lemma query_parameter_loop_finishes:
  "lexer_ok lx \<Longrightarrow> lexer_left lx \<le> b \<Longrightarrow> b < n \<Longrightarrow> finishes (query_parameter_loop n r lx) b"
proof (induction n arbitrary: r lx b)
  case (Suc n)
  obtain t lx' where pk: "Peek lx = (t, lx')" by (cases "Peek lx")
  obtain t2 lx2 where cs: "Consume lx' = (t2, lx2)" by (cases "Consume lx'")
  note pf = Peek_facts [OF pk Suc.prems(1)]
  have "finishes (query_parameter_loop n (r @ literal t2) lx2) b" if "ttype t2 \<noteq> EOS"
    using Suc.prems pf(3,5,7) cs that by (intro finishes_mono [OF Suc.IH, of _ "b - 1"]) auto
  with pf Suc.prems cs show ?case by (auto simp: pk intro!: progress)
qed simp

lemma query_parameter_finishes:
  assumes "lexer_ok lx" "lexer_left lx \<le> b" "b < n"
  shows "finishes (processClickHouseQueryParameter n name lx) b"
  unfolding processClickHouseQueryParameter_def Let_def
  by (intro finishes_bind [of _ b] query_parameter_loop_finishes progress) (use assms in auto)

text \<open>The parameter's colon is consumed, so the call is progress.\<close>

lemma query_parameter_progress:
  assumes "lexer_ok lx" "Peek lx = (t, lx)" "ttype t = COLON" "lexer_left lx \<le> b" "b < n"
  shows "finishes (processClickHouseQueryParameter n name lx) (b - 1)"
proof -
  let ?lx = "SetEmitSpaces True lx"
  obtain m where n: "n = Suc m" using assms(5) by (cases n) auto
  have pk: "Peek ?lx = (t, ?lx)" using Peek_SetEmit(1) [OF Peek_nonempty [OF assms(2)], of True] assms(2) by simp
  obtain t2 l2 where cs: "Consume ?lx = (t2, l2)" by (cases "Consume ?lx")
  note pf = Peek_facts [OF pk]
  have "finishes (query_parameter_loop m (r @ literal t2) l2) (b - 1)" for r
    using pf(3,5,7) cs assms n by (intro query_parameter_loop_finishes) auto
  moreover have "ttype t2 = COLON" using pf(7) cs assms(1,3) by simp
  ultimately have "finishes (query_parameter_loop n r ?lx) (b - 1)" for r
    using assms(3) by (simp add: n pk cs)
  then show ?thesis
    unfolding processClickHouseQueryParameter_def Let_def
    by (intro finishes_bind [of _ "b - 1"] progress) auto
qed

lemma escape_loop_step:
  assumes en: "enough n seq" and ok: "lexer_ok lx" and b: "lexer_left lx \<le> b" and "3 * b + 1 \<le> Suc n"
  shows "finishes (escape_loop (Suc n) seq r lx) b"
proof -
  note n = \<open>3 * b + 1 \<le> Suc n\<close>
  obtain t l where cs: "Consume (skip_spaces lx) = (t, l)" by (cases "Consume (skip_spaces lx)")
  obtain t2 l2 where pk: "Peek l = (t2, l2)" by (cases "Peek l")
  have l: "lexer_ok l" "lexer_left l \<le> b" "ttype t \<noteq> EOS \<Longrightarrow> Suc (lexer_left l) \<le> b"
    using Consume_facts [OF cs skip_spaces_ok [OF ok]] skip_spaces_left [OF ok b] by auto
  note pf = Peek_facts [OF pk l(1)]
  have step: "finishes (px_bind m (\<lambda>p lx. escape_loop n seq (r @ p) lx)) b"
    if "finishes m c" "Suc c \<le> b" for m c
  proof (rule finishes_bind [OF that(1)])
    show "finishes (escape_loop n seq (r @ p) l') b" if "lexer_ok l'" "lexer_left l' \<le> c" for p l'
      using that \<open>Suc c \<le> b\<close> n by (intro finishes_mono [OF enoughD(8) [OF en], of _ c]) auto
  qed (use that in simp)
  have fn: "finishes (processFunction n seq l) (b - 1)" if "ttype t = FN"
    using l that n lexer_stream.consume_left [of l] by (intro enoughD(5) [OF en]) auto
  have param: "finishes (px_bind (processClickHouseQueryParameter n t l2) (\<lambda>p lx. escape_loop n seq (r @ p) lx)) b"
    if "ttype t2 = COLON"
    using l pf that n Peek_facts(5) [OF pk l(1)]
    by (intro step [of _ "b - 1"] query_parameter_progress) auto
  show ?thesis
    unfolding escape_loop.simps cs pk Let_def prod.case
    by (intro finishes_if step [of _ "b - 1"] fn param finishes_string_token progress)
      (use n b l pf in auto)
qed

lemma processEscapeSequencesImpl_step:
  assumes en: "enough n seq" and ok: "lexer_ok lx" and "ttype (fst (Peek lx)) = LCURLY"
    and "lexer_left lx \<le> Suc b" "3 * b + 2 \<le> Suc n"
  shows "finishes (processEscapeSequencesImpl (Suc n) seq lx) b"
proof -
  obtain t l where pk: "Peek lx = (t, l)" by (cases "Peek lx")
  note pf = Peek_facts [OF pk ok]
  have "Match LCURLY lx = (True, snd (Consume l))" using assms(3) by (simp add: Match_Peek pk)
  then show ?thesis
    using assms pf(3,5) pk by (auto intro!: enoughD(8) [OF en])
qed

theorem all_enough: "enough n seq"
proof (induction n)
  case 0
  then show ?case by (simp add: enough_def)
next
  case (Suc n)
  note en = Suc.IH
  show ?case
    unfolding enough_def
  proof (intro allI impI conjI)
    fix lx b r f
    assume ok: "lexer_ok lx"
    note escape_loop.simps [simp del] parentheses_loop.simps [simp del] argument_loop.simps [simp del]
      function_loop.simps [simp del]
    show "finishes (processParentheses (Suc n) seq lx) b"
      if "lexer_left (snd (Consume (SetEmitSpaces True lx))) \<le> b" "3 * b + 2 \<le> Suc n"
      using that Consume_facts [OF surjective_pairing, of "SetEmitSpaces True lx"] ok
      by (auto simp: split_def Let_def intro!: enoughD(2) [OF en])
    show "finishes (parentheses_loop (Suc n) seq r lx) b"
      if "lexer_left lx \<le> b" "3 * b + 1 \<le> Suc n"
      using that by (rule parentheses_loop_step [OF en ok])
    show "finishes (processFunctionArgument (Suc n) seq lx) b"
      if "lexer_left lx \<le> b" "3 * b + 2 \<le> Suc n"
      using that ok by (auto intro!: enoughD(4) [OF en])
    show "finishes (argument_loop (Suc n) seq r lx) b"
      if "lexer_left lx \<le> b" "3 * b + 1 \<le> Suc n"
      using that by (rule argument_loop_step [OF en ok])
    show "finishes (function_loop (Suc n) seq f r lx) b"
      if "lexer_left lx \<le> b" "3 * b + 1 \<le> Suc n"
      using that by (rule function_loop_step [OF en ok])
    show "finishes (processEscapeSequencesImpl (Suc n) seq lx) b"
      if "ttype (fst (Peek lx)) = LCURLY" "lexer_left lx \<le> Suc b" "3 * b + 2 \<le> Suc n"
      using that by (rule processEscapeSequencesImpl_step [OF en ok])
    show "finishes (escape_loop (Suc n) seq r lx) b"
      if "lexer_left lx \<le> b" "3 * b + 1 \<le> Suc n"
      using that by (rule escape_loop_step [OF en ok])
    show "finishes (processFunction (Suc n) seq lx) b"
      if "lexer_left (snd (Consume lx)) \<le> b" "3 * b + 3 \<le> Suc n"
    proof -
      obtain t l where cs: "Consume lx = (t, l)" by (cases "Consume lx")
      have l: "lexer_ok l" "lexer_left l \<le> b" using Consume_facts [OF cs ok] that cs by auto
      have "arg_finishes (processFunctionArgument n seq) b"
        unfolding arg_finishes_def using that(2) by (auto intro!: enoughD(3) [OF en])
      then show ?thesis
        unfolding processFunction.simps cs Let_def prod.case
        by (intro finishes_case_option special_function_finishes finishes_return l enoughD(6) [OF en])
          (use l that(2) in auto)
    qed
  qed
qed

lemma processEscapeSequences_returns:
  assumes "ch_vt \<notin> set seq" "3 * length seq + 2 \<le> n"
  shows "processEscapeSequences n seq \<noteq> None"
proof -
  obtain m where n: "n = Suc m" using assms(2) by (cases n) auto
  obtain b l where m: "Match LCURLY (Lexer seq) = (b, l)" by (cases "Match LCURLY (Lexer seq)")
  have "lexer_ok l" "lexer_left l \<le> length seq"
    using Match_facts [OF m lexer_ok_Lexer] assms(1) by (auto simp: lexer_left_Lexer)
  then have "finishes (processEscapeSequencesImpl n seq (Lexer seq)) (length seq)"
    using assms(2) enoughD(8) [OF all_enough, of l "length seq" m seq]
    by (auto simp: n m intro!: progress simp del: escape_loop.simps)
  then show ?thesis by (auto simp: processEscapeSequences_def finishes_def)
qed

lemma replace_loop_returns:
  assumes "ch_vt \<notin> set pending" "ch_vt \<notin> set cs" "3 * (length pending + length cs) + 2 \<le> n"
  shows "replace_loop n ret pending level cs \<noteq> None"
  using assms
proof (induction n ret pending level cs rule: replace_loop.induct)
  case (2 n ret pending level c cs)
  have "processEscapeSequences n (pending @ [c]) \<noteq> None"
    using "2.prems" by (intro processEscapeSequences_returns) auto
  with 2 show ?case by (auto split: nat.split option.splits)
qed simp

section \<open>More fuel changes nothing\<close>

definition px_le :: "'a option \<Rightarrow> 'a option \<Rightarrow> bool" where
  "px_le m m' \<longleftrightarrow> m = None \<or> m = m'"

named_theorems fuel_mono \<open>monotonicity in the fuel\<close>

lemma px_le_refl [fuel_mono]: "px_le m m"
  by (simp add: px_le_def)

lemma px_le_bind [fuel_mono]:
  "px_le m m' \<Longrightarrow> (\<And>a lx. px_le (k a lx) (k' a lx)) \<Longrightarrow> px_le (px_bind m k) (px_bind m' k')"
  by (auto simp: px_le_def px_bind_def split: option.splits)

lemma px_le_expect [fuel_mono]:
  "(\<And>lx. px_le (k lx) (k' lx)) \<Longrightarrow> px_le (px_expect ty lx k) (px_expect ty lx k')"
  by (simp add: px_expect_def px_le_refl split_def Let_def)

lemma px_le_emit [fuel_mono]: "px_le m m' \<Longrightarrow> px_le (px_emit m) (px_emit m')"
  by (auto simp: px_le_def px_emit_def)

lemma px_le_if [fuel_mono]:
  "(c \<Longrightarrow> px_le m m') \<Longrightarrow> (\<not> c \<Longrightarrow> px_le l l') \<Longrightarrow> px_le (if c then m else l) (if c then m' else l')"
  by simp

lemma px_le_let [fuel_mono]:
  "(\<And>a b. px_le (k a b) (k' a b)) \<Longrightarrow> px_le (Let p (case_prod k)) (Let p (case_prod k'))"
  by (simp add: split_def)

lemma px_le_option [fuel_mono]:
  "px_le m m' \<Longrightarrow> (\<And>y. px_le (k y) (k' y)) \<Longrightarrow> px_le (case x of None \<Rightarrow> m | Some y \<Rightarrow> k y) (case x of None \<Rightarrow> m' | Some y \<Rightarrow> k' y)"
  by (cases x) auto

lemma px_le_None [fuel_mono]: "px_le None m"
  by (simp add: px_le_def)

definition arg_le :: "(lexer \<Rightarrow> string px) \<Rightarrow> (lexer \<Rightarrow> string px) \<Rightarrow> bool" where
  "arg_le arg arg' \<longleftrightarrow> (\<forall>lx. px_le (arg lx) (arg' lx))"

lemma translation_mono:
  assumes "arg_le arg arg'"
  shows "list_all2 (\<lambda>(n, f) (n', f'). n = n' \<and> (\<forall>lx. px_le (f lx) (f' lx)))
    (special_functions seq arg) (special_functions seq arg')"
proof -
  have a: "px_le (arg lx) (arg' lx)" for lx using assms by (simp add: arg_le_def)
  show ?thesis
    unfolding special_functions_def fn_CONVERT_def fn_unary_def fn_BIT_LENGTH_def fn_DIFFERENCE_def
      fn_INSERT_def fn_SPACE_def fn_COT_def fn_CURRENT_TIME_def fn_DAYNAME_def fn_MONTHNAME_def
      fn_TIMESTAMPADD_def fn_LOCATE_def fn_LTRIM_def fn_DAYOFWEEK_def
    by (simp only: list_all2_Cons list_all2_Nil prod.case simp_thms)
      (intro conjI allI fuel_mono a)
qed

lemma map_of_list_all2:
  assumes "list_all2 (\<lambda>(n, f) (n', f'). n = n' \<and> R f f') xs ys"
  shows "rel_option R (map_of xs n) (map_of ys n)"
  using assms by (induction rule: list_all2_induct) auto

lemma special_function_mono:
  assumes "arg_le arg arg'"
  shows "rel_option (\<lambda>f f'. \<forall>lx. px_le (f lx) (f' lx)) (special_function seq arg ty) (special_function seq arg' ty)"
  using map_of_list_all2 [OF translation_mono [OF assms]]
  by (cases ty) (simp_all add: special_function_def)

lemma px_le_rel_option:
  "rel_option (\<lambda>f f'. \<forall>lx. px_le (f lx) (f' lx)) x x' \<Longrightarrow> px_le m m' \<Longrightarrow>
     px_le (case x of None \<Rightarrow> m | Some f \<Rightarrow> f lx) (case x' of None \<Rightarrow> m' | Some f \<Rightarrow> f lx)"
  by (cases x; cases x') auto

lemma query_parameter_loop_mono: "px_le (query_parameter_loop n r lx) (query_parameter_loop (Suc n) r lx)"
proof (induction n arbitrary: r lx)
  case (Suc n)
  show ?case
    by (subst (1 2) query_parameter_loop.simps) (intro fuel_mono Suc.IH)
qed (simp add: fuel_mono)

lemma query_parameter_mono:
  "px_le (processClickHouseQueryParameter n nm lx) (processClickHouseQueryParameter (Suc n) nm lx)"
  unfolding processClickHouseQueryParameter_def Let_def by (intro fuel_mono query_parameter_loop_mono)

lemma descent_mono_Suc:
  "\<forall>seq lx r f.
     px_le (processParentheses n seq lx) (processParentheses (Suc n) seq lx) \<and>
     px_le (parentheses_loop n seq r lx) (parentheses_loop (Suc n) seq r lx) \<and>
     px_le (processFunctionArgument n seq lx) (processFunctionArgument (Suc n) seq lx) \<and>
     px_le (argument_loop n seq r lx) (argument_loop (Suc n) seq r lx) \<and>
     px_le (processFunction n seq lx) (processFunction (Suc n) seq lx) \<and>
     px_le (function_loop n seq f r lx) (function_loop (Suc n) seq f r lx) \<and>
     px_le (processEscapeSequencesImpl n seq lx) (processEscapeSequencesImpl (Suc n) seq lx) \<and>
     px_le (escape_loop n seq r lx) (escape_loop (Suc n) seq r lx)"
proof (induction n)
  case 0
  then show ?case by (simp add: px_le_None)
next
  case (Suc n)
  have IH: "px_le (processParentheses n seq lx) (processParentheses (Suc n) seq lx)"
    "px_le (parentheses_loop n seq r lx) (parentheses_loop (Suc n) seq r lx)"
    "px_le (processFunctionArgument n seq lx) (processFunctionArgument (Suc n) seq lx)"
    "px_le (argument_loop n seq r lx) (argument_loop (Suc n) seq r lx)"
    "px_le (processFunction n seq lx) (processFunction (Suc n) seq lx)"
    "px_le (function_loop n seq f r lx) (function_loop (Suc n) seq f r lx)"
    "px_le (processEscapeSequencesImpl n seq lx) (processEscapeSequencesImpl (Suc n) seq lx)"
    "px_le (escape_loop n seq r lx) (escape_loop (Suc n) seq r lx)" for seq lx r f
    using Suc.IH by blast+
  have "arg_le (processFunctionArgument n seq) (processFunctionArgument (Suc n) seq)" for seq
    unfolding arg_le_def using IH(3) by blast
  note sp = special_function_mono [OF this]
  note unf = processParentheses.simps(2) parentheses_loop.simps(2) processFunctionArgument.simps(2)
    argument_loop.simps(2) processFunction.simps(2) function_loop.simps(2)
    processEscapeSequencesImpl.simps(2) escape_loop.simps(2)
  show ?case
    apply (intro allI conjI)
    subgoal by (subst (1 2) unf) (intro fuel_mono IH)
    subgoal by (subst (1 2) unf) (intro fuel_mono IH)
    subgoal by (subst (1 2) unf) (intro fuel_mono IH)
    subgoal by (subst (1 2) unf) (intro fuel_mono IH)
    subgoal by (subst (1 2) unf) (intro px_le_rel_option sp fuel_mono IH)
    subgoal by (subst (1 2) unf) (intro fuel_mono IH)
    subgoal by (subst (1 2) unf) (intro fuel_mono IH)
    subgoal by (subst (1 2) unf) (intro fuel_mono IH query_parameter_mono)
    done
qed

lemma processEscapeSequences_mono:
  assumes "processEscapeSequences n seq = Some r" "n \<le> m"
  shows "processEscapeSequences m seq = Some r"
  using assms(2,1)
proof (induction m rule: dec_induct)
  case (step m)
  then have "processEscapeSequencesImpl m seq (Lexer seq) \<noteq> None"
    by (auto simp: processEscapeSequences_def)
  with step descent_mono_Suc [of m] show ?case
    by (metis processEscapeSequences_def px_le_def)
qed

lemma replace_loop_mono:
  "replace_loop n ret pending level cs = Some r \<Longrightarrow> n \<le> m \<Longrightarrow> replace_loop m ret pending level cs = Some r"
proof (induction n ret pending level cs rule: replace_loop.induct)
  case (2 n ret pending level c cs)
  then show ?case
    by (auto split: nat.splits option.splits if_splits dest: processEscapeSequences_mono [of n])
qed simp

lemma replaceEscapeSequences_mono:
  "replaceEscapeSequences n q = Some r \<Longrightarrow> n \<le> m \<Longrightarrow> replaceEscapeSequences m q = Some r"
  by (auto simp: replaceEscapeSequences_def dest: replace_loop_mono split: option.splits)

end
