(* ===== verification/Escape_Spec.thy ===== *)
theory Escape_Spec
  imports Escape_Sequences
begin

text \<open>
  What the escape processor computes: an abstract reading of a query as plain and braced
  pieces, each braced piece translated on its own, and the translations ODBC promises for
  date and time literals and for \<open>{name:type}\<close> parameters, with the lexer runs they need.
\<close>

section \<open>Lexer runs\<close>

declare ident_loop.simps [simp del]

lemma string_body_plain:
  assumes "ch_quote \<notin> set w" "ch_bslash \<notin> set w"
  shows "string_body False (w @ ch_quote # rest) = (True, w @ [ch_quote], rest)"
  using assms by (induction w) auto

lemma skip_spaces_none:
  "ttype (fst (Peek lx)) \<noteq> SPACE \<Longrightarrow> skip_spaces lx = snd (Peek lx)"
  by (subst skip_spaces.simps) (simp add: Match_Peek)

lemma keywords_dt: "LookupIdent ''D'' = D" "LookupIdent ''T'' = T" "LookupIdent ''TS'' = TS" "LookupIdent ''FN'' = FN"
  by (simp_all add: LookupIdent_def KEYWORDS_def)

lemma ident_start_plain_all:
  "\<forall>c. ident_start c \<longrightarrow> \<not> skipped c \<and> delimiter c = None \<and> c \<noteq> ch_quote"
  by code_simp

lemmas ident_start_plain = ident_start_plain_all [rule_format, THEN conjunct1]
   ident_start_plain_all [rule_format, THEN conjunct2, THEN conjunct1]
   ident_start_plain_all [rule_format, THEN conjunct2, THEN conjunct2]

lemma to_upper_words: "to_upper ''d'' = ''D''" "to_upper ''t'' = ''T''" "to_upper ''ts'' = ''TS''"
  by code_simp+

lemma ident_loop_word:
  assumes "isalpha c \<or> c = CHR ''_''" "list_all ident_char w" "\<not> ident_char d" "d \<noteq> CHR ''.''"
  shows "ident_loop False False (c # w @ d # rest) = (Some (False, False), c # w, d # rest)"
proof -
  have tw: "takeWhile ident_char (w @ d # rest) = w" "dropWhile ident_char (w @ d # rest) = d # rest"
    using assms(2,3) by (induction w) auto
  have "c \<noteq> ch_btick" using assms(1) by (auto simp: isalpha_def isupper_def islower_def)
  then show ?thesis
    using assms tw by (simp add: ident_loop.simps(2) ident_segment_def)
qed

lemma scan_word:
  assumes "isalpha c \<or> c = CHR ''_''" "list_all ident_char w" "\<not> ident_char d" "d \<noteq> CHR ''.''"
  shows "scan_token emit (c # w @ d # rest) = (Token (LookupIdent (to_upper (c # w))) (c # w), d # rest)"
proof -
  have "ident_start c" using assms(1) by (auto simp: ident_start_def)
  note pl = ident_start_plain [OF this]
  show ?thesis
    unfolding scan_token.simps scan_default_def using pl ident_loop_word [OF assms] assms(1)
    by auto
qed

lemma scan_quoted:
  assumes "ch_quote \<notin> set w" "ch_bslash \<notin> set w"
  shows "scan_token emit (ch_quote # w @ ch_quote # rest) = (Token STRING (sq w), rest)"
  using string_body_plain [OF assms, of rest] by (simp add: scan_token.simps skipped_def delimiter_def sq_def)

lemma scan_blank: "scan_token False (CHR '' '' # cs) = scan_token False cs"
  by (simp add: scan_token.simps skipped_def)

lemma scan_delims: "scan_token e (CHR ''{'' # cs) = (Token LCURLY ''{'', cs)" 
 "scan_token e (CHR ''}'' # cs) = (Token RCURLY ''}'', cs)" 
  by (simp_all add: scan_token.simps skipped_def delimiter_def)

definition temporal_escape :: "string \<Rightarrow> string \<Rightarrow> string option" where
  "temporal_escape kind w =
     (if kind = ''d'' then Some (''toDate32('' @ sq w @ '')'')
      else if kind = ''t'' then Some (''cast('' @ sq w @ '' as Time)'')
      else if kind = ''ts'' then Some (''toDateTime64('' @ sq w @ '', 9)'') else None)"

definition lx_at :: "string \<Rightarrow> token list \<Rightarrow> bool \<Rightarrow> lexer" where
  "lx_at u ts e = \<lparr>unread = u, readed = ts, emit_space = e\<rparr>"

lemma Lexer_at: "Lexer u = lx_at u [] False"
  by (simp add: Lexer_def lx_at_def)

lemma lx_at_simps [simp]:
  "unread (lx_at u ts e) = u" "readed (lx_at u ts e) = ts" "emit_space (lx_at u ts e) = e"
  "Peek (lx_at u (t # ts) e) = (t, lx_at u (t # ts) e)"
  "Consume (lx_at u (t # ts) e) = (t, lx_at u ts e)"
  "SetEmitSpaces b (lx_at u ts e) = lx_at u ts b"
  by (simp_all add: lx_at_def Peek_unfold Consume_def SetEmitSpaces_def)

lemma Peek_scan: "scan_token e u = (t, u') \<Longrightarrow> Peek (lx_at u [] e) = (t, lx_at u' [t] e)"
  and Consume_scan: "scan_token e u = (t, u') \<Longrightarrow> Consume (lx_at u [] e) = (t, lx_at u' [] e)"
  by (simp_all add: lx_at_def Peek_unfold Consume_def NextToken_def)

lemma Match_scan:
  "scan_token e u = (t, u') \<Longrightarrow> Match ty (lx_at u [] e) =
     (if ttype t = ty then (True, lx_at u' [] e) else (False, lx_at u' [t] e))"
  by (simp add: Match_Peek Peek_scan)

lemma skip_spaces_scan:
  "scan_token e u = (t, u') \<Longrightarrow> ttype t \<noteq> SPACE \<Longrightarrow> skip_spaces (lx_at u [] e) = lx_at u' [t] e"
  by (subst skip_spaces.simps) (simp add: Match_scan)

lemma escape_loop_close:
  "escape_loop (Suc n) seq r (lx_at (CHR ''}'' # rest) [] False) = px_return r (lx_at rest [] False)"
  by (simp add: skip_spaces_scan scan_delims)

lemma processTemporal_literal:
  assumes "ch_quote \<notin> set w" "ch_bslash \<notin> set w" "temporal_escape kind w = Some out"
  shows "processEscapeSequences (Suc (Suc (Suc n))) (''{'' @ kind @ '' '' @ sq w @ ''}'') = Some (Some out)"
proof -
  let ?post = "sq w @ ''}''" and ?close = "lx_at ''}'' [] False"
  let ?seq = "''{'' @ kind @ '' '' @ ?post"
  define ty where "ty = (if kind = ''d'' then D else if kind = ''t'' then T else TS)"
  have kind: "kind = ''d'' \<or> kind = ''t'' \<or> kind = ''ts''"
    using assms(3) by (auto simp: temporal_escape_def split: if_splits)
  have "scan_token False (CHR '' '' # ?post) = (Token STRING (sq w), ''}'')"
    using scan_quoted [OF assms(1,2), of False "''}''"] by (simp add: sq_def scan_blank)
  then have str: "Consume_expected STRING (lx_at (CHR '' '' # ?post) [] False) = (Token STRING (sq w), ?close)"
    by (simp add: Consume_expected_Peek Peek_scan)
  have "scan_token False (kind @ '' '' @ ?post) = (Token ty kind, '' '' @ ?post)"
    using kind scan_word [of "CHR ''d''" "[]" "CHR '' ''" False ?post] 
      scan_word [of "CHR ''t''" "[]" "CHR '' ''" False ?post] 
      scan_word [of "CHR ''t''" "''s''" "CHR '' ''" False ?post]
    by (elim disjE; simp only: append.simps keywords_dt to_upper_words) (simp_all add: ty_def cctype)
  then have word: "Consume (skip_spaces (lx_at (kind @ '' '' @ ?post) [] False)) = (Token ty kind, lx_at ('' '' @ ?post) [] False)"
    by (simp add: skip_spaces_scan ty_def)
  have "processEscapeSequencesImpl (Suc (Suc (Suc n))) ?seq (lx_at ?seq [] False)
     = escape_loop (Suc (Suc n)) ?seq [] (lx_at (kind @ '' '' @ ?post) [] False)"
    by (simp add: Match_scan scan_delims del: escape_loop.simps)
  also have "\<dots> = escape_loop (Suc n) ?seq out ?close"
    using kind assms(3) unfolding escape_loop.simps(2) [of "Suc n"] word
    by (auto simp: ty_def temporal_escape_def processDate_def processTime_def processDateTime_def str
      isInvalid_def px_bind_def px_return_def simp del: escape_loop.simps)
  finally show ?thesis
    by (simp add: processEscapeSequences_def Lexer_at escape_loop_close px_return_def del: escape_loop.simps)
qed

section \<open>Query parameters pass through\<close>

definition type_char :: "char \<Rightarrow> bool" where [cctype]:
  "type_char c \<longleftrightarrow> isalpha c \<or> isdigit c \<or> c = CHR ''('' \<or> c = CHR '')'' \<or> c = CHR '','' \<or> c = CHR '' ''"

definition plain_digit :: "char \<Rightarrow> bool" where
  "plain_digit c \<longleftrightarrow> isdigit c \<and> \<not> isalpha c \<and> \<not> skipped c \<and> delimiter c = None \<and>
     c \<notin> {ch_quote, CHR ''_'', ch_btick, CHR ''.'', CHR ''-''}"

lemma isdigit_plain: "\<forall>c. if isdigit c then plain_digit c else True"
  by code_simp

lemma type_char_cases:
  "type_char c \<Longrightarrow> isalpha c \<or> plain_digit c \<or> c = CHR ''('' \<or> c = CHR '')'' \<or> c = CHR '','' \<or> c = CHR '' ''"
  using isdigit_plain [rule_format, of c] by (auto simp: type_char_def split: if_splits)

lemma not_type_char: "\<not> type_char (CHR ''.'')" "\<not> type_char (CHR ''-'')" "\<not> ident_char (CHR ''}'')" "\<not> isdigit (CHR ''}'')"
  by code_simp+

lemma number_body_type:
  assumes "list_all type_char w"
  shows "\<exists>w1 w2. w = w1 @ w2 \<and> number_body dt mn (w @ CHR ''}'' # rest) = (True, w1, w2 @ CHR ''}'' # rest)"
  using assms
proof (induction w)
  case Nil
  then show ?case by (intro exI [of _ "[]"]) (simp add: not_type_char)
next
  case (Cons c w)
  then obtain w1 w2 where IH: "w = w1 @ w2" "number_body dt mn (w @ CHR ''}'' # rest) = (True, w1, w2 @ CHR ''}'' # rest)"
    by auto
  have c: "c \<noteq> CHR ''.''" "c \<noteq> CHR ''-''" using Cons.prems not_type_char by auto
  show ?case
  proof (cases "isdigit c")
    case True
    with c IH show ?thesis by (intro exI [of _ "c # w1"] exI [of _ w2]) simp
  next
    case False
    with c show ?thesis by (intro exI [of _ "[]"] exI [of _ "c # w"]) simp
  qed
qed

lemma scan_type_punct:
  assumes "c = CHR ''('' \<or> c = CHR '')'' \<or> c = CHR '','' \<or> c = CHR '' ''"
  shows "\<exists>t. scan_token True (c # cs) = (t, cs) \<and> literal t = [c] \<and> ttype t \<noteq> RCURLY \<and> ttype t \<noteq> EOS"
  using assms by (elim disjE) (simp_all add: scan_token.simps skipped_def delimiter_def)

lemma scan_type_digit:
  assumes "plain_digit c"
  shows "scan_token True (c # cs) = (let (ok, lit, rest) = number_body False False cs
         in (Token (if ok then NUMBER else INVALID) (c # lit), rest))"
  using assms by (simp add: plain_digit_def scan_token.simps scan_default_def)

lemma dropWhile_stop:
  assumes "list_all type_char w"
  obtains d r where "dropWhile ident_char w @ CHR ''}'' # rest = d # r" "\<not> ident_char d" "d \<noteq> CHR ''.''"
proof (cases "dropWhile ident_char w")
  case Nil
  show thesis by (rule that [of "CHR ''}''" rest]) (simp_all add: Nil not_type_char)
next
  case (Cons d r)
  then have "d \<in> set w" "\<not> ident_char d"
    by (metis list.set_intros(1) set_dropWhileD, metis dropWhile_eq_Cons_conv)
  then show thesis using that [of d "r @ CHR ''}'' # rest"] Cons assms not_type_char by (auto simp: list_all_iff)
qed

lemma scan_type_word:
  assumes "isalpha c" "list_all type_char w"
  shows "scan_token True (c # w @ CHR ''}'' # rest) =
     (Token (LookupIdent (to_upper (c # takeWhile ident_char w))) (c # takeWhile ident_char w),
      dropWhile ident_char w @ CHR ''}'' # rest)"
proof -
  obtain d r where dr: "dropWhile ident_char w @ CHR ''}'' # rest = d # r" "\<not> ident_char d" "d \<noteq> CHR ''.''"
    using dropWhile_stop [OF assms(2)] by blast
  have "w @ CHR ''}'' # rest = takeWhile ident_char w @ d # r"
    by (simp flip: dr(1))
  then show ?thesis
    using scan_word [of c "takeWhile ident_char w" d True r] assms(1) dr
    by (auto simp: list_all_iff dest: set_takeWhileD)
qed

lemma scan_type:
  assumes "type_char c" "list_all type_char w"
  shows "\<exists>t w1 w2. w = w1 @ w2 \<and> scan_token True (c # w @ CHR ''}'' # rest) = (t, w2 @ CHR ''}'' # rest) \<and>
    literal t = c # w1 \<and> ttype t \<noteq> RCURLY \<and> ttype t \<noteq> EOS"
proof -
  let ?tail = "w @ CHR ''}'' # rest"
  from type_char_cases [OF assms(1)] consider (al) "isalpha c" | (dg) "plain_digit c"
    | (pc) "c = CHR ''('' \<or> c = CHR '')'' \<or> c = CHR '','' \<or> c = CHR '' ''" by blast
  then show ?thesis
  proof cases
    case al
    show ?thesis
      by (rule exI [of _ "Token (LookupIdent (to_upper (c # takeWhile ident_char w))) (c # takeWhile ident_char w)"],
          rule exI [of _ "takeWhile ident_char w"], rule exI [of _ "dropWhile ident_char w"])
        (simp add: scan_type_word [OF al assms(2), of rest])
  next
    case dg
    obtain w1 w2 where w: "w = w1 @ w2" "number_body False False ?tail = (True, w1, w2 @ CHR ''}'' # rest)"
      using number_body_type [OF assms(2)] by blast
    show ?thesis
      by (rule exI [of _ "Token NUMBER (c # w1)"], rule exI [of _ w1], rule exI [of _ w2])
        (use w scan_type_digit [OF dg, of ?tail] in simp)
  next
    case pc
    then obtain t where "scan_token True (c # ?tail) = (t, ?tail)" "literal t = [c]" "ttype t \<noteq> RCURLY" "ttype t \<noteq> EOS"
      using scan_type_punct by blast
    then have "w = [] @ w \<and> scan_token True (c # ?tail) = (t, w @ CHR ''}'' # rest) \<and>
      literal t = c # [] \<and> ttype t \<noteq> RCURLY \<and> ttype t \<noteq> EOS" by simp
    then show ?thesis by blast
  qed
qed

lemma query_parameter_loop_type:
  assumes "list_all type_char w" "length w < n"
  shows "query_parameter_loop n r (lx_at (w @ CHR ''}'' # rest) [] True) =
    px_return (r @ w) (lx_at rest [Token RCURLY ''}''] True)"
  using assms
proof (induction n arbitrary: r w)
  case (Suc n)
  show ?case
  proof (cases w)
    case Nil
    then show ?thesis by (simp add: Peek_scan scan_delims)
  next
    case (Cons c v)
    with Suc.prems obtain t w1 w2 where t: "v = w1 @ w2" "literal t = c # w1" "ttype t \<noteq> RCURLY" "ttype t \<noteq> EOS"
      and sc: "scan_token True (w @ CHR ''}'' # rest) = (t, w2 @ CHR ''}'' # rest)"
      using scan_type [of c v rest] by auto
    have "query_parameter_loop n (r @ literal t) (lx_at (w2 @ CHR ''}'' # rest) [] True)
        = px_return ((r @ literal t) @ w2) (lx_at rest [Token RCURLY ''}''] True)"
      by (rule Suc.IH) (use Suc.prems Cons t in auto)
    moreover have "(r @ literal t) @ w2 = r @ w" using t Cons by simp
    ultimately show ?thesis using t(3,4) by (simp add: Peek_scan [OF sc])
  qed
qed simp

text \<open>A parameter name: a word that is no keyword.\<close>

definition param_name :: "string \<Rightarrow> bool" where
  "param_name nm \<longleftrightarrow> nm \<noteq> [] \<and> (isalpha (hd nm) \<or> hd nm = CHR ''_'') \<and> list_all ident_char (tl nm) \<and>
     LookupIdent (to_upper nm) = IDENT"

lemma scan_colon: "scan_token e (CHR '':'' # cs) = (Token COLON '':'', cs)"
  by (simp add: scan_token.simps skipped_def delimiter_def)

lemma processEscapeSequences_parameter:
  assumes "param_name nm" "list_all type_char ty"
  shows "processEscapeSequences (length ty + 5 + n) (''{'' @ nm @ '':'' @ ty @ ''}'') = Some (Some (''{'' @ nm @ '':'' @ ty @ ''}''))"
proof -
  let ?seq = "''{'' @ nm @ '':'' @ ty @ ''}''"
  let ?k = "Suc (Suc (length ty + n))"
  obtain c w where nm: "nm = c # w" using assms(1) by (cases nm) (auto simp: param_name_def)
  have "scan_token False (nm @ CHR '':'' # ty @ ''}'') = (Token IDENT nm, CHR '':'' # ty @ ''}'')"
    using assms(1) scan_word [of c w "CHR '':''" False "ty @ ''}''"]
    by (simp add: nm param_name_def) (simp add: cctype)
  then have name: "Consume (skip_spaces (lx_at (nm @ CHR '':'' # ty @ ''}'') [] False)) = (Token IDENT nm, lx_at (CHR '':'' # ty @ ''}'') [] False)"
    by (simp add: skip_spaces_scan)
  have "query_parameter_loop (Suc ?k) (''{'' @ nm) (lx_at (ty @ ''}'') [Token COLON '':''] True)
     = query_parameter_loop ?k (''{'' @ nm @ '':'') (lx_at (ty @ ''}'') [] True)" by simp
  also have "\<dots> = px_return (''{'' @ nm @ '':'' @ ty) (lx_at [] [Token RCURLY ''}''] True)"
    using query_parameter_loop_type [OF assms(2), of ?k "''{'' @ nm @ '':''" "[]"] by simp
  finally have param: "processClickHouseQueryParameter (Suc ?k) (Token IDENT nm) (lx_at (ty @ ''}'') [Token COLON '':''] False)
     = px_return ?seq (lx_at [] [Token RCURLY ''}''] False)"
    by (simp add: processClickHouseQueryParameter_def GetEmitSpaces_def px_bind_def px_return_def)
  have "processEscapeSequencesImpl (Suc (Suc (Suc ?k))) ?seq (lx_at ?seq [] False)
     = escape_loop (Suc (Suc ?k)) ?seq [] (lx_at (nm @ CHR '':'' # ty @ ''}'') [] False)"
    by (simp add: Match_scan scan_delims del: escape_loop.simps)
  also have "\<dots> = escape_loop (Suc ?k) ?seq ?seq (lx_at [] [Token RCURLY ''}''] False)"
    unfolding escape_loop.simps(2) [of "Suc ?k"] name
    by (simp add: Peek_scan [OF scan_colon] param px_bind_def px_return_def del: escape_loop.simps)
  also have "\<dots> = px_return ?seq (lx_at [] [] False)"
    by (simp add: skip_spaces.simps [of "lx_at [] [Token RCURLY ''}''] False"] Match_Peek)
  finally show ?thesis
    by (simp add: processEscapeSequences_def Lexer_at px_return_def numeral_eq_Suc del: processEscapeSequencesImpl.simps)
qed

section \<open>Cutting a query into braced pieces\<close>

datatype segment = Plain string | Braced string

fun seg_text :: "segment \<Rightarrow> string" where
  "seg_text (Plain s) = s" | "seg_text (Braced s) = s"

fun cut_braces :: "string \<Rightarrow> nat \<Rightarrow> string \<Rightarrow> segment list option" where
  "cut_braces pending level [] = Some [Plain pending]"
| "cut_braces pending level (c # cs) =
     (if c = CHR ''{'' then
        (if level = 0 then map_option ((#) (Plain pending)) (cut_braces [c] (Suc level) cs)
         else cut_braces (pending @ [c]) (Suc level) cs)
      else if c = CHR ''}'' then
        (case level of
           0 \<Rightarrow> None
         | Suc 0 \<Rightarrow> map_option ((#) (Braced (pending @ [c]))) (cut_braces [] 0 cs)
         | Suc (Suc l) \<Rightarrow> cut_braces (pending @ [c]) (Suc l) cs)
      else cut_braces (pending @ [c]) level cs)"

lemma cut_text: "cut_braces pending level cs = Some segs \<Longrightarrow> concat (map seg_text segs) = pending @ cs"
  by (induction pending level cs arbitrary: segs rule: cut_braces.induct)
    (auto split: if_splits nat.splits)

fun translate_segs :: "(string \<Rightarrow> string option) \<Rightarrow> segment list \<Rightarrow> string option" where
  "translate_segs tr [] = Some []"
| "translate_segs tr (Plain s # segs) = map_option ((@) s) (translate_segs tr segs)"
| "translate_segs tr (Braced s # segs) =
     (case tr s of None \<Rightarrow> None | Some p \<Rightarrow> map_option ((@) p) (translate_segs tr segs))"

lemma map_append_append: "map_option ((@) (a @ b)) m = map_option ((@) a) (map_option ((@) b) m)"
  by (cases m) auto

lemma replace_loop_cut:
  assumes tr: "\<And>s. length s \<le> N \<Longrightarrow> set s \<subseteq> S \<Longrightarrow> processEscapeSequences n s = Some (tr s)"
    and "length pending + length cs \<le> N" "set pending \<union> set cs \<subseteq> S"
  shows "replace_loop n ret pending level cs =
    Some (case cut_braces pending level cs of None \<Rightarrow> None
          | Some segs \<Rightarrow> map_option ((@) ret) (translate_segs tr segs))"
  using assms(2,3)
proof (induction cs arbitrary: ret pending level)
  case (Cons c cs)
  have fits: "length p + length cs \<le> N" "set p \<union> set cs \<subseteq> S" if "p \<in> {[], [c], pending @ [c]}" for p
    using Cons.prems that by auto
  note ih = Cons.IH [OF fits]
  consider (op) "c = CHR ''{''" | (cl) "c = CHR ''}''" | (ot) "c \<noteq> CHR ''{''" "c \<noteq> CHR ''}''" by blast
  then show ?case
  proof cases
    case op
    then show ?thesis
      using ih [of "[c]" "ret @ pending" 1] ih [of "pending @ [c]" ret "Suc level"]
      by (cases "cut_braces [c] (Suc 0) cs") (simp_all add: map_append_append)
  next
    case cl
    have tr: "processEscapeSequences n (pending @ [c]) = Some (tr (pending @ [c]))"
      by (rule tr) (use Cons.prems in auto)
    show ?thesis
    proof (cases level)
      case (Suc l)
      then show ?thesis
        using ih [of "[]" _ 0] ih [of "pending @ [c]" ret l] cl tr
        by (cases l; cases "tr (pending @ [c])"; cases "cut_braces [] 0 cs") (simp_all add: map_append_append)
    qed (simp add: cl)
  next
    case ot
    then show ?thesis using ih [of "pending @ [c]" ret level] by simp
  qed
qed simp

lemma cut_braces_plain:
  "CHR ''{'' \<notin> set p \<Longrightarrow> CHR ''}'' \<notin> set p \<Longrightarrow> cut_braces pending 0 (p @ cs) = cut_braces (pending @ p) 0 cs"
  by (induction p arbitrary: pending) auto

lemma cut_braces_body:
  "CHR ''{'' \<notin> set b \<Longrightarrow> CHR ''}'' \<notin> set b \<Longrightarrow> cut_braces pending (Suc l) (b @ cs) = cut_braces (pending @ b) (Suc l) cs"
  by (induction b arbitrary: pending) auto

lemma cut_braces_piece:
  assumes "CHR ''{'' \<notin> set b" "CHR ''}'' \<notin> set b"
  shows "cut_braces pending 0 (''{'' @ b @ ''}'' @ cs) =
    map_option (\<lambda>segs. Plain pending # Braced (''{'' @ b @ ''}'') # segs) (cut_braces [] 0 cs)"
  using cut_braces_body [OF assms, of "''{''" 0 "CHR ''}'' # cs"] by (simp add: option.map_comp comp_def)



section \<open>A query of plain text and braced pieces\<close>

lemma replace_loop_plain:
  "CHR ''{'' \<notin> set p \<Longrightarrow> CHR ''}'' \<notin> set p \<Longrightarrow>
     replace_loop n ret pending level (p @ cs) = replace_loop n ret (pending @ p) level cs"
  by (induction p arbitrary: pending) auto

lemma replace_loop_piece:
  assumes "CHR ''{'' \<notin> set b" "CHR ''}'' \<notin> set b"
    and "processEscapeSequences n (''{'' @ b @ ''}'') = Some (Some out)"
  shows "replace_loop n ret pending 0 (''{'' @ b @ ''}'' @ cs) = replace_loop n (ret @ pending @ out) [] 0 cs"
  using replace_loop_plain [OF assms(1,2), of n "ret @ pending" "''{''" 1 "CHR ''}'' # cs"] assms(3) by simp

lemma temporal_escape_plain:
  assumes "temporal_escape kind w = Some out"
  shows "CHR ''{'' \<notin> set kind" "CHR ''}'' \<notin> set kind"
  using assms by (auto simp: temporal_escape_def split: if_splits)

text \<open>The text of a statement with parameter markers: plain text, name and type in turn.\<close>

fun marked_text :: "(string \<times> string \<times> string) list \<Rightarrow> string \<Rightarrow> string" where
  "marked_text [] post = post"
| "marked_text ((pre, nm, ty) # ms) post = pre @ ''{'' @ nm @ '':'' @ ty @ ''}'' @ marked_text ms post"

definition brace_free :: "string \<Rightarrow> bool" where
  "brace_free s \<longleftrightarrow> CHR ''{'' \<notin> set s \<and> CHR ''}'' \<notin> set s"

fun marker_ok :: "nat \<Rightarrow> string \<times> string \<times> string \<Rightarrow> bool" where
  "marker_ok n (pre, nm, ty) \<longleftrightarrow>
     brace_free pre \<and> param_name nm \<and> list_all type_char ty \<and> length ty + 5 \<le> n"

lemma brace_free_type: "list_all type_char ty \<Longrightarrow> brace_free ty"
proof -
  have "\<not> type_char (CHR ''{'')" "\<not> type_char (CHR ''}'')" by code_simp+
  then show "list_all type_char ty \<Longrightarrow> brace_free ty" by (auto simp: brace_free_def list_all_iff)
qed

lemma brace_free_name: "param_name nm \<Longrightarrow> brace_free nm"
proof -
  have "\<not> ident_char (CHR ''{'')" "\<not> ident_char (CHR ''}'')"
    "\<not> isalpha (CHR ''{'')" "\<not> isalpha (CHR ''}'')" by code_simp+
  then show "param_name nm \<Longrightarrow> brace_free nm"
    by (cases nm) (auto simp: brace_free_def param_name_def list_all_iff)
qed

lemma replace_loop_marked:
  assumes "list_all (marker_ok n) ms" "brace_free post" "brace_free pending"
  shows "replace_loop n ret pending 0 (marked_text ms post) = Some (Some (ret @ pending @ marked_text ms post))"
  using assms
proof (induction ms arbitrary: ret pending)
  case Nil
  then show ?case
    using replace_loop_plain [of post n ret pending 0 "[]"] by (simp add: brace_free_def)
next
  case (Cons m ms)
  obtain pre nm ty where m: "m = (pre, nm, ty)" by (cases m)
  have ok: "brace_free pre" "param_name nm" "list_all type_char ty" "length ty + 5 \<le> n"
    using Cons.prems(1) by (simp_all add: m)
  have "processEscapeSequences n (''{'' @ nm @ '':'' @ ty @ ''}'') = Some (Some (''{'' @ nm @ '':'' @ ty @ ''}''))"
    using processEscapeSequences_parameter [OF ok(2,3), of "n - (length ty + 5)"] ok(4) by simp
  then have "replace_loop n ret (pending @ pre) 0 (''{'' @ (nm @ '':'' @ ty) @ ''}'' @ marked_text ms post) =
    replace_loop n (ret @ (pending @ pre) @ ''{'' @ nm @ '':'' @ ty @ ''}'') [] 0 (marked_text ms post)"
    using brace_free_type [OF ok(3)] brace_free_name [OF ok(2)]
    by (intro replace_loop_piece) (auto simp: brace_free_def)
  moreover have "replace_loop n (ret @ (pending @ pre) @ ''{'' @ nm @ '':'' @ ty @ ''}'') [] 0 (marked_text ms post)
      = Some (Some ((ret @ (pending @ pre) @ ''{'' @ nm @ '':'' @ ty @ ''}'') @ [] @ marked_text ms post))"
    by (rule Cons.IH) (use Cons.prems in \<open>auto simp: brace_free_def\<close>)
  ultimately show ?case
    using ok(1)
      replace_loop_plain [of pre n ret pending 0 "''{'' @ (nm @ '':'' @ ty) @ ''}'' @ marked_text ms post"]
    by (simp add: m brace_free_def)
qed

section \<open>The vertical tab\<close>




section \<open>Properties\<close>

definition escape_result :: "string \<Rightarrow> string option" where
  "escape_result s = (case processEscapeSequences (3 * length s + 2) s of Some r \<Rightarrow> r | None \<Rightarrow> None)"

definition escapes_spec :: "string \<Rightarrow> string" where
  "escapes_spec q =
     (case cut_braces [] 0 q of None \<Rightarrow> q
      | Some segs \<Rightarrow> (case translate_segs escape_result segs of None \<Rightarrow> q | Some r \<Rightarrow> r))"

lemma escape_result_eq:
  assumes "ch_vt \<notin> set s" "3 * length s + 2 \<le> n"
  shows "processEscapeSequences n s = Some (escape_result s)"
  using processEscapeSequences_returns [OF assms(1) order_refl]
    processEscapeSequences_mono [of "3 * length s + 2" s _ n] assms(2)
  by (auto simp: escape_result_def)

text \<open>C2: The escape translation returns for every query without a vertical tab: fuel
  \<open>3 * length query + 2\<close> is enough, and more fuel gives the same result.\<close>

theorem replace_returns:
  assumes "ch_vt \<notin> set query" "3 * length query + 2 \<le> n"
  shows "\<exists>r. replaceEscapeSequences n query = Some r \<and> (\<forall>m\<ge>n. replaceEscapeSequences m query = Some r)"
proof -
  have "replace_loop n [] [] 0 query \<noteq> None"
    using replace_loop_returns [of "[]" query n "[]" 0] assms by simp
  then have "replaceEscapeSequences n query \<noteq> None"
    by (auto simp: replaceEscapeSequences_def split: option.splits)
  then obtain r where "replaceEscapeSequences n query = Some r" by blast
  then show ?thesis using replaceEscapeSequences_mono by blast
qed

theorem replace_returns_witness:
  "\<exists>r. replaceEscapeSequences 80 ''SELECT {fn NOW()}'' = Some r \<and>
     (\<forall>m\<ge>80. replaceEscapeSequences m ''SELECT {fn NOW()}'' = Some r)"
  by (rule replace_returns) simp_all

text \<open>C1: Refinement: the single scan that copies and translates at once computes the
  specification that first cuts the query at its outer braces and then translates each
  braced piece on its own; one untranslatable piece, or an unmatched closing brace, leaves
  the whole query as it was.\<close>

theorem replace_refines_spec:
  assumes "ch_vt \<notin> set query" "3 * length query + 2 \<le> n"
  shows "replaceEscapeSequences n query = Some (escapes_spec query)"
proof -
  have "processEscapeSequences n s = Some (escape_result s)"
    if "length s \<le> length query" "set s \<subseteq> set query" for s
    using that assms by (intro escape_result_eq) auto
  then have "replace_loop n [] [] 0 query = Some (case cut_braces [] 0 query of None \<Rightarrow> None
      | Some segs \<Rightarrow> map_option ((@) []) (translate_segs escape_result segs))"
    by (rule replace_loop_cut) auto
  then show ?thesis
    by (auto simp: replaceEscapeSequences_def escapes_spec_def split: option.splits)
qed

theorem replace_refines_spec_witness:
  "replaceEscapeSequences 80 ''{fn UCASE(a)} x {y'' = Some (escapes_spec ''{fn UCASE(a)} x {y'')"
  by (rule replace_refines_spec) simp_all

text \<open>A text with literals: plain text, kind and value in turn; and the text with their casts.\<close>

fun literals_text :: "(string \<times> string \<times> string) list \<Rightarrow> string \<Rightarrow> string" where
  "literals_text [] post = post"
| "literals_text ((pre, kind, w) # ls) post = pre @ ''{'' @ kind @ '' '' @ sq w @ ''}'' @ literals_text ls post"

fun casts_text :: "(string \<times> string \<times> string) list \<Rightarrow> string \<Rightarrow> string" where
  "casts_text [] post = post"
| "casts_text ((pre, kind, w) # ls) post =
     pre @ (case temporal_escape kind w of None \<Rightarrow> '''' | Some out \<Rightarrow> out) @ casts_text ls post"

fun literal_ok :: "string \<times> string \<times> string \<Rightarrow> bool" where
  "literal_ok (pre, kind, w) \<longleftrightarrow> temporal_escape kind w \<noteq> None \<and> brace_free pre \<and> brace_free w \<and> ch_quote \<notin> set w \<and> ch_bslash \<notin> set w"

lemma replace_loop_literals:
  assumes "list_all literal_ok ls" "brace_free post" "brace_free pending"
  shows "replace_loop (n + 3) ret pending 0 (literals_text ls post) = Some (Some (ret @ pending @ casts_text ls post))"
  using assms
proof (induction ls arbitrary: ret pending)
  case Nil
  then show ?case
    using replace_loop_plain [of post "n + 3" ret pending 0 "[]"] by (simp add: brace_free_def)
next
  case (Cons l ls)
  obtain pre kind w where l: "l = (pre, kind, w)" by (cases l)
  obtain out where out: "temporal_escape kind w = Some out" using Cons.prems(1) by (auto simp: l)
  have ok: "brace_free pre" "brace_free w" "ch_quote \<notin> set w" "ch_bslash \<notin> set w" using Cons.prems(1) by (simp_all add: l)
  have "processEscapeSequences (n + 3) (''{'' @ (kind @ '' '' @ sq w) @ ''}'') = Some (Some out)"
    using processTemporal_literal [OF ok(3,4) out, of n] by (simp add: numeral_3_eq_3)
  moreover have "brace_free (kind @ '' '' @ sq w)"
    using ok(2) temporal_escape_plain [OF out] by (simp add: brace_free_def sq_def)
  ultimately have "replace_loop (n + 3) ret (pending @ pre) 0 (''{'' @ (kind @ '' '' @ sq w) @ ''}'' @ literals_text ls post) =
      replace_loop (n + 3) (ret @ (pending @ pre) @ out) [] 0 (literals_text ls post)"
    by (intro replace_loop_piece) (simp_all add: brace_free_def)
  moreover have "replace_loop (n + 3) (ret @ (pending @ pre) @ out) [] 0 (literals_text ls post)
      = Some (Some ((ret @ (pending @ pre) @ out) @ [] @ casts_text ls post))"
    by (rule Cons.IH) (use Cons.prems in \<open>auto simp: brace_free_def\<close>)
  ultimately show ?case
    using ok(1) out
      replace_loop_plain [of pre "n + 3" ret pending 0 "''{'' @ (kind @ '' '' @ sq w) @ ''}'' @ literals_text ls post"]
    by (simp add: l brace_free_def)
qed

text \<open>C6: Date, time and timestamp literals become their ClickHouse casts, however many there are, and the text
  around them is kept, as long as that text has no braces of its own and the values are plain (no brace,
  apostrophe or backslash).\<close>

theorem temporal_literals_translated:
  assumes "list_all literal_ok ls" "brace_free post"
  shows "replaceEscapeSequences (n + 3) (literals_text ls post) = Some (casts_text ls post)"
  using replace_loop_literals [OF assms, of "[]" n "[]"] by (simp add: replaceEscapeSequences_def brace_free_def)

theorem temporal_literals_translated_witness:
  "replaceEscapeSequences (2 + 3) (literals_text [(''SELECT '', ''ts'', ''2017-01-01 10:01:01''), ('', '', ''d'', ''2017-01-02'')] '' x'')
     = Some (''SELECT toDateTime64('' @ sq ''2017-01-01 10:01:01'' @ '', 9), toDate32('' @ sq ''2017-01-02'' @ '') x'')"
  using temporal_literals_translated [of "[(''SELECT '', ''ts'', ''2017-01-01 10:01:01''), ('', '', ''d'', ''2017-01-02'')]" "'' x''" 2]
  by (simp add: temporal_escape_def brace_free_def)

text \<open>C7: Query parameters \<open>{name:type}\<close>, as the driver writes them into the final
  query, pass through the escape translation unchanged, however many there are: names and types as the
  driver writes them (\<open>marker_ok\<close>), in text without other braces.\<close>

theorem parameters_pass_through:
  assumes "list_all (marker_ok n) ms" "brace_free post"
  shows "replaceEscapeSequences n (marked_text ms post) = Some (marked_text ms post)"
  using replace_loop_marked [OF assms, of "[]" "[]"] by (simp add: replaceEscapeSequences_def brace_free_def)

theorem parameters_pass_through_witness:
  "replaceEscapeSequences 40 (marked_text [(''SELECT '', ''odbc_positional_1'', ''Nullable(Decimal(10, 2))'')] '' + 1'')
     = Some (marked_text [(''SELECT '', ''odbc_positional_1'', ''Nullable(Decimal(10, 2))'')] '' + 1'')"
proof -
  have "list_all (marker_ok 40) [(''SELECT '', ''odbc_positional_1'', ''Nullable(Decimal(10, 2))'')]"
    by code_simp
  then show ?thesis by (rule parameters_pass_through) (simp add: brace_free_def)
qed


text \<open>The short interval names that are also functions never denote an interval:
  \<open>KEYWORDS\<close> holds the function first, so \<open>TIMESTAMPADD(SECOND, ...)\<close> is left
  untranslated, while the prefixed name is translated.\<close>

theorem short_interval_names_shadowed:
  "list_all (\<lambda>u. LookupIdent u = FN_of u \<and> timeadd_func_map (LookupIdent u) = None \<and>
      timeadd_func_map (LookupIdent (''SQL_TSI_'' @ u)) \<noteq> None)
    [''SECOND'', ''MINUTE'', ''HOUR'', ''WEEK'', ''MONTH'', ''QUARTER'', ''YEAR''] \<and>
   replaceEscapeSequences 120 ''{fn TIMESTAMPADD(HOUR, 1, x)}'' = Some ''{fn TIMESTAMPADD(HOUR, 1, x)}'' \<and>
   replaceEscapeSequences 120 ''{fn TIMESTAMPADD(SQL_TSI_HOUR,1,x)}'' = Some ''addHours(x, 1)''"
  by (intro conjI; code_simp)

text \<open>\<open>NextToken\<close> loses nothing but skipped white space: what it skipped, the token's
  literal and what is left make up the text, and with spaces emitted nothing is skipped.\<close>

theorem NextToken_lossless:
  assumes "NextToken lx = (t, lx')"
  shows "\<exists>ws. list_all skipped ws \<and> (emit_space lx \<longrightarrow> ws = []) \<and>
    unread lx = ws @ literal t @ unread lx'"
  using assms by (auto simp: NextToken_def dest: scan_token_split split: prod.splits)

theorem NextToken_lossless_witness:
  "\<exists>ws. list_all skipped ws \<and> (emit_space (Lexer '' a.b(1)'') \<longrightarrow> ws = []) \<and>
     unread (Lexer '' a.b(1)'') = ws @ literal (Token IDENT ''a.b'') @ unread (Lexer ''(1)'')"
  by (rule NextToken_lossless) code_simp

end
