(* ===== verification/Query_Request.thy ===== *)
theory Query_Request
  imports Query_Spec Escape_Spec
begin

text \<open>
  The request of one parameter set: \<open>Statement::prepareHttpRequest\<close> with
  \<open>escapeParameterString\<close> (driver/statement.cpp), and the quoting of string values
  inside queries (driver/utils/sql_encoding.h). Reading a value from the buffer of the application
  (\<open>readReadyDataTo\<close>, a conversion for each C type) is the argument \<open>read\<close>; the fuel
  \<open>n\<close> is that of the escape translation.
\<close>

section \<open>Values in the request\<close>

fun escapeParameterString :: "string \<Rightarrow> string" where
  "escapeParameterString [] = []"
| "escapeParameterString (c # cs) =
     (if c = ch_bslash \<or> c = ch_nl \<or> c = ch_tab then ch_bslash # c # escapeParameterString cs
      else c # escapeParameterString cs)"

definition null_value :: string where
  "null_value = [ch_bslash, CHR ''N'']"

definition param_value :: "(ParamBindingInfo \<Rightarrow> string result) \<Rightarrow> (int \<Rightarrow> int) \<Rightarrow> ParamBindingInfo list \<Rightarrow> nat
    \<Rightarrow> string result" where
  "param_value read mem param_bindings i =
     (if length param_bindings \<le> i then Inr null_value
      else
        (let binding_info = param_bindings ! i in
         if \<not> isInputParam (bi_io_type binding_info) \<or> isStreamParam (bi_io_type binding_info)
         then Inl (Runtime_Error ''Unable to extract data from bound param buffer: param IO type is not supported'')
         else if isNullParamValue mem binding_info then Inr null_value
         else bind_result (read binding_info) (\<lambda>value. Inr (escapeParameterString value))))"

text \<open>The loop over the parameters; \<open>std::map::emplace\<close> keeps the entry that is there.\<close>

definition emplace :: "string \<Rightarrow> string \<Rightarrow> (string \<rightharpoonup> string) \<Rightarrow> (string \<rightharpoonup> string)" where
  "emplace k v m = (if k \<in> dom m then m else m(k \<mapsto> v))"

definition param_key :: "string \<Rightarrow> string" where
  "param_key nm = ''param_'' @ nm"

fun request_params :: "(nat \<Rightarrow> string result) \<Rightarrow> (nat \<Rightarrow> string result) \<Rightarrow> nat \<Rightarrow> ParamInfo list
    \<Rightarrow> (string \<rightharpoonup> string) \<Rightarrow> (string \<rightharpoonup> string) result" where
  "request_params values names i [] params = Inr params"
| "request_params values names i (p # ps) params =
     bind_result (values i) (\<lambda>value.
     bind_result (names i) (\<lambda>nm.
     request_params values names (i + 1) ps (emplace (param_key nm) value params)))"

definition prepareHttpRequest :: "nat \<Rightarrow> (ParamBindingInfo \<Rightarrow> string result) \<Rightarrow> (int \<Rightarrow> int) \<Rightarrow> bool \<Rightarrow> prepared
    \<Rightarrow> nat \<Rightarrow> (string \<times> (string \<rightharpoonup> string)) result option" where
  "prepareHttpRequest n read mem noscan st next_param_set_idx =
     (case getParamsBindingInfo mem (descs st) next_param_set_idx of
        Inl e \<Rightarrow> Some (Inl e)
      | Inr param_bindings \<Rightarrow>
          (case request_params (param_value read mem param_bindings) (getParamFinalName st) 0 (parameters st) Map.empty of
             Inl e \<Rightarrow> Some (Inl e)
           | Inr params \<Rightarrow>
               (case buildFinalQuery mem st param_bindings of
                  Inl e \<Rightarrow> Some (Inl e)
                | Inr q \<Rightarrow>
                    if noscan then Some (Inr (q, params))
                    else map_option (\<lambda>q'. Inr (q', params)) (replaceEscapeSequences n q))))"

section \<open>Values survive the escaping\<close>

fun unescape :: "string \<Rightarrow> string" where
  "unescape [] = []"
| "unescape [c] = [c]"
| "unescape (c # d # cs) = (if c = ch_bslash then d # unescape cs else c # unescape (d # cs))"

lemma unescape_escape: "unescape (escapeParameterString s) = s"
proof (induction s)
  case (Cons c cs)
  then show ?case by (cases "escapeParameterString cs") auto
qed simp

lemma escape_not_null: "escapeParameterString s \<noteq> null_value"
  by (cases s) (auto simp: null_value_def)

text \<open>A value is recovered from its escaped form by dropping the backslash before each escaped
  character, so different values are sent differently; and no value is sent as the text
  that stands for NULL, not even the two characters backslash and N.\<close>

theorem escapeParameterString_roundtrip:
  "unescape (escapeParameterString s) = s \<and> escapeParameterString s \<noteq> null_value"
  by (simp add: unescape_escape escape_not_null)

text \<open>A bound input parameter is sent as NULL exactly when its indicator says so or it has no
  buffer.\<close>

theorem param_value_null_iff:
  assumes "i < length bs" "isInputParam (bi_io_type (bs ! i))" "\<not> isStreamParam (bi_io_type (bs ! i))"
    and "\<exists>v. read (bs ! i) = Inr v"
  shows "param_value read mem bs i = Inr null_value \<longleftrightarrow>
    bi_value (bs ! i) = 0 \<or> (bi_indicator (bs ! i) \<noteq> 0 \<and> mem (bi_indicator (bs ! i)) = SQL_NULL_DATA)"
  using assms escape_not_null by (auto simp: param_value_def Let_def isNullParamValue_def)

definition bound_int :: ParamBindingInfo where
  "bound_int = \<lparr>bi_io_type = SQL_PARAM_INPUT, bi_c_type = SQL_C_LONG, bi_sql_type = SQL_INTEGER,
     bi_value = 4096, bi_value_max_size = 4, bi_value_size = 0, bi_indicator = 8192,
     bi_precision = 0, bi_scale = 0, bi_is_nullable = True\<rparr>"

theorem param_value_null_iff_witness:
  "param_value (\<lambda>b. Inr ''7'') (\<lambda>a. SQL_NULL_DATA) [bound_int] 0 = Inr null_value \<longleftrightarrow>
    bi_value ([bound_int] ! 0) = 0 \<or> (bi_indicator ([bound_int] ! 0) \<noteq> 0 \<and> SQL_NULL_DATA = SQL_NULL_DATA)"
  by (rule param_value_null_iff) (simp_all add: bound_int_def isInputParam_def isStreamParam_def)

section \<open>Which value a name gets\<close>

lemma param_key_eq [simp]: "param_key a = param_key b \<longleftrightarrow> a = b"
  by (simp add: param_key_def)

lemma emplace_keeps: "params k = Some v \<Longrightarrow> emplace k' w params k = Some v"
  by (auto simp: emplace_def)

lemma dom_emplace [simp]: "dom (emplace k v params) = insert k (dom params)"
  by (auto simp: emplace_def)

lemma request_params_keeps:
  "request_params values names i ps params = Inr params' \<Longrightarrow> params k = Some v \<Longrightarrow> params' k = Some v"
  by (induction ps arbitrary: i params) (auto intro: emplace_keeps)

lemma request_params_first:
  assumes "request_params values names i ps params = Inr params'" "j < length ps"
    and "names (i + j) = Inr nm" "\<forall>j' < j. names (i + j') \<noteq> Inr nm" "param_key nm \<notin> dom params"
  shows "\<exists>v. values (i + j) = Inr v \<and> params' (param_key nm) = Some v"
  using assms
proof (induction ps arbitrary: i j params)
  case (Cons p ps)
  from Cons.prems(1) obtain v nm0 where here: "values i = Inr v" "names i = Inr nm0"
    and rest: "request_params values names (i + 1) ps (emplace (param_key nm0) v params) = Inr params'" by auto
  show ?case
  proof (cases j)
    case 0
    then show ?thesis
      using here Cons.prems(3,5) request_params_keeps [OF rest] by (auto simp: emplace_def)
  next
    case (Suc k)
    then have "nm0 \<noteq> nm" using here(2) Cons.prems(4) by fastforce
    then have "param_key nm \<notin> dom (emplace (param_key nm0) v params)"
      using Cons.prems(5) by simp
    moreover have "\<forall>j' < k. names (i + 1 + j') \<noteq> Inr nm"
      using Cons.prems(4) Suc by (auto dest: spec [of _ "Suc _"])
    ultimately show ?thesis
      using Cons.IH [OF rest, of k] Cons.prems(2,3) Suc by simp
  qed
qed simp

text \<open>Each name is sent with the value of the first marker that has it; markers that repeat
  the name do not change it, whatever was bound to them.\<close>

theorem request_first_value_wins:
  assumes "prepareHttpRequest n read mem noscan st idx = Some (Inr (q, params))"
    and "getParamsBindingInfo mem (descs st) idx = Inr bs"
    and "j < length (parameters st)" "getParamFinalName st j = Inr nm"
    and "\<forall>j' < j. getParamFinalName st j' \<noteq> Inr nm"
  shows "\<exists>v. param_value read mem bs j = Inr v \<and> params (param_key nm) = Some v"
proof -
  have "request_params (param_value read mem bs) (getParamFinalName st) 0 (parameters st) Map.empty = Inr params"
    using assms(1,2) by (auto simp: prepareHttpRequest_def split: sum.splits if_splits)
  from request_params_first [OF this assms(3)] show ?thesis using assms(4,5) by simp
qed

definition repeated_marker :: prepared where
  "repeated_marker = \<lparr>query = ''@1 - @2'',
     parameters = [\<lparr>info_name = ''@x'', tmp_placeholder = ''@1''\<rparr>, \<lparr>info_name = ''@x'', tmp_placeholder = ''@2''\<rparr>],
     descs = \<lparr>apd_desc = new_Descriptor, ipd_desc = new_Descriptor\<rparr>\<rparr>"

theorem request_first_value_wins_witness:
  "\<exists>v params. prepareHttpRequest 0 (\<lambda>b. Inr []) (\<lambda>a. 0) True repeated_marker 0
        = Some (Inr (''{x:Nullable(Nothing)} - {x:Nullable(Nothing)}'', params)) \<and>
     param_value (\<lambda>b. Inr []) (\<lambda>a. 0) [] 0 = Inr v \<and> params (param_key ''x'') = Some v"
proof -
  define mem :: "int \<Rightarrow> int" where "mem = (\<lambda>a. 0)"
  define read :: "ParamBindingInfo \<Rightarrow> string result" where "read = (\<lambda>b. Inr [])"
  have b: "getParamsBindingInfo mem (descs repeated_marker) 0 = Inr []"
    by (simp add: getParamsBindingInfo_def repeated_marker_def new_Descriptor_def getRecordCount_def getAttrAs_def)
  have nm: "getParamFinalName repeated_marker 0 = Inr ''x''" "getParamFinalName repeated_marker (Suc 0) = Inr ''x''"
    by code_simp+
  have pt: "param_type mem [] i = Inr ''Nullable(Nothing)''" for i by (simp add: param_type_def)
  have ps: "parameters repeated_marker = [\<lparr>info_name = ''@x'', tmp_placeholder = ''@1''\<rparr>, \<lparr>info_name = ''@x'', tmp_placeholder = ''@2''\<rparr>]"
    "query repeated_marker = ''@1 - @2''" by (simp_all add: repeated_marker_def)
  have "buildFinalQuery mem repeated_marker [] = Inr ''{x:Nullable(Nothing)} - {x:Nullable(Nothing)}''"
    by (simp add: buildFinalQuery_def pt ps nm replace_at_def)
  then obtain params where r: "prepareHttpRequest 0 read mem True repeated_marker 0
      = Some (Inr (''{x:Nullable(Nothing)} - {x:Nullable(Nothing)}'', params))"
    using b by (simp add: prepareHttpRequest_def param_value_def ps nm)
  then show ?thesis
    using request_first_value_wins [OF r b, of 0 "''x''"] nm(1) by (auto simp: repeated_marker_def mem_def read_def)
qed

section \<open>Quoting values inside a query\<close>

fun escapeForSQL :: "string \<Rightarrow> string" where
  "escapeForSQL [] = []"
| "escapeForSQL (ch # cs) =
     (if ch = ch_bslash \<or> ch = ch_quote then ch_bslash # ch # escapeForSQL cs else ch # escapeForSQL cs)"

definition toSqlQueryValue :: "string \<Rightarrow> string" where
  "toSqlQueryValue x = ch_quote # escapeForSQL x @ [ch_quote]"

definition toSqlQueryValue_int :: "int \<Rightarrow> string" where
  "toSqlQueryValue_int x = show_int x"

definition toSqlQueryValue_opt :: "('a \<Rightarrow> string) \<Rightarrow> 'a option \<Rightarrow> string" where
  "toSqlQueryValue_opt f x = (case x of None \<Rightarrow> ''NULL'' | Some v \<Rightarrow> f v)"

lemma string_body_escaped:
  "string_body False (escapeForSQL x @ ch_quote # rest) = (True, escapeForSQL x @ [ch_quote], rest)"
  by (induction x) auto

lemma unescape_escapeForSQL: "unescape (escapeForSQL x) = x"
proof (induction x)
  case (Cons c cs)
  then show ?case by (cases "escapeForSQL cs") auto
qed simp

text \<open>C14: A quoted value is one string token of the driver's lexer, whatever the value and whatever
  follows it, and its body unescapes to the value: no value can end its literal early.\<close>

theorem toSqlQueryValue_one_token:
  "scan_token emit (toSqlQueryValue x @ rest) = (Token STRING (toSqlQueryValue x), rest) \<and>
   (\<exists>body. toSqlQueryValue x = ch_quote # body @ [ch_quote] \<and> unescape body = x)"
  using string_body_escaped [of x rest]
  by (simp add: toSqlQueryValue_def unescape_escapeForSQL scan_token.simps skipped_def delimiter_def isspace_def)

section \<open>The escape translation leaves the parameters alone\<close>

lemma weave_marked:
  "length ts = length ps \<Longrightarrow> weave ts (map (\<lambda>(nm, ty). typed_param nm ty) ps) post = marked_text (zip ts ps) post"
  by (induction ts ps rule: list_induct2) (auto simp: typed_param_def)

lemma brace_free_append [simp]: "brace_free (a @ b) \<longleftrightarrow> brace_free a \<and> brace_free b"
  by (auto simp: brace_free_def)

lemma brace_free_weave:
  "length ts = length ms \<Longrightarrow> brace_free (weave ts ms post) \<longleftrightarrow>
     list_all brace_free ts \<and> list_all brace_free ms \<and> brace_free post"
  by (induction ts ms rule: list_induct2) auto

lemma weave_marked_upt:
  "length ts = k \<Longrightarrow> weave ts (map (\<lambda>k. typed_param (nm k) (ty k)) [0..<k]) post
     = marked_text (zip ts (map (\<lambda>k. (nm k, ty k)) [0..<k])) post"
  using weave_marked [of ts "map (\<lambda>k. (nm k, ty k)) [0..<k]" post] by (simp add: comp_def)

lemma show_int_type_char: "0 \<le> i \<Longrightarrow> list_all type_char (show_int i)"
  using show_nat_digits [of "nat i"] by (simp add: show_int_def list_all_iff type_char_def)

lemma param_type_letters:
  assumes "param_type mem bs i = Inr ty" "i < length bs \<Longrightarrow> 0 \<le> bi_precision (bs ! i) \<and> 0 \<le> bi_scale (bs ! i)"
  shows "list_all type_char ty"
proof (cases "i < length bs")
  case True
  let ?ti = "\<lparr>c_type = bi_c_type (bs ! i), sql_type = bi_sql_type (bs ! i),
      value_max_size = bi_value_max_size (bs ! i), precision = bi_precision (bs ! i), scale = bi_scale (bs ! i),
      is_nullable = (bi_is_nullable (bs ! i) \<or> isNullParamValue mem (bs ! i))\<rparr>"
  have letters: "list_all type_char ''Nullable(),0123456789LowCardinality(FixedString DecimalUUIDFloat32Int8DateTime64Nothing''"
    by code_simp
  have nums: "list_all type_char (show_int (precision ?ti))" "list_all type_char (show_int (scale ?ti))"
    using assms(2) [OF True] by (simp_all add: show_int_type_char)
  have "convertSQLOrCTypeToDataSourceType ?ti = Inr ty" using assms(1) True by (simp add: param_type_def Let_def)
  then show ?thesis
    by (rule convert_type_letters) (rule type_name_letters [OF letters nums]; simp add: show_int_type_char)+
next
  case False
  then have "ty = ''Nullable(Nothing)''" using assms(1) by (simp add: param_type_def)
  moreover have "list_all type_char ''Nullable(Nothing)''" by code_simp
  ultimately show ?thesis by simp
qed

lemma param_name_no_at: "param_name nm \<Longrightarrow> CHR ''@'' \<notin> set nm"
proof -
  have "\<not> ident_char (CHR ''@'')" "\<not> isalpha (CHR ''@'')" by code_simp+
  then show "param_name nm \<Longrightarrow> CHR ''@'' \<notin> set nm" by (cases nm) (auto simp: param_name_def list_all_iff)
qed

text \<open>C13: When the text of the application has no braces, the escape translation leaves the final
  query as it is: the typed parameters the driver wrote into it are not taken for escapes,
  whatever their types, as long as their names are identifiers and not keywords of the lexer.\<close>

theorem request_query_untouched:
  assumes "extract_params uuids q = Some (Inr (q', ps))" "plain_uuids uuids"
    and "query st = q'" "parameters st = ps" "brace_free q"
    and "\<forall>k < length ps. param_type mem bs k = Inr (ty k) \<and> getParamFinalName st k = Inr (nm k)
          \<and> param_name (nm k) \<and> length (ty k) + 5 \<le> n"
    and "\<forall>b \<in> set bs. 0 \<le> bi_precision b \<and> 0 \<le> bi_scale b"
  shows "\<exists>fq. buildFinalQuery mem st bs = Inr fq \<and> replaceEscapeSequences n fq = Some fq"
proof -
  have "\<forall>k < length ps. param_type mem bs k = Inr (ty k) \<and> getParamFinalName st k = Inr (nm k) \<and> CHR ''@'' \<notin> set (nm k)"
    using assms(6) param_name_no_at by blast
  from final_query_weave [OF assms(1-4) this] obtain segs post where
    r: "weave (map fst segs) (map snd segs) post = q" "map info_name ps = map (marker_name \<circ> snd) segs"
      "buildFinalQuery mem st bs = Inr (weave (map fst segs) (map (\<lambda>k. typed_param (nm k) (ty k)) [0..<length ps]) post)"
    by blast
  have len: "length (map fst segs) = length ps" using arg_cong [OF r(2), of length] by simp
  have plain: "list_all brace_free (map fst segs)" "brace_free post"
    using assms(5) brace_free_weave [of "map fst segs" "map snd segs" post] r(1) by simp_all
  have "list_all (marker_ok n) (zip (map fst segs) (map (\<lambda>k. (nm k, ty k)) [0..<length ps]))"
    unfolding list_all_length
  proof (intro allI impI)
    fix k assume "k < length (zip (map fst segs) (map (\<lambda>k. (nm k, ty k)) [0..<length ps]))"
    then have k: "k < length segs" "k < length ps" by simp_all
    have "brace_free (fst (segs ! k))" using plain(1) k(1) by (simp add: list_all_length)
    moreover have "list_all type_char (ty k)"
      by (rule param_type_letters [of mem bs k]) (use assms(6,7) k(2) in auto)
    ultimately show "marker_ok n (zip (map fst segs) (map (\<lambda>k. (nm k, ty k)) [0..<length ps]) ! k)"
      using k assms(6) by simp
  qed
  from replace_loop_marked [OF this plain(2), of "[]" "[]"] show ?thesis
    using r(3) weave_marked_upt [OF len, of nm ty post] by (simp add: replaceEscapeSequences_def brace_free_def)
qed

theorem request_query_untouched_witness:
  "\<exists>fq. buildFinalQuery (\<lambda>a. 0) two_markers [] = Inr fq \<and> replaceEscapeSequences 30 fq = Some fq"
proof (rule request_query_untouched [OF two_markers_extracted plain_show_nat refl refl])
  have "param_name ''odbc_positional_1''" "param_name ''x''" by code_simp+
  then show "\<forall>k < length (parameters two_markers). param_type (\<lambda>a. 0) [] k = Inr ''Nullable(Nothing)''
      \<and> getParamFinalName two_markers k = Inr ([''odbc_positional_1'', ''x''] ! k)
      \<and> param_name ([''odbc_positional_1'', ''x''] ! k) \<and> length ''Nullable(Nothing)'' + 5 \<le> 30"
    using two_markers_params [of "\<lambda>a. 0"] by (auto simp: two_markers_def less_Suc_eq)
qed (simp_all add: brace_free_def)

text \<open>A parameter named like the keyword of an escape sequence, such as \<open>@d\<close> or \<open>@ts\<close>,
  breaks the request: its typed form is taken for an escape and refused, and the translation then
  leaves every escape of the query untranslated.\<close>

theorem escape_name_disables_escapes:
  "list_all (\<lambda>nm. replaceEscapeSequences 15 (weave [[]] [typed_param nm ''Int32''] ''-{fn PI()}'')
        = Some (typed_param nm ''Int32'' @ ''-{fn PI()}'')) [''d'', ''t'', ''ts'', ''fn'']
   \<and> replaceEscapeSequences 15 (weave [[]] [typed_param ''x'' ''Int32''] ''-{fn PI()}'')
      = Some (typed_param ''x'' ''Int32'' @ ''-pi()'')"
  unfolding list.pred_inject by (intro conjI; code_simp)

end
