(* ===== verification/Http_Response.thy ===== *)
theory Http_Response
  imports Exceptions "HOL-Library.Sublist"
begin

text \<open>
  The response of one request: \<open>HttpResponse\<close> of driver/http_client.cpp, read byte by byte
  by the result set formats, and the texts it looks for. curl is the environment: each call of
  \<open>pump\<close> consumes one event of the transfer (header lines with the status curl reports for
  them, bytes of the body, its result when the transfer has ended). When no event is left nothing
  arrives any more and the inactivity timeout of \<open>pump\<close> ends the transfer. The decoder of
  compressed bodies is the zstd library's and an argument of the model: a stream of answers, one
  for each call of \<open>ZSTD_decompressStream\<close>.
\<close>

section \<open>Texts\<close>

definition toLower_char :: "char \<Rightarrow> char" where
  "toLower_char c = (if 65 \<le> cval c \<and> cval c \<le> 90 then char_of (cval c - 65 + 97) else c)"

definition toLower :: "string \<Rightarrow> string" where
  "toLower s = map toLower_char s"

definition trimmed :: "char \<Rightarrow> bool" where
  "trimmed c \<longleftrightarrow> c = CHR '' '' \<or> c = ch_tab \<or> c = ch_cr \<or> c = ch_nl"

definition trim :: "string \<Rightarrow> string" where
  "trim s = rev (dropWhile trimmed (rev (dropWhile trimmed s)))"

abbreviation crlf :: string where
  "crlf \<equiv> [ch_cr, ch_nl]"

definition exception_marker :: string where
  "exception_marker = ''__exception__'' @ crlf"

text \<open>What follows the last occurrence of a text (\<open>rfind\<close>) or the first (\<open>find\<close>).\<close>

fun after_last :: "string \<Rightarrow> string \<Rightarrow> string option" where
  "after_last m [] = (if m = [] then Some [] else None)"
| "after_last m (c # cs) =
     (case after_last m cs of
        Some r \<Rightarrow> Some r
      | None \<Rightarrow> if prefix m (c # cs) then Some (drop (length m) (c # cs)) else None)"

fun after_first :: "string \<Rightarrow> string \<Rightarrow> string option" where
  "after_first m [] = (if m = [] then Some [] else None)"
| "after_first m (c # cs) =
     (if prefix m (c # cs) then Some (drop (length m) (c # cs)) else after_first m cs)"

definition size_max :: nat where
  "size_max = 2 ^ 64 - 1"

definition findClickHouseExceptionMessage :: "string \<Rightarrow> string \<Rightarrow> string option" where
  "findClickHouseExceptionMessage exception_tag buffer =
     (if exception_tag \<noteq> [] then
        (let closing_marker = '' '' @ exception_tag @ crlf @ exception_marker in
         if \<not> suffix closing_marker buffer then None
         else
           (let body = take (length buffer - length closing_marker) buffer;
                digits = rev (takeWhile isdigit (rev body));
                before = take (length body - length digits) body in
            if digits = [] then None
            else if size_max < digits_value digits then None
            else if length before < digits_value digits then None
            else Some (drop (length before - digits_value digits) before)))
      else after_last exception_marker buffer)"

definition parseExceptionCode :: "string \<Rightarrow> string" where
  "parseExceptionCode msg =
     (case after_first ''Code: '' msg of None \<Rightarrow> [] | Some r \<Rightarrow> takeWhile isdigit r)"

section \<open>The state of a response\<close>

text \<open>What one call of \<open>curl_multi_perform\<close> delivers.\<close>

record transfer_event =
  header_lines :: "(string \<times> int) list"
  body_bytes :: string
  finished_with :: "(int \<times> string) option"

abbreviation (input) CURLE_OK :: int where "CURLE_OK \<equiv> 0"
abbreviation CURLE_OPERATION_TIMEDOUT :: int where "CURLE_OPERATION_TIMEDOUT \<equiv> 28"

text \<open>
  One call of \<open>ZSTD_decompressStream\<close>: an error with its name, or the number of bytes consumed,
  the output, and whether the result was 0 (the frame is complete). The rest of the stream is the
  decoder after the call.
\<close>

datatype zstd_result = Zstd_Error string | Zstd_Ok nat string bool

codatatype zstd_stream = Zstd_Stream (decompressStream: "string \<Rightarrow> zstd_result \<times> zstd_stream")

definition HOLDBACK_SIZE :: nat where
  "HOLDBACK_SIZE = 32 * 1024"

text \<open>
  \<open>window\<close> is the text between \<open>pos\<close> and \<open>end\<close>, \<open>raw\<close> what was received and is
  not in the window yet. \<open>error_text\<close> is \<open>transportErrorText()\<close>.
\<close>

record http_response =
  status :: int
  headers_complete :: bool
  headers :: "string \<rightharpoonup> string"
  is_done :: bool
  outcome :: int
  error_text :: string
  failure :: "exn option"
  failed_tail :: string
  unsupported_encoding :: string
  window :: string
  raw :: string
  raw_total :: nat
  zstd :: "zstd_stream option"
  decoded_size :: nat
  zstd_frame_complete :: bool
  transfer :: "transfer_event list"

definition new_response :: "transfer_event list \<Rightarrow> http_response" where
  "new_response events = \<lparr>status = 0, headers_complete = False, headers = Map.empty, is_done = False,
     outcome = CURLE_OK, error_text = [], failure = None, failed_tail = [], unsupported_encoding = [],
     window = [], raw = [], raw_total = 0, zstd = None, decoded_size = 0, zstd_frame_complete = False,
     transfer = events\<rparr>"

definition hasHeader :: "string \<Rightarrow> http_response \<Rightarrow> bool" where
  "hasHeader name s \<longleftrightarrow> toLower name \<in> dom (headers s)"

definition getHeader :: "string \<Rightarrow> string \<Rightarrow> http_response \<Rightarrow> string" where
  "getHeader name default_value s = (case headers s (toLower name) of None \<Rightarrow> default_value | Some v \<Rightarrow> v)"

definition onHeader :: "string \<times> int \<Rightarrow> http_response \<Rightarrow> http_response" where
  "onHeader lc s =
     (let (line, code) = lc in
      if prefix ''HTTP/'' line then s\<lparr>headers := Map.empty, headers_complete := False\<rparr>
      else if trim line = [] then
        (if 200 \<le> code then s\<lparr>status := code, headers_complete := True\<rparr> else s)
      else if CHR '':'' \<in> set line \<and> \<not> headers_complete s then
        s\<lparr>headers := (headers s)(toLower (trim (takeWhile ((\<noteq>) CHR '':'') line)) \<mapsto>
            trim (tl (dropWhile ((\<noteq>) CHR '':'') line)))\<rparr>
      else s)"

definition onBody :: "string \<Rightarrow> http_response \<Rightarrow> http_response" where
  "onBody d s = s\<lparr>raw := raw s @ d, raw_total := raw_total s + length d\<rparr>"

text \<open>\<open>pump\<close>: one event, or the timeout when nothing comes any more.\<close>

definition pump :: "http_response \<Rightarrow> http_response" where
  "pump s =
     (case transfer s of
        [] \<Rightarrow> s\<lparr>is_done := True, outcome := CURLE_OPERATION_TIMEDOUT, error_text := ''Timeout''\<rparr>
      | e # es \<Rightarrow>
          (let s1 = onBody (body_bytes e) (fold onHeader (header_lines e) s\<lparr>transfer := es\<rparr>) in
           case finished_with e of
             None \<Rightarrow> s1
           | Some (rc, txt) \<Rightarrow> s1\<lparr>is_done := True, outcome := rc, error_text := txt\<rparr>))"

lemma onHeader_simps [simp]:
  "window (onHeader lc s) = window s" "raw (onHeader lc s) = raw s" "transfer (onHeader lc s) = transfer s"
  "is_done (onHeader lc s) = is_done s" "outcome (onHeader lc s) = outcome s" "failure (onHeader lc s) = failure s"
  "unsupported_encoding (onHeader lc s) = unsupported_encoding s" "failed_tail (onHeader lc s) = failed_tail s"
  "error_text (onHeader lc s) = error_text s" "raw_total (onHeader lc s) = raw_total s" "zstd (onHeader lc s) = zstd s"
  "decoded_size (onHeader lc s) = decoded_size s" "zstd_frame_complete (onHeader lc s) = zstd_frame_complete s"
  by (simp_all add: onHeader_def split: prod.splits)

lemma fold_onHeader_simps [simp]:
  "window (fold onHeader ls s) = window s" "raw (fold onHeader ls s) = raw s" "transfer (fold onHeader ls s) = transfer s"
  "is_done (fold onHeader ls s) = is_done s" "outcome (fold onHeader ls s) = outcome s"
  "failure (fold onHeader ls s) = failure s" "failed_tail (fold onHeader ls s) = failed_tail s"
  "unsupported_encoding (fold onHeader ls s) = unsupported_encoding s" "error_text (fold onHeader ls s) = error_text s"
  "raw_total (fold onHeader ls s) = raw_total s" "zstd (fold onHeader ls s) = zstd s"
  "decoded_size (fold onHeader ls s) = decoded_size s" "zstd_frame_complete (fold onHeader ls s) = zstd_frame_complete s"
  by (induction ls arbitrary: s) simp_all

lemma pump_measure [simp]: "\<not> is_done (pump s) \<Longrightarrow> length (transfer (pump s)) < length (transfer s)"
  by (auto simp: pump_def onBody_def Let_def split: list.splits option.splits)

text \<open>The constructor from the moment the request was handed to curl.\<close>

function await_headers :: "http_response \<Rightarrow> http_response" where
  "await_headers s = (if \<not> headers_complete s \<and> \<not> is_done s then await_headers (pump s) else s)"
  by pat_completeness auto
termination
proof (relation "measure (\<lambda>s. if is_done s then 0 else Suc (length (transfer s)))")
  fix s :: http_response
  assume "\<not> headers_complete s \<and> \<not> is_done s"
  then show "(pump s, s) \<in> measure (\<lambda>s. if is_done s then 0 else Suc (length (transfer s)))"
    using pump_measure [of s] by auto
qed simp

declare await_headers.simps [simp del]

definition HttpResponse :: "zstd_stream \<Rightarrow> nat \<Rightarrow> transfer_event list \<Rightarrow> http_response result" where
  "HttpResponse stream out_size events =
     (let s = await_headers (new_response events) in
      if \<not> headers_complete s then
        Inl (Runtime_Error (if outcome s = CURLE_OK then ''The server closed the connection without sending a response''
                            else error_text s))
      else
        (let encoding = toLower (getHeader ''Content-Encoding'' [] s) in
         Inr (if encoding = ''zstd'' then s\<lparr>zstd := Some stream, decoded_size := out_size\<rparr>
              else if encoding \<noteq> [] \<and> encoding \<noteq> ''identity'' \<and> encoding \<noteq> ''none''
              then s\<lparr>unsupported_encoding := encoding\<rparr> else s)))"

section \<open>Reading the body\<close>

text \<open>
  \<open>decodeRemaining\<close> with a decoder. A decoder that produces output for ever never lets it
  return (\<open>None\<close>).
\<close>

partial_function (option) decode_rest :: "nat \<Rightarrow> zstd_stream \<Rightarrow> string \<Rightarrow> nat \<Rightarrow> string \<Rightarrow> string option" where
  "decode_rest out_size stream inp stalled res =
     (if 100 \<le> stalled then Some res
      else
        (case decompressStream stream inp of
           (Zstd_Error _, _) \<Rightarrow> Some res
         | (Zstd_Ok consumed out _, stream') \<Rightarrow>
             (let inp' = drop consumed inp; res' = res @ out in
              if inp' = [] \<and> length out < out_size then Some res'
              else decode_rest out_size stream' inp' (if out = [] then stalled + 1 else 0) res')))"

declare decode_rest.simps [code]

definition decodeRemaining :: "http_response \<Rightarrow> string option" where
  "decodeRemaining s =
     (case zstd s of None \<Rightarrow> Some (raw s) | Some stream \<Rightarrow> decode_rest (decoded_size s) stream (raw s) 0 [])"

definition finish :: "http_response \<Rightarrow> http_response" where
  "finish s =
     (if outcome s \<noteq> CURLE_OK then
        (case decodeRemaining s of
           None \<Rightarrow> s\<lparr>failure := Some (Undefined_Behaviour ''the decoder never stops'')\<rparr>
         | Some tail \<Rightarrow>
             s\<lparr>failed_tail := tail,
               failure := Some (case findClickHouseExceptionMessage (getHeader ''x-clickhouse-exception-tag'' [] s) tail of
                 Some msg \<Rightarrow> ClickHouseException (''ClickHouse exception: '' @ msg) (parseExceptionCode msg)
               | None \<Rightarrow> Runtime_Error (error_text s))\<rparr>)
      else if zstd s \<noteq> None \<and> 0 < raw_total s \<and> \<not> zstd_frame_complete s then
        s\<lparr>failure := Some (Runtime_Error ''Failed to decompress the data: Incomplete data, frame was truncated or connection closed prematurely'')\<rparr>
      else s)"

text \<open>One round of the loop of \<open>fill\<close>: it returns, or goes on with the state.\<close>

datatype fill_step = Fill_Returns "bool result" http_response | Fill_Again http_response

definition fill_wait :: "http_response \<Rightarrow> fill_step" where
  "fill_wait s =
     (if is_done s then
        (let s' = finish s in Fill_Returns (case failure s' of Some e \<Rightarrow> Inl e | None \<Rightarrow> Inr False) s')
      else Fill_Again (pump s))"

definition allowed :: "http_response \<Rightarrow> nat" where
  "allowed s = (if is_done s then length (raw s) else length (raw s) - HOLDBACK_SIZE)"

text \<open>The library never consumes more than it was given.\<close>

definition fill_decode :: "zstd_stream \<Rightarrow> http_response \<Rightarrow> fill_step" where
  "fill_decode stream s =
     (case decompressStream stream (take (allowed s) (raw s)) of
        (Zstd_Error nm, stream') \<Rightarrow>
          (let e = Runtime_Error (''Failed to decompress the data: '' @ nm) in
           Fill_Returns (Inl e) (s\<lparr>zstd := Some stream', failure := Some e\<rparr>))
      | (Zstd_Ok consumed out frame_end, stream') \<Rightarrow>
          (let n = min consumed (allowed s);
               s1 = s\<lparr>zstd := Some stream', raw := drop n (raw s),
                 zstd_frame_complete := (if 0 < n \<or> out \<noteq> [] then frame_end else zstd_frame_complete s)\<rparr> in
           if out \<noteq> [] then Fill_Returns (Inr True) (s1\<lparr>window := out\<rparr>)
           else if 0 < n then Fill_Again s1
           else fill_wait s1))"

definition fill_round :: "http_response \<Rightarrow> fill_step" where
  "fill_round s =
     (if is_done s \<and> outcome s \<noteq> CURLE_OK then fill_wait s
      else
        (case zstd s of
           None \<Rightarrow>
             if 0 < allowed s
             then Fill_Returns (Inr True) (s\<lparr>window := take (allowed s) (raw s), raw := drop (allowed s) (raw s)\<rparr>)
             else fill_wait s
         | Some stream \<Rightarrow> if 0 < allowed s \<or> is_done s then fill_decode stream s else fill_wait s))"

definition fill_measure :: "(http_response \<times> http_response) set" where
  "fill_measure = (\<lambda>s. if is_done s then 0 else Suc (length (transfer s))) <*mlex*> measure (\<lambda>s. length (raw s))"

lemma fill_wait_measure: "fill_wait s = Fill_Again s' \<Longrightarrow> \<not> is_done s \<and> (s', s) \<in> fill_measure"
  using pump_measure [of s] by (auto simp: fill_wait_def fill_measure_def mlex_prod_def Let_def split: if_splits)

lemma fill_round_measure:
  assumes "fill_round s = Fill_Again s'"
  shows "(s', s) \<in> fill_measure"
proof -
  have d: "(s', s) \<in> fill_measure" if "fill_decode stream s = Fill_Again s'" for stream
  proof -
    obtain r stream' where dec: "decompressStream stream (take (allowed s) (raw s)) = (r, stream')" by fastforce
    show ?thesis
    proof (cases r)
      case (Zstd_Ok consumed out fe)
      define n where "n = min consumed (allowed s)"
      define s1 where "s1 = s\<lparr>zstd := Some stream', raw := drop n (raw s),
        zstd_frame_complete := (if 0 < n \<or> out \<noteq> [] then fe else zstd_frame_complete s)\<rparr>"
      have f: "fill_decode stream s = (if out \<noteq> [] then Fill_Returns (Inr True) (s1\<lparr>window := out\<rparr>)
          else if 0 < n then Fill_Again s1 else fill_wait s1)"
        unfolding fill_decode_def dec Zstd_Ok prod.case zstd_result.case Let_def n_def [symmetric] s1_def [symmetric] by (rule refl)
      have s1: "is_done s1 = is_done s" "transfer s1 = transfer s" "raw s1 = drop n (raw s)" by (simp_all add: s1_def)
      have "n \<le> length (raw s)" by (auto simp: n_def allowed_def)
      then show ?thesis
        using that [unfolded f] s1 fill_wait_measure [of s1 s']
        by (auto simp: fill_measure_def mlex_prod_def split: if_splits)
    qed (use that dec in \<open>simp add: fill_decode_def Let_def\<close>)
  qed
  show ?thesis
    using assms fill_wait_measure d by (auto simp: fill_round_def split: if_splits option.splits)
qed

function fill_loop :: "http_response \<Rightarrow> bool result \<times> http_response" where
  "fill_loop s = (case fill_round s of Fill_Returns r s' \<Rightarrow> (r, s') | Fill_Again s' \<Rightarrow> fill_loop s')"
  by pat_completeness auto
termination
proof (relation fill_measure)
  show "wf fill_measure" by (simp add: fill_measure_def wf_mlex)
qed (simp add: fill_round_measure)

declare fill_loop.simps [simp del]

definition fill :: "http_response \<Rightarrow> bool result \<times> http_response" where
  "fill s =
     (if window s \<noteq> [] then (Inr True, s)
      else
        (let s1 = (if failure s = None \<and> unsupported_encoding s \<noteq> []
                   then s\<lparr>failure := Some (Runtime_Error (''Unsupported Content-Encoding: '' @ unsupported_encoding s))\<rparr>
                   else s) in
         case failure s1 of Some e \<Rightarrow> (Inl e, s1) | None \<Rightarrow> fill_loop s1))"

definition at_eof :: "http_response \<Rightarrow> bool result \<times> http_response" where
  "at_eof s =
     (if window s = [] then (let (r, s') = fill s in (bind_result r (\<lambda>more. Inr (\<not> more)), s')) else (Inr False, s))"

definition incomplete :: "nat \<Rightarrow> string \<Rightarrow> exn" where
  "incomplete n unit = Runtime_Error (''Incomplete input stream, expected at least '' @ show_nat n @ '' more '' @ unit)"

text \<open>\<open>get\<close> and \<open>read\<close>; both need a window that is not empty.\<close>

definition get_byte :: "http_response \<Rightarrow> char result \<times> http_response" where
  "get_byte s =
     (if window s = [] then
        (case fill s of
           (Inl e, s') \<Rightarrow> (Inl e, s')
         | (Inr False, s') \<Rightarrow> (Inl (incomplete 1 ''byte''), s')
         | (Inr True, s') \<Rightarrow> (Inr (hd (window s')), s'\<lparr>window := tl (window s')\<rparr>))
      else (Inr (hd (window s)), s\<lparr>window := tl (window s)\<rparr>))"

text \<open>\<open>readSlow\<close> with fuel, one unit for each round; the window is not empty after \<open>fill\<close>, so
  that \<open>count\<close> rounds are enough.\<close>

fun readSlow :: "nat \<Rightarrow> nat \<Rightarrow> nat \<Rightarrow> http_response \<Rightarrow> string result \<times> http_response" where
  "readSlow 0 requested count s = (if count = 0 then (Inr [], s) else (Inl (Undefined_Behaviour ''fuel''), s))"
| "readSlow (Suc n) requested count s =
     (if count = 0 then (Inr [], s)
      else
        (case (if window s = [] then fill s else (Inr True, s)) of
           (Inl e, s') \<Rightarrow> (Inl e, s')
         | (Inr False, s') \<Rightarrow> (Inl (incomplete requested ''bytes''), s')
         | (Inr True, s') \<Rightarrow>
             (let n' = min (length (window s')) count;
                  (r, s'') = readSlow n requested (count - n') (s'\<lparr>window := drop n' (window s')\<rparr>) in
              (bind_result r (\<lambda>t. Inr (take n' (window s') @ t)), s''))))"

definition read_bytes :: "nat \<Rightarrow> http_response \<Rightarrow> string result \<times> http_response" where
  "read_bytes count s =
     (if count = 0 then (Inr [], s)
      else if count \<le> length (window s) then (Inr (take count (window s)), s\<lparr>window := drop count (window s)\<rparr>)
      else readSlow count count count s)"

text \<open>\<open>readAll\<close>, with fuel for its rounds; each round reads at least one byte.\<close>

fun readAll_loop :: "nat \<Rightarrow> nat \<Rightarrow> string \<Rightarrow> http_response \<Rightarrow> string \<times> http_response" where
  "readAll_loop 0 limit res s = (res, s)"
| "readAll_loop (Suc n) limit res s =
     (if length res < limit then
        (case (if window s \<noteq> [] then (Inr True, s) else fill s) of
           (Inl e, s') \<Rightarrow> (res @ failed_tail s', s')
         | (Inr False, s') \<Rightarrow> (res, s')
         | (Inr True, s') \<Rightarrow>
             (let n' = min (length (window s')) (limit - length res) in
              readAll_loop n limit (res @ take n' (window s')) (s'\<lparr>window := drop n' (window s')\<rparr>)))
      else (res, s))"

definition readAll :: "nat \<Rightarrow> http_response \<Rightarrow> string \<times> http_response" where
  "readAll limit s = (let (res, s') = readAll_loop (Suc limit) limit [] s in (take limit res, s'))"

end
