(* ===== verification/Row_Binary.thy ===== *)
theory Row_Binary
  imports Column_Info Http_Response
begin

text \<open>
  The format RowBinaryWithNamesAndTypes: driver/format/RowBinaryWithNamesAndTypes.cpp on a response
  of Http_Response. A reader returns its value or an exception with the response behind what it
  read. Integers on the wire are little-endian (\<open>readPOD\<close> copies bytes, and the format is
  refused on other platforms); a \<open>float\<close> or \<open>double\<close> is kept as its bytes' value. Memory is
  not bounded, but a string cannot be resized beyond \<open>max_size()\<close>.
\<close>

type_synonym 'a reader = "http_response \<Rightarrow> 'a result \<times> http_response"

definition rd_bind :: "'a reader \<Rightarrow> ('a \<Rightarrow> 'b reader) \<Rightarrow> 'b reader" where
  "rd_bind m k = (\<lambda>s. case m s of (Inl e, s') \<Rightarrow> (Inl e, s') | (Inr a, s') \<Rightarrow> k a s')"

definition rd_return :: "'a \<Rightarrow> 'a reader" where
  "rd_return a = (\<lambda>s. (Inr a, s))"

definition rd_throw :: "exn \<Rightarrow> 'a reader" where
  "rd_throw e = (\<lambda>s. (Inl e, s))"

definition rd_lift :: "'a result \<Rightarrow> 'a reader" where
  "rd_lift r = (\<lambda>s. (r, s))"

section \<open>Sizes and raw values\<close>

text \<open>
  \<open>readSize\<close>: \<open>chunk << shift\<close> is taken modulo \<open>2 ^ 64\<close> and has no meaning from
  \<open>shift = 64\<close> on.
\<close>

function readSize_loop :: "nat \<Rightarrow> nat \<Rightarrow> nat reader" where
  "readSize_loop shift tmp_res s =
     (case get_byte s of
        (Inl e, s') \<Rightarrow> (Inl e, s')
      | (Inr c, s') \<Rightarrow>
          (let byte = cval c; chunk = byte mod 128 in
           if 64 \<le> shift then (Inl (Undefined_Behaviour ''shift by 64 or more''), s')
           else
             (let segment = take_bit 64 (push_bit shift chunk) in
              if drop_bit shift segment \<noteq> chunk \<or> 255 - 7 < shift
              then (Inl (Runtime_Error ''ULEB128 value too big''), s')
              else if byte < 128 then (Inr (or tmp_res segment), s')
              else readSize_loop (shift + 7) (or tmp_res segment) s')))"
  by pat_completeness auto
termination by (relation "measure (\<lambda>(shift, _, _). 64 - shift)") auto

declare readSize_loop.simps [simp del]

definition readSize :: "nat reader" where
  "readSize = readSize_loop 0 0"

definition string_max_size :: nat where
  "string_max_size = 2 ^ 63 - 1"

definition readValue_sized :: "nat \<Rightarrow> string reader" where
  "readValue_sized n =
     (if string_max_size < n then rd_throw (Out_Of_Range ''basic_string::_M_replace_aux'') else read_bytes n)"

definition readValue_string :: "string reader" where
  "readValue_string = rd_bind readSize readValue_sized"

definition readValue_bool :: "bool reader" where
  "readValue_bool = rd_bind get_byte (\<lambda>c. rd_return (c \<noteq> ch_nul))"

fun le_value :: "string \<Rightarrow> nat" where
  "le_value [] = 0"
| "le_value (c # cs) = cval c + 256 * le_value cs"

definition readPOD_unsigned :: "nat \<Rightarrow> nat reader" where
  "readPOD_unsigned n = rd_bind (read_bytes n) (\<lambda>bs. rd_return (le_value bs))"

definition readPOD_signed :: "nat \<Rightarrow> int reader" where
  "readPOD_signed n = rd_bind (read_bytes n) (\<lambda>bs. rd_return (signed_take_bit (8 * n - 1) (int (le_value bs))))"

section \<open>Fields\<close>

text \<open>
  The alternatives of \<open>Field::DataType\<close> the two formats produce; a Null is \<open>Nothing\<close>. \<open>Any_field\<close> (a
  \<open>WireTypeAnyAsString\<close>) and \<open>Bool_field\<close> are those of ODBCDriver2 alone.
\<close>

datatype field =
    Null_field
  | Date_int string nat
  | DateTime_int string nat
  | DateTime64_int string int nat
  | Decimal_field DataSourceTypeId nat nat nat int
  | Int_field DataSourceTypeId int
  | UInt_field DataSourceTypeId nat
  | Float_field DataSourceTypeId nat
  | String_field DataSourceTypeId string
  | UUID_field nat nat nat string
  | Any_field string
  | Bool_field int

text \<open>
  \<open>Decimal_field type value sign precision scale\<close>; the dates carry the column's timezone. Negating the least integer of a type has no
  meaning; \<open>scale\<close> is assigned to an \<open>int16_t\<close> from a \<open>size_t\<close>.
\<close>

definition decimal_of :: "nat \<Rightarrow> ColumnInfo \<Rightarrow> int \<Rightarrow> field result" where
  "decimal_of n col v =
     (if v = - (2 ^ (8 * n - 1)) then Inl (Undefined_Behaviour ''negation of the least integer'')
      else
        (let scale = signed_take_bit 15 (int (col_scale col)) in
         if v < 0 then Inr (Decimal_field (type_without_parameters_id col) (nat (- v)) 0 (col_precision col) scale)
         else Inr (Decimal_field (type_without_parameters_id col) (nat v) 1 (col_precision col) scale)))"

definition readValue_Decimal :: "ColumnInfo \<Rightarrow> field reader" where
  "readValue_Decimal col =
     (if col_precision col < 10 then rd_bind (readPOD_signed 4) (\<lambda>v. rd_lift (decimal_of 4 col v))
      else if col_precision col < 19 then rd_bind (readPOD_signed 8) (\<lambda>v. rd_lift (decimal_of 8 col v))
      else rd_throw (Runtime_Error (''Unable to decode value of type '' @ quoted ''Decimal'' @ '' that is represented by 128-bit integer'')))"

definition readValue_UUID :: "field reader" where
  "readValue_UUID = rd_bind (read_bytes 16) (\<lambda>buf.
     let Data3 = le_value (take 2 buf);
         Data2 = le_value (take 2 (drop 2 buf));
         Data1 = le_value (take 4 (drop 4 buf));
         Data4 = rev (drop 8 buf) in
     rd_return (UUID_field Data1 Data2 Data3 Data4))"

definition note_size :: "string \<Rightarrow> ColumnInfo \<Rightarrow> ColumnInfo" where
  "note_size v col =
     (if display_size_so_far col < length v then col\<lparr>display_size_so_far := length v\<rparr> else col)"

definition unable_to_decode :: "ColumnInfo \<Rightarrow> exn" where
  "unable_to_decode col = Runtime_Error (''Unable to decode value of type '' @ quoted (col_type col))"

definition rd_field :: "('a \<Rightarrow> field) \<Rightarrow> ColumnInfo \<Rightarrow> 'a reader \<Rightarrow> (field \<times> ColumnInfo) reader" where
  "rd_field mk col m = rd_bind m (\<lambda>v. rd_return (mk v, col))"

text \<open>The switch over the type of the column, for a value that is there.\<close>

definition readValue_typed :: "ColumnInfo \<Rightarrow> (field \<times> ColumnInfo) reader" where
  "readValue_typed col =
     (case type_without_parameters_id col of
        Date \<Rightarrow> rd_field (Date_int (timezone col)) col (readPOD_unsigned 2)
      | DateTime \<Rightarrow> rd_field (DateTime_int (timezone col)) col (readPOD_unsigned 4)
      | DateTime64 \<Rightarrow> rd_field (\<lambda>v. DateTime64_int (timezone col) v (col_precision col)) col (readPOD_signed 8)
      | Decimal \<Rightarrow> rd_field id col (readValue_Decimal col)
      | Decimal32 \<Rightarrow> rd_field id col (readValue_Decimal col)
      | Decimal64 \<Rightarrow> rd_field id col (readValue_Decimal col)
      | Decimal128 \<Rightarrow> rd_field id col (readValue_Decimal col)
      | FixedString \<Rightarrow>
          rd_bind (readValue_sized (fixed_size col)) (\<lambda>v. rd_return (String_field FixedString v, note_size v col))
      | Float32 \<Rightarrow> rd_field (Float_field Float32) col (readPOD_unsigned 4)
      | Float64 \<Rightarrow> rd_field (Float_field Float64) col (readPOD_unsigned 8)
      | Int8 \<Rightarrow> rd_field (Int_field Int8) col (readPOD_signed 1)
      | Int16 \<Rightarrow> rd_field (Int_field Int16) col (readPOD_signed 2)
      | Int32 \<Rightarrow> rd_field (Int_field Int32) col (readPOD_signed 4)
      | Int64 \<Rightarrow> rd_field (Int_field Int64) col (readPOD_signed 8)
      | Nothing \<Rightarrow> rd_return (Null_field, col)
      | String \<Rightarrow>
          rd_bind readValue_string (\<lambda>v. rd_return (String_field String v, note_size v col))
      | UInt8 \<Rightarrow> rd_field (UInt_field UInt8) col (readPOD_unsigned 1)
      | UInt16 \<Rightarrow> rd_field (UInt_field UInt16) col (readPOD_unsigned 2)
      | UInt32 \<Rightarrow> rd_field (UInt_field UInt32) col (readPOD_unsigned 4)
      | UInt64 \<Rightarrow> rd_field (UInt_field UInt64) col (readPOD_unsigned 8)
      | UUID \<Rightarrow> rd_field id col readValue_UUID
      | _ \<Rightarrow> rd_throw (unable_to_decode col))"

definition readValue_field :: "ColumnInfo \<Rightarrow> (field \<times> ColumnInfo) reader" where
  "readValue_field col =
     (if col_is_nullable col then
        rd_bind readValue_bool (\<lambda>is_null. if is_null then rd_return (Null_field, col) else readValue_typed col)
      else readValue_typed col)"

section \<open>Rows and the header\<close>

text \<open>
  The loop of \<open>readNextRow\<close> over the fields of \<open>row\<close>, which has as many fields as there are
  columns. An exception leaves the fields read so far in the row and the others as they were.
\<close>

fun read_fields :: "field list \<Rightarrow> ColumnInfo list \<Rightarrow> http_response
    \<Rightarrow> unit result \<times> field list \<times> ColumnInfo list \<times> http_response" where
  "read_fields (f # row) (col # cols) s =
     (case readValue_field col s of
        (Inl e, s') \<Rightarrow> (Inl e, f # row, col # cols, s')
      | (Inr (f', col'), s') \<Rightarrow>
          (let (r, row', cols', s'') = read_fields row cols s' in (r, f' # row', col' # cols', s'')))"
| "read_fields row cols s = (Inr (), row, cols, s)"

definition readNextRow :: "field list \<Rightarrow> ColumnInfo list \<Rightarrow> http_response
    \<Rightarrow> bool result \<times> field list \<times> ColumnInfo list \<times> http_response" where
  "readNextRow row cols s =
     (case at_eof s of
        (Inl e, s') \<Rightarrow> (Inl e, row, cols, s')
      | (Inr True, s') \<Rightarrow> (Inr False, row, cols, s')
      | (Inr False, s') \<Rightarrow>
          (let (r, row', cols', s'') = read_fields row cols s' in
           (bind_result r (\<lambda>_. Inr True), row', cols', s'')))"

fun rd_times :: "nat \<Rightarrow> 'a reader \<Rightarrow> 'a list reader" where
  "rd_times 0 m = rd_return []"
| "rd_times (Suc n) m = rd_bind m (\<lambda>x. rd_bind (rd_times n m) (\<lambda>xs. rd_return (x # xs)))"

text \<open>The type of one column: parsed, assigned, and looked up in the catalog.\<close>

definition typed_column :: "string \<Rightarrow> string \<Rightarrow> string \<Rightarrow> ColumnInfo result" where
  "typed_column tz nm ty =
     (let col = fresh_ColumnInfo\<lparr>col_name := nm, col_type := ty\<rparr> in
      case parse ty fresh_ast of
        (Returns True, ast) \<Rightarrow> bind_result (assignTypeInfo tz ast col) updateTypeInfo
      | (Returns False, _) \<Rightarrow> Inl (Runtime_Error (''Unable to read values of an unknown type '' @ quoted ty))
      | (Bad_lexical_cast, _) \<Rightarrow> Inl (Runtime_Error ''bad lexical cast'')
      | (Undefined, _) \<Rightarrow> Inl (Undefined_Behaviour ''top() of an empty stack''))"

fun read_types :: "string \<Rightarrow> string list \<Rightarrow> ColumnInfo list reader" where
  "read_types tz [] = rd_return []"
| "read_types tz (nm # nms) =
     rd_bind readValue_string (\<lambda>ty.
     rd_bind (rd_lift (typed_column tz nm ty)) (\<lambda>col.
     rd_bind (read_types tz nms) (\<lambda>cols. rd_return (col # cols))))"

definition readHeader :: "string \<Rightarrow> ColumnInfo list reader" where
  "readHeader tz =
     rd_bind readSize (\<lambda>num_columns.
     rd_bind (rd_times num_columns readValue_string) (\<lambda>names.
     read_types tz names))"

end
