(* ===== verification/Http_Spec.thy ===== *)
theory Http_Spec
  imports Http_Response
begin

text \<open>
  A response as a source of bytes. \<open>total\<close> is what is still to come from the transfer with its
  result, \<open>content\<close> the text a reader will get when the transfer ends well. The interface the
  result set formats read through is the locale \<open>byte_source\<close>.
\<close>

section \<open>What is still to come\<close>

fun upcoming :: "transfer_event list \<Rightarrow> string \<times> int" where
  "upcoming [] = ([], CURLE_OPERATION_TIMEDOUT)"
| "upcoming (e # es) =
     (case finished_with e of
        Some (rc, _) \<Rightarrow> (body_bytes e, rc)
      | None \<Rightarrow> (body_bytes e @ fst (upcoming es), snd (upcoming es)))"

definition total :: "http_response \<Rightarrow> string \<times> int" where
  "total s = (if is_done s then (raw s, outcome s)
              else (raw s @ fst (upcoming (transfer s)), snd (upcoming (transfer s))))"

lemma total_pump [simp]: "\<not> is_done s \<Longrightarrow> total (pump s) = total s"
  by (auto simp: total_def pump_def onBody_def Let_def split: list.splits option.splits)

lemma pump_simps [simp]:
  "window (pump s) = window s" "failure (pump s) = failure s" "unsupported_encoding (pump s) = unsupported_encoding s"
  "zstd (pump s) = zstd s" "zstd_frame_complete (pump s) = zstd_frame_complete s"
  by (auto simp: pump_def onBody_def Let_def split: list.splits option.splits)

lemma finish_simps [simp]:
  "window (finish s) = window s" "unsupported_encoding (finish s) = unsupported_encoding s" "headers (finish s) = headers s"
  "zstd (finish s) = zstd s" "raw (finish s) = raw s" "outcome (finish s) = outcome s" "is_done (finish s) = is_done s"
  "raw_total (finish s) = raw_total s" "zstd_frame_complete (finish s) = zstd_frame_complete s"
  by (simp_all add: finish_def Let_def split: option.splits)

lemma fill_wait_returns:
  assumes "fill_wait s = Fill_Returns r s'"
  shows "is_done s \<and> s' = finish s \<and> r = (case failure s' of Some e \<Rightarrow> Inl e | None \<Rightarrow> Inr False)"
  using assms by (auto simp: fill_wait_def Let_def split: if_splits)

lemma fill_wait_again: "fill_wait s = Fill_Again s' \<Longrightarrow> \<not> is_done s \<and> s' = pump s"
  by (auto simp: fill_wait_def Let_def split: if_splits)

lemmas fill_waitD = fill_wait_returns fill_wait_again fill_wait_returns [OF sym] fill_wait_again [OF sym]

text \<open>What a loop does follows from what its rounds do.\<close>

lemma fill_loop_rounds:
  assumes "fill_loop s = (r, s')" "P s"
    and "\<And>s s'. P s \<Longrightarrow> fill_round s = Fill_Again s' \<Longrightarrow> P s'"
    and "\<And>s r s'. P s \<Longrightarrow> fill_round s = Fill_Returns r s' \<Longrightarrow> Q r s'"
  shows "Q r s'"
  using assms(1,2)
proof (induction s rule: fill_loop.induct)
  case (1 s)
  then show ?case using assms(3,4) by (cases "fill_round s") (auto simp: fill_loop.simps [of s])
qed

text \<open>The cases of a round with a decoder; \<open>s1\<close> is the response after the call.\<close>

lemma fill_round_decoder:
  assumes "zstd s \<noteq> None"
  obtains (wait) "fill_round s = fill_wait s" "is_done s \<longrightarrow> outcome s \<noteq> CURLE_OK"
  | (failed) e z where "fill_round s = Fill_Returns (Inl e) (s\<lparr>zstd := Some z, failure := Some e\<rparr>)"
  | (decoded) n z fe out s1 where "s1 = s\<lparr>zstd := Some z, raw := drop n (raw s), zstd_frame_complete := fe\<rparr>"
      "fill_round s = (if out \<noteq> [] then Fill_Returns (Inr True) (s1\<lparr>window := out\<rparr>)
         else if 0 < n then Fill_Again s1 else fill_wait s1)"
proof -
  obtain stream where z: "zstd s = Some stream" using assms by blast
  obtain d stream' where dec: "decompressStream stream (take (allowed s) (raw s)) = (d, stream')" by fastforce
  show thesis
  proof (cases "is_done s \<and> outcome s \<noteq> CURLE_OK \<or> allowed s = 0 \<and> \<not> is_done s")
    case True
    then show ?thesis using wait z by (auto simp: fill_round_def)
  next
    case False
    then have r: "fill_round s = fill_decode stream s" using z by (auto simp: fill_round_def)
    show ?thesis
    proof (cases d)
      case (Zstd_Error nm)
      then show ?thesis using failed r dec by (simp add: fill_decode_def Let_def)
    next
      case (Zstd_Ok consumed out fe)
      show ?thesis
        by (rule decoded [where n = "min consumed (allowed s)", OF refl])
          (simp only: r fill_decode_def dec Zstd_Ok prod.case zstd_result.case Let_def)
    qed
  qed
qed

lemma fill_round_plain:
  assumes "zstd s = None"
  shows "fill_round s = (if (\<not> is_done s \<or> outcome s = CURLE_OK) \<and> 0 < allowed s
    then Fill_Returns (Inr True) (s\<lparr>window := take (allowed s) (raw s), raw := drop (allowed s) (raw s)\<rparr>) else fill_wait s)"
  using assms by (auto simp: fill_round_def)

lemma fill_round_kept:
  assumes "fill_round s = Fill_Again s'"
  shows "window s' = window s \<and> failure s' = failure s \<and> unsupported_encoding s' = unsupported_encoding s
    \<and> (zstd s' = None \<longleftrightarrow> zstd s = None)"
proof (cases "zstd s")
  case None
  then show ?thesis using assms by (auto simp: fill_round_plain dest!: fill_waitD split: if_splits)
next
  case (Some z)
  then have "zstd s \<noteq> None" by simp
  then show ?thesis
    by (cases rule: fill_round_decoder) (use assms Some in \<open>auto dest!: fill_waitD split: if_splits\<close>)
qed

text \<open>A call of \<open>fill\<close> that throws leaves an empty window and the error behind.\<close>

lemma fill_loop_throws:
  assumes "fill_loop s = (Inl e, s')" "window s = []" "failure s = None"
  shows "window s' = [] \<and> failure s' = Some e"
proof -
  have "(Inl e :: bool result) = Inl e' \<longrightarrow> window s' = [] \<and> failure s' = Some e'" for e'
  proof (rule fill_loop_rounds [where P = "\<lambda>s. window s = [] \<and> failure s = None"
        and Q = "\<lambda>r s'. r = Inl e' \<longrightarrow> window s' = [] \<and> failure s' = Some e'", OF assms(1)])
    fix s r s'
    assume s: "window s = [] \<and> failure s = None" and r: "fill_round s = Fill_Returns r s'"
    show "r = Inl e' \<longrightarrow> window s' = [] \<and> failure s' = Some e'"
    proof (cases "zstd s = None")
      case True
      then show ?thesis using r s by (auto simp: fill_round_plain dest!: fill_waitD split: if_splits option.splits)
    next
      case False
      then show ?thesis
        by (cases rule: fill_round_decoder) (use r s in \<open>auto dest!: fill_waitD split: if_splits option.splits\<close>)
    qed
  qed (use assms(2,3) fill_round_kept in auto)
  then show ?thesis by blast
qed

text \<open>An error comes back from every later read.\<close>

lemma fill_sticky:
  assumes "fill s = (Inl e, s')"
  shows "fill s' = (Inl e, s')"
proof -
  from assms have w: "window s = []" by (auto simp: fill_def split: if_splits)
  have "window s' = [] \<and> failure s' = Some e"
  proof (cases "failure s = None \<and> unsupported_encoding s = []")
    case True
    then have "fill_loop s = (Inl e, s')" using assms w by (simp add: fill_def Let_def)
    from fill_loop_throws [OF this w] True show ?thesis by simp
  next
    case False
    then show ?thesis using assms w by (auto simp: fill_def Let_def split: if_splits option.splits)
  qed
  then show ?thesis by (simp add: fill_def Let_def)
qed

text \<open>The end of the body is only reported for a whole one.\<close>

definition whole :: "http_response \<Rightarrow> bool" where
  "whole s \<longleftrightarrow> is_done s \<and> outcome s = CURLE_OK \<and> failure s = None
     \<and> (zstd s = None \<longrightarrow> raw s = []) \<and> (zstd s \<noteq> None \<longrightarrow> raw_total s = 0 \<or> zstd_frame_complete s)"

lemma finish_whole:
  assumes "failure (finish s) = None" "is_done s" "zstd s = None \<longrightarrow> outcome s = CURLE_OK \<longrightarrow> raw s = []"
  shows "whole (finish s)"
  using assms by (auto simp: whole_def) (auto simp: finish_def Let_def split: option.splits if_splits)

lemma fill_loop_end:
  assumes "fill_loop s = (Inr False, s')" "window s = []" "failure s = None"
  shows "whole s' \<and> window s' = []"
proof -
  have "(Inr False :: bool result) = Inr False \<longrightarrow> whole s' \<and> window s' = []"
  proof (rule fill_loop_rounds [where P = "\<lambda>s. window s = [] \<and> failure s = None"
        and Q = "\<lambda>r s'. r = Inr False \<longrightarrow> whole s' \<and> window s' = []", OF assms(1)])
    fix s r s'
    assume s: "window s = [] \<and> failure s = None" and r: "fill_round s = Fill_Returns r s'"
    show "r = Inr False \<longrightarrow> whole s' \<and> window s' = []"
    proof (cases "zstd s = None")
      case True
      then show ?thesis
        using r s by (auto simp: fill_round_plain allowed_def intro!: finish_whole dest!: fill_waitD split: if_splits option.splits)
    next
      case False
      then show ?thesis
        by (cases rule: fill_round_decoder)
          (use r s in \<open>auto intro!: finish_whole dest!: fill_waitD split: if_splits option.splits\<close>)
    qed
  qed (use assms(2,3) fill_round_kept in auto)
  then show ?thesis by blast
qed

text \<open>What one \<open>fill\<close> of a body that is not compressed does, whatever the transfer brings.\<close>

lemma fill_loop_cases:
  assumes "fill_loop s = (r, s')" "window s = []" "failure s = None" "zstd s = None"
  shows "(r = Inr True \<and> window s' \<noteq> [] \<and> window s' @ fst (total s') = fst (total s) \<and> snd (total s') = snd (total s)
            \<and> failure s' = None \<and> zstd s' = None \<and> (snd (total s) \<noteq> CURLE_OK \<longrightarrow> HOLDBACK_SIZE \<le> length (fst (total s'))))
       \<or> (r = Inr False \<and> window s' = [] \<and> total s = ([], CURLE_OK) \<and> total s' = ([], CURLE_OK) \<and> failure s' = None \<and> zstd s' = None)
       \<or> (\<exists>e. r = Inl e \<and> window s' = [] \<and> failure s' = Some e \<and> snd (total s) \<noteq> CURLE_OK
            \<and> (\<exists>s0. s' = finish s0 \<and> is_done s0 \<and> failure s0 = None \<and> zstd s0 = None \<and> outcome s0 \<noteq> CURLE_OK \<and> raw s0 = fst (total s)))"
  using assms
proof (induction s rule: fill_loop.induct)
  case (1 s)
  consider (deliver) "\<not> is_done s \<or> outcome s = CURLE_OK" "0 < allowed s"
    | (ended) "\<not> ((\<not> is_done s \<or> outcome s = CURLE_OK) \<and> 0 < allowed s)" "is_done s"
    | (wait) "\<not> ((\<not> is_done s \<or> outcome s = CURLE_OK) \<and> 0 < allowed s)" "\<not> is_done s" by fastforce
  then show ?case
  proof cases
    case deliver
    then have rs: "r = Inr True" "s' = s\<lparr>window := take (allowed s) (raw s), raw := drop (allowed s) (raw s)\<rparr>"
      using "1.prems"(1,4) by (simp_all add: fill_loop.simps [of s] fill_round_plain)
    have "raw s \<noteq> []" using deliver(2) by (auto simp: allowed_def split: if_splits)
    then show ?thesis
      using deliver "1.prems"(3,4) unfolding rs by (auto simp: total_def allowed_def split: if_splits)
  next
    case ended
    then have "fill_round s = fill_wait s" using "1.prems"(4) by (auto simp: fill_round_plain)
    then have fl: "(r, s') = (case failure (finish s) of Some e \<Rightarrow> Inl e | None \<Rightarrow> Inr False, finish s)"
      using "1.prems"(1) ended(2) by (auto simp: fill_loop.simps [of s] fill_wait_def Let_def)
    show ?thesis
    proof (cases "outcome s = CURLE_OK")
      case True
      then have "raw s = []" "finish s = s" using ended "1.prems"(4) by (simp_all add: allowed_def finish_def)
      then show ?thesis using fl True ended(2) "1.prems"(2-4) by (simp add: total_def)
    next
      case False
      then obtain e where e: "failure (finish s) = Some e"
        using "1.prems"(4) by (simp add: finish_def decodeRemaining_def)
      then have "r = Inl e" "s' = finish s" using fl by simp_all
      moreover have "snd (total s) \<noteq> CURLE_OK" "raw s = fst (total s)" using False ended(2) by (simp_all add: total_def)
      ultimately show ?thesis using e False ended(2) "1.prems"(2-4)
        by (intro disjI2 exI [of _ e] conjI exI [of _ s]) simp_all
    qed
  next
    case wait
    then have r: "fill_round s = Fill_Again (pump s)" using "1.prems"(4) by (simp add: fill_round_plain fill_wait_def)
    then have "fill_loop s = fill_loop (pump s)" by (simp add: fill_loop.simps [of s])
    then show ?thesis
      using "1.IH" [OF r] "1.prems" wait(2) by simp
  qed
qed

section \<open>A transfer that ends well\<close>

definition clean :: "http_response \<Rightarrow> bool" where
  "clean s \<longleftrightarrow> failure s = None \<and> unsupported_encoding s = [] \<and> snd (total s) = CURLE_OK \<and> zstd s = None"

definition content :: "http_response \<Rightarrow> string" where
  "content s = window s @ fst (total s)"

lemma total_window [simp]: "total (s\<lparr>window := w\<rparr>) = total s"
  by (simp add: total_def)

lemma clean_window [simp]: "clean (s\<lparr>window := w\<rparr>) = clean s"
  by (simp add: clean_def)

lemma content_window [simp]: "content (s\<lparr>window := w\<rparr>) = w @ fst (total s)"
  by (simp add: content_def)

lemma unsupported_fill_loop [simp]: "unsupported_encoding (snd (fill_loop s)) = unsupported_encoding s"
proof (rule fill_loop_rounds [where P = "\<lambda>x. unsupported_encoding x = unsupported_encoding s"
      and Q = "\<lambda>r x. unsupported_encoding x = unsupported_encoding s", OF prod.collapse [symmetric] refl])
  fix x r x'
  assume x: "unsupported_encoding x = unsupported_encoding s" and r: "fill_round x = Fill_Returns r x'"
  show "unsupported_encoding x' = unsupported_encoding s"
  proof (cases "zstd x = None")
    case True
    then show ?thesis using r x by (auto simp: fill_round_plain dest!: fill_waitD split: if_splits)
  next
    case False
    then show ?thesis
      by (cases rule: fill_round_decoder) (use r x in \<open>auto dest!: fill_waitD split: if_splits\<close>)
  qed
qed (simp add: fill_round_kept)

lemma fill_clean:
  assumes "clean s"
  shows "\<exists>s'. fill s = (Inr (content s \<noteq> []), s') \<and> clean s' \<and> content s' = content s
    \<and> (content s \<noteq> [] \<longrightarrow> window s' \<noteq> [])"
proof (cases "window s = []")
  case True
  obtain r s' where f: "fill_loop s = (r, s')" by fastforce
  moreover have "fill s = (r, s')" using assms True f by (simp add: fill_def clean_def)
  ultimately show ?thesis
    using fill_loop_cases [OF f True] unsupported_fill_loop [of s] assms True
    by (auto simp: clean_def content_def)
next
  case False
  then show ?thesis using assms by (simp add: fill_def content_def)
qed

text \<open>
  The interface of a byte source: \<open>eof\<close>, \<open>get\<close> and \<open>read\<close> on a source whose
  remaining text is \<open>content\<close> and which will not fail (\<open>clean\<close>).
\<close>

locale byte_source =
  fixes eof :: "'s \<Rightarrow> bool result \<times> 's"
    and get :: "'s \<Rightarrow> char result \<times> 's"
    and rd :: "nat \<Rightarrow> 's \<Rightarrow> string result \<times> 's"
    and cont :: "'s \<Rightarrow> string"
    and good :: "'s \<Rightarrow> bool"
  assumes eof_good: "good s \<Longrightarrow> \<exists>s'. eof s = (Inr (cont s = []), s') \<and> good s' \<and> cont s' = cont s"
    and get_good: "good s \<Longrightarrow> cont s = c # cs \<Longrightarrow> \<exists>s'. get s = (Inr c, s') \<and> good s' \<and> cont s' = cs"
    and get_end: "good s \<Longrightarrow> cont s = [] \<Longrightarrow> \<exists>e s'. get s = (Inl e, s')"
    and rd_good: "good s \<Longrightarrow> n \<le> length (cont s) \<Longrightarrow>
        \<exists>s'. rd n s = (Inr (take n (cont s)), s') \<and> good s' \<and> cont s' = drop n (cont s)"
    and rd_end: "good s \<Longrightarrow> length (cont s) < n \<Longrightarrow> \<exists>e s'. rd n s = (Inl e, s')"
begin

lemma rd_append:
  assumes "good s" "cont s = d @ rest"
  obtains s' where "rd (length d) s = (Inr d, s')" "good s'" "cont s' = rest"
  using rd_good [OF assms(1), of "length d"] assms(2) by auto

lemma get_Cons:
  assumes "good s" "cont s = c # rest"
  obtains s' where "get s = (Inr c, s')" "good s'" "cont s' = rest"
  using get_good [OF assms] by auto

lemma eof_iff:
  assumes "good s"
  obtains s' where "eof s = (Inr (cont s = []), s')" "good s'" "cont s' = cont s"
  using eof_good [OF assms] by auto

text \<open>Reading in one piece or in two makes no difference.\<close>

lemma rd_split:
  assumes "good s" "m + n \<le> length (cont s)"
  obtains a s' b s'' t where "rd m s = (Inr a, s')" "rd n s' = (Inr b, s'')"
    "rd (m + n) s = (Inr (a @ b), t)" "cont t = cont s''"
proof -
  from rd_good [OF assms(1), of m] assms(2) obtain s' where
    1: "rd m s = (Inr (take m (cont s)), s')" "good s'" "cont s' = drop m (cont s)" by auto
  have "n \<le> length (cont s')" using assms(2) 1(3) by simp
  from rd_good [OF 1(2) this] 1(3) obtain s'' where
    2: "rd n s' = (Inr (take n (drop m (cont s))), s'')" "cont s'' = drop n (drop m (cont s))" by auto
  from rd_good [OF assms] obtain t where
    3: "rd (m + n) s = (Inr (take (m + n) (cont s)), t)" "cont t = drop (m + n) (cont s)" by auto
  show thesis
    by (rule that [OF 1(1) 2(1), of t]) (use 2(2) 3 in \<open>simp_all add: take_add add.commute\<close>)
qed

end

lemma readSlow_clean:
  assumes "clean s" "count \<le> n" "count \<le> length (content s)"
  shows "\<exists>s'. readSlow n req count s = (Inr (take count (content s)), s') \<and> clean s' \<and> content s' = drop count (content s)"
  using assms
proof (induction n arbitrary: count s)
  case (Suc n)
  show ?case
  proof (cases "count = 0")
    case False
    then have ne: "content s \<noteq> []" using Suc.prems(3) by auto
    obtain s' where f: "(if window s = [] then fill s else (Inr True, s)) = (Inr True, s')" "clean s'"
      "content s' = content s" "window s' \<noteq> []"
      using fill_clean [OF Suc.prems(1)] ne Suc.prems(1) by (cases "window s = []") auto
    let ?k = "min (length (window s')) count"
    let ?s = "s'\<lparr>window := drop ?k (window s')\<rparr>"
    have k: "0 < ?k" using f(4) False by simp
    then have less: "count - ?k \<le> n" using Suc.prems(2) by linarith
    have cont: "content ?s = drop ?k (content s)" unfolding f(3) [symmetric] by (simp add: content_def)
    have "\<exists>s''. readSlow n req (count - ?k) ?s = (Inr (take (count - ?k) (content ?s)), s'')
        \<and> clean s'' \<and> content s'' = drop (count - ?k) (content ?s)"
      by (rule Suc.IH) (use f k less Suc.prems cont in simp_all)
    then obtain s'' where r: "readSlow n req (count - ?k) ?s = (Inr (take (count - ?k) (content ?s)), s'')"
      "clean s''" "content s'' = drop (count - ?k) (content ?s)" by blast
    have all: "content s'' = drop count (content s)"
      unfolding r(3) cont by (simp add: drop_drop)
    have "take ?k (window s') @ take (count - ?k) (drop ?k (content s)) = take count (content s)"
    proof -
      have "take ?k (window s') = take ?k (content s)" unfolding f(3) [symmetric] by (simp add: content_def)
      then show ?thesis by (metis min.cobounded2 le_add_diff_inverse take_add)
    qed
    then show ?thesis using False f(1) r(1) [unfolded cont] r(2) all by (simp add: Let_def)
  qed (use Suc.prems in simp)
qed simp

lemma readSlow_short:
  assumes "clean s" "count \<le> n" "length (content s) < count"
  shows "\<exists>e s'. readSlow n req count s = (Inl e, s')"
  using assms
proof (induction n arbitrary: count s)
  case (Suc n)
  show ?case
  proof (cases "content s = []")
    case True
    then show ?thesis using fill_clean [OF Suc.prems(1)] Suc.prems(3) by (auto simp: content_def)
  next
    case False
    obtain s' where f: "(if window s = [] then fill s else (Inr True, s)) = (Inr True, s')" "clean s'"
      "content s' = content s" "window s' \<noteq> []"
      using fill_clean [OF Suc.prems(1)] False Suc.prems(1) by (cases "window s = []") auto
    let ?k = "min (length (window s')) count"
    let ?s = "s'\<lparr>window := drop ?k (window s')\<rparr>"
    have k: "0 < ?k" "?k \<le> length (content s')" using f(4) Suc.prems(3) by (auto simp: content_def)
    then have less: "count - ?k \<le> n" using Suc.prems(2) by linarith
    have cont: "content ?s = drop ?k (content s)" unfolding f(3) [symmetric] by (simp add: content_def)
    have "\<exists>e s''. readSlow n req (count - ?k) ?s = (Inl e, s'')"
      by (rule Suc.IH) (use f k less Suc.prems cont in simp_all)
    then show ?thesis using f(1) Suc.prems(3) by (auto simp: Let_def)
  qed
qed simp

interpretation http: byte_source at_eof get_byte read_bytes content clean
proof
  fix s :: http_response and n
  assume s: "clean s"
  show "\<exists>s'. at_eof s = (Inr (content s = []), s') \<and> clean s' \<and> content s' = content s"
    using fill_clean [OF s] s by (auto simp: at_eof_def content_def)
  show "n \<le> length (content s) \<Longrightarrow>
      \<exists>s'. read_bytes n s = (Inr (take n (content s)), s') \<and> clean s' \<and> content s' = drop n (content s)"
    using readSlow_clean [OF s, of n n n] s by (auto simp: read_bytes_def content_def)
  show "length (content s) < n \<Longrightarrow> \<exists>e s'. read_bytes n s = (Inl e, s')"
    using readSlow_short [OF s, of n n n] by (auto simp: read_bytes_def content_def)
next
  fix s :: http_response and c cs
  assume "clean s" "content s = c # cs"
  then show "\<exists>s'. get_byte s = (Inr c, s') \<and> clean s' \<and> content s' = cs"
    using fill_clean [of s] by (cases "window s") (auto simp: get_byte_def content_def Cons_eq_append_conv append_eq_Cons_conv)
next
  fix s :: http_response
  assume "clean s" "content s = []"
  then show "\<exists>e s'. get_byte s = (Inl e, s')"
    using fill_clean [of s] by (auto simp: get_byte_def content_def)
qed

section \<open>Properties of a good transfer\<close>

text \<open>C31: Reading from a response whose transfer ends well gives the bytes of the body in order, however
  the network cut them into pieces, and end of file exactly behind the last one.\<close>

theorem body_is_read_in_order:
  assumes "clean s"
  shows "\<exists>s' s''. at_eof s = (Inr (content s = []), s') \<and>
    (if n \<le> length (content s)
     then read_bytes n s' = (Inr (take n (content s)), s'') \<and> clean s'' \<and> content s'' = drop n (content s)
     else \<exists>e. read_bytes n s' = (Inl e, s''))"
proof -
  obtain s' where s': "at_eof s = (Inr (content s = []), s')" "clean s'" "content s' = content s"
    using http.eof_iff [OF assms] .
  then show ?thesis
    using http.rd_good [OF s'(2), of n] http.rd_end [OF s'(2), of n] by (cases "n \<le> length (content s)") auto
qed

definition example_events :: "transfer_event list" where
  "example_events = [\<lparr>header_lines = [(''HTTP/1.1 200 OK'' @ crlf, 200), (crlf, 200)], body_bytes = ''ab'', finished_with = None\<rparr>,
     \<lparr>header_lines = [], body_bytes = ''cd'', finished_with = Some (CURLE_OK, [])\<rparr>]"

theorem body_is_read_in_order_witness:
  "clean (new_response example_events) \<and> (\<exists>s' s''. at_eof (new_response example_events) = (Inr (content (new_response example_events) = []), s') \<and>
    (if 3 \<le> length (content (new_response example_events))
     then read_bytes 3 s' = (Inr (take 3 (content (new_response example_events))), s'') \<and> clean s''
       \<and> content s'' = drop 3 (content (new_response example_events))
     else \<exists>e. read_bytes 3 s' = (Inl e, s'')))"
proof -
  have c: "clean (new_response example_events)"
    by (simp add: clean_def new_response_def total_def example_events_def)
  from body_is_read_in_order [OF this, of 3] show ?thesis using c by blast
qed

section \<open>A transfer that fails\<close>

text \<open>
  \<open>delivered s0 g s\<close>: from \<open>s0\<close> on, the text \<open>g\<close> was put into the window, whatever part
  of each window the reader consumed, and the response is now \<open>s\<close>.
\<close>

inductive delivered :: "http_response \<Rightarrow> string \<Rightarrow> http_response \<Rightarrow> bool" for s0 where
  delivered_init: "delivered s0 [] s0"
| delivered_fill: "delivered s0 g s \<Longrightarrow> fill (s\<lparr>window := []\<rparr>) = (Inr True, s') \<Longrightarrow> delivered s0 (g @ window s') s'"



text \<open>A response of which nothing was read; its body is not compressed.\<close>

definition unread :: "http_response \<Rightarrow> bool" where
  "unread s \<longleftrightarrow> window s = [] \<and> failure s = None \<and> unsupported_encoding s = [] \<and> zstd s = None"

lemma fill_fill_loop:
  "failure s = None \<Longrightarrow> unsupported_encoding s = [] \<Longrightarrow> fill (s\<lparr>window := []\<rparr>) = fill_loop (s\<lparr>window := []\<rparr>)"
  by (simp add: fill_def)

lemma delivered_invariant:
  assumes "delivered s0 g s" "unread s0"
  shows "failure s = None \<and> unsupported_encoding s = [] \<and> zstd s = None \<and> g @ fst (total s) = fst (total s0)
    \<and> snd (total s) = snd (total s0)
    \<and> (g \<noteq> [] \<and> snd (total s0) \<noteq> CURLE_OK \<longrightarrow> HOLDBACK_SIZE \<le> length (fst (total s)))"
  using assms
proof (induction rule: delivered.induct)
  case delivered_init
  then show ?case by (simp add: unread_def)
next
  case (delivered_fill g s s')
  then have f: "fill_loop (s\<lparr>window := []\<rparr>) = (Inr True, s')" by (simp add: fill_fill_loop)
  from fill_loop_cases [OF f] delivered_fill
  have "window s' @ fst (total s') = fst (total s)" "snd (total s') = snd (total s)" "failure s' = None" "zstd s' = None"
    "snd (total s) \<noteq> CURLE_OK \<longrightarrow> HOLDBACK_SIZE \<le> length (fst (total s'))" by simp_all
  moreover have "unsupported_encoding s' = []"
    using unsupported_fill_loop [of "s\<lparr>window := []\<rparr>"] f delivered_fill by simp
  ultimately show ?case using delivered_fill by auto
qed

text \<open>The text a server appends when a query fails in mid-stream.\<close>

definition exception_block :: "string \<Rightarrow> string \<Rightarrow> string" where
  "exception_block tag msg =
     crlf @ exception_marker @ tag @ crlf @ msg @ show_nat (length msg) @ '' '' @ tag @ crlf @ exception_marker"

lemma takeWhile_rev_digits:
  assumes "msg = [] \<or> \<not> isdigit (last msg)"
  shows "rev (takeWhile isdigit (rev (msg @ show_nat n))) = show_nat n"
proof -
  have "list_all isdigit (rev (show_nat n))" using show_nat_digits [of n] by (simp add: list_all_iff)
  moreover have "rev msg = [] \<or> \<not> isdigit (hd (rev msg))" using assms by (cases msg rule: rev_cases) auto
  ultimately show ?thesis by simp
qed

lemma find_exception_block:
  assumes "tag \<noteq> []" "msg \<noteq> []" "\<not> isdigit (last msg)" "length msg \<le> size_max"
  shows "findClickHouseExceptionMessage tag (pre @ exception_block tag msg) = Some msg"
proof -
  let ?closing = "'' '' @ tag @ crlf @ exception_marker"
  define x where "x = pre @ crlf @ exception_marker @ tag @ crlf"
  let ?body = "(x @ msg) @ show_nat (length msg)"
  have b: "pre @ exception_block tag msg = ?body @ ?closing" by (simp add: exception_block_def x_def)
  have "\<not> isdigit (last (x @ msg))" using assms(2,3) by simp
  then have d: "rev (takeWhile isdigit (rev ?body)) = show_nat (length msg)"
    by (intro takeWhile_rev_digits) simp
  have "suffix ?closing (pre @ exception_block tag msg)" unfolding b by (rule suffixI) simp
  moreover have "take (length (pre @ exception_block tag msg) - length ?closing) (pre @ exception_block tag msg) = ?body"
  proof -
    have "take (length (x @ c) - length c) (x @ c) = x" for x c :: string by simp
    then show ?thesis unfolding b .
  qed
  moreover have "takeWhile isdigit (rev ?body) \<noteq> []" using d by (metis rev.simps(1) show_nat_not_Nil)
  ultimately show ?thesis
    using assms d by (simp add: findClickHouseExceptionMessage_def Let_def del: append_assoc rev_append)
qed

text \<open>C30: When a query fails in mid-stream, nothing of the exception text the server appended reaches the
  reader as data, however the body was cut: what was delivered is a part of the data before it,
  and the error thrown is the exception with the message of the server and its code.\<close>

theorem midstream_exception_is_found:
  assumes "unread s0" "delivered s0 g s" "fill (s\<lparr>window := []\<rparr>) = (Inl e, s')"
    and "snd (total s0) \<noteq> CURLE_OK" "fst (total s0) = data @ exception_block tag msg"
    and "getHeader ''x-clickhouse-exception-tag'' [] s' = tag"
    and "tag \<noteq> []" "msg \<noteq> []" "\<not> isdigit (last msg)" "length (exception_block tag msg) \<le> HOLDBACK_SIZE"
  shows "prefix g data \<and> e = ClickHouseException (''ClickHouse exception: '' @ msg) (parseExceptionCode msg)"
proof -
  note inv = delivered_invariant [OF assms(2,1)]
  have f: "fill_loop (s\<lparr>window := []\<rparr>) = (Inl e, s')" using inv assms(3) by (simp add: fill_fill_loop)
  from fill_loop_cases [OF f] inv assms(4) obtain st where
    st: "s' = finish st" "outcome st \<noteq> CURLE_OK" "raw st = fst (total s)" "failure s' = Some e" "zstd st = None" by auto
  have all: "g @ raw st = data @ exception_block tag msg" using inv st(3) assms(5) by simp
  have "prefix g data"
  proof (cases "g = []")
    case False
    then have "length (exception_block tag msg) \<le> length (raw st)" using inv assms(4,10) st(3) by simp
    then have "length g \<le> length data" using arg_cong [OF all, of length] by simp
    then show ?thesis using all by (metis append_eq_append_conv_if prefixI append_take_drop_id)
  qed simp
  then obtain rest where rest: "data = g @ rest" by (auto simp: prefix_def)
  then have "raw st = rest @ exception_block tag msg" using all by simp
  moreover have "length msg \<le> size_max"
    using assms(10) by (simp add: exception_block_def HOLDBACK_SIZE_def size_max_def)
  ultimately have "findClickHouseExceptionMessage tag (raw st) = Some msg"
    using find_exception_block [OF assms(7,8,9)] by simp
  moreover have "getHeader ''x-clickhouse-exception-tag'' [] st = tag"
    using assms(6) unfolding st(1) by (simp add: getHeader_def)
  ultimately show ?thesis
    using st \<open>prefix g data\<close> by (simp add: finish_def decodeRemaining_def)
qed

text \<open>Once reading the body has failed, every later attempt fails with the same error: the end of a
  truncated body is never reported as a proper end.\<close>

theorem failure_is_final:
  assumes "fill s = (Inl e, s')"
  shows "fill s' = (Inl e, s') \<and> get_byte s' = (Inl e, s') \<and> at_eof s' = (Inl e, s')"
proof -
  have f: "fill s' = (Inl e, s')" using fill_sticky [OF assms] .
  then have "window s' = []" by (auto simp: fill_def split: if_splits)
  then show ?thesis using f by (simp add: get_byte_def at_eof_def)
qed

text \<open>C32: The end of the body is only reported when the transfer has ended well and the whole body was read:
  no received byte is left, and of a compressed body the last frame is complete.\<close>

theorem end_of_body_is_whole:
  assumes "fill s = (Inr False, s')"
  shows "is_done s' \<and> outcome s' = CURLE_OK \<and> (zstd s' = None \<longrightarrow> raw s' = [])
    \<and> (zstd s' \<noteq> None \<longrightarrow> raw_total s' = 0 \<or> zstd_frame_complete s')"
proof -
  have w: "window s = []" using assms by (auto simp: fill_def split: if_splits)
  have "failure s = None" "fill_loop s = (Inr False, s')"
    using assms w by (auto simp: fill_def Let_def split: if_splits option.splits)
  from fill_loop_end [OF this(2) w this(1)] show ?thesis by (simp add: whole_def)
qed

text \<open>A response whose headers announce the tag, when the transfer has just failed.\<close>

definition failing_response :: http_response where
  "failing_response = (new_response [])\<lparr>headers_complete := True, status := 200,
     headers := [''x-clickhouse-exception-tag'' \<mapsto> ''tg''], is_done := True, outcome := 18, error_text := ''transfer closed'',
     raw := ''7'' @ exception_block ''tg'' (''Code: 395. no'' @ crlf)\<rparr>"

theorem midstream_exception_is_found_witness:
  "\<exists>s'. fill (failing_response\<lparr>window := []\<rparr>)
      = (Inl (ClickHouseException (''ClickHouse exception: '' @ ''Code: 395. no'' @ crlf) (parseExceptionCode (''Code: 395. no'' @ crlf))), s')
    \<and> prefix [] ''7''"
proof -
  let ?s = "failing_response\<lparr>window := []\<rparr>"
  have fr: "unread failing_response" by (simp add: unread_def failing_response_def new_response_def)
  have t: "total failing_response = (''7'' @ exception_block ''tg'' (''Code: 395. no'' @ crlf), 18)"
    by (simp add: total_def failing_response_def new_response_def)
  have len: "length (exception_block ''tg'' (''Code: 395. no'' @ crlf)) \<le> HOLDBACK_SIZE"
    by (simp add: exception_block_def exception_marker_def HOLDBACK_SIZE_def show_nat.simps)
  have s: "is_done ?s" "outcome ?s \<noteq> CURLE_OK" "failure ?s = None" "unsupported_encoding ?s = []" "zstd ?s = None"
    by (simp_all add: failing_response_def new_response_def)
  then obtain e where "failure (finish ?s) = Some e" by (simp add: finish_def decodeRemaining_def)
  then have e: "fill ?s = (Inl e, finish ?s)"
    using s by (simp add: fill_def fill_loop.simps [of ?s] fill_round_def fill_wait_def Let_def)
  have "getHeader ''x-clickhouse-exception-tag'' [] (finish ?s) = ''tg''"
    by (simp add: getHeader_def failing_response_def) code_simp
  from midstream_exception_is_found [OF fr delivered_init e _ _ this, of "''7''" "''Code: 395. no'' @ crlf"]
  have "prefix [] ''7'' \<and> e = ClickHouseException (''ClickHouse exception: '' @ ''Code: 395. no'' @ crlf) (parseExceptionCode (''Code: 395. no'' @ crlf))"
    using t len by (simp add: isdigit_def del: append_Cons)
  then show ?thesis using e by blast
qed

theorem failure_is_final_witness:
  "\<exists>e s'. fill (failing_response\<lparr>failure := Some (Runtime_Error ''closed'')\<rparr>) = (Inl e, s')
     \<and> fill s' = (Inl e, s') \<and> get_byte s' = (Inl e, s') \<and> at_eof s' = (Inl e, s')"
proof -
  have "fill (failing_response\<lparr>failure := Some (Runtime_Error ''closed'')\<rparr>)
      = (Inl (Runtime_Error ''closed''), failing_response\<lparr>failure := Some (Runtime_Error ''closed'')\<rparr>)"
    by (simp add: fill_def failing_response_def new_response_def)
  from this failure_is_final [OF this] show ?thesis by blast
qed

text \<open>A compressed body in one piece: the decoder gives two bytes for three and the frame is complete.\<close>

primcorec frame_decoder :: "zstd_stream" where
  "frame_decoder = Zstd_Stream (\<lambda>inp. (Zstd_Ok (length inp) (if inp = [] then [] else ''ok'') True, frame_decoder))"

theorem end_of_body_is_whole_witness:
  "let s = (new_response [])\<lparr>is_done := True, zstd := Some frame_decoder, zstd_frame_complete := True, raw_total := 3\<rparr> in
    fill s = (Inr False, s) \<and> is_done s \<and> outcome s = CURLE_OK \<and> (zstd s = None \<longrightarrow> raw s = [])
    \<and> (zstd s \<noteq> None \<longrightarrow> raw_total s = 0 \<or> zstd_frame_complete s)"
proof -
  let ?s = "(new_response [])\<lparr>is_done := True, zstd := Some frame_decoder, zstd_frame_complete := True, raw_total := 3\<rparr>"
  have dec: "decompressStream frame_decoder inp = (Zstd_Ok (length inp) (if inp = [] then [] else ''ok'') True, frame_decoder)" for inp
    by (subst frame_decoder.code) simp
  have "fill_round ?s = Fill_Returns (Inr False) ?s"
    by (simp add: fill_round_def fill_decode_def dec allowed_def fill_wait_def finish_def new_response_def)
  then have "fill_loop ?s = (Inr False, ?s)" by (subst fill_loop.simps) simp
  then have "fill ?s = (Inr False, ?s)" by (simp add: fill_def new_response_def)
  from end_of_body_is_whole [OF this] this show ?thesis by simp
qed

section \<open>Headers\<close>

text \<open>The lines of one response head; curl reports its status with each.\<close>

definition head_lines :: "int \<Rightarrow> (string \<times> string) list \<Rightarrow> (string \<times> int) list" where
  "head_lines code hs = (''HTTP/1.1 '' @ crlf, code) # map (\<lambda>(n, v). (n @ '': '' @ v @ crlf, code)) hs @ [(crlf, code)]"

definition header_ok :: "string \<times> string \<Rightarrow> bool" where
  "header_ok h \<longleftrightarrow> (case h of (n, v) \<Rightarrow> n \<noteq> [] \<and> CHR '':'' \<notin> set n \<and> \<not> trimmed (hd n) \<and> \<not> trimmed (last n)
     \<and> \<not> prefix ''HTTP/'' (n @ '': '') \<and> (v = [] \<or> \<not> trimmed (hd v) \<and> \<not> trimmed (last v)))"

lemma trim_plain: "w = [] \<or> \<not> trimmed (hd w) \<and> \<not> trimmed (last w) \<Longrightarrow> trim w = w"
proof -
  assume "w = [] \<or> \<not> trimmed (hd w) \<and> \<not> trimmed (last w)"
  then have "dropWhile trimmed w = w" "dropWhile trimmed (rev w) = rev w"
    by (cases w, simp_all) (cases w rule: rev_cases, auto)
  then show ?thesis by (simp add: trim_def)
qed

lemma trim_value: "v = [] \<or> \<not> trimmed (hd v) \<and> \<not> trimmed (last v) \<Longrightarrow> trim (CHR '' '' # v @ crlf) = v"
proof -
  assume v: "v = [] \<or> \<not> trimmed (hd v) \<and> \<not> trimmed (last v)"
  have ws: "trimmed (CHR '' '')" "trimmed ch_cr" "trimmed ch_nl" by (simp_all add: trimmed_def)
  show ?thesis
  proof (cases "v = []")
    case False
    then have "dropWhile trimmed (CHR '' '' # v @ crlf) = v @ crlf" using v ws by (cases v) auto
    moreover have "dropWhile trimmed (rev (v @ crlf)) = rev v" using v False ws by (cases v rule: rev_cases) auto
    ultimately show ?thesis by (simp add: trim_def)
  qed (use ws in \<open>simp add: trim_def\<close>)
qed

lemma onHeader_line:
  assumes "header_ok (n, v)" "\<not> headers_complete s"
  shows "onHeader (n @ '': '' @ v @ crlf, code) s = s\<lparr>headers := (headers s)(toLower n \<mapsto> v)\<rparr>"
proof -
  let ?line = "n @ '': '' @ v @ crlf"
  have n: "n \<noteq> []" "CHR '':'' \<notin> set n" "\<not> trimmed (hd n)" "\<not> trimmed (last n)" "\<not> prefix ''HTTP/'' (n @ '': '')"
    and v: "v = [] \<or> \<not> trimmed (hd v) \<and> \<not> trimmed (last v)"
    using assms(1) by (simp_all add: header_ok_def)
  have "\<not> prefix ''HTTP/'' ?line"
  proof
    assume "prefix ''HTTP/'' ?line"
    then have "prefix ''HTTP/'' ((n @ '': '') @ v @ crlf)" by simp
    then obtain us where "''HTTP/'' = (n @ '': '') @ us" using n(5) unfolding prefix_append by blast
    then have "CHR '':'' \<in> set ''HTTP/''" by (metis in_set_conv_decomp append.assoc append_Cons)
    then show False by simp
  qed
  moreover have "trim ?line \<noteq> []"
  proof -
    have "trim ?line = rev (dropWhile trimmed (rev ?line))" using n(1,3) by (cases n) (auto simp: trim_def)
    moreover have "\<not> list_all trimmed ?line" using n(1,3) by (cases n) auto
    ultimately show ?thesis by (auto simp: list_all_iff dropWhile_eq_Nil_conv)
  qed
  moreover have "takeWhile ((\<noteq>) CHR '':'') ?line = n" "tl (dropWhile ((\<noteq>) CHR '':'') ?line) = CHR '' '' # v @ crlf"
    using n(2) by (induction n) auto
  ultimately show ?thesis
    using assms(2) trim_plain [of n] n(3,4) trim_value [OF v] by (simp add: onHeader_def)
qed

lemma fold_header_lines:
  assumes "list_all header_ok hs" "\<not> headers_complete s"
  shows "fold onHeader (map (\<lambda>(n, v). (n @ '': '' @ v @ crlf, code)) hs) s
    = s\<lparr>headers := headers s ++ map_of (rev (map (\<lambda>(n, v). (toLower n, v)) hs))\<rparr>"
  using assms
proof (induction hs arbitrary: s)
  case (Cons h hs)
  obtain n v where h: "h = (n, v)" by (cases h)
  then show ?case
    using Cons.IH [of "s\<lparr>headers := (headers s)(toLower n \<mapsto> v)\<rparr>"] Cons.prems onHeader_line [of n v s code]
    by (simp add: map_add_def fun_eq_iff split: option.splits)
qed simp

text \<open>The headers of a response are those of its final head: whatever interim responses came before,
  each name, in any case, has the last value the final head gives it, and no other header
  is left over.\<close>

theorem headers_of_final_response:
  assumes "list_all header_ok hs" "200 \<le> code"
  shows "let s' = fold onHeader (interim @ head_lines code hs) s in
    headers_complete s' \<and> status s' = code
    \<and> getHeader nm d s' = (case map_of (rev (map (\<lambda>(n, v). (toLower n, v)) hs)) (toLower nm) of None \<Rightarrow> d | Some v \<Rightarrow> v)"
proof -
  let ?s = "fold onHeader interim s"
  let ?s1 = "?s\<lparr>headers := Map.empty, headers_complete := False\<rparr>"
  have "onHeader (''HTTP/1.1 '' @ crlf, code) ?s = ?s1" by (simp add: onHeader_def)
  moreover have "fold onHeader (map (\<lambda>(n, v). (n @ '': '' @ v @ crlf, code)) hs) ?s1
      = ?s1\<lparr>headers := map_of (rev (map (\<lambda>(n, v). (toLower n, v)) hs))\<rparr>"
    using fold_header_lines [OF assms(1), of ?s1] by simp
  moreover have "onHeader (crlf, code) x = x\<lparr>status := code, headers_complete := True\<rparr>" for x
    using assms(2) by (simp add: onHeader_def trim_def trimmed_def)
  ultimately show ?thesis by (simp add: head_lines_def getHeader_def Let_def)
qed

theorem headers_of_final_response_witness:
  "let s' = fold onHeader (head_lines 100 [] @ head_lines 200 [(''Content-Encoding'', ''zstd''), (''X-Id'', '''')]) (new_response []) in
    headers_complete s' \<and> status s' = 200 \<and> getHeader ''content-ENCODING'' ''none'' s'
      = (case map_of (rev (map (\<lambda>(n, v). (toLower n, v)) [(''Content-Encoding'', ''zstd''), (''X-Id'', '''')])) (toLower ''content-ENCODING'')
         of None \<Rightarrow> ''none'' | Some v \<Rightarrow> v)"
  by (rule headers_of_final_response) (simp_all add: header_ok_def trimmed_def)

end
