(* ===== verification/Row_Binary_Spec.thy ===== *)
theory Row_Binary_Spec
  imports Row_Binary Http_Spec
begin

text \<open>
  What the reader makes of bytes written by the format's rules: sizes in ULEB128, integers
  little-endian, a flag before each nullable value. Everything is proved for responses whose
  transfer ends well, through the interface \<open>byte_source\<close>.
\<close>

section \<open>Readers that agree with an encoding\<close>

text \<open>\<open>reads m bs a\<close>: on a good response whose text starts with \<open>bs\<close>, \<open>m\<close> consumes just
  \<open>bs\<close> and returns \<open>a\<close>.\<close>

definition reads :: "'a reader \<Rightarrow> string \<Rightarrow> 'a \<Rightarrow> bool" where
  "reads m bs a \<longleftrightarrow> (\<forall>s rest. clean s \<and> content s = bs @ rest \<longrightarrow>
     (\<exists>s'. m s = (Inr a, s') \<and> clean s' \<and> content s' = rest))"

named_theorems reads_rules \<open>readers composed\<close>

lemma reads_return [reads_rules]: "reads (rd_return a) [] a"
  by (auto simp: reads_def rd_return_def)

lemma reads_bind [reads_rules]:
  "reads m bs a \<Longrightarrow> reads (k a) cs b \<Longrightarrow> reads (rd_bind m k) (bs @ cs) b"
  unfolding reads_def
proof (intro allI impI)
  fix s rest
  assume m: "\<forall>s rest. clean s \<and> content s = bs @ rest \<longrightarrow> (\<exists>s'. m s = (Inr a, s') \<and> clean s' \<and> content s' = rest)"
    and k: "\<forall>s rest. clean s \<and> content s = cs @ rest \<longrightarrow> (\<exists>s'. k a s = (Inr b, s') \<and> clean s' \<and> content s' = rest)"
    and s: "clean s \<and> content s = (bs @ cs) @ rest"
  from m s obtain s1 where "m s = (Inr a, s1)" "clean s1" "content s1 = cs @ rest" by fastforce
  with k show "\<exists>s'. rd_bind m k s = (Inr b, s') \<and> clean s' \<and> content s' = rest" by (fastforce simp: rd_bind_def)
qed

lemma reads_bind_return: "reads m bs a \<Longrightarrow> reads (rd_bind m (\<lambda>x. rd_return (f x))) bs (f a)"
  using reads_bind [of m bs a "\<lambda>x. rd_return (f x)" "[]" "f a", OF _ reads_return [of "f a"]] by simp

lemma reads_lift: "r = Inr a \<Longrightarrow> reads (rd_lift r) [] a"
  by (auto simp: reads_def rd_lift_def)

lemma reads_bytes [reads_rules]: "n = length bs \<Longrightarrow> reads (read_bytes n) bs bs"
  unfolding reads_def by (metis http.rd_append)

lemma reads_byte [reads_rules]: "reads get_byte [c] c"
  unfolding reads_def by (metis append_Cons append_Nil http.get_Cons)

section \<open>Sizes\<close>

fun uleb :: "nat \<Rightarrow> string" where
  "uleb n = (if n < 128 then [char_of n] else char_of (128 + n mod 128) # uleb (n div 128))"

declare uleb.simps [simp del]

lemma or_segment:
  fixes t n shift :: nat
  assumes "t < 2 ^ shift"
  shows "or t (push_bit shift n) = t + n * 2 ^ shift"
proof -
  have "and t (push_bit shift n) = 0"
    using assms by (auto simp: bit_eq_iff bit_simps) (metis leD linorder_not_less nat_less_le bit_take_bit_iff take_bit_nat_eq_self)
  then show ?thesis by (simp add: disjunctive_add_eq_or [symmetric] push_bit_eq_mult)
qed

lemma drop_push [simp]: "drop_bit shift (push_bit shift n) = (n :: nat)"
  by (simp add: drop_bit_eq_div push_bit_eq_mult)

lemma readSize_loop_uleb:
  assumes "clean s" "content s = uleb n @ rest" "t < 2 ^ shift" "n * 2 ^ shift < 2 ^ 64" "n = 0 \<longrightarrow> shift < 64"
  shows "\<exists>s'. readSize_loop shift t s = (Inr (t + n * 2 ^ shift), s') \<and> clean s' \<and> content s' = rest"
  using assms
proof (induction n arbitrary: s t shift rule: uleb.induct)
  case (1 n)
  define c where "c = (if n < 128 then char_of n else char_of (128 + n mod 128) :: char)"
  define cs where "cs = (if n < 128 then [] else uleb (n div 128))"
  have code: "uleb n = c # cs" by (simp add: c_def cs_def uleb.simps [of n])
  obtain s1 where g: "get_byte s = (Inr c, s1)" "clean s1" "content s1 = cs @ rest"
    using http.get_Cons [OF "1.prems"(1), of c "cs @ rest"] "1.prems"(2) code by auto
  have chunk: "cval c mod 128 = n mod 128" and small: "cval c < 128 \<longleftrightarrow> n < 128"
    by (auto simp: c_def)
  have sh: "shift < 64"
  proof (rule ccontr)
    assume "\<not> shift < 64"
    then have "(2::nat) ^ 64 \<le> 2 ^ shift" by (intro power_increasing) simp_all
    then have "n * 2 ^ 64 < 2 ^ 64" using "1.prems"(4) mult_le_mono2 [of "2 ^ 64" "2 ^ shift" n] by linarith
    then have "n = 0" by simp
    then show False using "1.prems"(5) \<open>\<not> shift < 64\<close> by simp
  qed
  have "n mod 128 * 2 ^ shift \<le> n * 2 ^ shift" by simp
  then have "n mod 128 * 2 ^ shift < 2 ^ 64" using "1.prems"(4) by linarith
  then have seg: "take_bit 64 (push_bit shift (n mod 128)) = push_bit shift (n mod 128)"
    by (simp add: take_bit_eq_mod push_bit_eq_mult)
  show ?case
  proof (cases "n < 128")
    case True
    then have "readSize_loop shift t s = (Inr (t + n * 2 ^ shift), s1)"
      using g chunk small sh seg or_segment [OF "1.prems"(3), of n]
      by (simp add: readSize_loop.simps [of shift t s] Let_def)
    then show ?thesis using g True by (simp add: cs_def)
  next
    case False
    let ?t = "or t (push_bit shift (n mod 128))"
    have t: "?t = t + n mod 128 * 2 ^ shift" by (rule or_segment [OF "1.prems"(3)])
    have sum: "?t + n div 128 * 2 ^ (shift + 7) = t + n * 2 ^ shift"
    proof -
      define q r where "q = n div 128" and "r = n mod 128"
      have "n = q * 128 + r" by (simp add: q_def r_def)
      then have "t + r * 2 ^ shift + q * 2 ^ (shift + 7) = t + n * 2 ^ shift" by (simp add: power_add algebra_simps)
      then show ?thesis unfolding t q_def r_def .
    qed
    have "n mod 128 + 1 \<le> 128" using mod_less_divisor [of 128 n] by linarith
    then have le: "(n mod 128 + 1) * 2 ^ shift \<le> 128 * 2 ^ shift" by (rule mult_le_mono1)
    have "?t < (n mod 128 + 1) * 2 ^ shift" using "1.prems"(3) unfolding t distrib_right by linarith
    also note le
    also have "128 * 2 ^ shift = (2 :: nat) ^ (shift + 7)" by (simp add: power_add)
    finally have small_t: "?t < 2 ^ (shift + 7)" .
    have "n div 128 * 2 ^ (shift + 7) \<le> n * 2 ^ shift" using sum t by linarith
    then have bound: "n div 128 * 2 ^ (shift + 7) < 2 ^ 64" using "1.prems"(4) by linarith
    have "readSize_loop shift t s = readSize_loop (shift + 7) ?t s1"
      using g chunk small sh seg False by (simp add: readSize_loop.simps [of shift t s] Let_def)
    moreover have "\<exists>s'. readSize_loop (shift + 7) ?t s1 = (Inr (?t + n div 128 * 2 ^ (shift + 7)), s') \<and> clean s' \<and> content s' = rest"
    proof (rule "1.IH" [OF False g(2) _ small_t bound])
      show "content s1 = uleb (n div 128) @ rest" using g(3) False by (simp add: cs_def)
      have "n div 128 \<noteq> 0" using False by simp
      then show "n div 128 = 0 \<longrightarrow> shift + 7 < 64" by blast
    qed
    ultimately show ?thesis unfolding sum by simp
  qed
qed

lemma reads_size [reads_rules]: "n < 2 ^ 64 \<Longrightarrow> reads readSize (uleb n) n"
  using readSize_loop_uleb [of _ n _ 0 0] by (auto simp: reads_def readSize_def)

section \<open>Integers, strings and identifiers\<close>

fun le_bytes :: "nat \<Rightarrow> nat \<Rightarrow> string" where
  "le_bytes 0 v = []"
| "le_bytes (Suc n) v = char_of (v mod 256) # le_bytes n (v div 256)"

lemma length_le_bytes [simp]: "length (le_bytes n v) = n"
  by (induction n arbitrary: v) auto

lemma le_value_le_bytes: "le_value (le_bytes n v) = v mod 256 ^ n"
proof (induction n arbitrary: v)
  case (Suc n)
  then show ?case by (simp add: mod_mult2_eq mult.commute)
qed simp

lemma le_value_exact [simp]: "v < 256 ^ n \<Longrightarrow> le_value (le_bytes n v) = v"
  by (simp add: le_value_le_bytes)

lemma reads_unsigned [reads_rules]: "v < 256 ^ n \<Longrightarrow> reads (readPOD_unsigned n) (le_bytes n v) v"
  unfolding readPOD_unsigned_def
  using reads_bind_return [OF reads_bytes [of n "le_bytes n v"], of le_value] by simp

text \<open>Two's complement of an n-byte integer.\<close>

definition signed_bytes :: "nat \<Rightarrow> int \<Rightarrow> string" where
  "signed_bytes n v = le_bytes n (nat (v mod 256 ^ n))"

lemma signed_take_bit_mod:
  assumes "- (2 ^ k) \<le> v" "v < 2 ^ k"
  shows "signed_take_bit k (v mod 2 ^ Suc k) = (v :: int)"
  unfolding take_bit_eq_mod [symmetric] using assms
  by (simp add: signed_take_bit_take_bit signed_take_bit_int_eq_self)

lemma reads_signed [reads_rules]:
  assumes "- (2 ^ (8 * n - 1)) \<le> v" "v < 2 ^ (8 * n - 1)" "0 < n"
  shows "reads (readPOD_signed n) (signed_bytes n v) v"
proof -
  have b: "(256 :: int) ^ n = 2 ^ Suc (8 * n - 1)"
  proof -
    have "Suc (8 * n - 1) = 8 * n" using assms(3) by simp
    moreover have "(2 :: int) ^ (8 * n) = (2 ^ 8) ^ n" by (rule power_mult)
    ultimately show ?thesis by simp
  qed
  have "nat (v mod 256 ^ n) < 256 ^ n" by (simp add: nat_less_iff)
  then have "int (le_value (signed_bytes n v)) = v mod 256 ^ n"
    by (simp add: signed_bytes_def)
  then show ?thesis
    using reads_bind_return [OF reads_bytes [of n "signed_bytes n v"], of "\<lambda>bs. signed_take_bit (8 * n - 1) (int (le_value bs))"]
      signed_take_bit_mod [OF assms(1,2)]
    by (simp add: readPOD_signed_def signed_bytes_def b)
qed

definition string_bytes :: "string \<Rightarrow> string" where
  "string_bytes v = uleb (length v) @ v"

lemma reads_sized [reads_rules]: "n = length v \<Longrightarrow> length v \<le> string_max_size \<Longrightarrow> reads (readValue_sized n) v v"
  by (simp add: readValue_sized_def reads_bytes)

lemma reads_string [reads_rules]:
  assumes "length v \<le> string_max_size"
  shows "reads readValue_string (string_bytes v) v"
proof -
  have "length v < 2 ^ 64" using assms by (simp add: string_max_size_def)
  then show ?thesis
    unfolding readValue_string_def string_bytes_def
    by (intro reads_bind [OF reads_size reads_sized]) (use assms in simp_all)
qed

lemma reads_bool: "reads readValue_bool [if b then CHR 0x01 else CHR 0x00] b"
  unfolding readValue_bool_def
  using reads_bind_return [OF reads_byte [of "if b then CHR 0x01 else CHR 0x00"], of "\<lambda>c. c \<noteq> ch_nul"]
  by (cases b) simp_all

text \<open>
  A UUID is sent as two 64-bit integers, the high half first. The halves of the struct: the high
  one is \<open>Data1 Data2 Data3\<close>, the low one the bytes of \<open>Data4\<close> read as a big-endian number.
\<close>

definition uuid_high :: "nat \<Rightarrow> nat \<Rightarrow> nat \<Rightarrow> nat" where
  "uuid_high d1 d2 d3 = (d1 * 2 ^ 16 + d2) * 2 ^ 16 + d3"

definition uuid_bytes :: "nat \<Rightarrow> nat \<Rightarrow> nat \<Rightarrow> string \<Rightarrow> string" where
  "uuid_bytes d1 d2 d3 d4 = le_bytes 8 (uuid_high d1 d2 d3) @ le_bytes 8 (le_value (rev d4))"

lemma le_bytes_append: "le_bytes (m + n) v = le_bytes m v @ le_bytes n (v div 256 ^ m)"
  by (induction m arbitrary: v) (simp_all add: div_mult2_eq)

lemma le_bytes_mod: "le_bytes n (v mod 256 ^ n) = le_bytes n v"
proof (induction n arbitrary: v)
  case (Suc n)
  have "v mod 256 ^ Suc n mod 256 = v mod 256" by (simp add: mod_mod_cancel)
  moreover have "v mod 256 ^ Suc n div 256 = v div 256 mod 256 ^ n" by (simp add: mod_mult2_eq)
  ultimately show ?case using Suc by simp
qed simp

lemma le_bytes_le_value: "le_bytes (length bs) (le_value bs) = bs"
  by (induction bs) simp_all

lemma shifted: "d < m \<Longrightarrow> (a * m + d) mod m = d" "d < m \<Longrightarrow> (a * m + d) div m = a" for a d m :: nat
  by simp_all

lemma uuid_high_bytes:
  assumes "d1 < 2 ^ 32" "d2 < 2 ^ 16" "d3 < 2 ^ 16"
  shows "le_bytes 8 (uuid_high d1 d2 d3) = le_bytes 2 d3 @ le_bytes 2 d2 @ le_bytes 4 d1"
proof -
  have "le_bytes 8 v = le_bytes 2 v @ le_bytes 2 (v div 2 ^ 16) @ le_bytes 4 (v div 2 ^ 16 div 2 ^ 16)" for v
    using le_bytes_append [of 2 6 v] le_bytes_append [of 2 4 "v div 2 ^ 16"] by simp
  moreover have "uuid_high d1 d2 d3 div 2 ^ 16 = d1 * 2 ^ 16 + d2" "(d1 * 2 ^ 16 + d2) div 2 ^ 16 = d1"
    unfolding uuid_high_def by (rule shifted(2) [OF assms(3)]) (rule shifted(2) [OF assms(2)])
  moreover have "le_bytes 2 (a * 2 ^ 16 + d) = le_bytes 2 d" if "d < 2 ^ 16" for a d
    using le_bytes_mod [of 2 "a * 2 ^ 16 + d"] shifted(1) [OF that, of a] by simp
  ultimately show ?thesis using assms by (simp only: uuid_high_def)
qed

lemma reads_UUID [reads_rules]:
  assumes "d1 < 2 ^ 32" "d2 < 2 ^ 16" "d3 < 2 ^ 16" "length d4 = 8"
  shows "reads readValue_UUID (uuid_bytes d1 d2 d3 d4) (UUID_field d1 d2 d3 d4)"
proof -
  let ?buf = "le_bytes 2 d3 @ le_bytes 2 d2 @ le_bytes 4 d1 @ rev d4"
  have "uuid_bytes d1 d2 d3 d4 = ?buf"
    using uuid_high_bytes [OF assms(1-3)] le_bytes_le_value [of "rev d4"] assms(4) by (simp add: uuid_bytes_def)
  moreover have "reads readValue_UUID ?buf (UUID_field d1 d2 d3 d4)"
    using reads_bind_return [OF reads_bytes [of 16 ?buf], of "\<lambda>buf. UUID_field (le_value (take 4 (drop 4 buf)))
      (le_value (take 2 (drop 2 buf))) (le_value (take 2 buf)) (rev (drop 8 buf))"] assms
    by (simp add: readValue_UUID_def Let_def)
  ultimately show ?thesis by simp
qed

section \<open>Fields\<close>

text \<open>
  The bytes of a value of a column; \<open>None\<close> where the value is not one of the column's type.
\<close>

definition number_bytes :: "nat \<Rightarrow> int \<Rightarrow> string option" where
  "number_bytes n v = (if - (2 ^ (8 * n - 1)) \<le> v \<and> v < 2 ^ (8 * n - 1) then Some (signed_bytes n v) else None)"

definition natural_bytes :: "nat \<Rightarrow> nat \<Rightarrow> string option" where
  "natural_bytes n v = (if v < 256 ^ n then Some (le_bytes n v) else None)"

definition decimal_bytes :: "ColumnInfo \<Rightarrow> nat \<Rightarrow> nat \<Rightarrow> nat \<Rightarrow> int \<Rightarrow> string option" where
  "decimal_bytes col v sg p sc =
     (let n = (if col_precision col < 10 then 4 else 8) in
      if p = col_precision col \<and> sc = signed_take_bit 15 (int (col_scale col)) \<and> col_precision col < 19
        \<and> v < 2 ^ (8 * n - 1) \<and> (sg = 1 \<or> sg = 0 \<and> 0 < v)
      then Some (signed_bytes n (if sg = 1 then int v else - int v)) else None)"

fun field_bytes :: "ColumnInfo \<Rightarrow> field \<Rightarrow> string option" where
  "field_bytes col (Date_int tz v) = (if tz = timezone col \<and> type_without_parameters_id col = Date then natural_bytes 2 v else None)"
| "field_bytes col (DateTime_int tz v) = (if tz = timezone col \<and> type_without_parameters_id col = DateTime then natural_bytes 4 v else None)"
| "field_bytes col (DateTime64_int tz v p) =
     (if tz = timezone col \<and> type_without_parameters_id col = DateTime64 \<and> p = col_precision col then number_bytes 8 v else None)"
| "field_bytes col (Decimal_field t v sg p sc) =
     (if type_without_parameters_id col = t \<and> t \<in> {Decimal, Decimal32, Decimal64} then decimal_bytes col v sg p sc else None)"
| "field_bytes col (Int_field t v) =
     (if type_without_parameters_id col = t then
        (case t of Int8 \<Rightarrow> number_bytes 1 v | Int16 \<Rightarrow> number_bytes 2 v | Int32 \<Rightarrow> number_bytes 4 v
         | Int64 \<Rightarrow> number_bytes 8 v | _ \<Rightarrow> None) else None)"
| "field_bytes col (UInt_field t v) =
     (if type_without_parameters_id col = t then
        (case t of UInt8 \<Rightarrow> natural_bytes 1 v | UInt16 \<Rightarrow> natural_bytes 2 v | UInt32 \<Rightarrow> natural_bytes 4 v
         | UInt64 \<Rightarrow> natural_bytes 8 v | _ \<Rightarrow> None) else None)"
| "field_bytes col (Float_field t v) =
     (if type_without_parameters_id col = t then
        (case t of Float32 \<Rightarrow> natural_bytes 4 v | Float64 \<Rightarrow> natural_bytes 8 v | _ \<Rightarrow> None) else None)"
| "field_bytes col (String_field t v) =
     (if type_without_parameters_id col = t \<and> length v \<le> string_max_size then
        (case t of String \<Rightarrow> Some (string_bytes v)
         | FixedString \<Rightarrow> if length v = fixed_size col then Some v else None | _ \<Rightarrow> None) else None)"
| "field_bytes col (UUID_field d1 d2 d3 d4) =
     (if type_without_parameters_id col = UUID \<and> d1 < 2 ^ 32 \<and> d2 < 2 ^ 16 \<and> d3 < 2 ^ 16 \<and> length d4 = 8
      then Some (uuid_bytes d1 d2 d3 d4) else None)"
| "field_bytes col (Any_field v) = None"
| "field_bytes col (Bool_field v) = None"
| "field_bytes col Null_field = (if type_without_parameters_id col = Nothing then Some [] else None)"

definition wire_bytes :: "ColumnInfo \<Rightarrow> field \<Rightarrow> string option" where
  "wire_bytes col f =
     (if col_is_nullable col then
        (if f = Null_field then Some [CHR 0x01] else map_option (Cons ch_nul) (field_bytes col f))
      else field_bytes col f)"

definition field_note :: "field \<Rightarrow> ColumnInfo \<Rightarrow> ColumnInfo" where
  "field_note f col = (case f of String_field t v \<Rightarrow> note_size v col | _ \<Rightarrow> col)"

lemma reads_field: "reads m bs v \<Longrightarrow> reads (rd_field mk col m) bs (mk v, col)"
  unfolding rd_field_def by (rule reads_bind_return)

lemma reads_natural: "natural_bytes n v = Some bs \<Longrightarrow> reads (rd_field mk col (readPOD_unsigned n)) bs (mk v, col)"
  by (auto simp: natural_bytes_def intro!: reads_field reads_unsigned split: if_splits)

lemma reads_number: "number_bytes n v = Some bs \<Longrightarrow> 0 < n \<Longrightarrow> reads (rd_field mk col (readPOD_signed n)) bs (mk v, col)"
  by (auto simp: number_bytes_def intro!: reads_field reads_signed split: if_splits)

lemma reads_decimal:
  assumes "decimal_bytes col v sg p sc = Some bs"
  shows "reads (readValue_Decimal col) bs (Decimal_field (type_without_parameters_id col) v sg p sc)"
proof -
  define n where "n = (if col_precision col < 10 then 4 else 8 :: nat)"
  let ?v = "if sg = 1 then int v else - int v"
  have ok: "p = col_precision col" "sc = signed_take_bit 15 (int (col_scale col))" "col_precision col < 19"
      "v < 2 ^ (8 * n - 1)" "sg = 1 \<or> sg = 0 \<and> 0 < v" "bs = signed_bytes n ?v"
    using assms by (auto simp: decimal_bytes_def Let_def n_def split: if_splits)
  have "int v < 2 ^ (8 * n - 1)" using ok(4) by (simp add: n_def split: if_splits)
  then have "reads (readPOD_signed n) bs ?v"
    unfolding ok(6) by (intro reads_signed) (auto simp: n_def)
  moreover have "?v \<noteq> - (2 ^ (8 * n - 1))"
  proof -
    define X :: int where "X = 2 ^ (8 * n - 1)"
    have "0 < X" "int v < X" using \<open>int v < 2 ^ (8 * n - 1)\<close> by (simp_all add: X_def)
    then show ?thesis unfolding X_def [symmetric] by (cases "sg = 1") auto
  qed
  then have "decimal_of n col ?v = Inr (Decimal_field (type_without_parameters_id col) v sg p sc)"
    using ok(1,2,5) by (auto simp: decimal_of_def Let_def)
  ultimately have "reads (rd_bind (readPOD_signed n) (\<lambda>v. rd_lift (decimal_of n col v))) (bs @ []) (Decimal_field (type_without_parameters_id col) v sg p sc)"
    by (intro reads_bind reads_lift)
  then show ?thesis using ok(3) by (auto simp: readValue_Decimal_def n_def split: if_splits)
qed

lemma reads_typed:
  assumes "field_bytes col f = Some bs"
  shows "reads (readValue_typed col) bs (f, field_note f col)"
proof (cases f)
  case Null_field
  then show ?thesis using assms reads_return by (auto simp: readValue_typed_def field_note_def split: if_splits)
next
  case (Decimal_field t v sg p sc)
  then show ?thesis
    using assms reads_field [OF reads_decimal, of col v sg p sc bs id]
    by (auto simp: readValue_typed_def field_note_def split: if_splits)
next
  case (String_field t v)
  then have t: "type_without_parameters_id col = t" "length v \<le> string_max_size"
    using assms by (simp_all split: if_splits)
  then consider "t = String" "bs = string_bytes v" | "t = FixedString" "bs = v" "length v = fixed_size col"
    using assms String_field by (auto split: DataSourceTypeId.splits if_splits)
  then show ?thesis
  proof cases
    case 1
    then show ?thesis
      using reads_bind_return [OF reads_string [OF t(2)], of "\<lambda>v. (String_field String v, note_size v col)"] t(1) String_field
      by (simp add: readValue_typed_def field_note_def)
  next
    case 2
    then show ?thesis
      using reads_bind_return [OF reads_sized [of "fixed_size col" v], of "\<lambda>v. (String_field FixedString v, note_size v col)"] t String_field
      by (simp add: readValue_typed_def field_note_def)
  qed
next
  case (UUID_field d1 d2 d3 d4)
  then show ?thesis
    using assms reads_field [OF reads_UUID, of d1 d2 d3 d4 id]
    by (auto simp: readValue_typed_def field_note_def split: if_splits)
qed (use assms in \<open>auto simp: readValue_typed_def field_note_def split: if_splits DataSourceTypeId.splits
   intro: reads_natural reads_number\<close>)

lemma reads_wire:
  assumes "wire_bytes col f = Some bs"
  shows "reads (readValue_field col) bs (f, field_note f col)"
proof (cases "col_is_nullable col")
  case True
  let ?k = "\<lambda>is_null. if is_null then rd_return (Null_field, col) else readValue_typed col"
  show ?thesis
  proof (cases "f = Null_field")
    case True
    then show ?thesis
      using assms \<open>col_is_nullable col\<close> reads_bind [OF reads_bool [of True], of ?k "[]" "(Null_field, col)"] reads_return [of "(Null_field, col)"]
      by (simp add: readValue_field_def wire_bytes_def field_note_def)
  next
    case False
    then obtain bs' where "field_bytes col f = Some bs'" "bs = ch_nul # bs'"
      using assms \<open>col_is_nullable col\<close> by (auto simp: wire_bytes_def)
    then show ?thesis
      using \<open>col_is_nullable col\<close> reads_bind [OF reads_bool [of False], of ?k bs'] reads_typed [of col f bs']
      by (simp add: readValue_field_def)
  qed
next
  case False
  then show ?thesis using assms reads_typed by (simp add: readValue_field_def wire_bytes_def)
qed

section \<open>Rows\<close>

text \<open>The bytes of a row, with the columns as they are after each field (their display sizes grow).\<close>

fun row_bytes :: "ColumnInfo list \<Rightarrow> field list \<Rightarrow> string option" where
  "row_bytes [] [] = Some []"
| "row_bytes (col # cols) (f # fs) =
     (case (wire_bytes col f, row_bytes cols fs) of (Some a, Some b) \<Rightarrow> Some (a @ b) | _ \<Rightarrow> None)"
| "row_bytes _ _ = None"

lemma read_fields_row:
  assumes "row_bytes cols fs = Some bs" "length row = length cols" "clean s" "content s = bs @ rest"
  shows "\<exists>s'. read_fields row cols s = (Inr (), fs, map2 field_note fs cols, s') \<and> clean s' \<and> content s' = rest"
  using assms
proof (induction cols fs arbitrary: row bs s rule: row_bytes.induct)
  case (2 col cols f fs)
  then obtain a b where ab: "wire_bytes col f = Some a" "row_bytes cols fs = Some b" "bs = a @ b"
    by (auto split: option.splits)
  from "2.prems"(2) obtain f0 row' where row: "row = f0 # row'" "length row' = length cols" by (cases row) auto
  from reads_wire [OF ab(1)] "2.prems"(3,4) ab(3) obtain s1 where
    s1: "readValue_field col s = (Inr (f, field_note f col), s1)" "clean s1" "content s1 = b @ rest"
    by (auto simp: reads_def)
  from "2.IH" [OF ab(2) row(2) s1(2,3)] show ?case using s1(1) row(1) by auto
qed auto

text \<open>The columns after reading some rows.\<close>

fun noted :: "field list list \<Rightarrow> ColumnInfo list \<Rightarrow> ColumnInfo list" where
  "noted [] cols = cols"
| "noted (r # rs) cols = noted rs (map2 field_note r cols)"

lemma field_note_simps [simp]:
  "type_without_parameters_id (field_note f col) = type_without_parameters_id col"
  "col_is_nullable (field_note f col) = col_is_nullable col" "fixed_size (field_note f col) = fixed_size col"
  "col_precision (field_note f col) = col_precision col" "col_scale (field_note f col) = col_scale col" "timezone (field_note f col) = timezone col"
  by (simp_all add: field_note_def note_size_def split: field.splits)

lemma field_bytes_note [simp]: "field_bytes (field_note g col) f = field_bytes col f"
  by (cases f) (simp_all add: decimal_bytes_def)

lemma row_bytes_note [simp]:
  "length gs = length cols \<Longrightarrow> row_bytes (map2 field_note gs cols) fs = row_bytes cols fs"
proof (induction gs cols arbitrary: fs rule: list_induct2)
  case (Cons g gs col cols)
  then show ?case by (cases fs) (simp_all add: wire_bytes_def)
qed simp

lemma row_bytes_length: "row_bytes cols fs = Some bs \<Longrightarrow> length fs = length cols"
  by (induction cols fs arbitrary: bs rule: row_bytes.induct) (auto split: option.splits)

text \<open>Reading rows until the end of the response.\<close>

inductive reads_rows :: "ColumnInfo list \<Rightarrow> http_response \<Rightarrow> field list list \<Rightarrow> ColumnInfo list \<Rightarrow> bool" where
  reads_end: "readNextRow row cols s = (Inr False, row, cols', s') \<Longrightarrow> length row = length cols \<Longrightarrow> reads_rows cols s [] cols'"
| reads_row: "readNextRow row cols s = (Inr True, r, cols', s') \<Longrightarrow> length row = length cols \<Longrightarrow> reads_rows cols' s' rs cols''
    \<Longrightarrow> reads_rows cols s (r # rs) cols''"

lemma reads_rows_of_bytes:
  assumes "list_all (\<lambda>r. \<exists>b. b \<noteq> [] \<and> row_bytes cols r = Some b) rows"
    and "clean s" "content s = concat (map (\<lambda>r. the (row_bytes cols r)) rows)"
  shows "reads_rows cols s rows (noted rows cols)"
  using assms
proof (induction rows arbitrary: cols s)
  case Nil
  obtain s' where "at_eof s = (Inr True, s')" using http.eof_good [OF Nil(2)] Nil(3) by auto
  then show ?case by (intro reads_end [of "map (\<lambda>_. Null_field) cols" _ _ _ s']) (simp_all add: readNextRow_def)
next
  case (Cons r rows)
  then obtain b where b: "b \<noteq> []" "row_bytes cols r = Some b" by auto
  let ?rest = "concat (map (\<lambda>r. the (row_bytes cols r)) rows)"
  have c: "content s = b @ ?rest" using Cons.prems(3) b(2) by simp
  obtain s1 where s1: "at_eof s = (Inr False, s1)" "clean s1" "content s1 = b @ ?rest"
    using http.eof_good [OF Cons.prems(2)] c b(1) by auto
  let ?row = "map (\<lambda>_. Null_field) cols"
  let ?cols = "map2 field_note r cols"
  have len: "length r = length cols" using row_bytes_length [OF b(2)] .
  obtain s2 where s2: "read_fields ?row cols s1 = (Inr (), r, ?cols, s2)" "clean s2" "content s2 = ?rest"
    using read_fields_row [OF b(2) _ s1(2,3), of ?row] by auto
  have "readNextRow ?row cols s = (Inr True, r, ?cols, s2)"
    using s1(1) s2(1) by (simp add: readNextRow_def)
  moreover have "reads_rows ?cols s2 rows (noted rows ?cols)"
    by (rule Cons.IH) (use Cons.prems(1) s2(2,3) len in \<open>simp_all add: list_all_iff\<close>)
  ultimately show ?case using reads_row [of ?row cols s r ?cols s2 rows] by simp
qed

lemma readNextRow_unique:
  assumes "readNextRow row cols s = (Inr b, r', cols', s')" "length row = length cols"
    and "clean s" "content s = bs @ rest" "row_bytes cols r = Some bs" "bs \<noteq> []"
  shows "b \<and> r' = r \<and> cols' = map2 field_note r cols \<and> clean s' \<and> content s' = rest"
proof -
  obtain s1 where s1: "at_eof s = (Inr False, s1)" "clean s1" "content s1 = bs @ rest"
    using http.eof_good [OF assms(3)] assms(4,6) by auto
  show ?thesis
    using read_fields_row [OF assms(5,2) s1(2,3)] assms(1) s1(1) by (auto simp: readNextRow_def)
qed

lemma reads_rows_unique:
  assumes "reads_rows cols s rows' cols'"
    and "list_all (\<lambda>r. \<exists>b. b \<noteq> [] \<and> row_bytes cols r = Some b) rows"
    and "clean s" "content s = concat (map (\<lambda>r. the (row_bytes cols r)) rows)"
  shows "rows' = rows"
  using assms
proof (induction arbitrary: rows rule: reads_rows.induct)
  case (reads_end row cols s cols' s')
  show ?case
  proof (cases rows)
    case (Cons r rs)
    with reads_end.prems obtain b where b: "b \<noteq> []" "row_bytes cols r = Some b" by auto
    from readNextRow_unique [OF reads_end.hyps _ _ b(2,1)] reads_end.prems Cons b show ?thesis by auto
  qed simp
next
  case (reads_row row cols s r cols' s' rs cols'')
  show ?case
  proof (cases rows)
    case Nil
    then obtain s1 where "at_eof s = (Inr True, s1)" using http.eof_good [OF reads_row.prems(2)] reads_row.prems(3) by auto
    then show ?thesis using reads_row.hyps(1) by (simp add: readNextRow_def)
  next
    case (Cons q qs)
    with reads_row.prems obtain b where b: "b \<noteq> []" "row_bytes cols q = Some b" by auto
    have u: "r = q \<and> cols' = map2 field_note q cols \<and> clean s' \<and> content s' = concat (map (\<lambda>r. the (row_bytes cols r)) qs)"
      using readNextRow_unique [OF reads_row.hyps(1,2) reads_row.prems(2) _ b(2,1), of "concat (map (\<lambda>r. the (row_bytes cols r)) qs)"]
        reads_row.prems(3) Cons b by simp
    have "rs = qs"
      by (rule reads_row.IH) (use u reads_row.prems(1) Cons row_bytes_length [OF b(2)] in \<open>simp_all add: list_all_iff\<close>)
    then show ?thesis using u Cons by simp
  qed
qed

section \<open>The header\<close>

definition header_bytes :: "(string \<times> string) list \<Rightarrow> string" where
  "header_bytes nts = uleb (length nts) @ concat (map (string_bytes \<circ> fst) nts) @ concat (map (string_bytes \<circ> snd) nts)"

lemma reads_times:
  "list_all (\<lambda>v. length v \<le> string_max_size) vs \<Longrightarrow>
    reads (rd_times (length vs) readValue_string) (concat (map string_bytes vs)) vs"
proof (induction vs)
  case (Cons v vs)
  then have "reads readValue_string (string_bytes v) v" "reads (rd_times (length vs) readValue_string) (concat (map string_bytes vs)) vs"
    by (simp_all add: reads_string)
  then show ?case using reads_bind [OF _ reads_bind_return, of readValue_string "string_bytes v" v] by simp
qed (simp add: reads_return)

lemma reads_types:
  assumes "length cols = length nts" "list_all (\<lambda>nt. length (snd nt) \<le> string_max_size) nts"
    and "\<forall>i < length nts. typed_column tz (fst (nts ! i)) (snd (nts ! i)) = Inr (cols ! i)"
  shows "reads (read_types tz (map fst nts)) (concat (map (string_bytes \<circ> snd) nts)) cols"
  using assms
proof (induction cols nts rule: list_induct2)
  case (Cons col cols nt nts)
  have here: "typed_column tz (fst nt) (snd nt) = Inr col" using Cons.prems(2) [rule_format, of 0] by simp
  have "\<forall>i < length nts. typed_column tz (fst (nts ! i)) (snd (nts ! i)) = Inr (cols ! i)"
    using Cons.prems(2) [rule_format, of "Suc _"] by simp
  then have ih: "reads (read_types tz (map fst nts)) (concat (map (string_bytes \<circ> snd) nts)) cols"
    using Cons.IH Cons.prems(1) by (simp add: comp_def)
  have "reads (rd_bind (rd_lift (typed_column tz (fst nt) (snd nt))) (\<lambda>col. rd_bind (read_types tz (map fst nts)) (\<lambda>cols. rd_return (col # cols))))
      ([] @ concat (map (string_bytes \<circ> snd) nts)) (col # cols)"
    by (rule reads_bind [OF reads_lift [OF here] reads_bind_return [OF ih]])
  from reads_bind [where m = readValue_string and a = "snd nt" and bs = "string_bytes (snd nt)"
      and k = "\<lambda>ty. rd_bind (rd_lift (typed_column tz (fst nt) ty)) (\<lambda>col. rd_bind (read_types tz (map fst nts)) (\<lambda>cols. rd_return (col # cols)))", OF _ this]
  show ?case using Cons.prems(1) reads_string [of "snd nt"] by (simp add: comp_def)
qed (simp add: reads_return)

lemma reads_header:
  assumes "length nts < 2 ^ 64" "length cols = length nts"
    and "list_all (\<lambda>nt. length (fst nt) \<le> string_max_size \<and> length (snd nt) \<le> string_max_size) nts"
    and "\<forall>i < length nts. typed_column tz (fst (nts ! i)) (snd (nts ! i)) = Inr (cols ! i)"
  shows "reads (readHeader tz) (header_bytes nts) cols"
proof -
  have "reads (rd_times (length nts) readValue_string) (concat (map (string_bytes \<circ> fst) nts)) (map fst nts)"
    using reads_times [of "map fst nts"] assms(3) by (simp add: list_all_iff)
  moreover have "reads (read_types tz (map fst nts)) (concat (map (string_bytes \<circ> snd) nts)) cols"
    by (rule reads_types) (use assms in \<open>simp_all add: list_all_iff\<close>)
  ultimately show ?thesis
    unfolding readHeader_def header_bytes_def by (intro reads_bind [OF reads_size [OF assms(1)]] reads_bind)
qed

section \<open>Properties\<close>

text \<open>A response in RowBinaryWithNamesAndTypes is read back exactly: its columns, then its rows in order,
  as many as were written and no more, for every decodable type, Null values included, whatever
  pieces the network cut it into.\<close>

theorem row_binary_roundtrip:
  assumes "clean s" "content s = header_bytes nts @ concat (map (\<lambda>r. the (row_bytes cols r)) rows)"
    and "length nts < 2 ^ 64" "length cols = length nts"
    and "list_all (\<lambda>nt. length (fst nt) \<le> string_max_size \<and> length (snd nt) \<le> string_max_size) nts"
    and "\<forall>i < length nts. typed_column tz (fst (nts ! i)) (snd (nts ! i)) = Inr (cols ! i)"
    and "list_all (\<lambda>r. \<exists>b. b \<noteq> [] \<and> row_bytes cols r = Some b) rows"
  shows "\<exists>s' cols'. readHeader tz s = (Inr cols, s') \<and> reads_rows cols s' rows cols'
    \<and> (\<forall>rows' cols'. reads_rows cols s' rows' cols' \<longrightarrow> rows' = rows)"
proof -
  from reads_header [OF assms(3-6)] assms(1,2) obtain s' where
    "readHeader tz s = (Inr cols, s')" "clean s'" "content s' = concat (map (\<lambda>r. the (row_bytes cols r)) rows)"
    by (auto simp: reads_def)
  then show ?thesis using reads_rows_of_bytes [OF assms(7)] reads_rows_unique [OF _ assms(7)] by blast
qed

definition sample_column :: ColumnInfo where
  "sample_column = fresh_ColumnInfo\<lparr>col_name := ''x'', col_type := ''Nullable(Int32)'', type_without_parameters := ''Int32'',
     type_without_parameters_id := Int32, col_is_nullable := True, display_size := 11\<rparr>"


theorem row_binary_roundtrip_witness:
  "let s = (new_response [])\<lparr>is_done := True,
      raw := header_bytes [(''x'', ''Nullable(Int32)'')] @ concat (map (\<lambda>r. the (row_bytes [sample_column] r)) [[Int_field Int32 (-5)], [Null_field]])\<rparr> in
    \<exists>s' cols'. readHeader ''UTC'' s = (Inr [sample_column], s') \<and> reads_rows [sample_column] s' [[Int_field Int32 (-5)], [Null_field]] cols'
      \<and> (\<forall>rows' cols'. reads_rows [sample_column] s' rows' cols' \<longrightarrow> rows' = [[Int_field Int32 (-5)], [Null_field]])"
  unfolding Let_def
proof (rule row_binary_roundtrip)
  have "typed_column ''UTC'' ''x'' ''Nullable(Int32)'' = Inr sample_column"
    by code_simp
  then show "\<forall>i < length [(''x'', ''Nullable(Int32)'')]. typed_column ''UTC'' (fst ([(''x'', ''Nullable(Int32)'')] ! i))
      (snd ([(''x'', ''Nullable(Int32)'')] ! i)) = Inr ([sample_column] ! i)" by simp
  show "list_all (\<lambda>r. \<exists>b. b \<noteq> [] \<and> row_bytes [sample_column] r = Some b) [[Int_field Int32 (- 5)], [Null_field]]"
    by (simp add: wire_bytes_def sample_column_def number_bytes_def)
qed (simp_all add: clean_def new_response_def total_def content_def string_max_size_def)

text \<open>Columns of the types Bool, Date32, Time and Array cannot be read, whatever their bytes, although
  the catalog knows these types and the driver itself types date parameters as Date32.\<close>

theorem undecodable_types:
  assumes "type_without_parameters_id col \<in> {Bool, Date32, Time, DataSourceTypeId.Array}" "\<not> col_is_nullable col"
  shows "readValue_field col s = (Inl (unable_to_decode col), s)"
  using assms by (auto simp: readValue_field_def readValue_typed_def rd_throw_def)

theorem undecodable_types_witness:
  "readValue_field (sample_column\<lparr>type_without_parameters_id := Date32, col_is_nullable := False\<rparr>) (new_response [])
    = (Inl (unable_to_decode (sample_column\<lparr>type_without_parameters_id := Date32, col_is_nullable := False\<rparr>)), new_response [])"
  by (rule undecodable_types) (simp_all add: sample_column_def)

lemma readSize_loop_padding:
  assumes "clean s" "content s = replicate k (CHR 0x80) @ rest" "shift + 7 * k < 71"
  shows "\<exists>s'. readSize_loop shift t s = readSize_loop (shift + 7 * k) t s' \<and> clean s' \<and> content s' = rest"
  using assms
proof (induction k arbitrary: s shift)
  case (Suc k)
  obtain s1 where g: "get_byte s = (Inr (CHR 0x80), s1)" "clean s1" "content s1 = replicate k (CHR 0x80) @ rest"
    using http.get_Cons [OF Suc.prems(1), of "CHR 0x80" "replicate k (CHR 0x80) @ rest"] Suc.prems(2) by auto
  have "readSize_loop shift t s = readSize_loop (shift + 7) t s1"
    using g(1) Suc.prems(3) by (simp add: readSize_loop.simps [of shift t s] Let_def)
  then show ?case using Suc.IH [OF g(2,3), of "shift + 7"] Suc.prems(3) by (simp add: algebra_simps)
qed auto

text \<open>The check against sizes that are too big does not catch a padded size of more than ten bytes:
  the eleventh byte is shifted by 70 bits, which has no meaning.\<close>

theorem overlong_size_undefined:
  assumes "clean s" "content s = replicate 10 (CHR 0x80) @ c # rest"
  shows "\<exists>s'. readSize s = (Inl (Undefined_Behaviour ''shift by 64 or more''), s')"
proof -
  obtain s1 where s1: "readSize s = readSize_loop 70 0 s1" "clean s1" "content s1 = c # rest"
    using readSize_loop_padding [OF assms, of 0 0] by (auto simp: readSize_def)
  obtain s2 where "get_byte s1 = (Inr c, s2)" by (rule http.get_Cons [OF s1(2,3)])
  then show ?thesis
    using s1(1) by (auto simp: readSize_loop.simps [of 70 0 s1] Let_def)
qed

theorem overlong_size_undefined_witness:
  "\<exists>s'. readSize ((new_response [])\<lparr>is_done := True, raw := replicate 10 (CHR 0x80) @ CHR 0x01 # []\<rparr>)
     = (Inl (Undefined_Behaviour ''shift by 64 or more''), s')"
  by (rule overlong_size_undefined [of _ "CHR 0x01" "[]"]) (simp_all add: clean_def new_response_def total_def content_def)

text \<open>A column of type LowCardinality(Nullable(String)) is taken for a plain String: the flag the server
  sends before a value that is not Null is read as the size of an empty string, and the
  value itself stays in the stream, where the next field will be read from it.\<close>

theorem low_cardinality_nullable_misread:
  assumes "clean s" "content s = ch_nul # string_bytes v @ rest"
  shows "\<exists>col s'. typed_column tz ''x'' ''LowCardinality(Nullable(String))'' = Inr col
    \<and> readValue_field col s = (Inr (String_field String [], note_size [] col), s')
    \<and> clean s' \<and> content s' = string_bytes v @ rest"
proof -
  let ?col = "fresh_ColumnInfo\<lparr>col_name := ''x'', col_type := ''LowCardinality(Nullable(String))'',
     type_without_parameters := ''String'', type_without_parameters_id := String\<rparr>"
  have col: "typed_column tz ''x'' ''LowCardinality(Nullable(String))'' = Inr ?col"
    by code_simp
  have "wire_bytes ?col (String_field String []) = Some [ch_nul]"
    by (simp add: wire_bytes_def fresh_ColumnInfo_def string_bytes_def uleb.simps string_max_size_def) code_simp
  from reads_wire [OF this] assms obtain s' where
    "readValue_field ?col s = (Inr (String_field String [], field_note (String_field String []) ?col), s')" "clean s'"
    "content s' = string_bytes v @ rest" by (auto simp: reads_def)
  then show ?thesis using col by (auto simp: field_note_def)
qed

theorem low_cardinality_nullable_misread_witness:
  "\<exists>col s'. typed_column ''UTC'' ''x'' ''LowCardinality(Nullable(String))'' = Inr col
    \<and> readValue_field col ((new_response [])\<lparr>is_done := True, raw := ch_nul # string_bytes ''ab'' @ []\<rparr>)
        = (Inr (String_field String [], note_size [] col), s')
    \<and> clean s' \<and> content s' = string_bytes ''ab'' @ []"
  by (rule low_cardinality_nullable_misread) (simp_all add: clean_def new_response_def total_def content_def)

end
