(* ===== verification/Result_Set.thy ===== *)
theory Result_Set
  imports Row_Binary_Spec
begin

text \<open>
  The rows of a result set: \<open>ResultSet\<close> of driver/result_set.cpp. \<open>readNextRow\<close> is virtual
  there and an argument here, and so is the mutator (\<open>transformRow\<close>), which some catalog
  functions install. Rows that were delivered go to a pool and are used again; what recycling a
  string does to a field of such a row is the argument \<open>recycle\<close>.
\<close>

section \<open>State and operations\<close>

type_synonym row = "field list"
type_synonym 's next_row = "row \<Rightarrow> ColumnInfo list \<Rightarrow> 's \<Rightarrow> bool result \<times> row \<times> ColumnInfo list \<times> 's"
type_synonym row_mutator = "ColumnInfo list \<Rightarrow> row \<Rightarrow> unit result \<times> row"

record 's result_set =
  source :: 's
  columns_info :: "ColumnInfo list"
  row_set :: "row list"
  row_set_position :: nat
  row_position :: nat
  affected_row_count :: nat
  prefetched_rows :: "row list"
  finished :: bool
  row_pool :: "row list"

abbreviation (input) SQL_FETCH_NEXT :: int where "SQL_FETCH_NEXT \<equiv> 1"

definition pool_max_size :: nat where
  "pool_max_size = 1000000"

definition pool_put :: "'a \<Rightarrow> 'a list \<Rightarrow> 'a list" where
  "pool_put obj cache = (let c = cache @ [obj] in drop (length c - pool_max_size) c)"

definition pool_get :: "'a \<Rightarrow> 'a list \<Rightarrow> 'a \<times> 'a list" where
  "pool_get fresh0 cache = (case cache of [] \<Rightarrow> (fresh0, []) | obj # rest \<Rightarrow> (obj, rest))"

definition retireRow :: "(field \<Rightarrow> field) \<Rightarrow> row \<Rightarrow> 's result_set \<Rightarrow> 's result_set" where
  "retireRow recycle r rs = rs\<lparr>row_pool := pool_put (map recycle r) (row_pool rs)\<rparr>"

definition resize_row :: "nat \<Rightarrow> row \<Rightarrow> row" where
  "resize_row n r = take n r @ replicate (n - length r) Null_field"

text \<open>Display sizes, once the rows have all been seen.\<close>

definition adjust_display_size :: "ColumnInfo \<Rightarrow> ColumnInfo" where
  "adjust_display_size col =
     (if 0 < display_size_so_far col then
        if display_size col = SQL_NO_TOTAL then col\<lparr>display_size := int (display_size_so_far col)\<rparr>
        else if display_size col < int (display_size_so_far col)
          \<and> type_without_parameters_id col \<in> {String, FixedString}
        then col\<lparr>display_size := int (display_size_so_far col)\<rparr>
        else col
      else col)"

text \<open>One round of \<open>tryPrefetchRows\<close>; the flag says whether the loop goes on.\<close>

definition prefetch_row :: "'s next_row \<Rightarrow> row_mutator option \<Rightarrow> (field \<Rightarrow> field) \<Rightarrow> 's result_set
    \<Rightarrow> bool result \<times> 's result_set" where
  "prefetch_row nextRow mut recycle rs =
     (let (r0, pool) = pool_get [] (row_pool rs);
          (res, r, cols, s) = nextRow (resize_row (length (columns_info rs)) r0) (columns_info rs) (source rs);
          rs1 = rs\<lparr>source := s, columns_info := cols, row_pool := pool\<rparr> in
      case res of
        Inl e \<Rightarrow> (Inl e, rs1\<lparr>prefetched_rows := prefetched_rows rs @ [r]\<rparr>)
      | Inr False \<Rightarrow>
          (Inr False, (retireRow recycle r rs1)\<lparr>columns_info := map adjust_display_size cols, finished := True\<rparr>)
      | Inr True \<Rightarrow>
          (case mut of
             None \<Rightarrow> (Inr True, rs1\<lparr>prefetched_rows := prefetched_rows rs @ [r]\<rparr>)
           | Some transformRow \<Rightarrow>
               (let (m, r') = transformRow cols r in
                (bind_result m (\<lambda>_. Inr True), rs1\<lparr>prefetched_rows := prefetched_rows rs @ [r']\<rparr>))))"

text \<open>At most \<open>size\<close> rounds are made: each that goes on adds a row.\<close>

fun prefetch_rounds :: "nat \<Rightarrow> 's next_row \<Rightarrow> row_mutator option \<Rightarrow> (field \<Rightarrow> field) \<Rightarrow> nat \<Rightarrow> 's result_set
    \<Rightarrow> unit result \<times> 's result_set" where
  "prefetch_rounds 0 nextRow mut recycle sz rs = (Inr (), rs)"
| "prefetch_rounds (Suc n) nextRow mut recycle sz rs =
     (if \<not> finished rs \<and> length (prefetched_rows rs) < sz then
        (case prefetch_row nextRow mut recycle rs of
           (Inl e, rs') \<Rightarrow> (Inl e, rs')
         | (Inr False, rs') \<Rightarrow> (Inr (), rs')
         | (Inr True, rs') \<Rightarrow> prefetch_rounds n nextRow mut recycle sz rs')
      else (Inr (), rs))"

definition tryPrefetchRows :: "'s next_row \<Rightarrow> row_mutator option \<Rightarrow> (field \<Rightarrow> field) \<Rightarrow> nat \<Rightarrow> 's result_set
    \<Rightarrow> unit result \<times> 's result_set" where
  "tryPrefetchRows nextRow mut recycle sz rs = prefetch_rounds sz nextRow mut recycle sz rs"

definition retire_row_set :: "(field \<Rightarrow> field) \<Rightarrow> 's result_set \<Rightarrow> 's result_set" where
  "retire_row_set recycle rs =
     (fold (retireRow recycle) (row_set rs) rs)
       \<lparr>row_set := [], row_set_position := row_set_position rs + length (row_set rs)\<rparr>"

definition take_row_set :: "nat \<Rightarrow> 's result_set \<Rightarrow> 's result_set" where
  "take_row_set sz rs =
     (let rows = take sz (prefetched_rows rs);
          pos = (if rows = [] then 0 else if row_set_position rs = 0 then 1 else row_set_position rs) in
      rs\<lparr>row_set := rows, prefetched_rows := drop sz (prefetched_rows rs),
        affected_row_count := affected_row_count rs + length rows,
        row_set_position := pos, row_position := pos\<rparr>)"

definition fetchRowSet :: "'s next_row \<Rightarrow> row_mutator option \<Rightarrow> (field \<Rightarrow> field) \<Rightarrow> int \<Rightarrow> int \<Rightarrow> nat \<Rightarrow> 's result_set
    \<Rightarrow> nat result \<times> 's result_set" where
  "fetchRowSet nextRow mut recycle orientation offset sz rs =
     (if orientation \<noteq> SQL_FETCH_NEXT then (Inl (SqlException ''Fetch type out of range'' ''HY106''), rs)
      else
        (let rs1 = retire_row_set recycle rs;
             (r, rs2) = (if length (prefetched_rows rs1) < sz
               then tryPrefetchRows nextRow mut recycle (max sz 100) rs1 else (Inr (), rs1)) in
         case r of
           Inl e \<Rightarrow> (Inl e, rs2)
         | Inr _ \<Rightarrow> (let rs3 = take_row_set sz rs2 in (Inr (length (row_set rs3)), rs3))))"

definition getCurrentRowPosition :: "'s result_set \<Rightarrow> nat" where
  "getCurrentRowPosition rs =
     (if row_position rs < row_set_position rs \<or> row_set_position rs + length (row_set rs) \<le> row_position rs
      then 0 else row_position rs)"

definition getColumnInfo :: "'s result_set \<Rightarrow> nat \<Rightarrow> ColumnInfo result" where
  "getColumnInfo rs column_idx =
     (if length (columns_info rs) \<le> column_idx then Inl (SqlException ''Invalid descriptor index'' ''07009'')
      else Inr (columns_info rs ! column_idx))"

text \<open>The field \<open>extractField\<close> hands to the conversions.\<close>

definition field_at :: "'s result_set \<Rightarrow> nat \<Rightarrow> nat \<Rightarrow> field result" where
  "field_at rs row_idx column_idx =
     (if length (row_set rs) \<le> row_idx then Inl (SqlException ''Invalid cursor position'' ''HY109'')
      else if length (row_set rs ! row_idx) \<le> column_idx then Inl (SqlException ''Invalid descriptor index'' ''07009'')
      else Inr (row_set rs ! row_idx ! column_idx))"

text \<open>The result set of a RowBinaryWithNamesAndTypes response.\<close>

definition RowBinaryResultSet :: "string \<Rightarrow> http_response \<Rightarrow> http_response result_set result" where
  "RowBinaryResultSet tz s =
     (let (r, s') = readHeader tz s in
      bind_result r (\<lambda>cols. Inr \<lparr>source = s', columns_info = cols, row_set = [], row_set_position = 0,
        row_position = 0, affected_row_count = 0, prefetched_rows = [], finished = (cols = []), row_pool = []\<rparr>))"

text \<open>A client that fetches row sets of the given sizes.\<close>

fun fetches :: "'s next_row \<Rightarrow> (field \<Rightarrow> field) \<Rightarrow> nat list \<Rightarrow> 's result_set \<Rightarrow> row list list \<times> 's result_set" where
  "fetches nextRow recycle [] rs = ([], rs)"
| "fetches nextRow recycle (n # ns) rs =
     (let rs' = snd (fetchRowSet nextRow None recycle SQL_FETCH_NEXT 0 n rs);
          (sets, rs'') = fetches nextRow recycle ns rs' in (row_set rs' # sets, rs''))"

fun pieces :: "nat list \<Rightarrow> 'a list \<Rightarrow> 'a list list" where
  "pieces [] xs = []"
| "pieces (n # ns) xs = take n xs # pieces ns (drop n xs)"

section \<open>Sources of rows\<close>

text \<open>
  The contract of \<open>readNextRow\<close>: \<open>yields cols s rows\<close> says that the source still has just
  these rows; the number of columns stays.
\<close>

locale row_source =
  fixes nextRow :: "'s next_row"
    and yields :: "ColumnInfo list \<Rightarrow> 's \<Rightarrow> row list \<Rightarrow> bool"
  assumes next_end: "yields cols s [] \<Longrightarrow> length r = length cols \<Longrightarrow>
      \<exists>r' s'. nextRow r cols s = (Inr False, r', cols, s')"
    and next_row: "yields cols s (x # xs) \<Longrightarrow> length r = length cols \<Longrightarrow>
      \<exists>cols' s'. nextRow r cols s = (Inr True, x, cols', s') \<and> yields cols' s' xs \<and> length cols' = length cols"
begin

definition pending :: "'s result_set \<Rightarrow> row list \<Rightarrow> bool" where
  "pending rs rows \<longleftrightarrow> (\<exists>rest. rows = prefetched_rows rs @ rest \<and>
     (if finished rs then rest = [] else yields (columns_info rs) (source rs) rest))"

lemma length_resize [simp]: "length (resize_row n r) = n"
  by (simp add: resize_row_def)

lemma prefetch_row_pending:
  assumes "pending rs rows" "\<not> finished rs"
  shows "\<exists>b rs'. prefetch_row nextRow None recycle rs = (Inr b, rs') \<and> pending rs' rows
    \<and> row_set rs' = row_set rs \<and> row_set_position rs' = row_set_position rs \<and> affected_row_count rs' = affected_row_count rs
    \<and> (if b then length (prefetched_rows rs') = Suc (length (prefetched_rows rs)) \<and> \<not> finished rs'
       else finished rs' \<and> prefetched_rows rs' = rows)"
proof -
  obtain rest where rest: "rows = prefetched_rows rs @ rest" "yields (columns_info rs) (source rs) rest"
    using assms by (auto simp: pending_def)
  obtain r0 pool where get: "pool_get [] (row_pool rs) = (r0, pool)" by fastforce
  let ?r = "resize_row (length (columns_info rs)) r0"
  show ?thesis
  proof (cases rest)
    case Nil
    then obtain r' s' where "nextRow ?r (columns_info rs) (source rs) = (Inr False, r', columns_info rs, s')"
      using next_end [of "columns_info rs" "source rs" ?r] rest by auto
    then show ?thesis
      using rest Nil get by (auto simp: prefetch_row_def pending_def retireRow_def Let_def)
  next
    case (Cons x xs)
    then obtain cols' s' where "nextRow ?r (columns_info rs) (source rs) = (Inr True, x, cols', s')" "yields cols' s' xs"
      using next_row [of "columns_info rs" "source rs" x xs ?r] rest by auto
    then show ?thesis
      using rest Cons get assms(2) by (auto simp: prefetch_row_def pending_def Let_def)
  qed
qed

lemma prefetch_rounds_pending:
  assumes "pending rs rows" "sz \<le> n + length (prefetched_rows rs)"
  shows "\<exists>rs'. prefetch_rounds n nextRow None recycle sz rs = (Inr (), rs') \<and> pending rs' rows
    \<and> row_set rs' = row_set rs \<and> row_set_position rs' = row_set_position rs \<and> affected_row_count rs' = affected_row_count rs
    \<and> (sz \<le> length (prefetched_rows rs') \<or> finished rs')"
  using assms
proof (induction n arbitrary: rs)
  case (Suc n)
  show ?case
  proof (cases "\<not> finished rs \<and> length (prefetched_rows rs) < sz")
    case True
    then obtain b rs' where p: "prefetch_row nextRow None recycle rs = (Inr b, rs')" "pending rs' rows"
      "row_set rs' = row_set rs" "row_set_position rs' = row_set_position rs" "affected_row_count rs' = affected_row_count rs"
      "if b then length (prefetched_rows rs') = Suc (length (prefetched_rows rs)) \<and> \<not> finished rs'
       else finished rs' \<and> prefetched_rows rs' = rows"
      using prefetch_row_pending [OF Suc.prems(1), of recycle] by blast
    then show ?thesis
      using Suc.IH [OF p(2)] Suc.prems(2) True by (cases b) auto
  next
    case False
    then show ?thesis using Suc.prems by auto
  qed
qed auto

lemma pending_prefetched:
  assumes "pending rs rows" "sz \<le> length (prefetched_rows rs) \<or> finished rs"
  shows "take sz (prefetched_rows rs) = take sz rows"
  using assms by (auto simp: pending_def)

lemma fold_retire [simp]:
  "prefetched_rows (fold (retireRow recycle) l rs) = prefetched_rows rs"
  "finished (fold (retireRow recycle) l rs) = finished rs" "source (fold (retireRow recycle) l rs) = source rs"
  "columns_info (fold (retireRow recycle) l rs) = columns_info rs"
  "affected_row_count (fold (retireRow recycle) l rs) = affected_row_count rs"
  by (induction l arbitrary: rs) (simp_all add: retireRow_def)

text \<open>One fetch takes the next rows of those that are left.\<close>

lemma fetchRowSet_pending:
  assumes "pending rs rows"
  shows "\<exists>rs'. fetchRowSet nextRow None recycle SQL_FETCH_NEXT offset sz rs = (Inr (length (row_set rs')), rs')
    \<and> row_set rs' = take sz rows \<and> pending rs' (drop sz rows)
    \<and> affected_row_count rs' = affected_row_count rs + length (row_set rs')
    \<and> row_set_position rs' = (if row_set rs' = [] then 0
         else let p = row_set_position rs + length (row_set rs) in if p = 0 then 1 else p)
    \<and> row_position rs' = row_set_position rs'"
proof -
  let ?rs1 = "retire_row_set recycle rs"
  have r1: "pending ?rs1 rows" "row_set_position ?rs1 = row_set_position rs + length (row_set rs)"
    "affected_row_count ?rs1 = affected_row_count rs"
    using assms by (auto simp: pending_def retire_row_set_def split: if_splits)
  obtain rs2 where r2: "(if length (prefetched_rows ?rs1) < sz
        then tryPrefetchRows nextRow None recycle (max sz 100) ?rs1 else (Inr (), ?rs1)) = (Inr (), rs2)"
      "pending rs2 rows" "row_set_position rs2 = row_set_position ?rs1" "affected_row_count rs2 = affected_row_count rs"
      "sz \<le> length (prefetched_rows rs2) \<or> finished rs2"
  proof (cases "length (prefetched_rows ?rs1) < sz")
    case True
    then show thesis
      using that prefetch_rounds_pending [OF r1(1), of "max sz 100" "max sz 100" recycle] r1
      by (auto simp: tryPrefetchRows_def)
  next
    case False
    then show thesis using that [of ?rs1] r1 by simp
  qed
  have t: "take sz (prefetched_rows rs2) = take sz rows" by (rule pending_prefetched [OF r2(2,5)])
  have "pending (take_row_set sz rs2) (drop sz rows)"
    using r2(2,5) by (auto simp: pending_def take_row_set_def Let_def)
  moreover have "fetchRowSet nextRow None recycle SQL_FETCH_NEXT offset sz rs
      = (Inr (length (row_set (take_row_set sz rs2))), take_row_set sz rs2)"
    using r2(1) by (simp add: fetchRowSet_def Let_def)
  ultimately show ?thesis
    using t r2(3,4) r1(2) by (intro exI [of _ "take_row_set sz rs2"]) (auto simp: take_row_set_def Let_def)
qed

text \<open>Fetches in a row cut the rows into consecutive pieces.\<close>

lemma fetches_pending:
  assumes "pending rs rows"
  shows "\<exists>rs'. fetches nextRow recycle ns rs = (pieces ns rows, rs') \<and> pending rs' (drop (sum_list ns) rows)"
  using assms
proof (induction ns arbitrary: rs rows)
  case (Cons n ns)
  obtain rs' where rs': "fetchRowSet nextRow None recycle SQL_FETCH_NEXT 0 n rs = (Inr (length (row_set rs')), rs')"
      "row_set rs' = take n rows" "pending rs' (drop n rows)"
    using fetchRowSet_pending [OF Cons.prems] by blast
  from Cons.IH [OF rs'(3)] show ?case using rs'(1,2) by (auto simp: add.commute)
qed simp

end

section \<open>Responses in RowBinaryWithNamesAndTypes as sources\<close>

definition row_binary_yields :: "ColumnInfo list \<Rightarrow> http_response \<Rightarrow> row list \<Rightarrow> bool" where
  "row_binary_yields cols s rows \<longleftrightarrow> list_all (\<lambda>r. \<exists>b. b \<noteq> [] \<and> row_bytes cols r = Some b) rows
     \<and> clean s \<and> content s = concat (map (\<lambda>r. the (row_bytes cols r)) rows)"

interpretation rb: row_source readNextRow row_binary_yields
proof
  fix cols s and r :: row
  assume "row_binary_yields cols s []"
  then show "\<exists>r' s'. readNextRow r cols s = (Inr False, r', cols, s')"
    using http.eof_good [of s] by (auto simp: row_binary_yields_def readNextRow_def)
next
  fix cols s x xs and r :: row
  assume y: "row_binary_yields cols s (x # xs)" and len: "length r = length cols"
  then obtain b where b: "b \<noteq> []" "row_bytes cols x = Some b" by (auto simp: row_binary_yields_def)
  obtain res r' cols' s' where n: "readNextRow r cols s = (res, r', cols', s')" by (metis prod_cases4)
  let ?rest = "concat (map (\<lambda>r. the (row_bytes cols r)) xs)"
  have c: "clean s" "content s = b @ ?rest" using y b(2) by (simp_all add: row_binary_yields_def)
  obtain s1 where s1: "at_eof s = (Inr False, s1)" "clean s1" "content s1 = b @ ?rest"
    using http.eof_good [OF c(1)] c(2) b(1) by auto
  have xl: "length x = length cols" using row_bytes_length [OF b(2)] .
  have "readNextRow r cols s = (Inr True, x, map2 field_note x cols, snd (snd (snd (readNextRow r cols s))))
    \<and> clean (snd (snd (snd (readNextRow r cols s)))) \<and> content (snd (snd (snd (readNextRow r cols s)))) = ?rest"
    using read_fields_row [OF b(2) len s1(2,3)] s1(1) by (auto simp: readNextRow_def)
  then show "\<exists>cols' s'. readNextRow r cols s = (Inr True, x, cols', s') \<and> row_binary_yields cols' s' xs \<and> length cols' = length cols"
    using y xl by (intro exI [of _ "map2 field_note x cols"] exI conjI) (auto simp: row_binary_yields_def)
qed

section \<open>Properties\<close>

text \<open>C15: From the bytes of the network to the row sets: when a response in RowBinaryWithNamesAndTypes ends
  well, its result set is created, and the rows that fetches of any sizes return are the rows that
  were written, in order, cut at these sizes, however rows are prefetched and recycled.\<close>

theorem fetched_rows_of_response:
  assumes "clean s" "content s = header_bytes nts @ concat (map (\<lambda>r. the (row_bytes cols r)) rows)"
    and "length nts < 2 ^ 64" "length cols = length nts" "nts \<noteq> []"
    and "list_all (\<lambda>nt. length (fst nt) \<le> string_max_size \<and> length (snd nt) \<le> string_max_size) nts"
    and "\<forall>i < length nts. typed_column tz (fst (nts ! i)) (snd (nts ! i)) = Inr (cols ! i)"
    and "list_all (\<lambda>r. \<exists>b. b \<noteq> [] \<and> row_bytes cols r = Some b) rows"
  shows "\<exists>rs. RowBinaryResultSet tz s = Inr rs \<and> (\<forall>recycle ns. fst (fetches readNextRow recycle ns rs) = pieces ns rows)"
proof -
  from reads_header [OF assms(3,4,6,7)] assms(1,2) obtain s' where
    h: "readHeader tz s = (Inr cols, s')" "clean s'" "content s' = concat (map (\<lambda>r. the (row_bytes cols r)) rows)"
    by (auto simp: reads_def)
  obtain rs where rs: "RowBinaryResultSet tz s = Inr rs" "rb.pending rs rows"
    using h assms(4,5,8) by (cases cols) (auto simp: RowBinaryResultSet_def rb.pending_def row_binary_yields_def)
  then show ?thesis using rb.fetches_pending [OF rs(2)] by (metis fst_conv)
qed


theorem fetched_rows_of_response_witness:
  "\<exists>rs. RowBinaryResultSet ''UTC'' ((new_response [])\<lparr>is_done := True,
      raw := header_bytes [(''x'', ''Nullable(Int32)'')]
        @ concat (map (\<lambda>r. the (row_bytes [sample_column] r)) [[Int_field Int32 (- 5)], [Null_field]])\<rparr>) = Inr rs
    \<and> (\<forall>recycle ns. fst (fetches readNextRow recycle ns rs) = pieces ns [[Int_field Int32 (- 5)], [Null_field]])"
proof (rule fetched_rows_of_response [where cols = "[sample_column]" and nts = "[(''x'', ''Nullable(Int32)'')]"])
  have "typed_column ''UTC'' ''x'' ''Nullable(Int32)'' = Inr sample_column"
    by code_simp
  then show "\<forall>i < length [(''x'', ''Nullable(Int32)'')]. typed_column ''UTC'' (fst ([(''x'', ''Nullable(Int32)'')] ! i))
      (snd ([(''x'', ''Nullable(Int32)'')] ! i)) = Inr ([sample_column] ! i)" by simp
  show "list_all (\<lambda>r. \<exists>b. b \<noteq> [] \<and> row_bytes [sample_column] r = Some b) [[Int_field Int32 (- 5)], [Null_field]]"
    by (simp add: wire_bytes_def sample_column_def number_bytes_def)
qed (simp_all add: clean_def new_response_def total_def content_def string_max_size_def)

definition sample_failing :: "http_response result_set" where
  "sample_failing = \<lparr>source = (new_response [])\<lparr>is_done := True, window := [CHR 0x05]\<rparr>,
     columns_info = [fresh_ColumnInfo\<lparr>type_without_parameters_id := Date32\<rparr>], row_set = [], row_set_position = 0,
     row_position = 0, affected_row_count = 0, prefetched_rows = [], finished = False, row_pool = []\<rparr>"

definition position_ok :: "'s result_set \<Rightarrow> bool" where
  "position_ok rs \<longleftrightarrow>
     (if row_set rs = []
      then row_set_position rs = affected_row_count rs + 1
        \<or> row_set_position rs = 0 \<and> (affected_row_count rs = 0 \<or> prefetched_rows rs = [] \<and> finished rs)
      else row_set_position rs + length (row_set rs) = affected_row_count rs + 1)"

lemma prefetch_row_frame:
  assumes "prefetch_row nextRow mut recycle rs = (res, rs')"
  shows "row_set rs' = row_set rs" "row_set_position rs' = row_set_position rs" "affected_row_count rs' = affected_row_count rs"
    "res = Inr True \<Longrightarrow> length (prefetched_rows rs') = Suc (length (prefetched_rows rs))"
    "res = Inr False \<Longrightarrow> finished rs'"
  using assms
  by (auto simp: prefetch_row_def retireRow_def Let_def bind_result_def split: prod.splits sum.splits bool.splits option.splits)

lemma prefetch_rounds_frame:
  "prefetch_rounds n nextRow mut recycle sz rs = (res, rs') \<Longrightarrow>
     row_set rs' = row_set rs \<and> row_set_position rs' = row_set_position rs \<and> affected_row_count rs' = affected_row_count rs
     \<and> (finished rs \<longrightarrow> rs' = rs)
     \<and> (res = Inr () \<and> sz \<le> n + length (prefetched_rows rs) \<longrightarrow> sz \<le> length (prefetched_rows rs') \<or> finished rs')"
proof (induction n nextRow mut recycle sz rs rule: prefetch_rounds.induct)
  case (2 n nextRow mut recycle sz rs)
  show ?case
  proof (cases "\<not> finished rs \<and> length (prefetched_rows rs) < sz")
    case True
    obtain r rs1 where r: "prefetch_row nextRow mut recycle rs = (r, rs1)" by fastforce
    note f = prefetch_row_frame [OF r]
    show ?thesis
    proof (cases r)
      case (Inr b)
      then show ?thesis using "2.prems" "2.IH" [OF True r [symmetric]] f r True by (cases b) auto
    qed (use "2.prems" r f True in auto)
  qed (use "2.prems" in auto)
qed auto

lemma fold_retire_frame [simp]:
  "row_set (fold (retireRow recycle) l rs) = row_set rs"
  "row_set_position (fold (retireRow recycle) l rs) = row_set_position rs"
  by (induction l arbitrary: rs) (simp_all add: retireRow_def)

lemma position_ok_retire:
  "position_ok rs \<Longrightarrow> position_ok (retire_row_set recycle rs) \<and> row_set (retire_row_set recycle rs) = []"
  by (auto simp: position_ok_def retire_row_set_def split: if_splits)

lemma position_ok_take:
  assumes "position_ok rs" "row_set rs = []" "0 < sz" "sz \<le> length (prefetched_rows rs) \<or> finished rs"
  shows "position_ok (take_row_set sz rs)
    \<and> getCurrentRowPosition (take_row_set sz rs) =
        (if row_set (take_row_set sz rs) = [] then 0
         else affected_row_count (take_row_set sz rs) + 1 - length (row_set (take_row_set sz rs)))"
  using assms
  by (cases "prefetched_rows rs") (auto simp: position_ok_def take_row_set_def getCurrentRowPosition_def Let_def split: if_splits)

text \<open>Whatever the source and the mutator do, and errors included, a fetch of a nonempty size keeps the
  position of the row set consistent with the count of delivered rows, and the current row is the
  first of the set.\<close>

theorem fetchRowSet_position:
  assumes "position_ok rs" "0 < sz" "fetchRowSet nextRow mut recycle orientation offset sz rs = (res, rs')"
  shows "position_ok rs' \<and> (case res of Inl _ \<Rightarrow> True
    | Inr n \<Rightarrow> getCurrentRowPosition rs' = (if n = 0 then 0 else affected_row_count rs' + 1 - n))"
proof (cases "orientation = SQL_FETCH_NEXT")
  case True
  let ?rs1 = "retire_row_set recycle rs"
  have r1: "position_ok ?rs1" "row_set ?rs1 = []" using position_ok_retire [OF assms(1)] by simp_all
  obtain r rs2 where r2: "(if length (prefetched_rows ?rs1) < sz
        then tryPrefetchRows nextRow mut recycle (max sz 100) ?rs1 else (Inr (), ?rs1)) = (r, rs2)" by fastforce
  have f: "row_set rs2 = row_set ?rs1" "row_set_position rs2 = row_set_position ?rs1"
    "affected_row_count rs2 = affected_row_count ?rs1" "finished ?rs1 \<longrightarrow> rs2 = ?rs1"
    "r = Inr () \<longrightarrow> sz \<le> length (prefetched_rows rs2) \<or> finished rs2"
    using r2 prefetch_rounds_frame [of "max sz 100" nextRow mut recycle "max sz 100" ?rs1 r rs2]
    by (auto simp: tryPrefetchRows_def split: if_splits)
  have p2: "position_ok rs2" "row_set rs2 = []" using r1 f(1-4) by (auto simp: position_ok_def)
  show ?thesis
  proof (cases r)
    case Inl
    then show ?thesis using assms(3) r2 True p2(1) by (auto simp: fetchRowSet_def Let_def)
  next
    case (Inr u)
    then show ?thesis using assms(3) r2 True position_ok_take [OF p2 assms(2)] f(5) by (auto simp: fetchRowSet_def Let_def)
  qed
qed (use assms in \<open>auto simp: fetchRowSet_def\<close>)

theorem fetchRowSet_position_witness:
  "position_ok (take_row_set 2 (sample_failing\<lparr>prefetched_rows := [[], []]\<rparr>)) \<and> (case Inr 2 :: nat result of Inl _ \<Rightarrow> True
    | Inr n \<Rightarrow> getCurrentRowPosition (take_row_set 2 (sample_failing\<lparr>prefetched_rows := [[], []]\<rparr>))
        = (if n = 0 then 0 else affected_row_count (take_row_set 2 (sample_failing\<lparr>prefetched_rows := [[], []]\<rparr>)) + 1 - n))"
  by (rule fetchRowSet_position [of "sample_failing\<lparr>prefetched_rows := [[], []]\<rparr>" 2 readNextRow None id 1 0])
    (simp_all add: position_ok_def fetchRowSet_def retire_row_set_def take_row_set_def sample_failing_def Let_def)

text \<open>A row that could not be read is delivered as good by the next fetch: it stays among the prefetched
  rows when \<open>readNextRow\<close> throws.\<close>

theorem failed_row_is_delivered:
  assumes "row_set rs = []" "prefetched_rows rs = []" "\<not> finished rs" "0 < sz"
    and "nextRow (resize_row (length (columns_info rs)) (fst (pool_get [] (row_pool rs)))) (columns_info rs) (source rs) = (Inl e, r, cols, s)"
  shows "\<exists>rs1 rs2. fetchRowSet nextRow mut recycle SQL_FETCH_NEXT offset sz rs = (Inl e, rs1)
    \<and> fetchRowSet nextRow mut recycle SQL_FETCH_NEXT offset 1 rs1 = (Inr 1, rs2) \<and> row_set rs2 = [r]"
proof -
  obtain k where k: "max sz 100 = Suc k" using assms(4) by (metis Suc_pred max.strict_coboundedI1)
  have "retire_row_set recycle rs = rs" using assms(1) by (simp add: retire_row_set_def)
  moreover obtain rs1 where "prefetch_row nextRow mut recycle rs = (Inl e, rs1)" "prefetched_rows rs1 = [r]" "row_set rs1 = []"
    using assms(1,2,5) by (cases "pool_get [] (row_pool rs)") (simp add: prefetch_row_def)
  ultimately have rs1: "fetchRowSet nextRow mut recycle SQL_FETCH_NEXT offset sz rs = (Inl e, rs1)"
      "prefetched_rows rs1 = [r]" "row_set rs1 = []"
    using assms(2-4) by (simp_all add: fetchRowSet_def tryPrefetchRows_def k)
  then have "fetchRowSet nextRow mut recycle SQL_FETCH_NEXT offset 1 rs1 = (Inr 1, take_row_set 1 rs1)" "row_set (take_row_set 1 rs1) = [r]"
    by (simp_all add: fetchRowSet_def retire_row_set_def take_row_set_def Let_def)
  with rs1(1) show ?thesis by blast
qed

theorem failed_row_is_delivered_witness:
  "\<exists>rs1 rs2. fetchRowSet readNextRow None id SQL_FETCH_NEXT 0 3 sample_failing
      = (Inl (unable_to_decode (fresh_ColumnInfo\<lparr>type_without_parameters_id := Date32\<rparr>)), rs1)
    \<and> fetchRowSet readNextRow None id SQL_FETCH_NEXT 0 1 rs1 = (Inr 1, rs2) \<and> row_set rs2 = [[Null_field]]"
  by (rule failed_row_is_delivered [where s = "source sample_failing" and cols = "columns_info sample_failing"])
    (simp_all add: sample_failing_def readNextRow_def at_eof_def readValue_field_def readValue_typed_def fresh_ColumnInfo_def
      rd_throw_def pool_get_def resize_row_def new_response_def bind_result_def Let_def)

end
