(* ===== verification/Value_Conv.thy ===== *)
theory Value_Conv
  imports Exceptions
begin

text \<open>
  Values from text to numbers and back: the specialisations of \<open>value_manip::from_value\<close> of
  driver/utils/type_info.h for \<open>std::string\<close>, the decimal types and \<open>SQL_NUMERIC_STRUCT\<close>. A
  w-bit integer is an \<open>int\<close> or \<open>nat\<close> of its range.
\<close>

section \<open>Text to integers\<close>

text \<open>
  What \<open>std::stoll\<close> and \<open>std::stoull\<close> (base 10) read: white space, a sign, digits. The result
  says whether the sign is a minus, the digits, and how many characters were read.
\<close>

definition scan_integer :: "string \<Rightarrow> bool \<times> string \<times> nat" where
  "scan_integer s =
     (let s1 = dropWhile isspace s;
          s2 = (case s1 of c # cs \<Rightarrow> if c = CHR ''-'' \<or> c = CHR ''+'' then cs else s1 | [] \<Rightarrow> []);
          ds = takeWhile isdigit s2 in
      (s1 \<noteq> [] \<and> hd s1 = CHR ''-'', ds, length s - length s2 + length ds))"

definition stoll :: "string \<Rightarrow> (int \<times> nat) result" where
  "stoll s =
     (let (neg, ds, pos) = scan_integer s;
          v = (if neg then - int (digits_value ds) else int (digits_value ds)) in
      if ds = [] then Inl (Runtime_Error ''stoll'')
      else if v < - (2 ^ 63) \<or> 2 ^ 63 \<le> v then Inl (Out_Of_Range ''stoll'')
      else Inr (v, pos))"

text \<open>\<open>strtoull\<close> negates after a minus, modulo \<open>2 ^ 64\<close>.\<close>

definition stoull :: "string \<Rightarrow> (nat \<times> nat) result" where
  "stoull s =
     (let (neg, ds, pos) = scan_integer s; v = digits_value ds in
      if ds = [] then Inl (Runtime_Error ''stoull'')
      else if 2 ^ 64 \<le> v then Inl (Out_Of_Range ''stoull'')
      else Inr (if neg then (2 ^ 64 - v) mod 2 ^ 64 else v, pos))"

definition cannot_interpret :: "string \<Rightarrow> string \<Rightarrow> string \<Rightarrow> exn" where
  "cannot_interpret src ty why = Runtime_Error (''Cannot interpret '' @ quoted src @ '' as '' @ ty @ '': '' @ why)"

definition string_to_int64 :: "string \<Rightarrow> int result" where
  "string_to_int64 src =
     (case stoll src of
        Inl _ \<Rightarrow> Inl (cannot_interpret src ''signed 64-bit integer'' ''stoll'')
      | Inr (v, pos) \<Rightarrow>
          if pos \<noteq> length src then Inl (cannot_interpret src ''signed 64-bit integer'' ''string consumed partially'')
          else Inr v)"

definition string_to_uint64 :: "string \<Rightarrow> nat result" where
  "string_to_uint64 src =
     (case stoull src of
        Inl _ \<Rightarrow> Inl (cannot_interpret src ''unsigned 64-bit integer'' ''stoull'')
      | Inr (v, pos) \<Rightarrow>
          if pos \<noteq> length src then Inl (cannot_interpret src ''unsigned 64-bit integer'' ''string consumed partially'')
          else Inr v)"

text \<open>The narrower types: \<open>w\<close> is 32, 16 or 8.\<close>

definition string_to_int :: "nat \<Rightarrow> string \<Rightarrow> int result" where
  "string_to_int w src =
     bind_result (string_to_int64 src) (\<lambda>tmp.
       if 2 ^ (w - 1) \<le> tmp \<or> tmp < - (2 ^ (w - 1))
       then Inl (cannot_interpret src (''signed '' @ show_nat w @ ''-bit integer'') ''value out of range'')
       else Inr tmp)"

definition string_to_uint :: "nat \<Rightarrow> string \<Rightarrow> nat result" where
  "string_to_uint w src =
     bind_result (string_to_uint64 src) (\<lambda>tmp.
       if 2 ^ w \<le> tmp then Inl (cannot_interpret src (''unsigned '' @ show_nat w @ ''-bit integer'') ''value out of range'')
       else Inr tmp)"

section \<open>Decimals\<close>

text \<open>\<open>DataSourceType<Decimal>\<close>: a 64-bit value without the point, the sign (1 for plus), and 16-bit precision and scale.\<close>

record decimal =
  dec_value :: nat
  dec_sign :: int
  dec_precision :: int
  dec_scale :: int

definition dec_max :: nat where
  "dec_max = 2 ^ 64 - 1"

definition dec_int16 :: "nat \<Rightarrow> int" where
  "dec_int16 n = signed_take_bit 15 (int n)"

definition not_decimal :: "string \<Rightarrow> exn" where
  "not_decimal src = Runtime_Error (''Cannot interpret '' @ quoted src @ '' as Decimal/Numeric'')"

definition too_big_decimal :: "string \<Rightarrow> exn" where
  "too_big_decimal src =
     Runtime_Error (''Cannot interpret '' @ quoted src @ '' as Decimal/Numeric: value is too big for internal representation'')"

text \<open>The loop over the characters; the flags are those of the code.\<close>

record decimal_scan =
  sc_value :: nat
  sc_sign :: int
  left_n :: nat
  right_n :: nat
  sign_met :: bool
  dot_met :: bool
  dig_met :: bool

definition decimal_digit :: "string \<Rightarrow> nat \<Rightarrow> decimal_scan \<Rightarrow> decimal_scan result" where
  "decimal_digit src d st =
     (let v = sc_value st; v10 = (if v \<noteq> 0 then 10 * v else v) in
      if v \<noteq> 0 \<and> dec_max div 10 < v then Inl (too_big_decimal src)
      else if d \<noteq> 0 \<and> dec_max - d < v10 then Inl (too_big_decimal src)
      else Inr (if dot_met st then st\<lparr>sc_value := v10 + d, right_n := right_n st + 1, dig_met := True\<rparr>
                else st\<lparr>sc_value := v10 + d, left_n := left_n st + 1, dig_met := True\<rparr>))"

definition decimal_char :: "string \<Rightarrow> char \<Rightarrow> decimal_scan \<Rightarrow> decimal_scan result" where
  "decimal_char src ch st =
     (if ch = CHR ''+'' \<or> ch = CHR ''-'' then
        (if sign_met st \<or> dot_met st \<or> dig_met st then Inl (not_decimal src)
         else Inr (st\<lparr>sc_sign := (if ch = CHR ''-'' then 0 else sc_sign st), sign_met := True\<rparr>))
      else if ch = CHR ''.'' then (if dot_met st then Inl (not_decimal src) else Inr (st\<lparr>dot_met := True\<rparr>))
      else if isdigit ch then decimal_digit src (digit_val ch) st
      else Inl (not_decimal src))"

fun decimal_chars :: "string \<Rightarrow> string \<Rightarrow> decimal_scan \<Rightarrow> decimal_scan result" where
  "decimal_chars src [] st = Inr st"
| "decimal_chars src (ch # cs) st = bind_result (decimal_char src ch st) (decimal_chars src cs)"

definition string_to_decimal :: "string \<Rightarrow> decimal result" where
  "string_to_decimal src =
     bind_result (decimal_chars src src \<lparr>sc_value = 0, sc_sign = 1, left_n = 0, right_n = 0,
         sign_met = False, dot_met = False, dig_met = False\<rparr>) (\<lambda>st.
     Inr \<lparr>dec_value = sc_value st, dec_sign = (if sc_value st = 0 then 1 else sc_sign st),
       dec_precision = dec_int16 (left_n st + right_n st), dec_scale = dec_int16 (right_n st)\<rparr>)"

text \<open>
  To text, least significant digit first; the comparisons of \<open>dest.size()\<close> with the 16-bit
  scale are unsigned, so that a negative scale is a length no string reaches.
\<close>

definition unsigned_scale :: "int \<Rightarrow> nat" where
  "unsigned_scale sc = nat (sc mod 2 ^ 64)"

function decimal_digits :: "nat \<Rightarrow> nat \<Rightarrow> string \<Rightarrow> string" where
  "decimal_digits sc v dest =
     (if v \<noteq> 0 \<or> length dest < sc then
        (let dest1 = dest @ [digit_char (v mod 10)];
             dest2 = (if length dest1 = sc then dest1 @ ''.'' else dest1) in
         decimal_digits sc (v div 10) dest2)
      else dest)"
  by pat_completeness auto
termination
  by (relation "measure (\<lambda>(sc, v, dest). v + (sc - length dest))") (auto simp: Let_def)

declare decimal_digits.simps [simp del]

definition decimal_to_string :: "decimal \<Rightarrow> string" where
  "decimal_to_string d =
     (let dest = decimal_digits (unsigned_scale (dec_scale d)) (dec_value d) [];
          dest1 = (if dest = [] then ''0'' else if dec_sign d = 0 \<and> dec_value d \<noteq> 0 then dest @ ''-'' else dest) in
      rev dest1)"

section \<open>SQL_NUMERIC_STRUCT\<close>

text \<open>\<open>num_val\<close> is the sixteen bytes, least significant first.\<close>

record numeric =
  num_precision :: nat
  num_scale :: int
  num_sign :: int
  num_val :: "nat list"

text \<open>\<open>while (tmp_src.scale < dest.scale)\<close> and \<open>while (dest.scale < tmp_src.scale)\<close>, for the number of rounds left.\<close>

fun scale_up :: "nat \<Rightarrow> nat \<Rightarrow> nat result" where
  "scale_up 0 v = Inr v"
| "scale_up (Suc n) v =
     (if dec_max div 10 < v
      then Inl (Runtime_Error ''Cannot fit source Numeric value into destination Numeric specification: value is too big for internal representation'')
      else scale_up n (10 * v))"

fun scale_down :: "nat \<Rightarrow> nat \<Rightarrow> nat" where
  "scale_down 0 v = v"
| "scale_down (Suc n) v = scale_down n (v div 10)"

definition too_big_numeric :: exn where
  "too_big_numeric = Runtime_Error
     ''Cannot fit source Numeric value into destination Numeric specification: value is too big for ODBC Numeric representation''"

text \<open>The bytes of the value from index \<open>i\<close> on.\<close>

function transfer_bytes :: "nat \<Rightarrow> nat \<Rightarrow> nat \<Rightarrow> nat list \<Rightarrow> nat list result" where
  "transfer_bytes prec i v bs =
     (if v = 0 then Inr bs
      else if 16 \<le> i \<or> prec < i
      then Inl too_big_numeric
      else transfer_bytes prec (i + 1) (v div 256) (bs[i := v mod 256]))"
  by pat_completeness auto
termination by (relation "measure (\<lambda>(prec, i, v, bs). v)") auto

declare transfer_bytes.simps [simp del]

definition decimal_to_numeric :: "decimal \<Rightarrow> numeric \<Rightarrow> numeric result" where
  "decimal_to_numeric src dest0 =
     (if int (num_precision dest0) < num_scale dest0 then Inl (Runtime_Error ''Bad Numeric specification'')
      else
        (let dest = (if num_precision dest0 = 0
               then dest0\<lparr>num_sign := dec_sign src, num_precision := nat (dec_precision src mod 256),
                      num_scale := signed_take_bit 7 (dec_scale src)\<rparr>
               else dest0\<lparr>num_sign := dec_sign src\<rparr>) in
         bind_result (scale_up (nat (num_scale dest - dec_scale src)) (dec_value src)) (\<lambda>v.
         bind_result (transfer_bytes (num_precision dest) 0 (scale_down (nat (dec_scale src - num_scale dest)) v) (num_val dest)) (\<lambda>bs.
         Inr (dest\<lparr>num_val := bs\<rparr>)))))"

text \<open>And back: the bytes from the most significant on.\<close>

fun numeric_bytes :: "nat list \<Rightarrow> nat \<Rightarrow> nat result" where
  "numeric_bytes [] v = Inr v"
| "numeric_bytes (b # bs) v =
     (let big = Runtime_Error ''Numeric value is too big for internal representation'';
          v1 = (if v \<noteq> 0 then 256 * v else v) in
      if v \<noteq> 0 \<and> dec_max div 256 < v then Inl big
      else if b \<noteq> 0 \<and> dec_max - b < v1 then Inl big
      else numeric_bytes bs (v1 + b))"

definition numeric_to_decimal :: "numeric \<Rightarrow> decimal result" where
  "numeric_to_decimal src =
     bind_result (numeric_bytes (rev (num_val src)) 0) (\<lambda>v.
     Inr \<lparr>dec_value = v, dec_sign = num_sign src, dec_precision = int (num_precision src), dec_scale = num_scale src\<rparr>)"

section \<open>Text to integers and back\<close>

lemma isdigit_not_space: "isdigit c \<Longrightarrow> \<not> isspace c \<and> c \<noteq> CHR ''-'' \<and> c \<noteq> CHR ''+''"
  by (auto simp: isdigit_def isspace_def)

lemma scan_digits:
  assumes "list_all isdigit ds" "ds \<noteq> []"
  shows "scan_integer ds = (False, ds, length ds)" "scan_integer (CHR ''-'' # ds) = (True, ds, Suc (length ds))"
proof -
  obtain d dr where ds: "ds = d # dr" using assms(2) by (cases ds) auto
  have d: "\<not> isspace d" "d \<noteq> CHR ''-''" "d \<noteq> CHR ''+''" using assms(1) ds isdigit_not_space [of d] by auto
  have tw: "takeWhile isdigit ds = ds" using assms(1) by (auto simp: list_all_iff takeWhile_eq_all_conv)
  have sp: "\<not> isspace (CHR ''-'')" by (simp add: isspace_def)
  show "scan_integer ds = (False, ds, length ds)" using d tw by (simp add: scan_integer_def ds)
  show "scan_integer (CHR ''-'' # ds) = (True, ds, Suc (length ds))" using tw sp by (simp add: scan_integer_def Let_def del: takeWhile_eq_all_conv)
qed

lemmas scan_show [simp] = scan_digits [OF show_nat_digits show_nat_not_Nil]

lemma stoll_show: "- (2 ^ 63) \<le> i \<Longrightarrow> i < 2 ^ 63 \<Longrightarrow> stoll (show_int i) = Inr (i, length (show_int i))"
  by (auto simp: stoll_def show_int_def)

lemma string_to_int64_show:
  "string_to_int64 (show_int i) = (if - (2 ^ 63) \<le> i \<and> i < 2 ^ 63 then Inr i
     else Inl (cannot_interpret (show_int i) ''signed 64-bit integer'' ''stoll''))"
proof (cases "- (2 ^ 63) \<le> i \<and> i < 2 ^ 63")
  case True
  then show ?thesis by (simp add: string_to_int64_def stoll_show)
next
  case False
  then have "stoll (show_int i) = Inl (Out_Of_Range ''stoll'')" by (auto simp: stoll_def show_int_def)
  with False show ?thesis by (auto simp: string_to_int64_def)
qed

text \<open>Integers survive the way through text at every width, and what does not fit is refused.\<close>

theorem string_to_int_roundtrip:
  assumes "w \<in> {8, 16, 32, 64}"
  shows "string_to_int w (show_int i) = Inr i \<longleftrightarrow> - (2 ^ (w - 1)) \<le> i \<and> i < 2 ^ (w - 1)"
proof -
  have r: "(2 :: int) ^ (w - 1) \<le> 2 ^ 63" using assms by auto
  show ?thesis using r by (auto simp: string_to_int_def string_to_int64_show)
qed

text \<open>A negative number in text is not refused where an unsigned 64-bit integer is read: it wraps
  around modulo \<open>2 ^ 64\<close>.\<close>

theorem negative_text_wraps:
  assumes "0 < n" "n < 2 ^ 64"
  shows "string_to_uint64 (show_int (- int n)) = Inr (2 ^ 64 - n)"
  using assms by (simp add: string_to_uint64_def stoull_def show_int_def)

theorem negative_text_wraps_witness: "string_to_uint64 (show_int (- int 1)) = Inr (2 ^ 64 - 1)"
  by (rule negative_text_wraps) simp_all

section \<open>Decimals\<close>

definition digits_from :: "nat \<Rightarrow> string \<Rightarrow> nat" where
  "digits_from v s = foldl (\<lambda>v c. 10 * v + digit_val c) v s"

lemma digits_from_simps [simp]: "digits_from v [] = v" "digits_from v (c # cs) = digits_from (10 * v + digit_val c) cs"
  by (simp_all add: digits_from_def)

lemma digits_value_from: "digits_value (a @ b) = digits_from (digits_value a) b"
  by (simp add: digits_value_def digits_from_def)

lemma digits_from_mono: "v \<le> digits_from v s"
proof (induction s arbitrary: v)
  case (Cons c s)
  have "v \<le> 10 * v + digit_val c" by simp
  also have "\<dots> \<le> digits_from (10 * v + digit_val c) s" by (rule Cons)
  finally show ?case by simp
qed simp

definition add_digits :: "string \<Rightarrow> decimal_scan \<Rightarrow> decimal_scan" where
  "add_digits ds st =
     (if dot_met st
      then st\<lparr>sc_value := digits_from (sc_value st) ds, right_n := right_n st + length ds, dig_met := dig_met st \<or> ds \<noteq> []\<rparr>
      else st\<lparr>sc_value := digits_from (sc_value st) ds, left_n := left_n st + length ds, dig_met := dig_met st \<or> ds \<noteq> []\<rparr>)"

lemma decimal_digit_exact:
  "decimal_digit src (digit_val c) st =
     (if 10 * sc_value st + digit_val c \<le> dec_max then Inr (add_digits [c] st) else Inl (too_big_decimal src))"
proof -
  define v d M where "v = sc_value st" and "d = digit_val c" and "M = dec_max"
  have "digit_val c \<le> 255" using nat_of_char_less_256 [of c] by (simp add: digit_val_def del: nat_of_char_less_256)
  then have "d \<le> M" by (simp add: d_def M_def dec_max_def)
  then have c: "(v \<noteq> 0 \<and> M div 10 < v \<or> d \<noteq> 0 \<and> M - d < 10 * v) \<longleftrightarrow> \<not> 10 * v + d \<le> M"
    using div_less_iff_less_mult [of 10 M v] by auto
  have "(if v \<noteq> 0 then 10 * v else v) = 10 * v" by simp
  then have "decimal_digit src d st =
      (if v \<noteq> 0 \<and> M div 10 < v \<or> d \<noteq> 0 \<and> M - d < 10 * v then Inl (too_big_decimal src) else Inr (add_digits [c] st))"
    unfolding decimal_digit_def Let_def v_def [symmetric] M_def [symmetric]
    by (simp add: add_digits_def d_def v_def [symmetric])
  then show ?thesis unfolding c by (simp add: d_def v_def M_def)
qed

lemma digit_not_mark: "isdigit c \<Longrightarrow> c \<noteq> CHR ''.'' \<and> c \<noteq> CHR ''-'' \<and> c \<noteq> CHR ''+''"
  by (auto simp: isdigit_def)

lemma decimal_char_digit: "isdigit c \<Longrightarrow> decimal_char src c st = decimal_digit src (digit_val c) st"
  using digit_not_mark [of c] by (simp add: decimal_char_def)

lemma add_digits_Cons: "add_digits (c # cs) st = add_digits cs (add_digits [c] st)"
  by (simp add: add_digits_def)

lemma decimal_chars_digits:
  assumes "list_all isdigit ds" "sc_value st \<le> dec_max"
  shows "decimal_chars src (ds @ rest) st =
     (if digits_from (sc_value st) ds \<le> dec_max then decimal_chars src rest (add_digits ds st) else Inl (too_big_decimal src))"
  using assms
proof (induction ds arbitrary: st)
  case Nil
  have "add_digits [] st = st" by (simp add: add_digits_def)
  then show ?case using Nil by simp
next
  case (Cons c cs)
  then have c: "isdigit c" "list_all isdigit cs" by simp_all
  let ?v = "10 * sc_value st + digit_val c"
  have v: "sc_value (add_digits [c] st) = ?v" by (simp add: add_digits_def)
  show ?case
  proof (cases "?v \<le> dec_max")
    case True
    then show ?thesis
      using Cons.IH [OF c(2), of "add_digits [c] st"] v
      by (simp add: decimal_char_digit [OF c(1)] decimal_digit_exact add_digits_Cons [of c cs])
  next
    case False
    then have "\<not> digits_from ?v cs \<le> dec_max" using digits_from_mono [of ?v cs] by linarith
    then show ?thesis using False by (simp add: decimal_char_digit [OF c(1)] decimal_digit_exact)
  qed
qed

text \<open>A sign, digits, a point, digits.\<close>

definition decimal_text :: "string \<Rightarrow> string \<Rightarrow> string \<Rightarrow> string \<Rightarrow> bool" where
  "decimal_text sg l pt r \<longleftrightarrow> sg \<in> {[], ''+'', ''-''} \<and> list_all isdigit l \<and> list_all isdigit r
     \<and> (pt = ''.'' \<or> pt = [] \<and> r = [])"

lemma digits_from_0: "digits_from 0 s = digits_value s"
  by (simp add: digits_from_def digits_value_def)

text \<open>Text of this form is read exactly, with its number of digits as the precision, or refused
  when the digits are more than 64 bits hold; even no digit at all is read, as 0.\<close>

theorem string_to_decimal_exact:
  assumes "decimal_text sg l pt r"
  shows "string_to_decimal (sg @ l @ pt @ r) =
    (if digits_value (l @ r) \<le> dec_max
     then Inr \<lparr>dec_value = digits_value (l @ r), dec_sign = (if sg = ''-'' \<and> digits_value (l @ r) \<noteq> 0 then 0 else 1),
       dec_precision = dec_int16 (length l + length r), dec_scale = dec_int16 (length r)\<rparr>
     else Inl (too_big_decimal (sg @ l @ pt @ r)))"
proof -
  let ?src = "sg @ l @ pt @ r"
  let ?s0 = "\<lparr>sc_value = 0, sc_sign = 1, left_n = 0, right_n = 0, sign_met = False, dot_met = False, dig_met = False\<rparr>"
  let ?s1 = "?s0\<lparr>sc_sign := (if sg = ''-'' then 0 else 1), sign_met := sg \<noteq> []\<rparr>"
  let ?s2 = "add_digits l ?s1"
  let ?s3 = "if pt = [] then ?s2 else ?s2\<lparr>dot_met := True\<rparr>"
  have nd: "\<not> isdigit (CHR ''.'')" by (simp add: isdigit_def)
  have ds: "list_all isdigit l" "list_all isdigit r" and pt: "pt = ''.'' \<or> pt = [] \<and> r = []"
    using assms by (simp_all add: decimal_text_def)
  have v: "digits_value (l @ r) = digits_from (digits_from 0 l) r" by (simp add: digits_value_from digits_from_0)
  then have le: "digits_from 0 l \<le> digits_value (l @ r)" by (simp add: digits_from_mono)
  have val: "sc_value ?s2 = digits_from 0 l" "sc_value ?s3 = digits_from 0 l" by (simp_all add: add_digits_def)
  have "decimal_chars ?src ?src ?s0 = decimal_chars ?src (l @ pt @ r) ?s1"
    using assms by (auto simp: decimal_text_def decimal_char_def)
  also have "\<dots> = (if digits_from 0 l \<le> dec_max then decimal_chars ?src (pt @ r) ?s2 else Inl (too_big_decimal ?src))"
    using decimal_chars_digits [OF ds(1), of ?s1 ?src "pt @ r"] by simp
  also have "\<dots> = (if digits_from 0 l \<le> dec_max then decimal_chars ?src r ?s3 else Inl (too_big_decimal ?src))"
    using pt by (auto simp: decimal_char_def add_digits_def)
  also have "\<dots> = (if digits_value (l @ r) \<le> dec_max then Inr (add_digits r ?s3) else Inl (too_big_decimal ?src))"
    using decimal_chars_digits [OF ds(2), of ?s3 ?src "[]"] le unfolding val v by simp
  finally have run: "decimal_chars ?src ?src ?s0
    = (if digits_value (l @ r) \<le> dec_max then Inr (add_digits r ?s3) else Inl (too_big_decimal ?src))" .
  have "sc_value (add_digits r ?s3) = digits_value (l @ r)" "sc_sign (add_digits r ?s3) = (if sg = ''-'' then 0 else 1)"
    "left_n (add_digits r ?s3) = length l" "right_n (add_digits r ?s3) = length r"
    using pt unfolding v by (auto simp: add_digits_def)
  then show ?thesis unfolding string_to_decimal_def run by auto
qed


section \<open>Decimals to text and back\<close>

text \<open>The last \<open>k\<close> digits, least significant first.\<close>

fun low_digits :: "nat \<Rightarrow> nat \<Rightarrow> string" where
  "low_digits 0 v = []"
| "low_digits (Suc k) v = digit_char (v mod 10) # low_digits k (v div 10)"

lemma low_digits_props: "length (low_digits k v) = k" "list_all isdigit (low_digits k v)"
  by (induction k arbitrary: v) simp_all

lemma low_digits_value: "digits_value (rev (low_digits k v)) = v mod 10 ^ k"
proof (induction k arbitrary: v)
  case (Suc k)
  have "v mod 10 ^ Suc k = v mod 10 + 10 * (v div 10 mod 10 ^ k)" by (simp add: mod_mult2_eq)
  then show ?case using Suc by simp
qed simp

definition natural_text :: "nat \<Rightarrow> string" where
  "natural_text v = (if v = 0 then [] else show_nat v)"

lemma natural_text_step: "v \<noteq> 0 \<Longrightarrow> natural_text v = natural_text (v div 10) @ [digit_char (v mod 10)]"
  by (auto simp: natural_text_def show_nat.simps [of v])

lemma decimal_digits_tail:
  assumes "sc < length dest \<or> sc = 0"
  shows "decimal_digits sc v dest = dest @ rev (natural_text v)"
  using assms
proof (induction v arbitrary: dest rule: less_induct)
  case (less v)
  show ?case
  proof (cases "v = 0")
    case True
    then show ?thesis using less.prems by (subst decimal_digits.simps) (auto simp: natural_text_def)
  next
    case False
    have "length (dest @ [digit_char (v mod 10)]) \<noteq> sc" using less.prems by auto
    then have "decimal_digits sc v dest = decimal_digits sc (v div 10) (dest @ [digit_char (v mod 10)])"
      using False by (simp add: decimal_digits.simps [of sc v dest] Let_def)
    also have "\<dots> = (dest @ [digit_char (v mod 10)]) @ rev (natural_text (v div 10))"
      by (rule less.IH) (use False less.prems in auto)
    finally show ?thesis using natural_text_step [OF False] by simp
  qed
qed

lemma decimal_digits_point:
  "decimal_digits (length dest + Suc k) v dest
    = dest @ low_digits (Suc k) v @ ''.'' @ rev (natural_text (v div 10 ^ Suc k))"
proof (induction k arbitrary: dest v)
  case 0
  have "decimal_digits (length dest + Suc 0) v dest = decimal_digits (Suc (length dest)) (v div 10) (dest @ [digit_char (v mod 10)] @ ''.'')"
    by (simp add: decimal_digits.simps [of _ v dest] Let_def)
  also have "\<dots> = (dest @ [digit_char (v mod 10)] @ ''.'') @ rev (natural_text (v div 10))"
    by (rule decimal_digits_tail) simp
  finally show ?case by simp
next
  case (Suc k)
  have "decimal_digits (length dest + Suc (Suc k)) v dest
      = decimal_digits (length (dest @ [digit_char (v mod 10)]) + Suc k) (v div 10) (dest @ [digit_char (v mod 10)])"
    by (simp add: decimal_digits.simps [of _ v dest] Let_def)
  also have "\<dots> = dest @ low_digits (Suc (Suc k)) v @ ''.'' @ rev (natural_text (v div 10 ^ Suc (Suc k)))"
  proof -
    have "v div 10 div 10 ^ Suc k = v div 10 ^ Suc (Suc k)" by (metis div_mult2_eq power_Suc)
    then show ?thesis unfolding Suc.IH by simp
  qed
  finally show ?case .
qed

text \<open>A decimal as the code writes it: without a digit in front of the point when the value is below one.\<close>

lemma decimal_to_string_text:
  assumes "0 \<le> dec_scale d" "dec_scale d < 2 ^ 15"
  shows "decimal_to_string d = (if dec_sign d = 0 \<and> dec_value d \<noteq> 0 then ''-'' else [])
    @ (if dec_scale d = 0 then show_nat (dec_value d)
       else natural_text (dec_value d div 10 ^ nat (dec_scale d)) @ ''.'' @ rev (low_digits (nat (dec_scale d)) (dec_value d)))"
proof -
  have zero_char: "CHR ''0'' = char_of (48 :: nat)" by code_simp
  have sc: "unsigned_scale (dec_scale d) = nat (dec_scale d)" using assms by (simp add: unsigned_scale_def)
  show ?thesis
  proof (cases "nat (dec_scale d)")
    case 0
    then have "dec_scale d = 0" "unsigned_scale 0 = 0" using assms by (simp_all add: unsigned_scale_def)
    then show ?thesis
      using zero_char by (simp add: decimal_to_string_def sc decimal_digits_tail natural_text_def show_nat.simps [of 0] digit_char_def)
  next
    case (Suc k)
    have "decimal_digits (Suc k) (dec_value d) [] = low_digits (Suc k) (dec_value d) @ ''.'' @ rev (natural_text (dec_value d div 10 ^ Suc k))"
      using decimal_digits_point [of "[]" k "dec_value d"] by simp
    moreover have "dec_scale d \<noteq> 0" using Suc by auto
    ultimately show ?thesis by (simp add: decimal_to_string_def sc Suc Let_def)
  qed
qed

lemma digits_from_split: "digits_from v s = v * 10 ^ length s + digits_value s"
proof -
  have "digits_from v s = v * 10 ^ length s + digits_from 0 s"
  proof (induction s arbitrary: v rule: rev_induct)
    case (snoc c s)
    have "digits_from v (s @ [c]) = 10 * digits_from v s + digit_val c" for v by (simp add: digits_from_def)
    then show ?case using snoc [of v] by (simp add: algebra_simps)
  qed simp
  then show ?thesis by (simp add: digits_from_0)
qed

text \<open>C38: A decimal written as text and read back is the same decimal, in value, sign and scale (the
  precision becomes the number of digits written).\<close>

theorem decimal_roundtrip:
  assumes "dec_value d \<le> dec_max" "dec_sign d = 1 \<or> dec_sign d = 0 \<and> dec_value d \<noteq> 0" "0 \<le> dec_scale d" "dec_scale d < 2 ^ 15"
  shows "\<exists>p. string_to_decimal (decimal_to_string d) = Inr (d\<lparr>dec_precision := p\<rparr>)"
proof -
  let ?sg = "if dec_sign d = 0 \<and> dec_value d \<noteq> 0 then ''-'' else []"
  let ?n = "nat (dec_scale d)"
  define l where "l = (if dec_scale d = 0 then show_nat (dec_value d) else natural_text (dec_value d div 10 ^ ?n))"
  define pt where "pt = (if dec_scale d = 0 then [] else ''.'')"
  define r where "r = (if dec_scale d = 0 then [] else rev (low_digits ?n (dec_value d)))"
  have text_eq: "decimal_to_string d = ?sg @ l @ pt @ r"
    using decimal_to_string_text [OF assms(3,4)] by (simp add: l_def pt_def r_def)
  have ok: "decimal_text ?sg l pt r"
    using low_digits_props(2) by (auto simp: decimal_text_def l_def pt_def r_def natural_text_def)
  have nt: "digits_value (natural_text x) = x" for x by (simp add: natural_text_def)
  have val: "digits_value (l @ r) = dec_value d"
  proof (cases "dec_scale d = 0")
    case False
    then show ?thesis
      by (simp add: digits_value_from digits_from_split l_def r_def nt low_digits_value low_digits_props(1) div_mult_mod_eq)
  qed (simp add: l_def r_def)
  have "length r = ?n" using assms(3) by (simp add: r_def low_digits_props(1))
  moreover have "dec_int16 ?n = dec_scale d" using assms(3,4) by (simp add: dec_int16_def signed_take_bit_int_eq_self)
  ultimately have "string_to_decimal (decimal_to_string d) =
      Inr \<lparr>dec_value = dec_value d, dec_sign = (if ?sg = ''-'' \<and> dec_value d \<noteq> 0 then 0 else 1),
        dec_precision = dec_int16 (length l + length r), dec_scale = dec_scale d\<rparr>"
    unfolding text_eq string_to_decimal_exact [OF ok] val using assms(1) by simp
  moreover have "(if ?sg = ''-'' \<and> dec_value d \<noteq> 0 then 0 else 1) = dec_sign d" using assms(2) by auto
  ultimately show ?thesis by (intro exI [of _ "dec_int16 (length l + length r)"]) simp
qed


section \<open>Decimals and SQL_NUMERIC_STRUCT\<close>

fun value_bytes :: "nat \<Rightarrow> nat \<Rightarrow> nat list" where
  "value_bytes 0 v = []"
| "value_bytes (Suc n) v = v mod 256 # value_bytes n (v div 256)"

lemma value_bytes_0 [simp]: "value_bytes n 0 = replicate n 0"
  by (induction n) simp_all

lemma length_value_bytes [simp]: "length (value_bytes n v) = n"
  by (induction n arbitrary: v) simp_all

text \<open>The condition on the length of the value: \<open>k\<close> bytes fit.\<close>

definition fits :: "nat \<Rightarrow> nat \<Rightarrow> bool" where
  "fits prec v \<longleftrightarrow> v < 256 ^ min 16 (prec + 1)"

lemma transfer_bytes_exact:
  assumes "length bs = 16" "i \<le> 16" "drop i bs = replicate (16 - i) 0"
  shows "transfer_bytes prec i v bs =
    (if v = 0 \<or> v < 256 ^ (min 16 (prec + 1) - i) then Inr (take i bs @ value_bytes (16 - i) v)
     else Inl too_big_numeric)"
  using assms
proof (induction "16 - i" arbitrary: i v bs)
  case 0
  then have "i = 16" by simp
  then show ?case using 0 by (auto simp: transfer_bytes.simps [of prec 16 v bs])
next
  case (Suc n)
  show ?case
  proof (cases "v = 0 \<or> prec < i")
    case True
    have bs: "take i bs @ replicate (16 - i) 0 = bs" using Suc.prems(3) append_take_drop_id [of i bs] by simp
    have k: "min 16 (prec + 1) - i = 0" if "prec < i" using that by simp
    show ?thesis
    proof (cases "v = 0")
      case True
      then show ?thesis using bs by (simp add: transfer_bytes.simps [of prec i 0 bs])
    next
      case False
      then have p: "prec < i" using True by simp
      show ?thesis unfolding k [OF p] using False p by (simp add: transfer_bytes.simps [of prec i v bs])
    qed
  next
    case False
    let ?bs = "bs[i := v mod 256]"
    have i: "i < 16" using Suc.hyps(2) by simp
    have step: "transfer_bytes prec i v bs = transfer_bytes prec (i + 1) (v div 256) ?bs"
      using False i by (simp add: transfer_bytes.simps [of prec i v bs])
    have d: "drop (i + 1) ?bs = replicate (16 - (i + 1)) 0"
    proof -
      have "drop (i + 1) bs = drop 1 (drop i bs)" by simp
      then show ?thesis using Suc.prems(3) by simp
    qed
    have tk: "take (i + 1) ?bs = take i bs @ [v mod 256]" using Suc.prems(1) i by (simp add: take_Suc_conv_app_nth)
    have sh: "16 - i = Suc (16 - (i + 1))" using i by simp
    have pw: "v div 256 < 256 ^ (min 16 (prec + 1) - (i + 1)) \<longleftrightarrow> v < 256 ^ (min 16 (prec + 1) - i)"
    proof -
      have "min 16 (prec + 1) - i = Suc (min 16 (prec + 1) - (i + 1))" using False i by (auto simp: min_def)
      then show ?thesis by (simp add: div_less_iff_less_mult mult.commute)
    qed
    have z: "v div 256 = 0 \<longrightarrow> v div 256 < 256 ^ (min 16 (prec + 1) - (i + 1))" by simp
    have "transfer_bytes prec (i + 1) (v div 256) ?bs =
      (if v div 256 = 0 \<or> v div 256 < 256 ^ (min 16 (prec + 1) - (i + 1)) then Inr (take (i + 1) ?bs @ value_bytes (16 - (i + 1)) (v div 256))
       else Inl too_big_numeric)"
      by (rule Suc.hyps(1)) (use Suc.prems Suc.hyps(2) i d in simp_all)
    moreover have "v \<noteq> 0" using False by simp
    moreover have "v div 256 = 0 \<or> v div 256 < 256 ^ (min 16 (prec + 1) - (i + 1)) \<longleftrightarrow> v < 256 ^ (min 16 (prec + 1) - i)"
      using pw z by blast
    ultimately show ?thesis unfolding step tk sh by simp
  qed
qed

definition bytes_from :: "nat \<Rightarrow> nat list \<Rightarrow> nat" where
  "bytes_from v bs = foldl (\<lambda>v b. 256 * v + b) v bs"

lemma bytes_from_mono: "v \<le> bytes_from v bs"
proof (induction bs arbitrary: v)
  case (Cons b bs)
  have "v \<le> 256 * v + b" by simp
  also have "\<dots> \<le> bytes_from (256 * v + b) bs" by (rule Cons)
  finally show ?case by (simp add: bytes_from_def)
qed (simp add: bytes_from_def)

lemma numeric_bytes_exact:
  assumes "bytes_from v bs \<le> dec_max"
  shows "numeric_bytes bs v = Inr (bytes_from v bs)"
  using assms
proof (induction bs arbitrary: v)
  case (Cons b bs)
  have e: "bytes_from v (b # bs) = bytes_from (256 * v + b) bs" by (simp add: bytes_from_def)
  have le: "256 * v + b \<le> dec_max" using bytes_from_mono [of "256 * v + b" bs] Cons.prems e by simp
  then have "\<not> dec_max div 256 < v" "\<not> dec_max - b < 256 * v"
    using div_less_iff_less_mult [of 256 dec_max v] by auto
  moreover have "(if v \<noteq> 0 then 256 * v else v) = 256 * v" by simp
  ultimately have "numeric_bytes (b # bs) v = numeric_bytes bs (256 * v + b)" by (simp add: Let_def)
  then show ?case using Cons.IH [of "256 * v + b"] Cons.prems e by simp
qed (simp add: bytes_from_def)

lemma bytes_from_value_bytes: "bytes_from 0 (rev (value_bytes n v)) = v mod 256 ^ n"
proof (induction n arbitrary: v)
  case (Suc n)
  have "v mod 256 ^ Suc n = v mod 256 + 256 * (v div 256 mod 256 ^ n)" by (simp add: mod_mult2_eq)
  then show ?case using Suc [of "v div 256"] by (simp add: bytes_from_def)
qed (simp add: bytes_from_def)

definition null_numeric :: "nat \<Rightarrow> int \<Rightarrow> numeric" where
  "null_numeric p s = \<lparr>num_precision = p, num_scale = s, num_sign = 0, num_val = replicate 16 0\<rparr>"

text \<open>C39: A decimal put into a cleared SQL_NUMERIC_STRUCT of its scale and taken out again is the same,
  and it is refused only when its value needs more bytes than the precision has digits plus one:
  a value with more decimal digits than the precision is not.\<close>

theorem numeric_roundtrip:
  assumes "dec_value d \<le> dec_max" "0 < p" "p < 256" "dec_scale d \<le> int p"
  shows "(\<exists>n. decimal_to_numeric d (null_numeric p (dec_scale d)) = Inr n
      \<and> numeric_to_decimal n = Inr (d\<lparr>dec_precision := int p\<rparr>)) \<longleftrightarrow> dec_value d < 256 ^ (p + 1)"
proof -
  have small: "dec_value d < 256 ^ 16" using assms(1) by (simp add: dec_max_def)
  have d0: "length (replicate 16 (0 :: nat)) = 16" "(0 :: nat) \<le> 16" "drop 0 (replicate 16 (0 :: nat)) = replicate (16 - 0) 0" by simp_all
  note tb = transfer_bytes_exact [OF d0, of p "dec_value d"]
  have cond: "dec_value d = 0 \<or> dec_value d < 256 ^ (min 16 (p + 1) - 0) \<longleftrightarrow> dec_value d < 256 ^ (p + 1)"
  proof (cases "16 \<le> p + 1")
    case True
    then have "(256 :: nat) ^ 16 \<le> 256 ^ (p + 1)" by (intro power_increasing) simp_all
    then show ?thesis using small True by (auto simp: min_def)
  qed (auto simp: min_def)
  have dn: "decimal_to_numeric d (null_numeric p (dec_scale d)) =
      bind_result (transfer_bytes p 0 (dec_value d) (replicate 16 0)) (\<lambda>bs.
        Inr \<lparr>num_precision = p, num_scale = dec_scale d, num_sign = dec_sign d, num_val = bs\<rparr>)"
    using assms by (simp add: decimal_to_numeric_def null_numeric_def Let_def)
  show ?thesis
  proof (cases "dec_value d < 256 ^ (p + 1)")
    case True
    have v: "bytes_from 0 (rev (value_bytes 16 (dec_value d))) = dec_value d"
      unfolding bytes_from_value_bytes using small by simp
    then have "numeric_bytes (rev (value_bytes 16 (dec_value d))) 0 = Inr (dec_value d)"
      using numeric_bytes_exact [of 0 "rev (value_bytes 16 (dec_value d))"] assms(1) by simp
    then show ?thesis
      using True cond tb dn by (simp add: numeric_to_decimal_def)
  next
    case False
    then have "transfer_bytes p 0 (dec_value d) (replicate 16 0) = Inl too_big_numeric" using tb cond by simp
    then show ?thesis using False dn by simp
  qed
qed

theorem decimal_roundtrip_witness:
  "\<exists>p. string_to_decimal (decimal_to_string \<lparr>dec_value = 5, dec_sign = 0, dec_precision = 9, dec_scale = 2\<rparr>)
     = Inr (\<lparr>dec_value = 5, dec_sign = 0, dec_precision = 9, dec_scale = 2\<rparr>\<lparr>dec_precision := p\<rparr>)"
  by (rule decimal_roundtrip) (simp_all add: dec_max_def)

theorem numeric_roundtrip_witness:
  "(\<exists>n. decimal_to_numeric \<lparr>dec_value = 12345, dec_sign = 1, dec_precision = 5, dec_scale = 2\<rparr> (null_numeric 3 2) = Inr n
      \<and> numeric_to_decimal n = Inr \<lparr>dec_value = 12345, dec_sign = 1, dec_precision = int 3, dec_scale = 2\<rparr>)
    \<longleftrightarrow> (12345 :: nat) < 256 ^ (3 + 1)"
  using numeric_roundtrip [of "\<lparr>dec_value = 12345, dec_sign = 1, dec_precision = 5, dec_scale = 2\<rparr>" 3] by (simp add: dec_max_def)

end
