(* ===== verification/Odbc_Driver2.thy ===== *)
theory Odbc_Driver2
  imports Result_Set Value_Conv
begin

text \<open>
  The format ODBCDriver2: driver/format/ODBCDriver2.cpp. Every value is a text with its length in
  front, a signed 32-bit integer; a negative length is a Null. Values stay text until they are
  fetched into a buffer, but for Bool.
\<close>

section \<open>The code\<close>

definition odbc_readSize :: "int reader" where
  "odbc_readSize = readPOD_signed 4"

definition odbc_readValue :: "string option reader" where
  "odbc_readValue = rd_bind odbc_readSize (\<lambda>size.
     if 0 \<le> size then rd_bind (if 0 < size then read_bytes (nat size) else rd_return []) (\<lambda>v. rd_return (Some v))
     else rd_return None)"

text \<open>Without \<open>is_null\<close>, as the header reads its texts.\<close>

definition odbc_readText :: "string reader" where
  "odbc_readText = rd_bind odbc_readValue (\<lambda>v. rd_return (case v of None \<Rightarrow> [] | Some s \<Rightarrow> s))"

definition bool_of_text :: "string \<Rightarrow> int result" where
  "bool_of_text src = (if src = ''true'' then Inr 1 else if src = ''false'' then Inr 0 else string_to_int 8 src)"

text \<open>The display size is noted before a Bool can be refused.\<close>

definition odbc_readField :: "ColumnInfo \<Rightarrow> http_response \<Rightarrow> field result \<times> ColumnInfo \<times> http_response" where
  "odbc_readField col s =
     (case odbc_readValue s of
        (Inl e, s') \<Rightarrow> (Inl e, col, s')
      | (Inr None, s') \<Rightarrow> (Inr Null_field, col, s')
      | (Inr (Some v), s') \<Rightarrow>
          (case type_without_parameters_id col of
             FixedString \<Rightarrow> Inr (String_field FixedString v)
           | String \<Rightarrow> Inr (String_field String v)
           | Bool \<Rightarrow> bind_result (bool_of_text v) (\<lambda>b. Inr (Bool_field b))
           | _ \<Rightarrow> Inr (Any_field v), note_size v col, s'))"

fun odbc_read_fields :: "field list \<Rightarrow> ColumnInfo list \<Rightarrow> http_response
    \<Rightarrow> unit result \<times> field list \<times> ColumnInfo list \<times> http_response" where
  "odbc_read_fields (f # row) (col # cols) s =
     (case odbc_readField col s of
        (Inl e, col', s') \<Rightarrow> (Inl e, f # row, col' # cols, s')
      | (Inr f', col', s') \<Rightarrow>
          (let (r, row', cols', s'') = odbc_read_fields row cols s' in (r, f' # row', col' # cols', s'')))"
| "odbc_read_fields row cols s = (Inr (), row, cols, s)"

definition odbc_readNextRow :: "field list \<Rightarrow> ColumnInfo list \<Rightarrow> http_response
    \<Rightarrow> bool result \<times> field list \<times> ColumnInfo list \<times> http_response" where
  "odbc_readNextRow row cols s =
     (case at_eof s of
        (Inl e, s') \<Rightarrow> (Inl e, row, cols, s')
      | (Inr True, s') \<Rightarrow> (Inr False, row, cols, s')
      | (Inr False, s') \<Rightarrow>
          (let (r, row', cols', s'') = odbc_read_fields row cols s' in
           (bind_result r (\<lambda>_. Inr True), row', cols', s'')))"

section \<open>The header\<close>

definition resize_columns :: "nat \<Rightarrow> ColumnInfo list \<Rightarrow> ColumnInfo list" where
  "resize_columns n cols = take n cols @ replicate (n - length cols) fresh_ColumnInfo"

text \<open>Types that are unknown or cannot be parsed are taken for String.\<close>

definition odbc_typed_column :: "string \<Rightarrow> string \<Rightarrow> ColumnInfo \<Rightarrow> ColumnInfo result" where
  "odbc_typed_column tz ty col0 =
     (let col = col0\<lparr>col_type := ty\<rparr> in
      case parse ty fresh_ast of
        (Returns True, ast) \<Rightarrow>
          bind_result (assignTypeInfo tz ast col) (\<lambda>c.
          updateTypeInfo (if convertUnparametrizedTypeNameToTypeId (type_without_parameters c) = Unknown
            then c\<lparr>type_without_parameters := ''String''\<rparr> else c))
      | (Returns False, _) \<Rightarrow> updateTypeInfo (col\<lparr>type_without_parameters := ''String''\<rparr>)
      | (Bad_lexical_cast, _) \<Rightarrow> Inl (Runtime_Error ''bad lexical cast'')
      | (Undefined, _) \<Rightarrow> Inl (Undefined_Behaviour ''top() of an empty stack''))"

fun odbc_read_names :: "ColumnInfo list \<Rightarrow> ColumnInfo list reader" where
  "odbc_read_names [] = rd_return []"
| "odbc_read_names (col # cols) =
     rd_bind odbc_readText (\<lambda>nm.
     rd_bind (odbc_read_names cols) (\<lambda>cols'. rd_return (col\<lparr>col_name := nm\<rparr> # cols')))"

fun odbc_read_types :: "string \<Rightarrow> ColumnInfo list \<Rightarrow> ColumnInfo list reader" where
  "odbc_read_types tz [] = rd_return []"
| "odbc_read_types tz (col # cols) =
     rd_bind odbc_readText (\<lambda>ty.
     rd_bind (rd_lift (odbc_typed_column tz ty col)) (\<lambda>col'.
     rd_bind (odbc_read_types tz cols) (\<lambda>cols'. rd_return (col' # cols'))))"

text \<open>One row of the header behind its name; rows of other names are skipped.\<close>

definition odbc_header_row :: "string \<Rightarrow> string \<Rightarrow> nat \<Rightarrow> ColumnInfo list \<Rightarrow> ColumnInfo list reader" where
  "odbc_header_row tz nm k cols =
     (if nm = ''name'' then odbc_read_names (resize_columns k cols)
      else if nm = ''type'' then odbc_read_types tz (resize_columns k cols)
      else rd_bind (rd_times k odbc_readText) (\<lambda>_. rd_return cols))"

text \<open>\<open>num_header_rows\<close> is compared as a \<open>size_t\<close>.\<close>

fun odbc_header_rows :: "string \<Rightarrow> nat \<Rightarrow> ColumnInfo list \<Rightarrow> ColumnInfo list reader" where
  "odbc_header_rows tz 0 cols = rd_return cols"
| "odbc_header_rows tz (Suc n) cols =
     rd_bind odbc_readSize (\<lambda>num_columns.
       if num_columns \<le> 1 then rd_return cols
       else
         rd_bind odbc_readText (\<lambda>row_name.
         rd_bind (odbc_header_row tz row_name (nat (num_columns - 1)) cols) (odbc_header_rows tz n)))"

definition odbc_readHeader :: "string \<Rightarrow> ColumnInfo list reader" where
  "odbc_readHeader tz = rd_bind odbc_readSize (\<lambda>n. odbc_header_rows tz (nat (n mod 2 ^ 64)) [])"

definition ODBCDriver2ResultSet :: "string \<Rightarrow> http_response \<Rightarrow> http_response result_set result" where
  "ODBCDriver2ResultSet tz s =
     (let (r, s') = odbc_readHeader tz s in
      bind_result r (\<lambda>cols. Inr \<lparr>source = s', columns_info = cols, row_set = [], row_set_position = 0,
        row_position = 0, affected_row_count = 0, prefetched_rows = [], finished = (cols = []), row_pool = []\<rparr>))"

section \<open>What the reader makes of encoded texts\<close>

definition text_ok :: "string option \<Rightarrow> bool" where
  "text_ok v \<longleftrightarrow> (case v of None \<Rightarrow> True | Some s \<Rightarrow> length s < 2 ^ 31)"

definition text_bytes :: "string option \<Rightarrow> string" where
  "text_bytes v = (case v of None \<Rightarrow> signed_bytes 4 (- 1) | Some s \<Rightarrow> signed_bytes 4 (int (length s)) @ s)"

lemma reads_odbcSize [reads_rules]: "- (2 ^ 31) \<le> n \<Longrightarrow> n < 2 ^ 31 \<Longrightarrow> reads odbc_readSize (signed_bytes 4 n) n"
  unfolding odbc_readSize_def by (rule reads_signed) simp_all

lemma reads_odbcValue:
  assumes "text_ok v"
  shows "reads odbc_readValue (text_bytes v) v"
proof (cases v)
  case None
  have "reads odbc_readValue (signed_bytes 4 (- 1) @ []) None"
    unfolding odbc_readValue_def by (rule reads_bind [OF reads_odbcSize]) (simp_all add: reads_return)
  then show ?thesis by (simp add: None text_bytes_def)
next
  case (Some s)
  have len: "int (length s) < 2 ^ 31"
    using assms Some by (simp add: text_ok_def flip: of_nat_less_iff)
  have "reads (if 0 < int (length s) then read_bytes (nat (int (length s))) else rd_return []) s s"
    by (cases "s = []") (simp_all add: reads_bytes reads_return)
  from reads_bind_return [OF this, of Some]
  have "reads odbc_readValue (signed_bytes 4 (int (length s)) @ s) (Some s)"
    unfolding odbc_readValue_def by (intro reads_bind [OF reads_odbcSize]) (use len in simp_all)
  then show ?thesis by (simp add: Some text_bytes_def)
qed

lemma reads_odbcText: "text_ok (Some v) \<Longrightarrow> reads odbc_readText (text_bytes (Some v)) v"
  unfolding odbc_readText_def using reads_bind_return [OF reads_odbcValue, of "Some v" "case_option [] (\<lambda>s. s)"] by simp

text \<open>The field a text becomes; \<open>None\<close> where a Bool is refused.\<close>

definition text_field :: "ColumnInfo \<Rightarrow> string option \<Rightarrow> field option" where
  "text_field col v =
     (case v of
        None \<Rightarrow> Some Null_field
      | Some t \<Rightarrow>
          (case type_without_parameters_id col of
             FixedString \<Rightarrow> Some (String_field FixedString t)
           | String \<Rightarrow> Some (String_field String t)
           | Bool \<Rightarrow> (case bool_of_text t of Inl _ \<Rightarrow> None | Inr b \<Rightarrow> Some (Bool_field b))
           | _ \<Rightarrow> Some (Any_field t)))"

definition text_note :: "string option \<Rightarrow> ColumnInfo \<Rightarrow> ColumnInfo" where
  "text_note v col = (case v of None \<Rightarrow> col | Some t \<Rightarrow> note_size t col)"

lemma note_size_simps [simp]:
  "type_without_parameters_id (note_size t col) = type_without_parameters_id col"
  by (simp add: note_size_def)

lemma text_field_note [simp]: "text_field (text_note w col) v = text_field col v"
  by (simp add: text_field_def text_note_def split: option.splits)

lemma odbc_readField_text:
  assumes "text_ok v" "text_field col v = Some f" "clean s" "content s = text_bytes v @ rest"
  shows "\<exists>s'. odbc_readField col s = (Inr f, text_note v col, s') \<and> clean s' \<and> content s' = rest"
proof -
  obtain s' where s': "odbc_readValue s = (Inr v, s')" "clean s'" "content s' = rest"
    using reads_odbcValue [OF assms(1)] assms(3,4) unfolding reads_def by blast
  then show ?thesis
    using assms(2)
    by (auto simp: odbc_readField_def text_field_def text_note_def split: option.splits DataSourceTypeId.splits sum.splits)
qed

fun text_row :: "ColumnInfo list \<Rightarrow> string option list \<Rightarrow> field list option" where
  "text_row [] [] = Some []"
| "text_row (col # cols) (v # vs) =
     (case (text_field col v, text_row cols vs) of
        (Some f, Some fs) \<Rightarrow> if text_ok v then Some (f # fs) else None | _ \<Rightarrow> None)"
| "text_row cols vs = None"

lemma text_row_length: "text_row cols vs = Some fs \<Longrightarrow> length vs = length cols \<and> length fs = length cols"
  by (induction cols vs arbitrary: fs rule: text_row.induct) (auto split: option.splits if_splits)

lemma text_row_note [simp]: "length ws = length cols \<Longrightarrow> text_row (map2 text_note ws cols) vs = text_row cols vs"
proof (induction cols vs arbitrary: ws rule: text_row.induct)
  case (2 col cols v vs)
  then obtain w ws' where w: "ws = w # ws'" "length ws' = length cols" by (cases ws) auto
  show ?case using "2.IH" w by (auto split: option.splits)
qed (auto simp: Suc_length_conv length_Suc_conv)

lemma odbc_read_fields_row:
  assumes "text_row cols vs = Some fs" "length row = length cols" "clean s" "content s = concat (map text_bytes vs) @ rest"
  shows "\<exists>s'. odbc_read_fields row cols s = (Inr (), fs, map2 text_note vs cols, s') \<and> clean s' \<and> content s' = rest"
  using assms
proof (induction cols vs arbitrary: row fs s rule: text_row.induct)
  case (2 col cols v vs)
  then obtain f fs' where f: "text_field col v = Some f" "text_row cols vs = Some fs'" "text_ok v" "fs = f # fs'"
    by (auto split: option.splits if_splits)
  from "2.prems"(2) obtain f0 row' where row: "row = f0 # row'" "length row' = length cols" by (cases row) auto
  obtain s1 where s1: "odbc_readField col s = (Inr f, text_note v col, s1)" "clean s1" "content s1 = concat (map text_bytes vs) @ rest"
    using odbc_readField_text [OF f(3,1) "2.prems"(3), of "concat (map text_bytes vs) @ rest"] "2.prems"(4) by auto
  from "2.IH" [OF f(2) row(2) s1(2,3)] show ?case using s1(1) row(1) f(4) by auto
qed auto

text \<open>A response in this format is a source of rows.\<close>

definition odbc_yields :: "ColumnInfo list \<Rightarrow> http_response \<Rightarrow> row list \<Rightarrow> bool" where
  "odbc_yields cols s rows \<longleftrightarrow> cols \<noteq> [] \<and> clean s \<and>
     (\<exists>texts. map (text_row cols) texts = map Some rows \<and> content s = concat (map (\<lambda>vs. concat (map text_bytes vs)) texts))"

lemma text_bytes_not_Nil [simp]: "text_bytes v \<noteq> []"
proof -
  have "length (signed_bytes 4 n) = 4" for n by (simp add: signed_bytes_def)
  then have "signed_bytes 4 n \<noteq> []" for n by (metis list.size(3) zero_neq_numeral)
  then show ?thesis by (simp add: text_bytes_def split: option.splits)
qed

interpretation odbc: row_source odbc_readNextRow odbc_yields
proof
  fix cols s and r :: row
  assume "odbc_yields cols s []"
  then show "\<exists>r' s'. odbc_readNextRow r cols s = (Inr False, r', cols, s')"
    using http.eof_good [of s] by (auto simp: odbc_yields_def odbc_readNextRow_def)
next
  fix cols s x xs and r :: row
  assume y: "odbc_yields cols s (x # xs)" and len: "length r = length cols"
  then obtain vs texts where t: "text_row cols vs = Some x" "map (text_row cols) texts = map Some xs"
      "content s = concat (map text_bytes vs) @ concat (map (\<lambda>vs. concat (map text_bytes vs)) texts)" "clean s" "cols \<noteq> []"
    by (auto simp: odbc_yields_def Cons_eq_map_conv map_eq_Cons_conv)
  have lv: "length vs = length cols" using text_row_length [OF t(1)] by simp
  then have "concat (map text_bytes vs) \<noteq> []" using t(5) by (cases vs) auto
  then obtain s1 where s1: "at_eof s = (Inr False, s1)" "clean s1"
      "content s1 = concat (map text_bytes vs) @ concat (map (\<lambda>vs. concat (map text_bytes vs)) texts)"
    using http.eof_good [OF t(4)] t(3) by auto
  obtain s2 where s2: "odbc_read_fields r cols s1 = (Inr (), x, map2 text_note vs cols, s2)" "clean s2"
      "content s2 = concat (map (\<lambda>vs. concat (map text_bytes vs)) texts)"
    using odbc_read_fields_row [OF t(1) len s1(2,3)] by auto
  have "odbc_readNextRow r cols s = (Inr True, x, map2 text_note vs cols, s2)"
    using s1(1) s2(1) by (simp add: odbc_readNextRow_def)
  moreover have "text_row (map2 text_note vs cols) = text_row cols" using lv by (intro ext) simp
  then have "odbc_yields (map2 text_note vs cols) s2 xs"
    using s2(2,3) t(2,5) lv by (auto simp: odbc_yields_def intro!: exI [of _ texts])
  ultimately show "\<exists>cols' s'. odbc_readNextRow r cols s = (Inr True, x, cols', s') \<and> odbc_yields cols' s' xs \<and> length cols' = length cols"
    using lv by auto
qed


section \<open>The header as it is written\<close>

definition strings_bytes :: "string list \<Rightarrow> string" where
  "strings_bytes vs = concat (map (\<lambda>v. text_bytes (Some v)) vs)"

lemma strings_bytes_simps [simp]:
  "strings_bytes [] = []" "strings_bytes (v # vs) = text_bytes (Some v) @ strings_bytes vs"
  by (simp_all add: strings_bytes_def)

definition odbc_header_bytes :: "(string \<times> string) list \<Rightarrow> string" where
  "odbc_header_bytes nts = signed_bytes 4 2
     @ signed_bytes 4 (int (length nts) + 1) @ text_bytes (Some ''name'') @ strings_bytes (map fst nts)
     @ signed_bytes 4 (int (length nts) + 1) @ text_bytes (Some ''type'') @ strings_bytes (map snd nts)"

lemma reads_odbc_names:
  assumes "length cols = length nms" "list_all (\<lambda>nm. text_ok (Some nm)) nms"
  shows "reads (odbc_read_names cols) (strings_bytes nms) (map2 (\<lambda>col nm. col\<lparr>col_name := nm\<rparr>) cols nms)"
  using assms
proof (induction cols nms rule: list_induct2)
  case (Cons col cols nm nms)
  then have ih: "reads (odbc_read_names cols) (strings_bytes nms) (map2 (\<lambda>col nm. col\<lparr>col_name := nm\<rparr>) cols nms)"
    by simp
  show ?case
    using reads_bind [OF reads_odbcText reads_bind_return [OF ih], of nm "\<lambda>nm cols. col\<lparr>col_name := nm\<rparr> # cols"] Cons.prems by simp
qed (simp add: reads_return)

lemma reads_odbc_types:
  assumes "length cols = length tys" "length cols' = length tys" "list_all (\<lambda>ty. text_ok (Some ty)) tys"
    and "\<forall>i < length tys. odbc_typed_column tz (tys ! i) (cols ! i) = Inr (cols' ! i)"
  shows "reads (odbc_read_types tz cols) (strings_bytes tys) cols'"
  using assms
proof (induction cols tys arbitrary: cols' rule: list_induct2)
  case (Cons col cols ty tys)
  then obtain c cs where c: "cols' = c # cs" "length cs = length tys" by (cases cols') auto
  have here: "odbc_typed_column tz ty col = Inr c" using Cons.prems(3) [rule_format, of 0] c(1) by simp
  have "\<forall>i < length tys. odbc_typed_column tz (tys ! i) (cols ! i) = Inr (cs ! i)"
    using Cons.prems(3) [rule_format, of "Suc _"] c(1) by simp
  then have ih: "reads (odbc_read_types tz cols) (strings_bytes tys) cs"
    using Cons.IH [OF c(2)] Cons.prems(2) by simp
  let ?k = "\<lambda>ty. rd_bind (rd_lift (odbc_typed_column tz ty col)) (\<lambda>col'. rd_bind (odbc_read_types tz cols) (\<lambda>cols'. rd_return (col' # cols')))"
  have "reads (?k ty) ([] @ strings_bytes tys) (c # cs)"
    by (rule reads_bind [OF reads_lift [OF here] reads_bind_return [OF ih]])
  from reads_bind [where k = ?k, OF reads_odbcText this]
  show ?case using Cons.prems(2) c(1) by simp
qed (simp add: reads_return)

lemma reads_odbc_header_row:
  assumes "1 \<le> k" "int k + 1 < 2 ^ 31" "text_ok (Some nm)"
    and "reads (odbc_header_row tz nm k cols) bs cols'" "reads (odbc_header_rows tz n cols') cs cols''"
  shows "reads (odbc_header_rows tz (Suc n) cols) (signed_bytes 4 (int k + 1) @ text_bytes (Some nm) @ bs @ cs) cols''"
proof -
  let ?K = "\<lambda>num_columns. if num_columns \<le> 1 then rd_return cols
    else rd_bind odbc_readText (\<lambda>row_name. rd_bind (odbc_header_row tz row_name (nat (num_columns - 1)) cols)
      (odbc_header_rows tz n))"
  have "reads (rd_bind odbc_readText (\<lambda>row_name. rd_bind (odbc_header_row tz row_name k cols) (odbc_header_rows tz n)))
      (text_bytes (Some nm) @ bs @ cs) cols''"
    by (rule reads_bind [OF reads_odbcText [OF assms(3)]]) (rule reads_bind [OF assms(4)], rule assms(5))
  then have "reads (?K (int k + 1)) (text_bytes (Some nm) @ bs @ cs) cols''" using assms(1) by simp
  from reads_bind [OF reads_odbcSize, of "int k + 1" ?K, OF _ assms(2) this]
  show ?thesis by simp
qed

lemma reads_odbc_header:
  assumes "nts \<noteq> []" "int (length nts) + 1 < 2 ^ 31" "length cols = length nts"
    and "list_all (\<lambda>nt. text_ok (Some (fst nt)) \<and> text_ok (Some (snd nt))) nts"
    and "\<forall>i < length nts. odbc_typed_column tz (snd (nts ! i)) (fresh_ColumnInfo\<lparr>col_name := fst (nts ! i)\<rparr>) = Inr (cols ! i)"
  shows "reads (odbc_readHeader tz) (odbc_header_bytes nts) cols"
proof -
  let ?n = "length nts"
  let ?named = "map (\<lambda>nt. fresh_ColumnInfo\<lparr>col_name := fst nt\<rparr>) nts"
  have ok: "text_ok (Some ''name'')" "text_ok (Some ''type'')" by (simp_all add: text_ok_def)
  have named: "map2 (\<lambda>col nm. col\<lparr>col_name := nm\<rparr>) (resize_columns ?n []) (map fst nts) = ?named"
    by (rule nth_equalityI) (simp_all add: resize_columns_def)
  have names: "reads (odbc_read_names (resize_columns ?n [])) (strings_bytes (map fst nts)) ?named"
    using reads_odbc_names [of "resize_columns ?n []" "map fst nts"] assms(4) named
    by (simp add: resize_columns_def list_all_iff)
  have "reads (odbc_read_types tz ?named) (strings_bytes (map snd nts)) cols"
    by (rule reads_odbc_types) (use assms(3-5) in \<open>simp_all add: list_all_iff\<close>)
  moreover have "resize_columns ?n ?named = ?named" by (simp add: resize_columns_def)
  ultimately have types: "reads (odbc_read_types tz (resize_columns ?n ?named)) (strings_bytes (map snd nts)) cols"
    by simp
  have n1: "1 \<le> ?n" using assms(1) by (simp add: Suc_leI)
  have "reads (odbc_header_rows tz (Suc (Suc 0)) [])
      (signed_bytes 4 (int ?n + 1) @ text_bytes (Some ''name'') @ strings_bytes (map fst nts)
       @ signed_bytes 4 (int ?n + 1) @ text_bytes (Some ''type'') @ strings_bytes (map snd nts) @ []) cols"
    by (intro reads_odbc_header_row [OF n1 assms(2) ok(1)] reads_odbc_header_row [OF n1 assms(2) ok(2)])
      (use names types reads_return [of cols] in \<open>simp_all add: odbc_header_row_def\<close>)
  then show ?thesis
    unfolding odbc_readHeader_def odbc_header_bytes_def
    by (intro reads_bind [OF reads_odbcSize]) (simp_all add: numeral_2_eq_2 del: odbc_header_rows.simps)
qed

section \<open>Properties\<close>

text \<open>From the bytes of the network to the row sets, for the default format: when a response in
  ODBCDriver2 ends well, its result set is created, and fetches of any sizes return the rows that
  were written, in order, cut at these sizes, Nulls included.\<close>

theorem fetched_rows_of_odbc_response:
  assumes "clean s" "content s = odbc_header_bytes nts @ concat (map (\<lambda>vs. concat (map text_bytes vs)) texts)"
    and "nts \<noteq> []" "int (length nts) + 1 < 2 ^ 31" "length cols = length nts"
    and "list_all (\<lambda>nt. text_ok (Some (fst nt)) \<and> text_ok (Some (snd nt))) nts"
    and "\<forall>i < length nts. odbc_typed_column tz (snd (nts ! i)) (fresh_ColumnInfo\<lparr>col_name := fst (nts ! i)\<rparr>) = Inr (cols ! i)"
    and "map (text_row cols) texts = map Some rows"
  shows "\<exists>rs. ODBCDriver2ResultSet tz s = Inr rs \<and> (\<forall>recycle ns. fst (fetches odbc_readNextRow recycle ns rs) = pieces ns rows)"
proof -
  from reads_odbc_header [OF assms(3-7)] assms(1,2) obtain s' where
    h: "odbc_readHeader tz s = (Inr cols, s')" "clean s'" "content s' = concat (map (\<lambda>vs. concat (map text_bytes vs)) texts)"
    by (auto simp: reads_def)
  have "cols \<noteq> []" using assms(3,5) by auto
  then obtain rs where rs: "ODBCDriver2ResultSet tz s = Inr rs" "odbc.pending rs rows"
    using h assms(8) by (auto simp: ODBCDriver2ResultSet_def odbc.pending_def odbc_yields_def)
  then show ?thesis using odbc.fetches_pending [OF rs(2)] by (metis fst_conv)
qed

definition sample_odbc_column :: ColumnInfo where
  "sample_odbc_column = fresh_ColumnInfo\<lparr>col_name := ''x'', col_type := ''Int32'', type_without_parameters := ''Int32'',
     type_without_parameters_id := Int32, display_size := 11\<rparr>"

theorem fetched_rows_of_odbc_response_witness:
  "\<exists>rs. ODBCDriver2ResultSet ''UTC'' ((new_response [])\<lparr>is_done := True,
      raw := odbc_header_bytes [(''x'', ''Int32'')] @ concat (map (\<lambda>vs. concat (map text_bytes vs)) [[Some ''12''], [None]])\<rparr>) = Inr rs
    \<and> (\<forall>recycle ns. fst (fetches odbc_readNextRow recycle ns rs) = pieces ns [[Any_field ''12''], [Null_field]])"
proof (rule fetched_rows_of_odbc_response [where cols = "[sample_odbc_column]" and nts = "[(''x'', ''Int32'')]"
      and texts = "[[Some ''12''], [None]]"])
  have "odbc_typed_column ''UTC'' ''Int32'' (fresh_ColumnInfo\<lparr>col_name := ''x''\<rparr>) = Inr sample_odbc_column"
    by code_simp
  then show "\<forall>i < length [(''x'', ''Int32'')]. odbc_typed_column ''UTC'' (snd ([(''x'', ''Int32'')] ! i))
      (fresh_ColumnInfo\<lparr>col_name := fst ([(''x'', ''Int32'')] ! i)\<rparr>) = Inr ([sample_odbc_column] ! i)" by simp
qed (simp_all add: clean_def new_response_def total_def content_def text_ok_def text_field_def sample_odbc_column_def)

end
