(* ===== verification/Statement_Exec.thy ===== *)
theory Statement_Exec
  imports Odbc_Driver2
begin

text \<open>
  The execution of a statement: \<open>executeQuery\<close>, \<open>forwardExecuteQuery\<close>,
  \<open>requestNextPackOfResultSets\<close>, \<open>sendParamSet\<close>, \<open>advanceToNextResultSet\<close> and \<open>closeCursor\<close>
  of driver/statement.cpp with the result readers of driver/result_set.cpp and driver/format.
  Arguments of the model: what \<open>prepareHttpRequest\<close> makes of a parameter set, the URL Poco builds
  from it, and the server, which answers each request after those it has seen.
\<close>

section \<open>Result readers\<close>

datatype result_format = ODBCDriver2 | RowBinaryWithNamesAndTypes

text \<open>The mutator is with the result set while there is one, and with the reader otherwise.\<close>

record result_reader =
  reader_format :: result_format
  reader_result_set :: "http_response result_set option"
  reader_mutator :: "row_mutator option"

definition reader_hasResultSet :: "result_reader \<Rightarrow> bool" where
  "reader_hasResultSet r \<longleftrightarrow> reader_result_set r \<noteq> None"

definition reader_releaseMutator :: "result_reader \<Rightarrow> row_mutator option \<times> result_reader" where
  "reader_releaseMutator r = (reader_mutator r, r\<lparr>reader_mutator := None\<rparr>)"

definition reader_advanceToNextResultSet :: "result_reader \<Rightarrow> bool \<times> result_reader" where
  "reader_advanceToNextResultSet r = (let r' = r\<lparr>reader_result_set := None\<rparr> in (reader_hasResultSet r', r'))"

definition result_set_of :: "result_format \<Rightarrow> string \<Rightarrow> http_response \<Rightarrow> http_response result_set result" where
  "result_set_of fmt tz s =
     (case fmt of ODBCDriver2 \<Rightarrow> ODBCDriver2ResultSet tz s | RowBinaryWithNamesAndTypes \<Rightarrow> RowBinaryResultSet tz s)"

definition ResultReader :: "result_format \<Rightarrow> string \<Rightarrow> http_response \<Rightarrow> row_mutator option \<Rightarrow> result_reader result" where
  "ResultReader fmt tz s mut =
     (case at_eof s of
        (Inl e, s') \<Rightarrow> Inl e
      | (Inr True, s') \<Rightarrow> Inr \<lparr>reader_format = fmt, reader_result_set = None, reader_mutator = mut\<rparr>
      | (Inr False, s') \<Rightarrow>
          bind_result (result_set_of fmt tz s') (\<lambda>rs.
          Inr \<lparr>reader_format = fmt, reader_result_set = Some rs, reader_mutator = mut\<rparr>))"

text \<open>The platform is little-endian.\<close>

definition make_result_reader :: "string \<Rightarrow> string \<Rightarrow> http_response \<Rightarrow> row_mutator option \<Rightarrow> result_reader result" where
  "make_result_reader format tz s mut =
     (if format = ''ODBCDriver2'' then ResultReader ODBCDriver2 tz s mut
      else if format = ''RowBinaryWithNamesAndTypes'' then ResultReader RowBinaryWithNamesAndTypes tz s mut
      else Inl (Runtime_Error (quoted format @ '' format is not supported'')))"

section \<open>State\<close>

record http_request =
  request_url :: string
  request_body :: string
  request_headers :: "string list"

text \<open>\<open>sent\<close> is the list of all requests the server has got. \<open>param_status\<close> and \<open>params_processed\<close>
  are what the pointers of the implementation parameter descriptor point to, if they are set.\<close>

record stmt =
  is_prepared :: bool
  is_executed :: bool
  is_forward_executed :: bool
  next_param_set_idx :: nat
  result_reader :: "result_reader option"
  response :: "http_response option"
  query_id :: string
  content_encoding :: string
  diag_row_count :: int
  param_status :: "(nat \<Rightarrow> int) option"
  params_processed :: "nat option"
  sent :: "http_request list"

record exec_env =
  param_set_array_size :: nat
  prepare_request :: "nat \<Rightarrow> (string \<times> (string \<rightharpoonup> string)) result"
  connection_open :: bool
  url_with :: "(string \<rightharpoonup> string) \<Rightarrow> string"
  authorization :: string
  user_agent :: string
  enable_http_compression :: bool
  redirect_limit :: nat
  server :: "http_request list \<Rightarrow> http_request \<Rightarrow> http_response result"
  getRedirectUrl :: "http_response \<Rightarrow> string"
  without_user_info :: "string \<Rightarrow> string"
  same_scheme :: "string \<Rightarrow> string \<Rightarrow> bool"
  default_format :: string
  local_timezone :: string


definition hasResultSet :: "stmt \<Rightarrow> bool" where
  "hasResultSet st \<longleftrightarrow> (case result_reader st of None \<Rightarrow> False | Some r \<Rightarrow> reader_hasResultSet r)"

definition set_status :: "nat \<Rightarrow> int \<Rightarrow> stmt \<Rightarrow> stmt" where
  "set_status i v st = st\<lparr>param_status := map_option (\<lambda>f. f(i := v)) (param_status st)\<rparr>"

section \<open>Sending one parameter set\<close>

definition make_request :: "exec_env \<Rightarrow> string \<times> (string \<rightharpoonup> string) \<Rightarrow> http_request" where
  "make_request env qp =
     \<lparr>request_url = url_with env (snd qp), request_body = fst qp,
      request_headers = [''Authorization: '' @ authorization env, ''User-Agent: '' @ user_agent env,
        ''Accept-Encoding: '' @ (if enable_http_compression env then ''zstd'' else ''none'')]\<rparr>"

text \<open>The loop over the redirects; the first argument is the number of rounds left.\<close>

fun redirect_loop :: "nat \<Rightarrow> exec_env \<Rightarrow> string \<Rightarrow> http_request \<Rightarrow> stmt \<Rightarrow> unit result \<times> stmt" where
  "redirect_loop 0 env url request st = (Inr (), st)"
| "redirect_loop (Suc n) env url request st =
     (let st1 = st\<lparr>sent := sent st @ [request], response := None\<rparr> in
      case server env (sent st) request of
        Inl e \<Rightarrow> (Inl e, st1)
      | Inr resp \<Rightarrow>
          (let st2 = st1\<lparr>response := Some resp\<rparr> in
           if status resp \<noteq> 307 \<and> status resp \<noteq> 308 then (Inr (), st2)
           else if getRedirectUrl env resp = []
           then (Inl (Runtime_Error (''HTTP status code: '' @ show_int (status resp) @ '', but no Location header in the response'')), st2)
           else
             (let location = without_user_info env (getRedirectUrl env resp) in
              if \<not> same_scheme env location url
              then (Inl (Runtime_Error (''Redirect to a different scheme is not allowed: '' @ location)), st2)
              else redirect_loop n env url (request\<lparr>request_url := location\<rparr>) st2)))"

definition failed_status :: "exec_env \<Rightarrow> http_response \<Rightarrow> exn \<times> http_response" where
  "failed_status env resp =
     (let (msg, resp') = (if status resp = 307 \<or> status resp = 308
            then (''Redirect count exceeded'' @ [ch_nl] @ ''Redirect limit: '' @ show_nat (redirect_limit env) @ [ch_nl], resp)
            else (let (text, resp') = readAll (2 ^ 20) resp in
              (''HTTP status code: '' @ show_int (status resp) @ [ch_nl] @ ''Received error:'' @ [ch_nl] @ text @ [ch_nl], resp'))) in
      (if hasHeader ''X-ClickHouse-Exception-Code'' resp
       then ClickHouseException msg (getHeader ''X-ClickHouse-Exception-Code'' [] resp)
       else Runtime_Error msg, resp'))"

text \<open>A limit of 0 leaves no response, which is then dereferenced.\<close>

definition sendParamSet :: "exec_env \<Rightarrow> row_mutator option \<Rightarrow> stmt \<Rightarrow> unit result \<times> stmt" where
  "sendParamSet env mut st0 =
     (let st = st0\<lparr>diag_row_count := - 1\<rparr> in
      if \<not> connection_open env then (Inl (SqlException ''Connection does not exist'' ''08003''), st)
      else
        (let st1 = st\<lparr>result_reader := None, response := None\<rparr> in
         case prepare_request env (next_param_set_idx st1) of
           Inl e \<Rightarrow> (Inl e, st1)
         | Inr qp \<Rightarrow>
             (let request = make_request env qp in
              case redirect_loop (redirect_limit env) env (request_url request) request st1 of
                (Inl e, st2) \<Rightarrow> (Inl e, st2)
              | (Inr _, st2) \<Rightarrow>
                  (case response st2 of
                     None \<Rightarrow> (Inl (Undefined_Behaviour ''no response''), st2)
                   | Some resp \<Rightarrow>
                       (let st3 = st2\<lparr>query_id := getHeader ''X-ClickHouse-Query-Id'' [] resp,
                              content_encoding := getHeader ''Content-Encoding'' [] resp\<rparr> in
                        if status resp \<noteq> 200
                        then (let (e, resp') = failed_status env resp in (Inl e, st3\<lparr>response := Some resp'\<rparr>))
                        else
                          (case make_result_reader (getHeader ''X-ClickHouse-Format'' (default_format env) resp)
                             (getHeader ''X-ClickHouse-Timezone'' (local_timezone env) resp) resp mut of
                             Inl e \<Rightarrow> (Inl e, st3)
                           | Inr reader \<Rightarrow>
                               (Inr (), st3\<lparr>result_reader := Some reader, next_param_set_idx := next_param_set_idx st3 + 1\<rparr>)))))))"

definition requestNextPackOfResultSets :: "exec_env \<Rightarrow> row_mutator option \<Rightarrow> stmt \<Rightarrow> unit result \<times> stmt" where
  "requestNextPackOfResultSets env mut st0 =
     (let st = st0\<lparr>result_reader := None, query_id := [], content_encoding := []\<rparr> in
      if param_set_array_size env \<le> next_param_set_idx st then (Inr (), st)
      else
        (let param_set_idx = next_param_set_idx st;
             st1 = st\<lparr>params_processed := map_option (\<lambda>_. param_set_idx + 1) (params_processed st)\<rparr> in
         case sendParamSet env mut st1 of
           (Inl e, st2) \<Rightarrow> (Inl e, set_status param_set_idx SQL_PARAM_ERROR st2)
         | (Inr _, st2) \<Rightarrow> (Inr (), set_status param_set_idx SQL_PARAM_SUCCESS st2)))"

section \<open>Executing\<close>

text \<open>
  The sets left after the first, while none has a result set. Each round sends one set, so that
  \<open>param_set_array_size\<close> rounds are enough.
\<close>

fun execute_rest :: "nat \<Rightarrow> exec_env \<Rightarrow> stmt \<Rightarrow> unit result \<times> stmt" where
  "execute_rest 0 env st = (Inr (), st)"
| "execute_rest (Suc n) env st =
     (if next_param_set_idx st < param_set_array_size env then
        (let (mut, st1) = (case result_reader st of
               None \<Rightarrow> (None, st)
             | Some r \<Rightarrow> (let (m, r') = reader_releaseMutator r in (m, st\<lparr>result_reader := Some r'\<rparr>))) in
         case requestNextPackOfResultSets env mut st1 of
           (Inl e, st2) \<Rightarrow> (Inl e, st2)
         | (Inr _, st2) \<Rightarrow> if hasResultSet st2 then (Inr (), st2) else execute_rest n env st2)
      else (Inr (), st))"

definition begin_execution :: "exec_env \<Rightarrow> stmt \<Rightarrow> stmt" where
  "begin_execution env st =
     st\<lparr>params_processed := map_option (\<lambda>_. 0) (params_processed st), next_param_set_idx := 0,
       param_status := map_option (\<lambda>f i. if i < param_set_array_size env then SQL_PARAM_UNUSED else f i) (param_status st)\<rparr>"

definition executeQuery :: "exec_env \<Rightarrow> row_mutator option \<Rightarrow> stmt \<Rightarrow> unit result \<times> stmt" where
  "executeQuery env mut st =
     (if \<not> is_prepared st then (Inl (Runtime_Error ''statement not prepared''), st)
      else if is_executed st \<and> is_forward_executed st then (Inr (), st\<lparr>is_forward_executed := False\<rparr>)
      else
        (case requestNextPackOfResultSets env mut (begin_execution env st) of
           (Inl e, st1) \<Rightarrow> (Inl e, st1)
         | (Inr _, st1) \<Rightarrow>
             (case if hasResultSet st1 then (Inr (), st1) else execute_rest (param_set_array_size env) env st1 of
                (Inl e, st2) \<Rightarrow> (Inl e, st2)
              | (Inr _, st2) \<Rightarrow> (Inr (), st2\<lparr>is_executed := True\<rparr>))))"

definition forwardExecuteQuery :: "exec_env \<Rightarrow> row_mutator option \<Rightarrow> stmt \<Rightarrow> unit result \<times> stmt" where
  "forwardExecuteQuery env mut st =
     (if \<not> is_prepared st then (Inl (Runtime_Error ''statement not prepared''), st)
      else if is_executed st then (Inr (), st)
      else
        (case executeQuery env mut st of
           (Inl e, st1) \<Rightarrow> (Inl e, st1)
         | (Inr _, st1) \<Rightarrow> (Inr (), st1\<lparr>is_forward_executed := True\<rparr>)))"

definition advanceToNextResultSet :: "exec_env \<Rightarrow> stmt \<Rightarrow> bool result \<times> stmt" where
  "advanceToNextResultSet env st =
     (if \<not> is_executed st then (Inr False, st)
      else
        (let st1 = st\<lparr>diag_row_count := - 1\<rparr> in
         case result_reader st1 of
           None \<Rightarrow> (let (r, st2) = requestNextPackOfResultSets env None st1 in (bind_result r (\<lambda>_. Inr (hasResultSet st2)), st2))
         | Some rd \<Rightarrow>
             (let (more, rd1) = reader_advanceToNextResultSet rd in
              if more then (Inr True, st1\<lparr>result_reader := Some rd1\<rparr>)
              else
                (let (mut, rd2) = reader_releaseMutator rd1;
                     (r, st2) = requestNextPackOfResultSets env mut (st1\<lparr>result_reader := Some rd2\<rparr>) in
                 (bind_result r (\<lambda>_. Inr (hasResultSet st2)), st2)))))"

definition closeCursor :: "stmt \<Rightarrow> stmt" where
  "closeCursor st = st\<lparr>result_reader := None, response := None, query_id := [], content_encoding := [],
     is_executed := False, is_forward_executed := False\<rparr>"

section \<open>What a request leaves alone\<close>

lemma redirect_loop_frame:
  assumes "redirect_loop n env url request st = (r, st')"
  shows "\<exists>resp log. st' = st\<lparr>sent := log, response := resp\<rparr>"
  using assms
proof (induction n env url request st rule: redirect_loop.induct)
  case (1 env url request st)
  then have "st' = st\<lparr>sent := sent st, response := response st\<rparr>" by simp
  then show ?case by blast
next
  case (2 n env url request st)
  show ?case
  proof (cases "server env (sent st) request")
    case (Inl e)
    then have "st' = st\<lparr>sent := sent st @ [request], response := None\<rparr>" using "2.prems" by (simp add: Let_def)
    then show ?thesis by blast
  next
    case (Inr resp)
    let ?st2 = "st\<lparr>sent := sent st @ [request], response := Some resp\<rparr>"
    have "st' = ?st2 \<or> (\<exists>resp' log. st' = ?st2\<lparr>sent := log, response := resp'\<rparr>)"
      using "2.prems" "2.IH" [OF refl Inr refl _ _ refl] Inr by (auto simp: Let_def split: if_splits)
    then show ?thesis by auto
  qed
qed

lemma sendParamSet_frame:
  assumes "sendParamSet env mut st = (r, st')"
  shows "param_status st' = param_status st \<and> params_processed st' = params_processed st
    \<and> is_prepared st' = is_prepared st
    \<and> next_param_set_idx st' = (case r of Inl _ \<Rightarrow> next_param_set_idx st | Inr _ \<Rightarrow> next_param_set_idx st + 1)"
  using assms unfolding sendParamSet_def Let_def
  by (auto split: if_splits sum.splits prod.splits option.splits dest!: redirect_loop_frame)

section \<open>The states of the parameter sets\<close>

text \<open>The sets before \<open>k\<close> succeeded; the set \<open>k\<close> failed or was not reached, as those behind it.\<close>

definition reported :: "exec_env \<Rightarrow> stmt \<Rightarrow> nat \<Rightarrow> bool \<Rightarrow> bool" where
  "reported env st k failed \<longleftrightarrow>
     (\<forall>f. param_status st = Some f \<longrightarrow> (\<forall>i < param_set_array_size env.
        f i = (if i < k then SQL_PARAM_SUCCESS else if failed \<and> i = k then SQL_PARAM_ERROR else SQL_PARAM_UNUSED)))
     \<and> (\<forall>n. params_processed st = Some n \<longrightarrow> n = (if failed then k + 1 else k))"

lemma request_next_reported:
  assumes "requestNextPackOfResultSets env mut st = (r, st')" "reported env st k False" "next_param_set_idx st = k"
    "k < param_set_array_size env"
  shows "case r of Inl _ \<Rightarrow> reported env st' k True \<and> next_param_set_idx st' = k
    | Inr _ \<Rightarrow> reported env st' (k + 1) False \<and> next_param_set_idx st' = k + 1"
proof -
  let ?st1 = "st\<lparr>result_reader := None, query_id := [], content_encoding := [],
    params_processed := map_option (\<lambda>_. k + 1) (params_processed st)\<rparr>"
  obtain r' st2 where s: "sendParamSet env mut ?st1 = (r', st2)" by fastforce
  note f = sendParamSet_frame [OF s]
  have "(r, st') = (case r' of Inl e \<Rightarrow> (Inl e, set_status k SQL_PARAM_ERROR st2) | Inr _ \<Rightarrow> (Inr (), set_status k SQL_PARAM_SUCCESS st2))"
    using assms(1,3,4) s by (simp add: requestNextPackOfResultSets_def Let_def split: sum.splits)
  then show ?thesis
    using f assms(2-4) by (cases r') (auto simp: reported_def set_status_def less_Suc_eq)
qed

lemma execute_rest_reported:
  assumes "execute_rest n env st = (r, st')" "reported env st k False" "next_param_set_idx st = k"
    "k \<le> param_set_array_size env" "param_set_array_size env \<le> n + k"
  shows "\<exists>k \<le> param_set_array_size env. next_param_set_idx st' = k \<and> (case r of
      Inl _ \<Rightarrow> k < param_set_array_size env \<and> reported env st' k True
    | Inr _ \<Rightarrow> reported env st' k False \<and> (k = param_set_array_size env \<or> hasResultSet st'))"
  using assms
proof (induction n arbitrary: st k)
  case 0
  then show ?case by auto
next
  case (Suc n)
  show ?case
  proof (cases "k < param_set_array_size env")
    case True
    obtain mut st1 where m: "(case result_reader st of None \<Rightarrow> (None, st)
        | Some r \<Rightarrow> (let (m, r') = reader_releaseMutator r in (m, st\<lparr>result_reader := Some r'\<rparr>))) = (mut, st1)" by fastforce
    then have st1: "reported env st1 k False" "next_param_set_idx st1 = k"
      using Suc.prems(2,3) by (auto simp: reported_def reader_releaseMutator_def split: option.splits)
    obtain r2 st2 where q: "requestNextPackOfResultSets env mut st1 = (r2, st2)" by fastforce
    note rep = request_next_reported [OF q st1 True]
    show ?thesis
    proof (cases r2)
      case (Inl e)
      then show ?thesis using Suc.prems(1,3) True m q rep by (auto intro!: exI [of _ k])
    next
      case (Inr u)
      show ?thesis
      proof (cases "hasResultSet st2")
        case True
        then show ?thesis using Suc.prems(1,3) \<open>k < param_set_array_size env\<close> m q rep Inr by (auto intro!: exI [of _ "k + 1"])
      next
        case False
        then have "execute_rest n env st2 = (r, st')" using Suc.prems(1,3) True m q Inr by simp
        from Suc.IH [OF this, of "k + 1"] rep Inr Suc.prems(5) True show ?thesis by simp
      qed
    qed
  qed (use Suc.prems in auto)
qed

lemma executeQuery_begin:
  assumes "is_prepared st" "\<not> (is_executed st \<and> is_forward_executed st)"
  shows "executeQuery env mut st =
    (case requestNextPackOfResultSets env mut (begin_execution env st) of
       (Inl e, st1) \<Rightarrow> (Inl e, st1)
     | (Inr _, st1) \<Rightarrow>
         (case if hasResultSet st1 then (Inr (), st1) else execute_rest (param_set_array_size env) env st1 of
            (Inl e, st2) \<Rightarrow> (Inl e, st2)
          | (Inr _, st2) \<Rightarrow> (Inr (), st2\<lparr>is_executed := True\<rparr>)))"
  by (simp only: executeQuery_def assms simp_thms if_False)

text \<open>C9: After executing a statement with an array of parameter sets, the status array and the processed
  count say exactly what was done: the sets sent before succeeded, a set whose request threw is
  reported as the failed one and counted, and those behind were never sent; without an error the
  execution stops only at the last set or at one that has a result set.\<close>

theorem executeQuery_reports:
  assumes "is_prepared st" "\<not> (is_executed st \<and> is_forward_executed st)" "executeQuery env mut st = (r, st')"
  shows "\<exists>k \<le> param_set_array_size env. next_param_set_idx st' = k \<and> (case r of
      Inl _ \<Rightarrow> k < param_set_array_size env \<and> reported env st' k True
    | Inr _ \<Rightarrow> is_executed st' \<and> reported env st' k False \<and> (k = param_set_array_size env \<or> hasResultSet st'))"
proof -
  let ?st = "begin_execution env st"
  have b: "reported env ?st 0 False" "next_param_set_idx ?st = 0" by (auto simp: begin_execution_def reported_def)
  obtain r1 st1 where q: "requestNextPackOfResultSets env mut ?st = (r1, st1)" by fastforce
  have ex: "(r, st') = (case r1 of Inl e \<Rightarrow> (Inl e, st1) | Inr _ \<Rightarrow>
      (case if hasResultSet st1 then (Inr (), st1) else execute_rest (param_set_array_size env) env st1 of
         (Inl e, st2) \<Rightarrow> (Inl e, st2) | (Inr _, st2) \<Rightarrow> (Inr (), st2\<lparr>is_executed := True\<rparr>)))"
    using assms(3) q by (simp add: executeQuery_begin [OF assms(1,2)] split: sum.splits)
  have fin: "reported env (st2\<lparr>is_executed := True\<rparr>) k f = reported env st2 k f"
    "hasResultSet (st2\<lparr>is_executed := True\<rparr>) = hasResultSet st2" for st2 k f
    by (simp_all add: reported_def hasResultSet_def)
  show ?thesis
  proof (cases "param_set_array_size env = 0")
    case True
    then have "(r1, st1) = (Inr (), ?st\<lparr>result_reader := None, query_id := [], content_encoding := []\<rparr>)"
      using q b(2) by (simp add: requestNextPackOfResultSets_def)
    then show ?thesis using ex True by (auto simp: hasResultSet_def reported_def begin_execution_def)
  next
    case False
    then have pos: "0 < param_set_array_size env" by simp
    note rep = request_next_reported [OF q b pos]
    show ?thesis
    proof (cases r1)
      case (Inl e)
      then show ?thesis using ex rep pos by auto
    next
      case (Inr u)
      show ?thesis
      proof (cases "hasResultSet st1")
        case True
        then show ?thesis using ex rep Inr pos fin by (auto intro!: exI [of _ 1])
      next
        case False
        obtain r2 st2 where er: "execute_rest (param_set_array_size env) env st1 = (r2, st2)" by fastforce
        have "\<exists>k \<le> param_set_array_size env. next_param_set_idx st2 = k \<and> (case r2 of
            Inl _ \<Rightarrow> k < param_set_array_size env \<and> reported env st2 k True
          | Inr _ \<Rightarrow> reported env st2 k False \<and> (k = param_set_array_size env \<or> hasResultSet st2))"
          by (rule execute_rest_reported [OF er, of 1]) (use rep Inr pos in simp_all)
        then show ?thesis using ex Inr False er fin by (cases r2) auto
      qed
    qed
  qed
qed

text \<open>A statement with two sets, and a server that answers with an empty body.\<close>

definition sample_stmt :: stmt where
  "sample_stmt = \<lparr>is_prepared = True, is_executed = False, is_forward_executed = False, next_param_set_idx = 0,
     result_reader = None, response = None, query_id = [], content_encoding = [], diag_row_count = 0,
     param_status = Some (\<lambda>_. 0), params_processed = Some 0, sent = []\<rparr>"

definition sample_env :: "string \<Rightarrow> exec_env" where
  "sample_env body = \<lparr>param_set_array_size = 2, prepare_request = (\<lambda>i. Inr (''SELECT'', Map.empty)), connection_open = True,
     url_with = (\<lambda>_. ''http://h/''), authorization = ''Basic eDp5'', user_agent = ''ua'', enable_http_compression = False,
     redirect_limit = 10,
     server = (\<lambda>log q. Inr ((new_response [])\<lparr>status := 200, headers_complete := True, is_done := True, raw := body\<rparr>)),
     getRedirectUrl = (\<lambda>_. []), without_user_info = id, same_scheme = (=), default_format = ''ODBCDriver2'', local_timezone = ''UTC''\<rparr>"

theorem executeQuery_reports_witness:
  "\<exists>k \<le> 2. next_param_set_idx (snd (executeQuery (sample_env []) None sample_stmt)) = k
    \<and> (case fst (executeQuery (sample_env []) None sample_stmt) of
      Inl _ \<Rightarrow> k < 2 \<and> reported (sample_env []) (snd (executeQuery (sample_env []) None sample_stmt)) k True
    | Inr _ \<Rightarrow> is_executed (snd (executeQuery (sample_env []) None sample_stmt))
        \<and> reported (sample_env []) (snd (executeQuery (sample_env []) None sample_stmt)) k False
        \<and> (k = 2 \<or> hasResultSet (snd (executeQuery (sample_env []) None sample_stmt))))"
proof -
  have n: "param_set_array_size (sample_env []) = 2" by (simp add: sample_env_def)
  show ?thesis
    using executeQuery_reports [OF _ _ prod.collapse [symmetric], of sample_stmt "sample_env []" None] unfolding n
    by (simp add: sample_stmt_def)
qed

section \<open>Redirects\<close>

lemma redirect_loop_requests:
  assumes "redirect_loop n env url request st = (r, st')"
  shows "\<exists>rs. sent st' = sent st @ rs \<and> length rs \<le> n \<and> (\<forall>q \<in> set rs. request_body q = request_body request
    \<and> request_headers q = request_headers request \<and> (request_url q = request_url request \<or> same_scheme env (request_url q) url))"
  using assms
proof (induction n env url request st rule: redirect_loop.induct)
  case (2 n env url request st)
  show ?case
  proof (cases "server env (sent st) request")
    case (Inl e)
    then show ?thesis using "2.prems" by (auto simp: Let_def)
  next
    case (Inr resp)
    let ?loc = "without_user_info env (getRedirectUrl env resp)"
    let ?st2 = "st\<lparr>sent := sent st @ [request], response := Some resp\<rparr>"
    have "st' = ?st2 \<or> same_scheme env ?loc url \<and> redirect_loop n env url (request\<lparr>request_url := ?loc\<rparr>) ?st2 = (r, st')"
      using "2.prems" Inr by (auto simp: Let_def split: if_splits)
    then show ?thesis
    proof
      assume "same_scheme env ?loc url \<and> redirect_loop n env url (request\<lparr>request_url := ?loc\<rparr>) ?st2 = (r, st')"
      moreover from this obtain rs where "sent st' = sent ?st2 @ rs" "length rs \<le> n"
          "\<forall>q \<in> set rs. request_body q = request_body request \<and> request_headers q = request_headers request
            \<and> (request_url q = ?loc \<or> same_scheme env (request_url q) url)"
        using "2.prems" Inr "2.IH" [OF refl Inr refl, of ?loc] by (auto simp: Let_def split: if_splits)
      ultimately show ?thesis by (intro exI [of _ "request # rs"]) auto
    qed auto
  qed
qed auto

text \<open>C16: One parameter set makes at most \<open>redirect_limit\<close> requests; all have the body and the headers, with the
  credentials, of that set, and go to its own URL or to one of the same scheme, wherever the
  server redirects.\<close>

theorem redirects_keep_the_scheme:
  assumes "sendParamSet env mut st = (r, st')"
  shows "\<exists>rs. sent st' = sent st @ rs \<and> length rs \<le> redirect_limit env \<and> (\<forall>q \<in> set rs. \<exists>qp.
    prepare_request env (next_param_set_idx st) = Inr qp \<and> request_body q = fst qp
    \<and> request_headers q = request_headers (make_request env qp)
    \<and> (request_url q = url_with env (snd qp) \<or> same_scheme env (request_url q) (url_with env (snd qp))))"
proof (cases "connection_open env")
  case True
  show ?thesis
  proof (cases "prepare_request env (next_param_set_idx st)")
    case (Inl e)
    then show ?thesis using assms True by (auto simp: sendParamSet_def Let_def)
  next
    case (Inr qp)
    let ?st1 = "st\<lparr>diag_row_count := - 1, result_reader := None, response := None\<rparr>"
    obtain r2 st2 where l: "redirect_loop (redirect_limit env) env (url_with env (snd qp)) (make_request env qp) ?st1 = (r2, st2)"
      by fastforce
    have "sent st' = sent st2"
      using assms True Inr l by (auto simp: sendParamSet_def make_request_def Let_def split: sum.splits option.splits if_splits prod.splits)
    then show ?thesis using redirect_loop_requests [OF l] Inr by (auto simp: make_request_def)
  qed
next
  case False
  then show ?thesis using assms by (auto simp: sendParamSet_def Let_def)
qed

theorem redirects_keep_the_scheme_witness:
  "\<exists>rs. sent (snd (sendParamSet (sample_env []) None sample_stmt)) = sent sample_stmt @ rs
    \<and> length rs \<le> redirect_limit (sample_env []) \<and> (\<forall>q \<in> set rs. \<exists>qp.
      prepare_request (sample_env []) (next_param_set_idx sample_stmt) = Inr qp \<and> request_body q = fst qp
      \<and> request_headers q = request_headers (make_request (sample_env []) qp)
      \<and> (request_url q = url_with (sample_env []) (snd qp) \<or> same_scheme (sample_env []) (request_url q) (url_with (sample_env []) (snd qp))))"
  by (rule redirects_keep_the_scheme [OF prod.collapse [symmetric]])

section \<open>Forward execution\<close>

lemma request_next_prepared:
  assumes "requestNextPackOfResultSets env mut st = (r, st')"
  shows "is_prepared st' = is_prepared st"
  using assms unfolding requestNextPackOfResultSets_def Let_def
  by (auto simp: set_status_def split: if_splits sum.splits prod.splits dest!: sendParamSet_frame)

lemma execute_rest_prepared:
  assumes "execute_rest n env st = (r, st')"
  shows "is_prepared st' = is_prepared st"
  using assms
proof (induction n arbitrary: st)
  case (Suc n)
  obtain mut st1 where m: "(case result_reader st of None \<Rightarrow> (None, st)
      | Some r \<Rightarrow> (let (m, r') = reader_releaseMutator r in (m, st\<lparr>result_reader := Some r'\<rparr>))) = (mut, st1)" by fastforce
  then have st1: "is_prepared st1 = is_prepared st" by (auto simp: reader_releaseMutator_def split: option.splits)
  obtain r2 st2 where q: "requestNextPackOfResultSets env mut st1 = (r2, st2)" by fastforce
  have "is_prepared st2 = is_prepared st" using request_next_prepared [OF q] st1 by simp
  then show ?case using Suc m q by (auto split: if_splits sum.splits)
qed simp

text \<open>A statement that was executed ahead (to describe its columns) is not sent again by the execution the
  application asks for: that one only takes over what is there, and only once.\<close>

theorem forward_execution_is_reused:
  assumes "forwardExecuteQuery env mut st = (Inr (), st1)" "\<not> is_executed st"
  shows "executeQuery env mut' st1 = (Inr (), st1\<lparr>is_forward_executed := False\<rparr>)"
proof -
  obtain st2 where e: "executeQuery env mut st = (Inr (), st2)" "st1 = st2\<lparr>is_forward_executed := True\<rparr>" "is_prepared st"
    using assms by (auto simp: forwardExecuteQuery_def split: if_splits sum.splits prod.splits)
  obtain r1 st3 where q: "requestNextPackOfResultSets env mut (begin_execution env st) = (r1, st3)" by fastforce
  obtain r2 st4 where er: "execute_rest (param_set_array_size env) env st3 = (r2, st4)" by fastforce
  have "is_prepared st3" "is_prepared st4"
    using request_next_prepared [OF q] execute_rest_prepared [OF er] e(3) by (simp_all add: begin_execution_def)
  then have "is_executed st2 \<and> is_prepared st2"
    using e(1,3) assms(2) q er by (auto simp: executeQuery_def split: if_splits sum.splits)
  then show ?thesis using e by (simp add: executeQuery_def)
qed

theorem forward_execution_is_reused_witness:
  "\<exists>st1. forwardExecuteQuery ((sample_env [])\<lparr>param_set_array_size := 0\<rparr>) None sample_stmt = (Inr (), st1)
    \<and> executeQuery ((sample_env [])\<lparr>param_set_array_size := 0\<rparr>) None st1 = (Inr (), st1\<lparr>is_forward_executed := False\<rparr>)"
proof -
  let ?env = "(sample_env [])\<lparr>param_set_array_size := 0\<rparr>"
  have "fst (forwardExecuteQuery ?env None sample_stmt) = Inr ()"
    by (simp add: forwardExecuteQuery_def executeQuery_def requestNextPackOfResultSets_def begin_execution_def sample_stmt_def
        hasResultSet_def)
  then have f: "forwardExecuteQuery ?env None sample_stmt = (Inr (), snd (forwardExecuteQuery ?env None sample_stmt))"
    by (metis prod.collapse)
  have "\<not> is_executed sample_stmt" by (simp add: sample_stmt_def)
  from forward_execution_is_reused [OF f this] f show ?thesis by blast
qed

section \<open>A query and its rows\<close>

text \<open>C3: A query sent to a server that answers in the default format and ends its response well: the query is
  sent once, and the fetches return the rows of the answer in order, cut at their sizes.\<close>

theorem executed_rows_are_fetched:
  assumes "is_prepared st" "\<not> (is_executed st \<and> is_forward_executed st)"
    and "connection_open env" "0 < param_set_array_size env" "0 < redirect_limit env" "prepare_request env 0 = Inr qp"
    and "server env (sent st) (make_request env qp) = Inr resp" "status resp = 200"
    and "getHeader ''X-ClickHouse-Format'' (default_format env) resp = ''ODBCDriver2''"
    and "getHeader ''X-ClickHouse-Timezone'' (local_timezone env) resp = tz"
    and "clean resp" "content resp = odbc_header_bytes nts @ concat (map (\<lambda>vs. concat (map text_bytes vs)) texts)"
    and "nts \<noteq> []" "int (length nts) + 1 < 2 ^ 31" "length cols = length nts"
    and "list_all (\<lambda>nt. text_ok (Some (fst nt)) \<and> text_ok (Some (snd nt))) nts"
    and "\<forall>i < length nts. odbc_typed_column tz (snd (nts ! i)) (fresh_ColumnInfo\<lparr>col_name := fst (nts ! i)\<rparr>) = Inr (cols ! i)"
    and "map (text_row cols) texts = map Some rows"
  shows "\<exists>st' rd rs. executeQuery env None st = (Inr (), st') \<and> sent st' = sent st @ [make_request env qp]
    \<and> result_reader st' = Some rd \<and> reader_result_set rd = Some rs
    \<and> (\<forall>recycle ns. fst (fetches odbc_readNextRow recycle ns rs) = pieces ns rows)"
proof -
  have "odbc_header_bytes nts \<noteq> []" by (simp add: odbc_header_bytes_def)
  then have "content resp \<noteq> []" using assms(12) by simp
  then obtain s1 where s1: "at_eof resp = (Inr False, s1)" "clean s1" "content s1 = content resp"
    using http.eof_good [OF assms(11)] by auto
  from reads_odbc_header [OF assms(13-17)] s1(2,3) assms(12) obtain s' where
    h: "odbc_readHeader tz s1 = (Inr cols, s')" "clean s'" "content s' = concat (map (\<lambda>vs. concat (map text_bytes vs)) texts)"
    unfolding reads_def by metis
  have "cols \<noteq> []" using assms(13,15) by auto
  then obtain rs where rs: "ODBCDriver2ResultSet tz s1 = Inr rs" "odbc.pending rs rows"
    using h assms(18) by (auto simp: ODBCDriver2ResultSet_def odbc.pending_def odbc_yields_def)
  let ?rd = "\<lparr>reader_format = ODBCDriver2, reader_result_set = Some rs, reader_mutator = None\<rparr>"
  have rd: "make_result_reader ''ODBCDriver2'' tz resp None = Inr ?rd"
    using s1(1) rs(1) by (simp add: make_result_reader_def ResultReader_def result_set_of_def)
  let ?st = "begin_execution env st"
  obtain k where k: "redirect_limit env = Suc k" using assms(5) by (cases "redirect_limit env") auto
  have loop: "redirect_loop (redirect_limit env) env url (make_request env qp) x
      = (Inr (), x\<lparr>response := Some resp, sent := sent x @ [make_request env qp]\<rparr>)" if "sent x = sent st" for x url
    using assms(7,8) that by (simp add: k Let_def)
  have "\<exists>st1. requestNextPackOfResultSets env None ?st = (Inr (), st1) \<and> result_reader st1 = Some ?rd
      \<and> sent st1 = sent st @ [make_request env qp]"
    using assms(3,4,6,8,9,10) rd
    by (simp add: requestNextPackOfResultSets_def sendParamSet_def begin_execution_def loop Let_def set_status_def)
  then obtain st1 where st1: "requestNextPackOfResultSets env None ?st = (Inr (), st1)" "result_reader st1 = Some ?rd"
      "sent st1 = sent st @ [make_request env qp]" by blast
  then have "executeQuery env None st = (Inr (), st1\<lparr>is_executed := True\<rparr>)"
    by (simp add: executeQuery_begin [OF assms(1,2)] hasResultSet_def reader_hasResultSet_def)
  moreover have "fst (fetches odbc_readNextRow recycle ns rs) = pieces ns rows" for recycle ns
    using odbc.fetches_pending [OF rs(2), of recycle ns] by auto
  ultimately show ?thesis using st1 by (auto intro!: exI [of _ "st1\<lparr>is_executed := True\<rparr>"])
qed

theorem executed_rows_are_fetched_witness:
  "let env = sample_env (odbc_header_bytes [(''x'', ''Int32'')] @ concat (map (\<lambda>vs. concat (map text_bytes vs)) [[Some ''12''], [None]])) in
    \<exists>st' rd rs. executeQuery env None sample_stmt = (Inr (), st') \<and> sent st' = [] @ [make_request env (''SELECT'', Map.empty)]
    \<and> result_reader st' = Some rd \<and> reader_result_set rd = Some rs
    \<and> (\<forall>recycle ns. fst (fetches odbc_readNextRow recycle ns rs) = pieces ns [[Any_field ''12''], [Null_field]])"
proof -
  define body where "body = odbc_header_bytes [(''x'', ''Int32'')] @ concat (map (\<lambda>vs. concat (map text_bytes vs)) [[Some ''12''], [None]])"
  let ?resp = "(new_response [])\<lparr>status := 200, headers_complete := True, is_done := True, raw := body\<rparr>"
  have t: "odbc_typed_column ''UTC'' ''Int32'' (fresh_ColumnInfo\<lparr>col_name := ''x''\<rparr>) = Inr sample_odbc_column"
    by code_simp
  have s: "sent sample_stmt = []" by (simp add: sample_stmt_def)
  have "\<exists>st' rd rs. executeQuery (sample_env body) None sample_stmt = (Inr (), st')
    \<and> sent st' = sent sample_stmt @ [make_request (sample_env body) (''SELECT'', Map.empty)]
    \<and> result_reader st' = Some rd \<and> reader_result_set rd = Some rs
    \<and> (\<forall>recycle ns. fst (fetches odbc_readNextRow recycle ns rs) = pieces ns [[Any_field ''12''], [Null_field]])"
  proof (rule executed_rows_are_fetched [where resp = ?resp and cols = "[sample_odbc_column]" and nts = "[(''x'', ''Int32'')]"
        and texts = "[[Some ''12''], [None]]" and tz = "''UTC''"])
    show "\<forall>i < length [(''x'', ''Int32'')]. odbc_typed_column ''UTC'' (snd ([(''x'', ''Int32'')] ! i))
        (fresh_ColumnInfo\<lparr>col_name := fst ([(''x'', ''Int32'')] ! i)\<rparr>) = Inr ([sample_odbc_column] ! i)" using t by simp
    show "content ?resp = odbc_header_bytes [(''x'', ''Int32'')] @ concat (map (\<lambda>vs. concat (map text_bytes vs)) [[Some ''12''], [None]])"
      by (simp add: content_def total_def new_response_def body_def)
  qed (simp_all add: sample_stmt_def sample_env_def getHeader_def clean_def new_response_def total_def text_ok_def text_field_def
      sample_odbc_column_def)
  then show ?thesis unfolding Let_def body_def [symmetric] s .
qed

end
