(* ===== verification/Output_Buffer.thy ===== *)
theory Output_Buffer
  imports Attributes
begin

text \<open>
  Writing into the buffers of the application: \<open>fillOutputBufferInternal\<close>,
  \<open>fillOutputBuffer\<close>, \<open>fillOutputString\<close>, \<open>fillOutputPOD\<close> and \<open>fillOutputNULL\<close> of
  driver/utils/type_info.h. Application memory is a store of bytes and a store of the
  integers the length, indicator, count and status pointers point to; addresses are integers and 0
  is the null pointer. An operation that throws leaves the memory it has written so far.
\<close>

section \<open>Application memory\<close>

record app_memory =
  mem_bytes :: "int \<Rightarrow> char"
  mem_lens :: "int \<Rightarrow> int"

definition write_bytes :: "int \<Rightarrow> string \<Rightarrow> app_memory \<Rightarrow> app_memory" where
  "write_bytes p bs m =
     m\<lparr>mem_bytes := (\<lambda>x. if p \<le> x \<and> x < p + int (length bs) then bs ! nat (x - p) else mem_bytes m x)\<rparr>"

definition write_len :: "int \<Rightarrow> int \<Rightarrow> app_memory \<Rightarrow> app_memory" where
  "write_len p v m = m\<lparr>mem_lens := (mem_lens m)(p := v)\<rparr>"

definition peek_bytes :: "int \<Rightarrow> nat \<Rightarrow> app_memory \<Rightarrow> string" where
  "peek_bytes p n m = map (\<lambda>i. mem_bytes m (p + int i)) [0..<n]"

type_synonym 'a mem_op = "app_memory \<Rightarrow> 'a result \<times> app_memory"

section \<open>The code\<close>

definition bad_length :: exn where
  "bad_length = SqlException ''Invalid string or buffer length'' ''HY090''"

definition right_truncated :: exn where
  "right_truncated = Sql_Exception
     \<lparr>message = ''String data, right truncated'', sql_state = ''01004'', return_code = SQL_SUCCESS_WITH_INFO\<rparr>"

definition fillOutputBufferInternal :: "string option \<Rightarrow> int \<Rightarrow> int \<Rightarrow> int \<Rightarrow> unit mem_op" where
  "fillOutputBufferInternal in_value in_value_length out_value out_value_max_length m =
     (if in_value_length < 0 \<or> (0 < in_value_length \<and> in_value = None) then (Inl bad_length, m)
      else if 0 < in_value_length \<and> out_value \<noteq> 0 then
        (if out_value_max_length < 0 then (Inl bad_length, m)
         else
           (let bytes_to_copy = (if out_value_max_length < in_value_length then out_value_max_length else in_value_length) in
            (Inr (), write_bytes out_value (take (nat bytes_to_copy) (the in_value)) m)))
      else (Inr (), m))"

definition fillOutputBuffer :: "string option \<Rightarrow> int \<Rightarrow> int \<Rightarrow> int \<Rightarrow> int \<Rightarrow> int mem_op" where
  "fillOutputBuffer in_value in_value_length out_value out_value_max_length out_value_length m =
     (case fillOutputBufferInternal in_value in_value_length out_value out_value_max_length m of
        (Inl e, m1) \<Rightarrow> (Inl e, m1)
      | (Inr _, m1) \<Rightarrow>
          (let m2 = (if out_value_length \<noteq> 0 then write_len out_value_length in_value_length m1 else m1) in
           (if out_value_max_length < in_value_length then Inl right_truncated else Inr SQL_SUCCESS, m2)))"

definition write_nul :: "nat \<Rightarrow> int \<Rightarrow> nat \<Rightarrow> nat \<Rightarrow> app_memory \<Rightarrow> app_memory" where
  "write_nul cs out_value max_in_symbols symbols_written m =
     (if symbols_written < max_in_symbols then write_bytes (out_value + int (symbols_written * cs)) (replicate cs (CHR 0x00)) m
      else if 0 < max_in_symbols then write_bytes (out_value + int ((max_in_symbols - 1) * cs)) (replicate cs (CHR 0x00)) m
      else m)"

text \<open>
  \<open>cs\<close> is the size of the character type, \<open>converted\<close> the bytes \<open>fromUTF8\<close> makes of the value,
  a whole number of characters. Lengths and offsets are in bytes and unsigned.
\<close>

definition fillOutputString :: "nat \<Rightarrow> string \<Rightarrow> int \<Rightarrow> int \<Rightarrow> int \<Rightarrow> bool \<Rightarrow> bool \<Rightarrow> nat \<Rightarrow> int mem_op" where
  "fillOutputString cs converted out_value out_value_max_length out_value_length out_length_in_bytes ensure_nts offset0 m =
     (if out_value \<noteq> 0 \<and> out_value_max_length < 0 then (Inl bad_length, m)
      else if out_value \<noteq> 0 \<and> out_length_in_bytes \<and> out_value_max_length mod int cs \<noteq> 0 then (Inl bad_length, m)
      else
        (let partial = 0 < offset0;
             length_in_bytes = length converted;
             length_in_symbols = length_in_bytes div cs;
             max_in_symbols = (if out_length_in_bytes then as_size out_value_max_length div cs else as_size out_value_max_length);
             max_in_bytes = (if out_length_in_bytes then as_size out_value_max_length else as_size (int (as_size out_value_max_length) * int cs));
             offset = (if length_in_bytes < offset0 then length_in_bytes else offset0);
             offset_in_symbols = offset div cs in
         case fillOutputBufferInternal (Some (drop (offset_in_symbols * cs) converted)) (int (length_in_bytes - offset))
             out_value (int max_in_bytes) m of
           (Inl e, m1) \<Rightarrow> (Inl e, m1)
         | (Inr _, m1) \<Rightarrow>
             (let m2 = (if out_value_length \<noteq> 0
                    then write_len out_value_length
                      (as_int64 (int (if out_length_in_bytes then length_in_bytes - offset else length_in_symbols - offset_in_symbols))) m1
                    else m1);
                  m3 = (if ensure_nts \<and> out_value \<noteq> 0
                    then write_nul cs out_value max_in_symbols (length_in_symbols - offset_in_symbols) m2 else m2) in
              (if partial \<and> length_in_bytes \<le> offset then Inr SQL_NO_DATA
               else if max_in_symbols \<le> length_in_symbols - offset_in_symbols then Inl right_truncated
               else Inr SQL_SUCCESS, m3))))"

definition fillOutputPOD :: "string \<Rightarrow> int \<Rightarrow> int \<Rightarrow> int mem_op" where
  "fillOutputPOD obj out_value out_value_length =
     fillOutputBuffer (Some obj) (int (length obj)) out_value (int (length obj)) out_value_length"

definition fillOutputNULL :: "int \<Rightarrow> int mem_op" where
  "fillOutputNULL out_value_length m =
     (if out_value_length = 0 then (Inl (SqlException ''Indicator variable required but not supplied'' ''22002''), m)
      else (Inr SQL_SUCCESS, write_len out_value_length SQL_NULL_DATA m))"

section \<open>Memory\<close>

lemma write_bytes_simps [simp]:
  "mem_lens (write_bytes p bs m) = mem_lens m"
  "mem_bytes (write_len q v m) = mem_bytes m"
  "mem_lens (write_len q v m) = (mem_lens m)(q := v)"
  by (simp_all add: write_bytes_def write_len_def)

lemma write_bytes_Nil [simp]: "write_bytes p [] m = m"
  by (rule app_memory.equality) (auto simp: write_bytes_def fun_eq_iff)

lemma mem_bytes_write:
  "mem_bytes (write_bytes p bs m) x = (if p \<le> x \<and> x < p + int (length bs) then bs ! nat (x - p) else mem_bytes m x)"
  by (simp add: write_bytes_def)

lemma peek_length [simp]: "length (peek_bytes p n m) = n"
  by (simp add: peek_bytes_def)

lemma peek_nth: "i < n \<Longrightarrow> peek_bytes p n m ! i = mem_bytes m (p + int i)"
  by (simp add: peek_bytes_def)

lemma peek_write_len [simp]: "peek_bytes p n (write_len q v m) = peek_bytes p n m"
  by (simp add: peek_bytes_def)

lemma peek_write_here: "n \<le> length bs \<Longrightarrow> peek_bytes p n (write_bytes p bs m) = take n bs"
  by (rule nth_equalityI) (simp_all add: peek_nth mem_bytes_write)

lemma peek_write_off:
  "p + int n \<le> q \<or> q + int (length bs) \<le> p \<Longrightarrow> peek_bytes p n (write_bytes q bs m) = peek_bytes p n m"
  by (rule nth_equalityI) (auto simp: peek_nth mem_bytes_write)

lemma peek_append: "peek_bytes p (n + k) m = peek_bytes p n m @ peek_bytes (p + int n) k m"
  by (rule nth_equalityI) (auto simp: peek_nth nth_append)

text \<open>Two memories that differ at most in the bytes from \<open>lo\<close> below \<open>hi\<close> and in the length at \<open>q\<close>.\<close>

definition differ_in :: "int \<Rightarrow> int \<Rightarrow> int \<Rightarrow> app_memory \<Rightarrow> app_memory \<Rightarrow> bool" where
  "differ_in lo hi q m m' \<longleftrightarrow>
     (\<forall>x. x < lo \<or> hi \<le> x \<longrightarrow> mem_bytes m' x = mem_bytes m x) \<and> (\<forall>x. x \<noteq> q \<longrightarrow> mem_lens m' x = mem_lens m x)"

lemma differ_refl [simp]: "differ_in lo hi q m m"
  by (simp add: differ_in_def)

lemma differ_trans [trans]: "differ_in lo hi q m m1 \<Longrightarrow> differ_in lo hi q m1 m2 \<Longrightarrow> differ_in lo hi q m m2"
  by (simp add: differ_in_def)

lemma differ_write_bytes [intro]:
  "lo \<le> p \<Longrightarrow> p + int (length bs) \<le> hi \<Longrightarrow> differ_in lo hi q m (write_bytes p bs m)"
  by (auto simp: differ_in_def mem_bytes_write)

lemma differ_write_len [intro]: "differ_in lo hi q m (write_len q v m)"
  by (simp add: differ_in_def)

section \<open>What is written\<close>

lemma fillOutputBufferInternal_differ:
  assumes "fillOutputBufferInternal v n out mx m = (r, m')" "0 \<le> mx \<or> out = 0" "mx \<le> k"
  shows "differ_in out (out + k) q m m'"
  using assms by (auto simp: fillOutputBufferInternal_def Let_def split: if_splits)

lemma as_size_le: "0 \<le> x \<Longrightarrow> int (as_size x) \<le> x"
  by (simp add: as_size_def take_bit_eq_mod zmod_le_nonneg_dividend)

lemma as_size_of_nat: "n < 2 ^ 64 \<Longrightarrow> as_size (int n) = n"
  by (subst as_size_id) simp_all

lemma write_nul_differ:
  assumes "\<And>j. j < ms \<Longrightarrow> int (j * cs) + int cs \<le> k"
  shows "differ_in out (out + k) q m (write_nul cs out ms n m)"
proof -
  have w: "differ_in out (out + k) q m (write_bytes (out + int (j * cs)) (replicate cs (CHR 0x00)) m)" if "j < ms" for j
    by (rule differ_write_bytes) (use assms [OF that] in simp_all)
  show ?thesis unfolding write_nul_def
    using w [of n] w [of "ms - 1"] by (simp only: differ_refl split: if_split) simp
qed

lemma fillOutputString_differ:
  assumes "fillOutputString cs converted out mx len in_bytes nts offset m = (r, m')" "0 < cs"
  shows "differ_in out (out + (if in_bytes then mx else mx * int cs)) len m m'"
proof (cases "out = 0 \<or> 0 \<le> mx \<and> (in_bytes \<longrightarrow> mx mod int cs = 0)")
  case False
  then show ?thesis using assms(1) by (auto simp: fillOutputString_def split: if_splits)
next
  case True
  let ?n = "length converted" and ?k = "if in_bytes then mx else mx * int cs"
  let ?ms = "if in_bytes then as_size mx div cs else as_size mx"
  let ?mb = "if in_bytes then as_size mx else as_size (int (as_size mx) * int cs)"
  let ?o = "if ?n < offset then ?n else offset"
  obtain r1 m1 where i: "fillOutputBufferInternal (Some (drop (?o div cs * cs) converted)) (int (?n - ?o)) out (int ?mb) m = (r1, m1)"
    by fastforce
  let ?len = "as_int64 (int (if in_bytes then ?n - ?o else ?n div cs - ?o div cs))"
  let ?m2 = "if len \<noteq> 0 then write_len len ?len m1 else m1"
  let ?m3 = "if nts \<and> out \<noteq> 0 then write_nul cs out ?ms (?n div cs - ?o div cs) ?m2 else ?m2"
  have m': "m' = (case r1 of Inl _ \<Rightarrow> m1 | Inr _ \<Rightarrow> ?m3)"
    using assms(1) True i by (auto simp: fillOutputString_def Let_def split: sum.splits)
  have nul: "int (j * cs) + int cs \<le> ?k" if "j < ?ms" "0 \<le> mx" for j
  proof -
    have "Suc j * cs \<le> ?ms * cs" using that(1) by (intro mult_le_mono1) simp
    also have "int (?ms * cs) \<le> ?k"
    proof (cases in_bytes)
      case True
      have "as_size mx div cs * cs \<le> as_size mx" by simp
      then have "int (as_size mx div cs * cs) \<le> int (as_size mx)" by (simp only: of_nat_le_iff)
      then show ?thesis using True as_size_le [OF that(2)] by simp
    next
      case False
      then show ?thesis using as_size_le [OF that(2)] by (simp add: mult_right_mono)
    qed
    finally show ?thesis by (simp add: algebra_simps)
  qed
  have mb: "int ?mb \<le> ?k" if "0 \<le> mx"
    using as_size_le [OF that] as_size_le [of "int (as_size mx) * int cs"] mult_right_mono [OF as_size_le [OF that], of "int cs"]
    by (auto split: if_splits intro: order_trans)
  have d1: "differ_in out (out + ?k) len m m1"
  proof (cases "out = 0")
    case True
    then show ?thesis using i by (auto simp: fillOutputBufferInternal_def Let_def split: if_splits)
  next
    case False
    then show ?thesis using True mb by (intro fillOutputBufferInternal_differ [OF i]) simp_all
  qed
  have d3: "differ_in out (out + ?k) len ?m2 ?m3"
  proof (cases "nts \<and> out \<noteq> 0")
    case nt: True
    have "differ_in out (out + ?k) len ?m2 (write_nul cs out ?ms (?n div cs - ?o div cs) ?m2)"
      by (rule write_nul_differ, erule nul) (use True nt in blast)
    then show ?thesis unfolding if_P [OF nt] .
  next
    case nt: False
    show ?thesis unfolding if_not_P [OF nt] by (rule differ_refl)
  qed
  have "differ_in out (out + ?k) len m1 ?m2" by (cases "len = 0") (simp_all add: differ_write_len)
  from differ_trans [OF differ_trans [OF d1 this] d3] d1 m' show ?thesis
    by (cases r1) (simp_all only: sum.case)
qed

text \<open>C33: A text is never written outside the buffer it is written to, whatever its length, the offset and
  the size the application gives; beside the buffer only the length at the length pointer changes.\<close>

theorem output_string_stays_inside:
  assumes "fillOutputString cs converted out mx len in_bytes nts offset m = (r, m')" "0 < cs"
  shows "(\<forall>x. x < out \<or> out + (if in_bytes then mx else mx * int cs) \<le> x \<longrightarrow> mem_bytes m' x = mem_bytes m x)
    \<and> (\<forall>x. x \<noteq> len \<longrightarrow> mem_lens m' x = mem_lens m x)"
  using fillOutputString_differ [OF assms] by (simp add: differ_in_def)

definition blank_memory :: app_memory where
  "blank_memory = \<lparr>mem_bytes = (\<lambda>_. CHR ''~''), mem_lens = (\<lambda>_. 0)\<rparr>"

theorem output_string_stays_inside_witness:
  "mem_bytes (snd (fillOutputString 1 ''hello'' 100 3 8 True True 0 blank_memory)) 99 = CHR ''~''
    \<and> mem_bytes (snd (fillOutputString 1 ''hello'' 100 3 8 True True 0 blank_memory)) 103 = CHR ''~''
    \<and> mem_lens (snd (fillOutputString 1 ''hello'' 100 3 8 True True 0 blank_memory)) 16 = 0"
proof -
  note inside = output_string_stays_inside [where cs = 1 and converted = "''hello''" and out = 100 and mx = 3 and len = 8
      and in_bytes = True and nts = True and offset = 0 and m = blank_memory, OF prod.collapse [symmetric]]
  show ?thesis
    using inside [THEN conjunct1, THEN spec, of 99] inside [THEN conjunct1, THEN spec, of 103]
      inside [THEN conjunct2, THEN spec, of 16]
    by (simp add: blank_memory_def)
qed

section \<open>One piece of a text\<close>

text \<open>
  A text of \<open>n\<close> characters of \<open>cs\<close> bytes, written from the character \<open>j\<close> on into a buffer of \<open>k\<close>
  characters: as many as leave room for the terminator are written, and the terminator behind them.
\<close>

lemma fillOutputString_piece:
  assumes "length converted = n * cs" "0 < cs" "0 < k" "k * cs < 2 ^ 63" "n * cs < 2 ^ 63" "out \<noteq> 0" "len \<noteq> 0"
    and "offset = j * cs"
  defines "p \<equiv> min (n - j) (k - 1)"
  obtains m' where
    "fillOutputString cs converted out (int (k * cs)) len True True offset m =
       (if 0 < j \<and> n \<le> j then Inr SQL_NO_DATA else if k \<le> n - j then Inl right_truncated else Inr SQL_SUCCESS, m')"
    "peek_bytes out (p * cs) m' = take (p * cs) (drop (j * cs) converted)"
    "peek_bytes (out + int (p * cs)) cs m' = replicate cs (CHR 0x00)"
    "mem_lens m' len = int ((n - j) * cs)" "differ_in out (out + int (k * cs)) len m m'"
proof -
  let ?o = "min n j * cs"
  let ?src = "drop (min n j * cs) converted"
  let ?m1 = "if n \<le> j then m else write_bytes out (take (min (k * cs) ((n - j) * cs)) ?src) m"
  let ?m2 = "write_len len (int ((n - j) * cs)) ?m1"
  let ?m' = "write_nul cs out k (n - j) ?m2"
  have sz: "as_size (int (k * cs)) = k * cs"
    using assms(4) by (intro as_size_of_nat) simp
  have o: "(if length converted < offset then length converted else offset) = ?o"
    using assms(1,2,8) by (auto simp: min_def)
  have sub: "length converted - ?o = (n - j) * cs" using assms(1) by (auto simp: min_def diff_mult_distrib)
  have "(n - j) * cs \<le> n * cs" by simp
  then have small: "(n - j) * cs < 2 ^ 63" using assms(5) by linarith
  then have i64: "as_int64 (int ((n - j) * cs)) = int ((n - j) * cs)"
    by (intro as_int64_id) (simp_all del: of_nat_mult)
  have copy: "fillOutputBufferInternal (Some ?src) (int ((n - j) * cs)) out (int (k * cs)) m = (Inr (), ?m1)"
    using assms(2,6) by (simp add: fillOutputBufferInternal_def min_def del: of_nat_mult)
  have off: "?o div cs = min n j" "length converted div cs = n" "k * cs div cs = k" using assms(1,2) by simp_all
  have part: "0 < offset \<longleftrightarrow> 0 < j" using assms(2,8) by simp
  have at_end: "length converted \<le> ?o \<longleftrightarrow> n \<le> j" using assms(1,2) by (auto simp: min_def)
  have mx: "int (k * cs) mod int cs = 0" "\<not> int (k * cs) < 0" by (simp, simp del: of_nat_mult)
  have nj: "n - min n j = n - j" by simp
  have res: "fillOutputString cs converted out (int (k * cs)) len True True offset m =
       (if 0 < j \<and> n \<le> j then Inr SQL_NO_DATA else if k \<le> n - j then Inl right_truncated else Inr SQL_SUCCESS, ?m')"
    unfolding fillOutputString_def Let_def o sz if_P [OF TrueI] sub off nj copy i64 part at_end
    using assms(6,7) mx by (simp del: of_nat_mult)
  have nul: "?m' = write_bytes (out + int (p * cs)) (replicate cs (CHR 0x00)) ?m2"
    using assms(3) by (auto simp: write_nul_def p_def min_def)
  have "peek_bytes out (p * cs) ?m1 = take (p * cs) (drop (j * cs) converted)"
  proof (cases "n \<le> j")
    case False
    have "p \<le> k" "p \<le> n - j" using assms(3) by (auto simp: p_def)
    then have pc: "p * cs \<le> min (k * cs) ((n - j) * cs)" by (simp add: mult_le_mono1)
    have l: "p * cs \<le> length (take (min (k * cs) ((n - j) * cs)) ?src)"
      using pc False assms(1) by (simp add: diff_mult_distrib)
    show ?thesis using peek_write_here [OF l, of out m] pc False by (simp add: min_def)
  qed (simp add: p_def peek_bytes_def)
  then have front: "peek_bytes out (p * cs) ?m' = take (p * cs) (drop (j * cs) converted)"
    unfolding nul by (subst peek_write_off) (simp_all del: of_nat_mult)
  have behind: "peek_bytes (out + int (p * cs)) cs ?m' = replicate cs (CHR 0x00)"
    unfolding nul by (subst peek_write_here) simp_all
  have "mem_lens ?m' len = int ((n - j) * cs)" unfolding nul by simp
  moreover have "differ_in out (out + int (k * cs)) len m ?m'"
    using fillOutputString_differ [OF res assms(2)] by simp
  ultimately show ?thesis using that [OF res front behind] by blast
qed

end
