(* ===== verification/Date_Conv.thy ===== *)
theory Date_Conv
  imports Exceptions
begin

text \<open>
  Dates and times of the wire as ODBC structures, and the structures as text: the
  specialisations of \<open>value_manip::from_value\<close> in driver/utils/type_info.h for the types of
  RowBinaryWithNamesAndTypes and the SQL structures. \<open>toLocalTime\<close> is the C library's
  \<open>localtime\<close> and an argument.
\<close>

record tm =
  tm_year :: int
  tm_mon :: int
  tm_mday :: int
  tm_hour :: int
  tm_min :: int
  tm_sec :: int

record SQL_DATE_STRUCT =
  date_year :: int
  date_month :: int
  date_day :: int

record SQL_TIME_STRUCT =
  time_hour :: int
  time_minute :: int
  time_second :: int

record SQL_TIMESTAMP_STRUCT =
  ts_year :: int
  ts_month :: int
  ts_day :: int
  ts_hour :: int
  ts_minute :: int
  ts_second :: int
  ts_fraction :: nat

text \<open>The fields are 16 bits wide, the year signed.\<close>

abbreviation s16 :: "int \<Rightarrow> int" where "s16 \<equiv> signed_take_bit 15"
abbreviation u16 :: "int \<Rightarrow> int" where "u16 v \<equiv> v mod 2 ^ 16"

section \<open>From the wire\<close>

definition date_of_days :: "(int \<Rightarrow> tm) \<Rightarrow> nat \<Rightarrow> SQL_DATE_STRUCT" where
  "date_of_days toLocalTime v =
     (let t = toLocalTime (int v * 24 * 60 * 60) in
      \<lparr>date_year = s16 (1900 + tm_year t), date_month = u16 (1 + tm_mon t), date_day = u16 (tm_mday t)\<rparr>)"

definition timestamp_of_tm :: "tm \<Rightarrow> nat \<Rightarrow> SQL_TIMESTAMP_STRUCT" where
  "timestamp_of_tm t fraction =
     \<lparr>ts_year = s16 (1900 + tm_year t), ts_month = u16 (1 + tm_mon t), ts_day = u16 (tm_mday t),
      ts_hour = u16 (tm_hour t), ts_minute = u16 (tm_min t), ts_second = u16 (tm_sec t), ts_fraction = fraction\<rparr>"

definition timestamp_of_seconds :: "(int \<Rightarrow> tm) \<Rightarrow> nat \<Rightarrow> SQL_TIMESTAMP_STRUCT" where
  "timestamp_of_seconds toLocalTime v = timestamp_of_tm (toLocalTime (int v)) 0"

text \<open>Division truncates towards zero; the precision is an index into the ten powers of \<open>pow10\<close>.\<close>

definition quot :: "int \<Rightarrow> int \<Rightarrow> int" where
  "quot a b = (if a < 0 then - (- a div b) else a div b)"

definition timestamp_of_ticks :: "(int \<Rightarrow> tm) \<Rightarrow> nat \<Rightarrow> int \<Rightarrow> SQL_TIMESTAMP_STRUCT result" where
  "timestamp_of_ticks toLocalTime prec v =
     (if 9 < prec then Inl (Undefined_Behaviour ''pow10 out of range'')
      else
        (let secs = quot v (10 ^ prec);
             fraction = nat \<bar>v - secs * 10 ^ prec\<bar> in
         if secs < 0
         then Inl (Runtime_Error (''Cannot represent '' @ show_int secs @ '' seconds since the Unix epoch as SQL_TIMESTAMP_STRUCT''))
         else Inr (timestamp_of_tm (toLocalTime secs) fraction)))"

section \<open>To text\<close>

text \<open>\<open>%0wd\<close>.\<close>

definition padded :: "nat \<Rightarrow> int \<Rightarrow> string" where
  "padded w i =
     (if i < 0 then (let ds = show_nat (nat (- i)) in CHR ''-'' # replicate (w - 1 - length ds) (CHR ''0'') @ ds)
      else (let ds = show_nat (nat i) in replicate (w - length ds) (CHR ''0'') @ ds))"

definition date_to_string :: "SQL_DATE_STRUCT \<Rightarrow> string" where
  "date_to_string d = padded 4 (date_year d) @ ''-'' @ padded 2 (date_month d) @ ''-'' @ padded 2 (date_day d)"

definition time_to_string :: "SQL_TIME_STRUCT \<Rightarrow> string" where
  "time_to_string t = padded 2 (time_hour t) @ '':'' @ padded 2 (time_minute t) @ '':'' @ padded 2 (time_second t)"

definition timestamp_to_string :: "SQL_TIMESTAMP_STRUCT \<Rightarrow> string" where
  "timestamp_to_string t =
     (let buf = padded 4 (ts_year t) @ ''-'' @ padded 2 (ts_month t) @ ''-'' @ padded 2 (ts_day t) @ '' ''
            @ padded 2 (ts_hour t) @ '':'' @ padded 2 (ts_minute t) @ '':'' @ padded 2 (ts_second t) in
      if 0 < ts_fraction t \<and> ts_fraction t < 1000000000 then buf @ ''.'' @ padded 9 (int (ts_fraction t)) else buf)"

section \<open>Properties\<close>

lemma show_nat_length: "n < 10 ^ Suc k \<Longrightarrow> length (show_nat n) \<le> Suc k"
proof (induction n arbitrary: k rule: show_nat.induct)
  case (1 n)
  show ?case
  proof (cases "n < 10")
    case False
    then obtain j where k: "k = Suc j" using "1.prems" by (cases k) simp_all
    then have "n div 10 < 10 ^ Suc j" using "1.prems" by (simp add: div_less_iff_less_mult mult.commute)
    then have "length (show_nat (n div 10)) \<le> Suc j" using "1.IH" False by simp
    then show ?thesis using False k by (simp add: show_nat.simps [of n])
  qed (simp add: show_nat.simps [of n])
qed

lemma length_padded: "0 \<le> i \<Longrightarrow> i < 10 ^ Suc k \<Longrightarrow> length (padded (Suc k) i) = Suc k"
proof -
  assume i: "0 \<le> i" "i < 10 ^ Suc k"
  then have "nat i < 10 ^ Suc k" by (simp add: nat_less_iff)
  then have "length (show_nat (nat i)) \<le> Suc k" by (rule show_nat_length)
  then show ?thesis using i(1) by (simp add: padded_def Let_def)
qed

lemma digits_value_zeros: "digits_value (replicate n (CHR ''0'') @ s) = digits_value s"
proof -
  have "foldl (\<lambda>v c. 10 * v + digit_val c) 0 (replicate n (CHR ''0'')) = 0"
    by (induction n) (simp_all add: digit_val_def)
  then show ?thesis by (simp add: digits_value_def)
qed

lemma digits_value_padded: "0 \<le> i \<Longrightarrow> digits_value (padded w i) = nat i"
  by (simp add: padded_def Let_def digits_value_zeros)

text \<open>A DateTime64 value of \<open>secs\<close> seconds and \<open>f\<close> ticks of \<open>10 ^ - prec\<close> seconds becomes a
  timestamp whose fraction is \<open>f\<close> itself, although ODBC counts fractions in \<open>10 ^ - 9\<close> seconds: with
  a precision below 9 the nine digits of the text stand for a fraction that is too small by the
  factor \<open>10 ^ (9 - prec)\<close>.\<close>

theorem datetime64_fraction_unscaled:
  assumes "prec \<le> 9" "0 < f" "f < 10 ^ prec"
  shows "\<exists>t digits. timestamp_of_ticks toLocalTime prec (int secs * 10 ^ prec + int f) = Inr t \<and> ts_fraction t = f
    \<and> timestamp_to_string t = timestamp_to_string (t\<lparr>ts_fraction := 0\<rparr>) @ ''.'' @ digits
    \<and> length digits = 9 \<and> digits_value digits = f"
proof -
  let ?v = "int secs * 10 ^ prec + int f"
  have v: "0 \<le> ?v" by simp
  have f: "int f < 10 ^ prec" using assms(3) by (simp flip: of_nat_less_iff)
  have "\<not> ?v < 0" using v by linarith
  then have q: "quot ?v (10 ^ prec) = int secs" using f unfolding quot_def by simp
  have t: "timestamp_of_ticks toLocalTime prec ?v = Inr (timestamp_of_tm (toLocalTime (int secs)) f)"
    using assms(1) by (simp add: timestamp_of_ticks_def q Let_def)
  have "f < 10 ^ 9" using assms(1,3) power_increasing [of prec 9 "10 :: nat"] by simp
  then have f9: "f < 1000000000" by simp
  have "length (padded (Suc 8) (int f)) = Suc 8" using f9 by (intro length_padded) simp_all
  then have "length (padded 9 (int f)) = 9" by simp
  then show ?thesis
    using t f9 assms(2) digits_value_padded [of "int f" 9]
    by (intro exI [of _ "timestamp_of_tm (toLocalTime (int secs)) f"] exI [of _ "padded 9 (int f)"])
      (simp add: timestamp_to_string_def timestamp_of_tm_def Let_def)
qed

theorem datetime64_fraction_unscaled_witness:
  "\<exists>t digits. timestamp_of_ticks (\<lambda>s. \<lparr>tm_year = 70, tm_mon = 0, tm_mday = 1, tm_hour = 0, tm_min = 0, tm_sec = s\<rparr>) 3 (int 5 * 10 ^ 3 + int 120)
      = Inr t \<and> ts_fraction t = 120
    \<and> timestamp_to_string t = timestamp_to_string (t\<lparr>ts_fraction := 0\<rparr>) @ ''.'' @ digits
    \<and> length digits = 9 \<and> digits_value digits = 120"
  by (rule datetime64_fraction_unscaled) simp_all

end
