(* ===== verification/Field_Output.thy ===== *)
theory Field_Output
  imports Output_Buffer Result_Set Value_Conv Date_Conv Sql_Types
begin

text \<open>
  A field of a row written into a bound buffer: \<open>Field::extract\<close>, \<open>Row::extractField\<close> and
  \<open>ResultSet::extractField\<close> of driver/result_set.h and .cpp, \<open>writeDataFrom\<close> and the
  \<open>to_buffer\<close> templates of driver/utils/type_info.h over the types a field can hold. Arguments of
  the model: the encodings (\<open>fromUTF8\<close>), the local time, and the conversions that rest on
  floating-point numbers, \<open>std::get_time\<close> or \<open>sscanf\<close>.
\<close>

record BindingInfo =
  b_c_type :: SQLSMALLINT
  b_value :: int
  b_value_max_size :: SQLLEN
  b_value_offset :: nat
  b_value_size :: int
  b_indicator :: int
  b_precision :: int
  b_scale :: int

definition fresh_BindingInfo :: BindingInfo where
  "fresh_BindingInfo = \<lparr>b_c_type = SQL_C_DEFAULT, b_value = 0, b_value_max_size = 0, b_value_offset = 0,
     b_value_size = 0, b_indicator = 0, b_precision = 0, b_scale = 0\<rparr>"

text \<open>\<open>other_conv f t\<close> is the object of C type \<open>t\<close> the remaining conversions make of a field.\<close>

record conv_env =
  fromUTF8 :: "nat \<Rightarrow> string \<Rightarrow> string"
  toLocalTime :: "int \<Rightarrow> tm"
  float_text :: "DataSourceTypeId \<Rightarrow> nat \<Rightarrow> string"
  other_conv :: "field \<Rightarrow> SQLSMALLINT \<Rightarrow> string result"

section \<open>Fields as texts\<close>

definition hex_char :: "nat \<Rightarrow> char" where
  "hex_char d = (if d < 10 then char_of (48 + d) else char_of (87 + d))"

text \<open>\<open>%0wx\<close> of a value that fits \<open>w\<close> digits.\<close>

fun hex_padded :: "nat \<Rightarrow> nat \<Rightarrow> string" where
  "hex_padded 0 v = []"
| "hex_padded (Suc w) v = hex_padded w (v div 16) @ [hex_char (v mod 16)]"

definition guid_to_string :: "nat \<Rightarrow> nat \<Rightarrow> nat \<Rightarrow> string \<Rightarrow> string" where
  "guid_to_string d1 d2 d3 d4 =
     (let b = map (\<lambda>c. hex_padded 2 (of_char c)) d4 in
      hex_padded 8 d1 @ ''-'' @ hex_padded 4 d2 @ ''-'' @ hex_padded 4 d3 @ ''-'' @ concat (take 2 b) @ ''-'' @ concat (drop 2 b))"

definition field_to_string :: "conv_env \<Rightarrow> field \<Rightarrow> string result" where
  "field_to_string env f =
     (case f of
        Null_field \<Rightarrow> Inr []
      | Date_int tz v \<Rightarrow> Inr (date_to_string (date_of_days (toLocalTime env) v))
      | DateTime_int tz v \<Rightarrow> Inr (timestamp_to_string (timestamp_of_seconds (toLocalTime env) v))
      | DateTime64_int tz v prec \<Rightarrow> bind_result (timestamp_of_ticks (toLocalTime env) prec v) (\<lambda>t. Inr (timestamp_to_string t))
      | Decimal_field ty v sg prec sc \<Rightarrow>
          Inr (decimal_to_string \<lparr>dec_value = v, dec_sign = int sg, dec_precision = dec_int16 prec, dec_scale = sc\<rparr>)
      | Int_field ty v \<Rightarrow> Inr (show_int v)
      | UInt_field ty v \<Rightarrow> Inr (show_nat v)
      | Float_field ty v \<Rightarrow> Inr (float_text env ty v)
      | String_field ty v \<Rightarrow> Inr v
      | UUID_field d1 d2 d3 d4 \<Rightarrow> Inr (guid_to_string d1 d2 d3 d4)
      | Any_field v \<Rightarrow> Inr v
      | Bool_field v \<Rightarrow> Inr (show_int v))"

section \<open>Fields as objects of a C type\<close>

definition not_supported :: exn where
  "not_supported = Runtime_Error ''conversion not supported''"

text \<open>The switch of \<open>writeDataFrom\<close> for the integer types: signedness and size.\<close>

definition int_target :: "SQLSMALLINT \<Rightarrow> (bool \<times> nat) option" where
  "int_target t =
     (if t = SQL_C_BIT \<or> t = SQL_C_UTINYINT then Some (False, 1)
      else if t = SQL_C_TINYINT \<or> t = SQL_C_STINYINT then Some (True, 1)
      else if t = SQL_C_SHORT \<or> t = SQL_C_SSHORT then Some (True, 2)
      else if t = SQL_C_USHORT then Some (False, 2)
      else if t = SQL_C_LONG \<or> t = SQL_C_SLONG then Some (True, 4)
      else if t = SQL_C_ULONG then Some (False, 4)
      else if t = SQL_C_SBIGINT then Some (True, 8)
      else if t = SQL_C_UBIGINT then Some (False, 8)
      else None)"

definition string_to_object :: "bool \<Rightarrow> nat \<Rightarrow> string \<Rightarrow> string result" where
  "string_to_object sg n s =
     (if sg then bind_result (string_to_int (8 * n) s) (\<lambda>v. Inr (signed_bytes n v))
      else bind_result (string_to_uint (8 * n) s) (\<lambda>v. Inr (le_bytes n v)))"

text \<open>An integer field is assigned, whatever its width.\<close>

definition field_to_int :: "conv_env \<Rightarrow> SQLSMALLINT \<Rightarrow> bool \<Rightarrow> nat \<Rightarrow> field \<Rightarrow> string result" where
  "field_to_int env t sg n f =
     (case f of
        Null_field \<Rightarrow> Inr (replicate n (CHR 0x00))
      | Int_field ty v \<Rightarrow> Inr (signed_bytes n v)
      | UInt_field ty v \<Rightarrow> Inr (signed_bytes n (int v))
      | Bool_field v \<Rightarrow> Inr (signed_bytes n v)
      | String_field ty s \<Rightarrow> string_to_object sg n s
      | Any_field s \<Rightarrow> string_to_object sg n s
      | Float_field ty v \<Rightarrow> other_conv env f t
      | DateTime64_int tz v prec \<Rightarrow> bind_result (timestamp_of_ticks (toLocalTime env) prec v) (\<lambda>_. Inl not_supported)
      | _ \<Rightarrow> Inl not_supported)"

definition numeric_object :: "Value_Conv.numeric \<Rightarrow> string" where
  "numeric_object n = [char_of (num_precision n), char_of (nat (num_scale n mod 256)), char_of (nat (num_sign n mod 256))]
     @ map char_of (num_val n)"

definition string_to_numeric :: "Value_Conv.numeric \<Rightarrow> string \<Rightarrow> string result" where
  "string_to_numeric dest s =
     bind_result (string_to_decimal s) (\<lambda>d. bind_result (decimal_to_numeric d dest) (\<lambda>n. Inr (numeric_object n)))"

definition field_to_numeric :: "conv_env \<Rightarrow> int \<Rightarrow> int \<Rightarrow> field \<Rightarrow> string result" where
  "field_to_numeric env prec0 sc0 f =
     (let dest = \<lparr>num_precision = nat (prec0 mod 256), num_scale = signed_take_bit 7 sc0, num_sign = 0, num_val = replicate 16 0\<rparr> in
      case f of
        Null_field \<Rightarrow> Inr (numeric_object (dest\<lparr>num_precision := 0, num_scale := 0\<rparr>))
      | Decimal_field ty v sg prec sc \<Rightarrow>
          bind_result (decimal_to_numeric \<lparr>dec_value = v, dec_sign = int sg, dec_precision = dec_int16 prec, dec_scale = sc\<rparr> dest)
            (\<lambda>n. Inr (numeric_object n))
      | Int_field ty v \<Rightarrow> string_to_numeric dest (show_int v)
      | UInt_field ty v \<Rightarrow> string_to_numeric dest (show_nat v)
      | Bool_field v \<Rightarrow> string_to_numeric dest (show_int v)
      | Float_field ty v \<Rightarrow> string_to_numeric dest (float_text env ty v)
      | String_field ty s \<Rightarrow> string_to_numeric dest s
      | Any_field s \<Rightarrow> string_to_numeric dest s
      | DateTime64_int tz v prec \<Rightarrow> bind_result (timestamp_of_ticks (toLocalTime env) prec v) (\<lambda>_. Inl not_supported)
      | _ \<Rightarrow> Inl not_supported)"

definition date_object :: "SQL_DATE_STRUCT \<Rightarrow> string" where
  "date_object d = signed_bytes 2 (date_year d) @ signed_bytes 2 (date_month d) @ signed_bytes 2 (date_day d)"

definition timestamp_object :: "SQL_TIMESTAMP_STRUCT \<Rightarrow> string" where
  "timestamp_object t = signed_bytes 2 (ts_year t) @ signed_bytes 2 (ts_month t) @ signed_bytes 2 (ts_day t)
     @ signed_bytes 2 (ts_hour t) @ signed_bytes 2 (ts_minute t) @ signed_bytes 2 (ts_second t) @ le_bytes 4 (ts_fraction t)"

definition guid_object :: "nat \<Rightarrow> nat \<Rightarrow> nat \<Rightarrow> string \<Rightarrow> string" where
  "guid_object d1 d2 d3 d4 = le_bytes 4 d1 @ le_bytes 2 d2 @ le_bytes 2 d3 @ d4"

text \<open>The structures of dates, times and identifiers, and floating-point numbers: assigned to their own C type, a
  floating-point number keeps its bits.\<close>

definition field_to_struct :: "conv_env \<Rightarrow> SQLSMALLINT \<Rightarrow> field \<Rightarrow> string result" where
  "field_to_struct env t f =
     (case f of
        Decimal_field ty v sg prec sc \<Rightarrow> Inl not_supported
      | Date_int tz v \<Rightarrow>
          (if t = SQL_C_DATE \<or> t = SQL_C_TYPE_DATE then Inr (date_object (date_of_days (toLocalTime env) v)) else Inl not_supported)
      | DateTime_int tz v \<Rightarrow>
          (if t = SQL_C_TIMESTAMP \<or> t = SQL_C_TYPE_TIMESTAMP
           then Inr (timestamp_object (timestamp_of_seconds (toLocalTime env) v)) else Inl not_supported)
      | DateTime64_int tz v prec \<Rightarrow>
          bind_result (timestamp_of_ticks (toLocalTime env) prec v) (\<lambda>ts.
            if t = SQL_C_TIMESTAMP \<or> t = SQL_C_TYPE_TIMESTAMP then Inr (timestamp_object ts) else Inl not_supported)
      | UUID_field d1 d2 d3 d4 \<Rightarrow> (if t = SQL_C_GUID then Inr (guid_object d1 d2 d3 d4) else Inl not_supported)
      | Float_field ty v \<Rightarrow>
          (if ty = Float32 \<and> t = SQL_C_FLOAT then Inr (le_bytes 4 v)
           else if ty = Float64 \<and> t = SQL_C_DOUBLE then Inr (le_bytes 8 v) else other_conv env f t)
      | _ \<Rightarrow> other_conv env f t)"

definition struct_targets :: "SQLSMALLINT list" where
  "struct_targets = [SQL_C_FLOAT, SQL_C_DOUBLE, SQL_C_GUID, SQL_C_DATE, SQL_C_TYPE_DATE, SQL_C_TIME, SQL_C_TYPE_TIME,
     SQL_C_TIMESTAMP, SQL_C_TYPE_TIMESTAMP]"

section \<open>Into the buffer\<close>

definition clear_indicator :: "BindingInfo \<Rightarrow> app_memory \<Rightarrow> app_memory" where
  "clear_indicator b m =
     (if b_indicator b \<noteq> 0 \<and> b_indicator b \<noteq> b_value_size b then write_len (b_indicator b) 0 m else m)"

text \<open>Only texts are written from the offset on.\<close>

definition to_text_buffer :: "conv_env \<Rightarrow> nat \<Rightarrow> field \<Rightarrow> BindingInfo \<Rightarrow> int mem_op" where
  "to_text_buffer env cs f b m =
     (let m1 = clear_indicator b m;
          put_text = (\<lambda>s offset. fillOutputString cs (fromUTF8 env cs s) (b_value b) (b_value_max_size b) (b_value_size b) True True offset m1) in
      case f of
        String_field ty s \<Rightarrow> put_text s (b_value_offset b)
      | Any_field s \<Rightarrow> put_text s (b_value_offset b)
      | _ \<Rightarrow> (case field_to_string env f of Inl e \<Rightarrow> (Inl e, m1) | Inr s \<Rightarrow> put_text s 0))"

definition to_object_buffer :: "string result \<Rightarrow> BindingInfo \<Rightarrow> int mem_op" where
  "to_object_buffer r b m =
     (let m1 = clear_indicator b m in
      case r of Inl e \<Rightarrow> (Inl e, m1) | Inr obj \<Rightarrow> fillOutputPOD obj (b_value b) (b_value_size b) m1)"

definition writeDataFrom :: "conv_env \<Rightarrow> field \<Rightarrow> BindingInfo \<Rightarrow> int mem_op" where
  "writeDataFrom env f b m =
     (let t = b_c_type b in
      if t = SQL_C_CHAR \<or> t = SQL_C_BINARY then to_text_buffer env 1 f b m
      else if t = SQL_C_WCHAR then to_text_buffer env 2 f b m
      else
        (case int_target t of
           Some (sg, n) \<Rightarrow> to_object_buffer (field_to_int env t sg n f) b m
         | None \<Rightarrow>
             if t = SQL_C_NUMERIC then to_object_buffer (field_to_numeric env (b_precision b) (b_scale b) f) b m
             else if t \<in> set struct_targets then to_object_buffer (field_to_struct env t f) b m
             else (Inl (Runtime_Error ''Unable to write data into bound buffer: destination type representation not supported''), m)))"

definition extract_field :: "conv_env \<Rightarrow> field \<Rightarrow> BindingInfo \<Rightarrow> int mem_op" where
  "extract_field env f b m = (if f = Null_field then fillOutputNULL (b_indicator b) m else writeDataFrom env f b m)"

definition extractField :: "conv_env \<Rightarrow> 's result_set \<Rightarrow> nat \<Rightarrow> nat \<Rightarrow> BindingInfo \<Rightarrow> int mem_op" where
  "extractField env rs row_idx column_idx b m =
     (if length (row_set rs) \<le> row_idx then (Inl (SqlException ''Invalid cursor position'' ''HY109''), m)
      else if length (row_set rs ! row_idx) \<le> column_idx then (Inl (SqlException ''Invalid descriptor index'' ''07009''), m)
      else extract_field env (row_set rs ! row_idx ! column_idx) b m)"

end
