(* ===== verification/Get_Data.thy ===== *)
theory Get_Data
  imports Field_Output Query_Params Column_Info
begin

text \<open>
  Fetching into the application's memory: \<open>GetData\<close>, \<open>fillBinding\<close> and \<open>fetchBindings\<close> of
  driver/api/impl/impl.cpp, the column offsets of driver/statement.h and \<open>getTypeInfo\<close> of
  driver/connection.cpp and driver/environment.cpp.
\<close>

section \<open>Types of columns\<close>

definition Environment_getTypeInfo :: "string \<Rightarrow> string \<Rightarrow> TypeInfo result" where
  "Environment_getTypeInfo nm bare =
     (case (case typeInfoIfExistsFor nm of Some ti \<Rightarrow> Some ti | None \<Rightarrow> typeInfoIfExistsFor bare) of
        Some ti \<Rightarrow> Inr ti
      | None \<Rightarrow>
          (let tid = convertUnparametrizedTypeNameToTypeId bare in
           bind_result (convertTypeIdToUnparametrizedCanonicalTypeName tid) (\<lambda>tmp_type_name.
           case typeInfoIfExistsFor (if tid = Decimal32 \<or> tid = Decimal64 \<or> tid = Decimal128 then ''Decimal'' else tmp_type_name) of
             Some ti \<Rightarrow> Inr ti
           | None \<Rightarrow> Inl (SqlException ''Invalid SQL data type'' ''HY004''))))"

definition Connection_getTypeInfo :: "bool \<Rightarrow> string \<Rightarrow> string \<Rightarrow> TypeInfo result" where
  "Connection_getTypeInfo huge_int_as_string nm bare =
     (if huge_int_as_string \<and> convertUnparametrizedTypeNameToTypeId bare = UInt64
      then Environment_getTypeInfo ''String'' ''String'' else Environment_getTypeInfo nm bare)"

section \<open>State\<close>

text \<open>The cursor of a statement: its result set, if it has one, beside the row descriptor and the offsets.\<close>

record 's cursor = col_state +
  cur_result_set :: "'s result_set option"
  ird_desc :: descriptor
  huge_ints :: bool
  row_count :: int
  app_mem :: app_memory

definition getColumnOffset :: "nat \<Rightarrow> ('s, 'z) cursor_scheme \<Rightarrow> nat" where
  "getColumnOffset c st = (case column_offsets st c of Some n \<Rightarrow> n | None \<Rightarrow> 0)"

definition setColumnOffset :: "nat \<Rightarrow> nat \<Rightarrow> ('s, 'z) cursor_scheme \<Rightarrow> ('s, 'z) cursor_scheme" where
  "setColumnOffset c n st = st\<lparr>column_offsets := (column_offsets st)(c \<mapsto> n)\<rparr>"

definition resetColumnOffsets :: "('s, 'z) cursor_scheme \<Rightarrow> ('s, 'z) cursor_scheme" where
  "resetColumnOffsets st = st\<lparr>column_offsets := Map.empty\<rparr>"

section \<open>fillBinding\<close>

definition descriptor_c_type :: "nat \<Rightarrow> BindingInfo \<Rightarrow> BindingInfo desc_op" where
  "descriptor_c_type column_idx b d =
     (if b_c_type b = SQL_ARD_TYPE \<or> b_c_type b = SQL_C_DEFAULT then
        (case getRecord (column_idx + 1) SQL_ATTR_APP_ROW_DESC d of
           Inl e \<Rightarrow> (Inl e, d)
         | Inr d1 \<Rightarrow>
             (bind_result (getAttrAs as_int16 SQL_DESC_CONCISE_TYPE SQL_C_DEFAULT (desc_records d1 ! (column_idx + 1))) (\<lambda>t.
              Inr (b\<lparr>b_c_type := t\<rparr>)), d1))
      else (Inr b, d))"

definition column_c_type :: "bool \<Rightarrow> 's result_set \<Rightarrow> nat \<Rightarrow> BindingInfo \<Rightarrow> BindingInfo result" where
  "column_c_type huge rs column_idx b =
     (if b_c_type b = SQL_C_DEFAULT then
        bind_result (getColumnInfo rs column_idx) (\<lambda>col.
        bind_result (Connection_getTypeInfo huge (col_type col) (type_without_parameters col)) (\<lambda>ti.
        Inr (b\<lparr>b_c_type := convertSQLTypeToCType (data_type ti)\<rparr>)))
      else Inr b)"

definition descriptor_precision :: "nat \<Rightarrow> BindingInfo \<Rightarrow> BindingInfo desc_op" where
  "descriptor_precision column_idx b d =
     (if b_c_type b = SQL_C_NUMERIC \<and> b_precision b = 0 then
        (case getRecord (column_idx + 1) SQL_ATTR_APP_ROW_DESC d of
           Inl e \<Rightarrow> (Inl e, d)
         | Inr d1 \<Rightarrow>
             (let rec = desc_records d1 ! (column_idx + 1) in
              (bind_result (getAttrAs as_int16 SQL_DESC_PRECISION 38 rec) (\<lambda>p.
               bind_result (getAttrAs as_int16 SQL_DESC_SCALE 0 rec) (\<lambda>s.
               Inr (b\<lparr>b_precision := p, b_scale := s\<rparr>))), d1)))
      else (Inr b, d))"

definition fillBinding :: "conv_env \<Rightarrow> bool \<Rightarrow> 's result_set \<Rightarrow> nat \<Rightarrow> nat \<Rightarrow> BindingInfo \<Rightarrow> descriptor \<Rightarrow> app_memory
    \<Rightarrow> int result \<times> descriptor \<times> app_memory" where
  "fillBinding env huge rs row_idx column_idx b d m =
     (case descriptor_c_type column_idx b d of
        (Inl e, d1) \<Rightarrow> (Inl e, d1, m)
      | (Inr b1, d1) \<Rightarrow>
          (case column_c_type huge rs column_idx b1 of
             Inl e \<Rightarrow> (Inl e, d1, m)
           | Inr b2 \<Rightarrow>
               (case descriptor_precision column_idx b2 d1 of
                  (Inl e, d2) \<Rightarrow> (Inl e, d2, m)
                | (Inr b3, d2) \<Rightarrow> (let (r, m') = extractField env rs row_idx column_idx b3 m in (r, d2, m')))))"

section \<open>SQLGetData\<close>

text \<open>The local \<open>dummy\<close>, which stands in for a null length pointer, has the address -1.\<close>

definition get_binding :: "SQLSMALLINT \<Rightarrow> int \<Rightarrow> SQLLEN \<Rightarrow> nat \<Rightarrow> int \<Rightarrow> BindingInfo" where
  "get_binding TargetType TargetValuePtr BufferLength offset ind_ptr =
     fresh_BindingInfo\<lparr>b_c_type := TargetType, b_value := TargetValuePtr, b_value_max_size := BufferLength,
       b_value_offset := offset, b_value_size := ind_ptr, b_indicator := ind_ptr\<rparr>"

text \<open>What becomes of the offset of the column; sums of offsets are unsigned.\<close>

definition next_offset :: "SQLSMALLINT \<Rightarrow> SQLLEN \<Rightarrow> nat \<Rightarrow> int \<Rightarrow> int result \<Rightarrow> nat option" where
  "next_offset TargetType BufferLength offset ind r =
     (let null_size = (if TargetType = SQL_C_WCHAR then 2 else 1);
          is_char_type = (TargetType = SQL_C_CHAR \<or> TargetType = SQL_C_WCHAR) in
      case r of
        Inl (Sql_Exception ex) \<Rightarrow>
          (if return_code ex \<noteq> SQL_SUCCESS_WITH_INFO \<or> ind < 0 \<or> \<not> is_char_type then None
           else Some (as_size (int offset + BufferLength - null_size)))
      | Inl (ClickHouse_Exception ex code) \<Rightarrow>
          (if return_code ex \<noteq> SQL_SUCCESS_WITH_INFO \<or> ind < 0 \<or> \<not> is_char_type then None
           else Some (as_size (int offset + BufferLength - null_size)))
      | Inl e \<Rightarrow> None
      | Inr ret \<Rightarrow>
          if ret = SQL_SUCCESS then Some (as_size (int offset + ind + null_size))
          else if ret = SQL_NO_DATA then Some 0 else None)"

definition GetData :: "conv_env \<Rightarrow> nat \<Rightarrow> SQLSMALLINT \<Rightarrow> int \<Rightarrow> SQLLEN \<Rightarrow> int \<Rightarrow> 's cursor \<Rightarrow> int result \<times> 's cursor" where
  "GetData env Col_or_Param_Num TargetType TargetValuePtr BufferLength StrLen_or_IndPtr st =
     (case cur_result_set st of
        None \<Rightarrow> (Inl (SqlException ''Column info is not available'' ''07005''), st)
      | Some rs \<Rightarrow>
          if getCurrentRowPosition rs < 1 then (Inl (SqlException ''Invalid cursor state'' ''24000''), st)
          else if Col_or_Param_Num < 1 then (Inl (SqlException ''Invalid descriptor index'' ''07009''), st)
          else
            (let ind_ptr = (if StrLen_or_IndPtr = 0 then - 1 else StrLen_or_IndPtr);
                 row_idx = getCurrentRowPosition rs - row_set_position rs;
                 column_idx = Col_or_Param_Num - 1;
                 offset = getColumnOffset column_idx st;
                 (r, d, m) = fillBinding env (huge_ints st) rs row_idx column_idx
                   (get_binding TargetType TargetValuePtr BufferLength offset ind_ptr) (ard_desc st)
                   (if StrLen_or_IndPtr = 0 then write_len (- 1) 0 (app_mem st) else app_mem st);
                 st1 = st\<lparr>ard_desc := d, app_mem := m\<rparr> in
             case next_offset TargetType BufferLength offset (mem_lens m ind_ptr) r of
               None \<Rightarrow> (r, st1)
             | Some n \<Rightarrow> (r, setColumnOffset column_idx n st1)))"

section \<open>SQLFetch\<close>

text \<open>
  The bindings of the columns, from the records of the row descriptor, and of one row of them. Null pointers stay null.
\<close>

definition base_binding :: "attrs \<Rightarrow> BindingInfo result" where
  "base_binding rec =
     bind_result (getAttrAs as_int16 SQL_DESC_CONCISE_TYPE SQL_C_DEFAULT rec) (\<lambda>t.
     bind_result (getAttrAs id SQL_DESC_DATA_PTR 0 rec) (\<lambda>v.
     bind_result (getAttrAs id SQL_DESC_OCTET_LENGTH 0 rec) (\<lambda>mx.
     bind_result (getAttrAs id SQL_DESC_OCTET_LENGTH_PTR 0 rec) (\<lambda>sz.
     bind_result (getAttrAs id SQL_DESC_INDICATOR_PTR 0 rec) (\<lambda>ind.
     Inr (fresh_BindingInfo\<lparr>b_c_type := t, b_value := v, b_value_max_size := mx, b_value_size := sz, b_indicator := ind\<rparr>))))))"

definition row_binding :: "int \<Rightarrow> int \<Rightarrow> nat \<Rightarrow> BindingInfo \<Rightarrow> BindingInfo" where
  "row_binding bind_type bind_offset row_idx b =
     (let value_increment = (if bind_type = SQL_BIND_BY_COLUMN then b_value_max_size b else bind_type);
          sz_ind_increment = (if bind_type = SQL_BIND_BY_COLUMN then 8 else bind_type) in
      fresh_BindingInfo\<lparr>b_c_type := b_c_type b, b_value_max_size := b_value_max_size b,
        b_value := offset_ptr (b_value b) (int row_idx) value_increment bind_offset,
        b_value_size := offset_ptr (b_value_size b) (int row_idx) sz_ind_increment bind_offset,
        b_indicator := offset_ptr (b_indicator b) (int row_idx) sz_ind_increment bind_offset\<rparr>)"

abbreviation (input) SQL_ROW_SUCCESS :: int where "SQL_ROW_SUCCESS \<equiv> 0"
abbreviation (input) SQL_ROW_NOROW :: int where "SQL_ROW_NOROW \<equiv> 3"

definition set_row_status :: "int \<Rightarrow> int \<Rightarrow> nat \<Rightarrow> app_memory \<Rightarrow> app_memory" where
  "set_row_status array_status_ptr v row_idx m =
     (if array_status_ptr \<noteq> 0 then write_len (array_status_ptr + 2 * int row_idx) v m else m)"

text \<open>
  The columns of one row, with their indices. The inner \<open>code\<close> hides the outer one, which is tested
  and is always \<open>SQL_SUCCESS\<close>.
\<close>

fun fetch_columns :: "conv_env \<Rightarrow> bool \<Rightarrow> 's result_set \<Rightarrow> int \<Rightarrow> (BindingInfo \<Rightarrow> BindingInfo) \<Rightarrow> nat
    \<Rightarrow> (nat \<times> BindingInfo) list \<Rightarrow> descriptor \<Rightarrow> app_memory \<Rightarrow> unit result \<times> descriptor \<times> app_memory" where
  "fetch_columns env huge rs status_ptr at_row row_idx [] d m = (Inr (), d, m)"
| "fetch_columns env huge rs status_ptr at_row row_idx ((column_idx, b) # bs) d m =
     (case (if b_value b \<noteq> 0 \<or> b_value_size b \<noteq> 0 \<or> b_indicator b \<noteq> 0
            then fillBinding env huge rs row_idx column_idx (at_row b) d m else (Inr SQL_SUCCESS, d, m)) of
        (Inl e, d1, m1) \<Rightarrow> (Inl e, d1, m1)
      | (Inr _, d1, m1) \<Rightarrow>
          fetch_columns env huge rs status_ptr at_row row_idx bs d1 (set_row_status status_ptr SQL_ROW_SUCCESS row_idx m1))"

fun fetch_rows :: "conv_env \<Rightarrow> bool \<Rightarrow> 's result_set \<Rightarrow> int \<Rightarrow> (nat \<Rightarrow> BindingInfo \<Rightarrow> BindingInfo) \<Rightarrow> (nat \<times> BindingInfo) list
    \<Rightarrow> nat list \<Rightarrow> descriptor \<Rightarrow> app_memory \<Rightarrow> unit result \<times> descriptor \<times> app_memory" where
  "fetch_rows env huge rs status_ptr at_row bs [] d m = (Inr (), d, m)"
| "fetch_rows env huge rs status_ptr at_row bs (row_idx # rows) d m =
     (case fetch_columns env huge rs status_ptr (at_row row_idx) row_idx bs d m of
        (Inl e, d1, m1) \<Rightarrow> (Inl e, d1, m1)
      | (Inr _, d1, m1) \<Rightarrow> fetch_rows env huge rs status_ptr at_row bs rows d1 m1)"

definition mark_no_rows :: "int \<Rightarrow> nat \<Rightarrow> nat \<Rightarrow> app_memory \<Rightarrow> app_memory" where
  "mark_no_rows array_status_ptr from to m = fold (set_row_status array_status_ptr SQL_ROW_NOROW) [from..<to] m"

text \<open>The bindings, as they are read before the rows.\<close>

definition base_bindings :: "descriptor \<Rightarrow> nat \<Rightarrow> (nat \<times> BindingInfo) list result" where
  "base_bindings d count = collect (map (\<lambda>i. bind_result (base_binding (desc_records d ! (i + 1))) (\<lambda>b. Inr (i, b))) [0..<count])"

definition fill_row_set :: "conv_env \<Rightarrow> nat \<Rightarrow> nat \<Rightarrow> int \<Rightarrow> 's result_set \<Rightarrow> 's cursor \<Rightarrow> int result \<times> 's cursor" where
  "fill_row_set env row_set_size rows_fetched status_ptr rs st =
     (case getRecordCount (ard_desc st) of
        Inl e \<Rightarrow> (Inl e, st)
      | Inr count \<Rightarrow>
          (case getRecord count SQL_ATTR_APP_ROW_DESC (ard_desc st) of
             Inl e \<Rightarrow> (Inl e, st)
           | Inr d \<Rightarrow>
               (case bind_result (getAttrAs id SQL_DESC_BIND_TYPE SQL_BIND_TYPE_DEFAULT (desc_attrs d)) (\<lambda>bind_type.
                  bind_result (getAttrAs id SQL_DESC_BIND_OFFSET_PTR 0 (desc_attrs d)) (\<lambda>offset_p.
                  bind_result (base_bindings d count) (\<lambda>bs.
                  Inr (bind_type, if offset_p \<noteq> 0 then mem_lens (app_mem st) offset_p else 0, bs)))) of
                  Inl e \<Rightarrow> (Inl e, st\<lparr>ard_desc := d\<rparr>)
                | Inr (bind_type, bind_offset, bs) \<Rightarrow>
                    (case fetch_rows env (huge_ints st) rs status_ptr (row_binding bind_type bind_offset) bs [0..<rows_fetched] d (app_mem st) of
                       (Inl e, d1, m1) \<Rightarrow> (Inl e, st\<lparr>ard_desc := d1, app_mem := m1\<rparr>)
                     | (Inr _, d1, m1) \<Rightarrow>
                         (Inr SQL_SUCCESS, st\<lparr>ard_desc := d1, app_mem := mark_no_rows status_ptr rows_fetched row_set_size m1\<rparr>)))))"

definition fetchBindings :: "conv_env \<Rightarrow> 's next_row \<Rightarrow> row_mutator option \<Rightarrow> (field \<Rightarrow> field) \<Rightarrow> int \<Rightarrow> int \<Rightarrow> 's cursor
    \<Rightarrow> int result \<times> 's cursor" where
  "fetchBindings env nextRow mut recycle orientation offset st =
     (case bind_result (getAttrAs as_size SQL_DESC_ARRAY_SIZE 1 (desc_attrs (ard_desc st))) (\<lambda>size.
        bind_result (getAttrAs id SQL_DESC_ROWS_PROCESSED_PTR 0 (desc_attrs (ird_desc st))) (\<lambda>fetched_p.
        bind_result (getAttrAs id SQL_DESC_ARRAY_STATUS_PTR 0 (desc_attrs (ird_desc st))) (\<lambda>status_p.
        Inr (size, fetched_p, status_p)))) of
        Inl e \<Rightarrow> (Inl e, st)
      | Inr (row_set_size, rows_fetched_ptr, status_ptr) \<Rightarrow>
          (let put_count = (\<lambda>n m. if rows_fetched_ptr \<noteq> 0 then write_len rows_fetched_ptr n m else m);
               m0 = put_count 0 (app_mem st) in
           case cur_result_set st of
             None \<Rightarrow> (Inr SQL_NO_DATA, st\<lparr>app_mem := mark_no_rows status_ptr 0 row_set_size m0\<rparr>)
           | Some rs0 \<Rightarrow>
               if row_set_size = 0 then (Inr SQL_NO_DATA, st\<lparr>app_mem := m0\<rparr>)
               else
                 (case fetchRowSet nextRow mut recycle orientation offset row_set_size rs0 of
                    (Inl e, rs) \<Rightarrow> (Inl e, st\<lparr>cur_result_set := Some rs, app_mem := m0\<rparr>)
                  | (Inr rows_fetched, rs) \<Rightarrow>
                      if rows_fetched = 0
                      then (Inr SQL_NO_DATA, st\<lparr>cur_result_set := Some rs, row_count := int (affected_row_count rs),
                              app_mem := mark_no_rows status_ptr 0 row_set_size m0\<rparr>)
                      else fill_row_set env row_set_size rows_fetched status_ptr rs
                             (st\<lparr>cur_result_set := Some rs, app_mem := put_count (int rows_fetched) m0\<rparr>))))"

definition Fetch :: "conv_env \<Rightarrow> 's next_row \<Rightarrow> row_mutator option \<Rightarrow> (field \<Rightarrow> field) \<Rightarrow> 's cursor \<Rightarrow> int result \<times> 's cursor" where
  "Fetch env nextRow mut recycle st = fetchBindings env nextRow mut recycle SQL_FETCH_NEXT 0 (resetColumnOffsets st)"

definition FetchScroll :: "conv_env \<Rightarrow> 's next_row \<Rightarrow> row_mutator option \<Rightarrow> (field \<Rightarrow> field) \<Rightarrow> int \<Rightarrow> int \<Rightarrow> 's cursor
    \<Rightarrow> int result \<times> 's cursor" where
  "FetchScroll env nextRow mut recycle orientation offset st =
     fetchBindings env nextRow mut recycle orientation offset (resetColumnOffsets st)"

section \<open>A text in pieces\<close>

definition char_size :: "SQLSMALLINT \<Rightarrow> nat" where
  "char_size t = (if t = SQL_C_WCHAR then 2 else 1)"

text \<open>The cursor stands on a row that has the text \<open>s\<close> in the column \<open>c\<close>.\<close>

definition text_cell :: "'s cursor \<Rightarrow> nat \<Rightarrow> string \<Rightarrow> bool" where
  "text_cell st c s \<longleftrightarrow> 1 \<le> c \<and> (case cur_result_set st of
       None \<Rightarrow> False
     | Some rs \<Rightarrow> 1 \<le> getCurrentRowPosition rs
         \<and> (let r = row_set rs ! (getCurrentRowPosition rs - row_set_position rs) in
            c \<le> length r \<and> (case r ! (c - 1) of String_field ty v \<Rightarrow> v = s | Any_field v \<Rightarrow> v = s | _ \<Rightarrow> False)))"

lemma extractField_current:
  assumes "1 \<le> getCurrentRowPosition rs" "c \<le> length (row_set rs ! (getCurrentRowPosition rs - row_set_position rs))" "1 \<le> c"
  shows "extractField env rs (getCurrentRowPosition rs - row_set_position rs) (c - 1) b m =
    extract_field env (row_set rs ! (getCurrentRowPosition rs - row_set_position rs) ! (c - 1)) b m"
  using assms by (auto simp: extractField_def getCurrentRowPosition_def split: if_splits)

lemma offset_simps [simp]:
  "getColumnOffset c (setColumnOffset c n st) = n" "app_mem (setColumnOffset c n st) = app_mem st"
  by (simp_all add: getColumnOffset_def setColumnOffset_def)

lemma GetData_text:
  assumes "text_cell st c s" "t = SQL_C_CHAR \<or> t = SQL_C_WCHAR" "ind \<noteq> 0"
    and "fillOutputString (char_size t) (fromUTF8 env (char_size t) s) out len ind True True (getColumnOffset (c - 1) st) (app_mem st) = (r, m')"
    and "next_offset t len (getColumnOffset (c - 1) st) (mem_lens m' ind) r = Some k"
  shows "GetData env c t out len ind st = (r, setColumnOffset (c - 1) k (st\<lparr>app_mem := m'\<rparr>))"
proof -
  obtain rs where rs: "cur_result_set st = Some rs" "1 \<le> getCurrentRowPosition rs" "1 \<le> c"
      "c \<le> length (row_set rs ! (getCurrentRowPosition rs - row_set_position rs))"
      "case row_set rs ! (getCurrentRowPosition rs - row_set_position rs) ! (c - 1) of
        String_field ty v \<Rightarrow> v = s | Any_field v \<Rightarrow> v = s | _ \<Rightarrow> False"
    using assms(1) by (auto simp: text_cell_def Let_def split: option.splits)
  let ?b = "get_binding t out len (getColumnOffset (c - 1) st) ind"
  have ef: "extractField env rs (getCurrentRowPosition rs - row_set_position rs) (c - 1) ?b (app_mem st) = (r, m')"
    unfolding extractField_current [OF rs(2,4,3)] using assms(2,4) rs(5)
    by (auto simp: get_binding_def extract_field_def writeDataFrom_def to_text_buffer_def clear_indicator_def char_size_def
        split: field.splits)
  have fb: "fillBinding env (huge_ints st) rs (getCurrentRowPosition rs - row_set_position rs) (c - 1) ?b (ard_desc st) (app_mem st)
      = (r, ard_desc st, m')"
    using assms(2) ef
    by (auto simp: fillBinding_def descriptor_c_type_def column_c_type_def descriptor_precision_def get_binding_def)
  show ?thesis using rs(1-3) assms(3,5) fb by (simp add: GetData_def)
qed

lemma text_cell_kept [simp]: "text_cell (setColumnOffset c' k (st\<lparr>app_mem := m\<rparr>)) c s = text_cell st c s"
  by (simp add: text_cell_def setColumnOffset_def)

text \<open>What one call does with the rest of the text from the character \<open>j\<close> on.\<close>

lemma GetData_piece:
  assumes "text_cell st c s" "t = SQL_C_CHAR \<or> t = SQL_C_WCHAR" "cs = char_size t"
    and "length (fromUTF8 env cs s) = n * cs" "(n + 1) * cs < 2 ^ 63" "0 < k" "k * cs < 2 ^ 63" "out \<noteq> 0" "ind \<noteq> 0"
    and "getColumnOffset (c - 1) st = j * cs" "j \<le> n + 1"
  defines "p \<equiv> min (n - j) (k - 1)"
    and "r \<equiv> (if 0 < j \<and> n \<le> j then Inr SQL_NO_DATA else if k \<le> n - j then Inl right_truncated else Inr SQL_SUCCESS)"
  obtains st' where
    "GetData env c t out (int (k * cs)) ind st = (r, st')"
    "text_cell st' c s"
    "getColumnOffset (c - 1) st' = (if r = Inr SQL_NO_DATA then 0 else if r = Inr SQL_SUCCESS then (n + 1) * cs else (j + k - 1) * cs)"
    "peek_bytes out (p * cs) (app_mem st') = take (p * cs) (drop (j * cs) (fromUTF8 env cs s))"
    "mem_lens (app_mem st') ind = int ((n - j) * cs)"
proof -
  have cs: "0 < cs" using assms(2,3) by (auto simp: char_size_def)
  have ncs: "n * cs < 2 ^ 63" using assms(5) cs by simp
  from fillOutputString_piece [OF assms(4) cs assms(6,7) ncs assms(8,9) refl [of "j * cs"], of "app_mem st"]
  obtain m' where m': "fillOutputString cs (fromUTF8 env cs s) out (int (k * cs)) ind True True (j * cs) (app_mem st) = (r, m')"
      "peek_bytes out (p * cs) m' = take (p * cs) (drop (j * cs) (fromUTF8 env cs s))"
      "mem_lens m' ind = int ((n - j) * cs)"
    unfolding p_def r_def by blast
  let ?st1 = "st\<lparr>app_mem := m'\<rparr>"
  let ?n = "if r = Inr SQL_NO_DATA then 0 else if r = Inr SQL_SUCCESS then (n + 1) * cs else (j + k - 1) * cs"
  have next_off: "next_offset t (int (k * cs)) (j * cs) (mem_lens m' ind) r = Some ?n"
  proof (cases "0 < j \<and> n \<le> j")
    case True
    then show ?thesis by (simp add: r_def next_offset_def)
  next
    case False
    have null: "int cs = (if t = SQL_C_WCHAR then 2 else 1)" using assms(2,3) by (auto simp: char_size_def)
    have ind0: "\<not> mem_lens m' ind < 0" unfolding m'(3) by (simp del: of_nat_mult)
    have j: "j \<le> n" using False by linarith
    show ?thesis
    proof (cases "k \<le> n - j")
      case True
      have "j + k - 1 \<le> n + 1" using True j by simp
      then have "(j + k - 1) * cs \<le> (n + 1) * cs" by (rule mult_le_mono1)
      also have "\<dots> < 2 ^ 64" by (rule less_trans [OF assms(5)]) simp
      finally have small: "(j + k - 1) * cs < 2 ^ 64" .
      have "int (j * cs) + int (k * cs) - int cs = int ((j + k - 1) * cs)"
        using assms(6) by (cases k) (simp_all add: algebra_simps)
      then have "as_size (int (j * cs) + int (k * cs) - int cs) = (j + k - 1) * cs"
        using as_size_of_nat [OF small] by simp
      then show ?thesis
        using False True assms(2) ind0 by (auto simp: r_def next_offset_def right_truncated_def null)
    next
      case nk: False
      have "j * cs + (n - j) * cs + cs = (n + 1) * cs"
        using j by (simp add: diff_mult_distrib algebra_simps)
      then have "int (j * cs) + mem_lens m' ind + int cs = int ((n + 1) * cs)"
        unfolding m'(3) by (simp only: of_nat_add [symmetric])
      then have "as_size (int (j * cs) + mem_lens m' ind + int cs) = (n + 1) * cs"
        using as_size_of_nat [OF less_trans [OF assms(5)]] by (simp only:) simp
      then show ?thesis using False nk by (simp add: r_def next_offset_def null)
    qed
  qed
  have "GetData env c t out (int (k * cs)) ind st = (r, setColumnOffset (c - 1) ?n ?st1)"
    by (rule GetData_text [OF assms(1,2,9)]) (use m'(1) next_off assms(3,10) in simp_all)
  moreover have "text_cell (setColumnOffset (c - 1) ?n ?st1) c s" using assms(1) by simp
  moreover have "app_mem (setColumnOffset (c - 1) ?n ?st1) = m'" by simp
  ultimately show ?thesis using m'(2,3) by (intro that [of "setColumnOffset (c - 1) ?n ?st1"]) (simp_all only: offset_simps)
qed

text \<open>Calls with buffers of \<open>ks\<close> characters; the application takes from each buffer what its result says.\<close>

fun read_pieces :: "conv_env \<Rightarrow> nat \<Rightarrow> SQLSMALLINT \<Rightarrow> int \<Rightarrow> int \<Rightarrow> nat list \<Rightarrow> 's cursor \<Rightarrow> (int result \<times> string) list \<times> 's cursor" where
  "read_pieces env c t out ind [] st = ([], st)"
| "read_pieces env c t out ind (k # ks) st =
     (let (r, st1) = GetData env c t out (int (k * char_size t)) ind st;
          delivered = (if r = Inl right_truncated then (k - 1) * char_size t
            else if r = Inr SQL_SUCCESS then nat (mem_lens (app_mem st1) ind) else 0);
          (rs, st2) = read_pieces env c t out ind ks st1 in
      ((r, peek_bytes out delivered (app_mem st1)) # rs, st2))"

lemma read_pieces_from:
  assumes "text_cell st c s" "t = SQL_C_CHAR \<or> t = SQL_C_WCHAR"
    and "length (fromUTF8 env (char_size t) s) = n * char_size t" "(n + 1) * char_size t < 2 ^ 63" "out \<noteq> 0" "ind \<noteq> 0"
    and "getColumnOffset (c - 1) st = j * char_size t" "j \<le> n" "j < n \<or> j = 0"
    and "\<And>i. 2 \<le> ks i \<and> ks i * char_size t < 2 ^ 63"
  shows "\<exists>p \<le> n - j. \<exists>pieces st'. read_pieces env c t out ind (map ks [i..<i + p + 2]) st = (pieces, st')
    \<and> map fst pieces = replicate p (Inl right_truncated) @ [Inr SQL_SUCCESS, Inr SQL_NO_DATA]
    \<and> concat (map snd pieces) = drop (j * char_size t) (fromUTF8 env (char_size t) s)
    \<and> getColumnOffset (c - 1) st' = 0"
  using assms(1,7-9)
proof (induction "n - j" arbitrary: j i st rule: less_induct)
  case less
  let ?cs = "char_size t" and ?v = "fromUTF8 env (char_size t) s"
  have cs: "0 < ?cs" by (simp add: char_size_def)
  have k: "0 < ks i" "ks i * ?cs < 2 ^ 63" using assms(10) [of i] by auto
  have notend: "\<not> (0 < j \<and> n \<le> j)" using less.prems(4) by auto
  have jn: "j \<le> n + 1" using less.prems(3) by simp
  note piece = GetData_piece [OF less.prems(1) assms(2) refl assms(3,4) k assms(5,6) less.prems(2) jn, unfolded if_not_P [OF notend]]
  show ?case
  proof (cases "ks i \<le> n - j")
    case True
    have mn: "min (n - j) (ks i - 1) = ks i - 1" using True by simp
    obtain st1 where st1: "GetData env c t out (int (ks i * ?cs)) ind st = (Inl right_truncated, st1)"
      "text_cell st1 c s" "getColumnOffset (c - 1) st1 = (j + ks i - 1) * ?cs"
      "peek_bytes out ((ks i - 1) * ?cs) (app_mem st1) = take ((ks i - 1) * ?cs) (drop (j * ?cs) ?v)"
      by (rule piece [unfolded if_P [OF True] mn]) simp
    have k2: "2 \<le> ks i" using assms(10) by simp
    have "j + ks i - 1 \<le> n" "j + ks i - 1 < n \<or> j + ks i - 1 = 0" "n - (j + ks i - 1) < n - j" using True k2 by auto
    then obtain p pieces st' where p: "p \<le> n - (j + ks i - 1)"
        "read_pieces env c t out ind (map ks [Suc i..<Suc i + p + 2]) st1 = (pieces, st')"
        "map fst pieces = replicate p (Inl right_truncated) @ [Inr SQL_SUCCESS, Inr SQL_NO_DATA]"
        "concat (map snd pieces) = drop ((j + ks i - 1) * ?cs) ?v" "getColumnOffset (c - 1) st' = 0"
      using less.hyps [of "j + ks i - 1" st1 "Suc i"] st1(2,3) by blast
    have up: "[i..<i + Suc p + 2] = i # [Suc i..<Suc i + p + 2]" by (simp add: upt_rec)
    have front: "take ((ks i - 1) * ?cs) (drop (j * ?cs) ?v) @ drop ((j + ks i - 1) * ?cs) ?v = drop (j * ?cs) ?v"
    proof -
      have "(j + ks i - 1) * ?cs = (ks i - 1) * ?cs + j * ?cs" using k2 by (simp add: algebra_simps diff_mult_distrib)
      then show ?thesis by (simp only: drop_drop [symmetric] append_take_drop_id)
    qed
    let ?all = "(Inl right_truncated, take ((ks i - 1) * ?cs) (drop (j * ?cs) ?v)) # pieces"
    have "read_pieces env c t out ind (map ks [i..<i + Suc p + 2]) st = (?all, st')"
      using st1(1,4) p(2) unfolding up by simp
    moreover have "Suc p \<le> n - j" using p(1) True k2 by simp
    ultimately show ?thesis using p(3-5) front
      by (intro exI [of _ "Suc p"] conjI exI [of _ ?all] exI [of _ st']) simp_all
  next
    case False
    have mn: "min (n - j) (ks i - 1) = n - j" using False by simp
    obtain st1 where st1: "GetData env c t out (int (ks i * ?cs)) ind st = (Inr SQL_SUCCESS, st1)"
      "text_cell st1 c s" "getColumnOffset (c - 1) st1 = (n + 1) * ?cs"
      "peek_bytes out ((n - j) * ?cs) (app_mem st1) = take ((n - j) * ?cs) (drop (j * ?cs) ?v)"
      "mem_lens (app_mem st1) ind = int ((n - j) * ?cs)"
      by (rule piece [unfolded if_not_P [OF False] mn]) simp
    have k': "0 < ks (Suc i)" "ks (Suc i) * ?cs < 2 ^ 63" using assms(10) [of "Suc i"] by auto
    have over: "0 < n + 1 \<and> n \<le> n + 1" by simp
    obtain st2 where st2: "GetData env c t out (int (ks (Suc i) * ?cs)) ind st1 = (Inr SQL_NO_DATA, st2)"
      "getColumnOffset (c - 1) st2 = 0"
      by (rule GetData_piece [OF st1(2) assms(2) refl assms(3,4) k' assms(5,6) st1(3) le_refl, unfolded if_P [OF over]]) simp
    have rest: "take ((n - j) * ?cs) (drop (j * ?cs) ?v) = drop (j * ?cs) ?v"
      using assms(3) by (simp add: diff_mult_distrib)
    let ?all = "[(Inr SQL_SUCCESS, drop (j * ?cs) ?v), (Inr SQL_NO_DATA, [])]"
    have up: "[i..<i + 0 + 2] = [i, Suc i]" by (simp add: upt_conv_Cons)
    have nn: "(Inr SQL_SUCCESS :: int result) \<noteq> Inl right_truncated" "(Inr SQL_NO_DATA :: int result) \<noteq> Inl right_truncated"
      "(Inr SQL_NO_DATA :: int result) \<noteq> Inr SQL_SUCCESS" by simp_all
    have none: "peek_bytes out 0 m = []" for m by (simp add: peek_bytes_def)
    have "read_pieces env c t out ind (map ks [i..<i + 0 + 2]) st = (?all, st2)"
      unfolding up list.map read_pieces.simps st1(1) st2(1) Let_def prod.case st1(5) nat_int if_not_P [OF nn(1)] if_not_P [OF nn(2)]
        if_not_P [OF nn(3)] if_P [OF refl] st1(4) rest none by (rule refl)
    then show ?thesis using st2(2)
      by (intro exI [of _ 0] conjI exI [of _ ?all] exI [of _ st2]) simp_all
  qed
qed

end
