(* ===== verification/Fetch_Spec.thy ===== *)
theory Fetch_Spec
  imports Get_Data
begin

text \<open>
  What fetching leaves in the application's memory: a text read in pieces by SQLGetData, a row set in
  the bound buffers, and the cases where the memory does not say what was fetched.
\<close>

section \<open>SQLGetData\<close>

text \<open>C4: Calls of SQLGetData with any buffers of two characters or more return a text as a whole: all calls but
  the last of it say that it was truncated, the last one says success, the next one that there is no
  more, and what the application takes from the buffers, put together, is the text. There are at
  most as many truncated pieces as characters.\<close>

theorem get_data_returns_the_text:
  assumes "text_cell st c s" "t = SQL_C_CHAR \<or> t = SQL_C_WCHAR"
    and "length (fromUTF8 env (char_size t) s) = n * char_size t" "(n + 1) * char_size t < 2 ^ 63" "out \<noteq> 0" "ind \<noteq> 0"
    and "getColumnOffset (c - 1) st = 0" "\<And>i. 2 \<le> ks i \<and> ks i * char_size t < 2 ^ 63"
  shows "\<exists>p \<le> n. \<exists>pieces st'. read_pieces env c t out ind (map ks [0..<p + 2]) st = (pieces, st')
    \<and> map fst pieces = replicate p (Inl right_truncated) @ [Inr SQL_SUCCESS, Inr SQL_NO_DATA]
    \<and> concat (map snd pieces) = fromUTF8 env (char_size t) s \<and> getColumnOffset (c - 1) st' = 0"
  using read_pieces_from [OF assms(1-6), of 0 ks 0] assms(7,8) by simp

definition sample_conv :: conv_env where
  "sample_conv = \<lparr>fromUTF8 = (\<lambda>cs s. concat (map (\<lambda>c. c # replicate (cs - 1) (CHR 0x00)) s)),
     toLocalTime = (\<lambda>s. \<lparr>tm_year = 70, tm_mon = 0, tm_mday = 1, tm_hour = 0, tm_min = 0, tm_sec = s\<rparr>),
     float_text = (\<lambda>_ _. ''0.000000''), other_conv = (\<lambda>_ _. Inl not_supported)\<rparr>"

definition sample_result :: "field list list \<Rightarrow> unit result_set" where
  "sample_result rows = \<lparr>source = (), columns_info = [], row_set = rows, row_set_position = 1, row_position = 1,
     affected_row_count = 1, prefetched_rows = [], finished = True, row_pool = []\<rparr>"

definition sample_cursor :: "field list list \<Rightarrow> unit cursor" where
  "sample_cursor rows = \<lparr>ard_desc = new_Descriptor, column_offsets = Map.empty, cur_result_set = Some (sample_result rows),
     ird_desc = new_Descriptor, huge_ints = False, row_count = 0, app_mem = blank_memory\<rparr>"

lemma sample_text_cell: "text_cell (sample_cursor [[Any_field s]]) 1 s"
  by (simp add: text_cell_def sample_cursor_def sample_result_def getCurrentRowPosition_def)

theorem get_data_returns_the_text_witness:
  "\<exists>p \<le> 5. \<exists>pieces st'. read_pieces sample_conv 1 SQL_C_WCHAR 100 8 (map (\<lambda>_. 3) [0..<p + 2]) (sample_cursor [[Any_field ''hello'']]) = (pieces, st')
    \<and> map fst pieces = replicate p (Inl right_truncated) @ [Inr SQL_SUCCESS, Inr SQL_NO_DATA]
    \<and> concat (map snd pieces) = fromUTF8 sample_conv (char_size SQL_C_WCHAR) ''hello'' \<and> getColumnOffset (1 - 1) st' = 0"
  by (rule get_data_returns_the_text [OF sample_text_cell])
    (simp_all add: sample_conv_def char_size_def getColumnOffset_def sample_cursor_def)

lemma fillOutputString_probe:
  assumes "length v = n * cs" "0 < cs" "n * cs < 2 ^ 63" "out \<noteq> 0" "ind \<noteq> 0"
  shows "fillOutputString cs v out 0 ind True True 0 m = (Inl right_truncated, write_len ind (int (n * cs)) m)"
proof -
  have "as_int64 (int (n * cs)) = int (n * cs)" using assms(3) by (intro as_int64_id) (simp_all del: of_nat_mult)
  then show ?thesis
    using assms by (simp add: fillOutputString_def fillOutputBufferInternal_def write_nul_def Let_def)
qed

lemma fillOutputString_past:
  assumes "length v < off" "0 < cs" "out \<noteq> 0" "ind \<noteq> 0"
  shows "\<exists>m'. fillOutputString cs v out (int (k * cs)) ind True True off m = (Inr SQL_NO_DATA, m') \<and> mem_lens m' ind = 0"
proof -
  have "\<not> int (k * cs) < 0" "int (k * cs) mod int cs = 0" by (simp del: of_nat_mult, simp)
  then show ?thesis
    using assms by (simp add: fillOutputString_def fillOutputBufferInternal_def write_nul_def Let_def)
qed

text \<open>Asking for the length of a text with a buffer of length 0, as ODBC provides for, gives the length but
  loses the text: the offset of the column wraps below 0, so that the next call, however large its
  buffer, says that there is no data.\<close>

theorem length_probe_loses_the_text:
  assumes "text_cell st c s" "t = SQL_C_CHAR \<or> t = SQL_C_WCHAR"
    and "length (fromUTF8 env (char_size t) s) = n * char_size t" "(n + 1) * char_size t < 2 ^ 63" "out \<noteq> 0" "ind \<noteq> 0"
    and "getColumnOffset (c - 1) st = 0" "0 < k" "k * char_size t < 2 ^ 63"
  shows "\<exists>st1 st2. GetData env c t out 0 ind st = (Inl right_truncated, st1)
    \<and> mem_lens (app_mem st1) ind = int (n * char_size t)
    \<and> GetData env c t out (int (k * char_size t)) ind st1 = (Inr SQL_NO_DATA, st2)
    \<and> mem_lens (app_mem st2) ind = 0"
proof -
  let ?cs = "char_size t" and ?v = "fromUTF8 env (char_size t) s"
  have cs: "0 < ?cs" "?cs < 2 ^ 63" by (simp_all add: char_size_def)
  have n: "n * ?cs < 2 ^ 63" using assms(4) by simp
  let ?m = "write_len ind (int (n * ?cs)) (app_mem st)"
  have off: "next_offset t 0 0 (mem_lens ?m ind) (Inl right_truncated) = Some (2 ^ 64 - ?cs)"
    using assms(2) by (auto simp: next_offset_def right_truncated_def char_size_def as_size_def take_bit_eq_mod)
  have one: "GetData env c t out 0 ind st = (Inl right_truncated, setColumnOffset (c - 1) (2 ^ 64 - ?cs) (st\<lparr>app_mem := ?m\<rparr>))"
    by (rule GetData_text [OF assms(1,2,6)])
      (use fillOutputString_probe [OF assms(3) cs(1) n assms(5,6)] off assms(7) in simp_all)
  let ?st1 = "setColumnOffset (c - 1) (2 ^ 64 - ?cs) (st\<lparr>app_mem := ?m\<rparr>)"
  have past: "length ?v < 2 ^ 64 - ?cs" unfolding assms(3) using n cs(2) by simp
  obtain m2 where m2: "fillOutputString ?cs ?v out (int (k * ?cs)) ind True True (2 ^ 64 - ?cs) ?m = (Inr SQL_NO_DATA, m2)"
      "mem_lens m2 ind = 0"
    using fillOutputString_past [OF past cs(1) assms(5,6)] by blast
  have two: "GetData env c t out (int (k * ?cs)) ind ?st1 = (Inr SQL_NO_DATA, setColumnOffset (c - 1) 0 (?st1\<lparr>app_mem := m2\<rparr>))"
    by (rule GetData_text [OF _ assms(2,6)]) (use assms(1) m2(1) in \<open>simp_all add: next_offset_def\<close>)
  show ?thesis using one two m2(2) by simp
qed

theorem length_probe_loses_the_text_witness:
  "\<exists>st1 st2. GetData sample_conv 1 SQL_C_CHAR 100 0 8 (sample_cursor [[Any_field ''hello'']]) = (Inl right_truncated, st1)
    \<and> mem_lens (app_mem st1) 8 = int (5 * char_size SQL_C_CHAR)
    \<and> GetData sample_conv 1 SQL_C_CHAR 100 (int (1000 * char_size SQL_C_CHAR)) 8 st1 = (Inr SQL_NO_DATA, st2)
    \<and> mem_lens (app_mem st2) 8 = 0"
  by (rule length_probe_loses_the_text [OF sample_text_cell])
    (simp_all add: sample_conv_def char_size_def getColumnOffset_def sample_cursor_def)

section \<open>A row set in the bound buffers\<close>

text \<open>A binding to a text buffer of one row, the text it holds, and the memory that is its own.\<close>

definition text_binding :: "BindingInfo \<Rightarrow> bool" where
  "text_binding b \<longleftrightarrow> b_c_type b = SQL_C_CHAR \<and> b_value b \<noteq> 0 \<and> 0 < b_value_max_size b \<and> b_value_max_size b < 2 ^ 63
     \<and> b_value_offset b = 0 \<and> b_value_size b \<noteq> 0 \<and> b_indicator b = b_value_size b"

definition cell_holds :: "BindingInfo \<Rightarrow> string \<Rightarrow> app_memory \<Rightarrow> bool" where
  "cell_holds b v m \<longleftrightarrow> peek_bytes (b_value b) (length v + 1) m = v @ [CHR 0x00] \<and> mem_lens m (b_value_size b) = int (length v)"

definition buffer_of :: "BindingInfo \<Rightarrow> int set" where
  "buffer_of b = {b_value b ..< b_value b + b_value_max_size b}"

definition apart :: "BindingInfo \<Rightarrow> BindingInfo \<Rightarrow> bool" where
  "apart b b' \<longleftrightarrow> buffer_of b \<inter> buffer_of b' = {} \<and> b_value_size b \<noteq> b_value_size b'"

definition only_in :: "int set \<Rightarrow> int set \<Rightarrow> app_memory \<Rightarrow> app_memory \<Rightarrow> bool" where
  "only_in B Q m m' \<longleftrightarrow> (\<forall>x. x \<notin> B \<longrightarrow> mem_bytes m' x = mem_bytes m x) \<and> (\<forall>a. a \<notin> Q \<longrightarrow> mem_lens m' a = mem_lens m a)"

lemma only_in_trans: "only_in B Q m m1 \<Longrightarrow> only_in B' Q' m1 m2 \<Longrightarrow> only_in (B \<union> B') (Q \<union> Q') m m2"
  by (simp add: only_in_def)

lemma only_in_mono: "only_in B Q m m' \<Longrightarrow> B \<subseteq> B' \<Longrightarrow> Q \<subseteq> Q' \<Longrightarrow> only_in B' Q' m m'"
  by (auto simp: only_in_def)

lemma only_in_refl [simp]: "only_in B Q m m"
  by (simp add: only_in_def)

lemma cell_holds_kept:
  assumes "cell_holds b v m" "only_in B Q m m'" "int (length v) < b_value_max_size b" "buffer_of b \<inter> B = {}" "b_value_size b \<notin> Q"
  shows "cell_holds b v m'"
proof -
  have "mem_bytes m' (b_value b + int i) = mem_bytes m (b_value b + int i)" if "i < length v + 1" for i
  proof -
    have "b_value b + int i \<in> buffer_of b" using that assms(3) by (simp add: buffer_of_def)
    then have "b_value b + int i \<notin> B" using assms(4) by blast
    then show ?thesis using assms(2) by (simp add: only_in_def)
  qed
  then have "peek_bytes (b_value b) (length v + 1) m' = peek_bytes (b_value b) (length v + 1) m"
    by (intro nth_equalityI) (simp_all add: peek_nth)
  then show ?thesis using assms(1,2,5) by (simp add: cell_holds_def only_in_def)
qed

text \<open>The text \<open>v\<close>, encoded, is the value at a row and column of the row set.\<close>

definition value_at :: "conv_env \<Rightarrow> 's result_set \<Rightarrow> nat \<Rightarrow> nat \<Rightarrow> string \<Rightarrow> bool" where
  "value_at env rs r c v \<longleftrightarrow> r < length (row_set rs) \<and> c < length (row_set rs ! r)
     \<and> (case row_set rs ! r ! c of String_field ty s \<Rightarrow> fromUTF8 env 1 s = v | Any_field s \<Rightarrow> fromUTF8 env 1 s = v | _ \<Rightarrow> False)"

lemma fillBinding_text:
  assumes "value_at env rs r c v" "text_binding b" "int (length v) < b_value_max_size b"
  shows "\<exists>m'. fillBinding env huge rs r c b d m = (Inr SQL_SUCCESS, d, m') \<and> cell_holds b v m'
    \<and> only_in (buffer_of b) {b_value_size b} m m'"
proof -
  let ?k = "nat (b_value_max_size b)"
  have b: "b_value_max_size b = int (?k * 1)" using assms(2) by (simp add: text_binding_def)
  have k: "0 < ?k" "?k * 1 < 2 ^ 63" "length v * 1 < 2 ^ 63" "b_value b \<noteq> 0" "b_value_size b \<noteq> 0"
    using assms(2,3) by (simp_all add: text_binding_def nat_less_iff)
  have fits: "\<not> (0 < (0 :: nat) \<and> length v \<le> 0)" "\<not> ?k \<le> length v - 0" "min (length v - 0) (?k - 1) = length v"
    using assms(2,3) by (auto simp: text_binding_def)
  obtain m' where m': "fillOutputString 1 v (b_value b) (int (?k * 1)) (b_value_size b) True True 0 m = (Inr SQL_SUCCESS, m')"
    "peek_bytes (b_value b) (length v * 1) m' = take (length v * 1) (drop (0 * 1) v)"
    "peek_bytes (b_value b + int (length v * 1)) 1 m' = replicate 1 (CHR 0x00)"
    "mem_lens m' (b_value_size b) = int ((length v - 0) * 1)" "differ_in (b_value b) (b_value b + int (?k * 1)) (b_value_size b) m m'"
    by (rule fillOutputString_piece [where n = "length v" and j = 0 and offset = 0 and converted = v and cs = 1 and k = ?k and m = m
          and out = "b_value b" and len = "b_value_size b", unfolded if_not_P [OF fits(1)] if_not_P [OF fits(2)] fits(3)])
      (use k in simp_all)
  have "fillBinding env huge rs r c b d m = (Inr SQL_SUCCESS, d, m')"
    using assms(1,2) m'(1) b
    by (auto simp: fillBinding_def descriptor_c_type_def column_c_type_def descriptor_precision_def text_binding_def value_at_def
        extractField_def extract_field_def writeDataFrom_def to_text_buffer_def clear_indicator_def split: field.splits)
  moreover have "cell_holds b v m'" using m'(2-4) peek_append [of "b_value b" "length v" 1 m'] by (simp add: cell_holds_def)
  moreover have "only_in (buffer_of b) {b_value_size b} m m'"
    using m'(5) b by (auto simp: differ_in_def only_in_def buffer_of_def)
  ultimately show ?thesis by blast
qed

text \<open>The bindings of one row, apart from each other and from the status of the row.\<close>

definition status_cells :: "int \<Rightarrow> nat \<Rightarrow> int set" where
  "status_cells sp r = (if sp \<noteq> 0 then {sp + 2 * int r} else {})"

lemma set_row_status_only [simp]: "only_in {} (status_cells sp r) m (set_row_status sp v r m)"
  by (simp add: only_in_def set_row_status_def status_cells_def)

lemma fetch_columns_texts:
  assumes "\<forall>(c, b) \<in> set bs. text_binding (at_row b) \<and> b_value b \<noteq> 0 \<and> value_at env rs r c (val c)
      \<and> int (length (val c)) < b_value_max_size (at_row b) \<and> b_value_size (at_row b) \<notin> status_cells sp r"
    and "sorted_wrt apart (map (at_row \<circ> snd) bs)"
  shows "\<exists>m'. fetch_columns env huge rs sp at_row r bs d m = (Inr (), d, m')
    \<and> (\<forall>(c, b) \<in> set bs. cell_holds (at_row b) (val c) m')
    \<and> only_in (\<Union>(c, b) \<in> set bs. buffer_of (at_row b)) ((\<Union>(c, b) \<in> set bs. {b_value_size (at_row b)}) \<union> status_cells sp r) m m'
    \<and> (bs \<noteq> [] \<longrightarrow> sp \<noteq> 0 \<longrightarrow> mem_lens m' (sp + 2 * int r) = SQL_ROW_SUCCESS)"
  using assms
proof (induction bs arbitrary: m)
  case (Cons cb bs)
  obtain c b where cb: "cb = (c, b)" by (cases cb)
  have here: "value_at env rs r c (val c)" "text_binding (at_row b)" "int (length (val c)) < b_value_max_size (at_row b)"
      "b_value b \<noteq> 0" "b_value_size (at_row b) \<notin> status_cells sp r"
    using Cons.prems(1) cb by auto
  obtain m1 where m1: "fillBinding env huge rs r c (at_row b) d m = (Inr SQL_SUCCESS, d, m1)" "cell_holds (at_row b) (val c) m1"
      "only_in (buffer_of (at_row b)) {b_value_size (at_row b)} m m1"
    using fillBinding_text [OF here(1-3)] by blast
  let ?m2 = "set_row_status sp SQL_ROW_SUCCESS r m1"
  obtain m' where m': "fetch_columns env huge rs sp at_row r bs d ?m2 = (Inr (), d, m')"
      "\<forall>(c, b) \<in> set bs. cell_holds (at_row b) (val c) m'"
      "only_in (\<Union>(c, b) \<in> set bs. buffer_of (at_row b)) ((\<Union>(c, b) \<in> set bs. {b_value_size (at_row b)}) \<union> status_cells sp r) ?m2 m'"
      "bs \<noteq> [] \<longrightarrow> sp \<noteq> 0 \<longrightarrow> mem_lens m' (sp + 2 * int r) = SQL_ROW_SUCCESS"
    using Cons.IH [of ?m2] Cons.prems by auto
  have two: "cell_holds (at_row b) (val c) ?m2"
    by (rule cell_holds_kept [OF m1(2) set_row_status_only here(3)]) (use here(5) in simp_all)
  have "\<forall>b' \<in> set (map (at_row \<circ> snd) bs). apart (at_row b) b'" using Cons.prems(2) cb by simp
  then have sep: "buffer_of (at_row b) \<inter> (\<Union>(c, b) \<in> set bs. buffer_of (at_row b)) = {}"
      "b_value_size (at_row b) \<notin> (\<Union>(c, b) \<in> set bs. {b_value_size (at_row b)}) \<union> status_cells sp r"
    using here(5) by (fastforce simp: apart_def)+
  have "cell_holds (at_row b) (val c) m'" by (rule cell_holds_kept [OF two m'(3) here(3) sep])
  moreover have "only_in (buffer_of (at_row b)) ({b_value_size (at_row b)} \<union> status_cells sp r) m ?m2"
    by (rule only_in_mono [OF only_in_trans [OF m1(3) set_row_status_only]]) auto
  then have "only_in (\<Union>(c, b) \<in> set (cb # bs). buffer_of (at_row b)) ((\<Union>(c, b) \<in> set (cb # bs). {b_value_size (at_row b)}) \<union> status_cells sp r) m m'"
    using m'(3) cb by (auto simp: only_in_def)
  moreover have "mem_lens m' (sp + 2 * int r) = SQL_ROW_SUCCESS" if "sp \<noteq> 0"
  proof (cases "bs = []")
    case True
    then show ?thesis using m'(1) that by (auto simp: set_row_status_def write_len_def)
  qed (use m'(4) that in simp)
  ultimately show ?case using m1(1) m'(1,2) here(4) cb by auto
qed simp

text \<open>All the rows of the row set: every cell its text, every row its status.\<close>

definition row_buffers :: "(nat \<Rightarrow> BindingInfo \<Rightarrow> BindingInfo) \<Rightarrow> (nat \<times> BindingInfo) list \<Rightarrow> nat set \<Rightarrow> int set" where
  "row_buffers at_row bs R = (\<Union>r \<in> R. \<Union>(c, b) \<in> set bs. buffer_of (at_row r b))"

definition row_lengths :: "(nat \<Rightarrow> BindingInfo \<Rightarrow> BindingInfo) \<Rightarrow> (nat \<times> BindingInfo) list \<Rightarrow> nat set \<Rightarrow> int set" where
  "row_lengths at_row bs R = (\<Union>r \<in> R. \<Union>(c, b) \<in> set bs. {b_value_size (at_row r b)})"

definition statuses :: "int \<Rightarrow> nat set \<Rightarrow> int set" where
  "statuses sp R = (\<Union>r \<in> R. status_cells sp r)"

definition bound_texts :: "conv_env \<Rightarrow> 's result_set \<Rightarrow> (nat \<Rightarrow> BindingInfo \<Rightarrow> BindingInfo) \<Rightarrow> (nat \<times> BindingInfo) list
    \<Rightarrow> (nat \<Rightarrow> nat \<Rightarrow> string) \<Rightarrow> nat \<Rightarrow> bool" where
  "bound_texts env rs at_row bs val r \<longleftrightarrow> (\<forall>(c, b) \<in> set bs. text_binding (at_row r b) \<and> b_value b \<noteq> 0
     \<and> value_at env rs r c (val r c) \<and> int (length (val r c)) < b_value_max_size (at_row r b))"

definition cells_hold :: "(nat \<Rightarrow> BindingInfo \<Rightarrow> BindingInfo) \<Rightarrow> (nat \<times> BindingInfo) list \<Rightarrow> (nat \<Rightarrow> nat \<Rightarrow> string) \<Rightarrow> nat \<Rightarrow> app_memory \<Rightarrow> bool" where
  "cells_hold at_row bs val r m \<longleftrightarrow> (\<forall>(c, b) \<in> set bs. cell_holds (at_row r b) (val r c) m)"

lemma cells_hold_kept:
  assumes "cells_hold at_row bs val r m" "only_in B Q m m'" "bound_texts env rs at_row bs val r"
    "row_buffers at_row bs {r} \<inter> B = {}" "row_lengths at_row bs {r} \<inter> Q = {}"
  shows "cells_hold at_row bs val r m'"
  unfolding cells_hold_def
proof clarify
  fix c b assume b: "(c, b) \<in> set bs"
  show "cell_holds (at_row r b) (val r c) m'"
  proof (rule cell_holds_kept [OF _ assms(2)])
    show "cell_holds (at_row r b) (val r c) m" using assms(1) b by (auto simp: cells_hold_def)
    show "int (length (val r c)) < b_value_max_size (at_row r b)" using assms(3) b by (auto simp: bound_texts_def)
    show "buffer_of (at_row r b) \<inter> B = {}" using assms(4) b by (fastforce simp: row_buffers_def)
    show "b_value_size (at_row r b) \<notin> Q" using assms(5) b by (fastforce simp: row_lengths_def)
  qed
qed

lemma status_kept:
  assumes "mem_lens m (sp + 2 * int r) = v" "only_in B Q m m'" "sp \<noteq> 0" "r \<notin> R" "Q = L \<union> statuses sp R" "statuses sp {r} \<inter> L = {}"
  shows "mem_lens m' (sp + 2 * int r) = v"
proof -
  have "sp + 2 * int r \<notin> Q" using assms(3-6) by (auto simp: statuses_def status_cells_def)
  then show ?thesis using assms(1,2) by (simp add: only_in_def)
qed

lemma fetch_rows_texts:
  assumes "\<forall>r \<in> set rows. bound_texts env rs at_row bs val r"
    and "sorted_wrt apart (concat (map (\<lambda>r. map (at_row r \<circ> snd) bs) rows))"
    and "distinct rows" "bs \<noteq> []" "row_lengths at_row bs (set rows) \<inter> statuses sp (set rows) = {}"
  shows "\<exists>m'. fetch_rows env huge rs sp at_row bs rows d m = (Inr (), d, m')
    \<and> (\<forall>r \<in> set rows. cells_hold at_row bs val r m')
    \<and> only_in (row_buffers at_row bs (set rows)) (row_lengths at_row bs (set rows) \<union> statuses sp (set rows)) m m'
    \<and> (sp \<noteq> 0 \<longrightarrow> (\<forall>r \<in> set rows. mem_lens m' (sp + 2 * int r) = SQL_ROW_SUCCESS))"
  using assms
proof (induction rows arbitrary: m)
  case (Cons r rows)
  let ?B = "row_buffers at_row bs" and ?L = "row_lengths at_row bs" and ?S = "statuses sp"
  have bt: "bound_texts env rs at_row bs val r" using Cons.prems(1) by simp
  have cols: "\<forall>(c, b) \<in> set bs. text_binding (at_row r b) \<and> b_value b \<noteq> 0 \<and> value_at env rs r c (val r c)
      \<and> int (length (val r c)) < b_value_max_size (at_row r b) \<and> b_value_size (at_row r b) \<notin> status_cells sp r"
    using bt Cons.prems(5) by (fastforce simp: bound_texts_def row_lengths_def statuses_def)
  have "sorted_wrt apart (map (at_row r \<circ> snd) bs)" using Cons.prems(2) by (simp add: sorted_wrt_append comp_def)
  from fetch_columns_texts [OF cols this, of huge d m]
  obtain m1 where m1: "fetch_columns env huge rs sp (at_row r) r bs d m = (Inr (), d, m1)" "cells_hold at_row bs val r m1"
      "only_in (?B {r}) (?L {r} \<union> ?S {r}) m m1" "sp \<noteq> 0 \<longrightarrow> mem_lens m1 (sp + 2 * int r) = SQL_ROW_SUCCESS"
    using Cons.prems(4) unfolding cells_hold_def row_buffers_def row_lengths_def statuses_def by auto
  have pieces: "?B (set (r # rows)) = ?B {r} \<union> ?B (set rows)" "?L (set (r # rows)) = ?L {r} \<union> ?L (set rows)"
      "?S (set (r # rows)) = ?S {r} \<union> ?S (set rows)"
    by (simp_all add: row_buffers_def row_lengths_def statuses_def)
  have "\<exists>m'. fetch_rows env huge rs sp at_row bs rows d m1 = (Inr (), d, m') \<and> (\<forall>r \<in> set rows. cells_hold at_row bs val r m')
    \<and> only_in (?B (set rows)) (?L (set rows) \<union> ?S (set rows)) m1 m'
    \<and> (sp \<noteq> 0 \<longrightarrow> (\<forall>r \<in> set rows. mem_lens m' (sp + 2 * int r) = SQL_ROW_SUCCESS))"
    by (rule Cons.IH) (use Cons.prems pieces in \<open>auto simp: sorted_wrt_append\<close>)
  then obtain m' where m': "fetch_rows env huge rs sp at_row bs rows d m1 = (Inr (), d, m')" "\<forall>r \<in> set rows. cells_hold at_row bs val r m'"
      "only_in (?B (set rows)) (?L (set rows) \<union> ?S (set rows)) m1 m'"
      "sp \<noteq> 0 \<longrightarrow> (\<forall>r \<in> set rows. mem_lens m' (sp + 2 * int r) = SQL_ROW_SUCCESS)" by blast
  have ap: "apart (at_row r b) (at_row r' b')" if "(c, b) \<in> set bs" "(c', b') \<in> set bs" "r' \<in> set rows" for c b c' b' r'
    using Cons.prems(2) that by (force simp: sorted_wrt_append)
  have "?B {r} \<inter> ?B (set rows) = {}" using ap by (fastforce simp: row_buffers_def apart_def)
  moreover have "?L {r} \<inter> ?L (set rows) = {}" using ap by (fastforce simp: row_lengths_def apart_def)
  ultimately have "cells_hold at_row bs val r m'"
    using cells_hold_kept [OF m1(2) m'(3) bt] Cons.prems(5) unfolding pieces by blast
  moreover have "mem_lens m' (sp + 2 * int r) = SQL_ROW_SUCCESS" if "sp \<noteq> 0"
    by (rule status_kept [OF _ m'(3) that _ refl]) (use m1(4) that Cons.prems(3,5) pieces in auto)
  moreover have "only_in (?B (set (r # rows))) (?L (set (r # rows)) \<union> ?S (set (r # rows))) m m'"
    by (rule only_in_mono [OF only_in_trans [OF m1(3) m'(3)]]) (use pieces in auto)
  ultimately show ?case using m1(1) m'(1,2,4) by auto
qed (simp add: row_buffers_def row_lengths_def statuses_def)

lemma fetchRowSet_count:
  assumes "fetchRowSet nextRow mut recycle orientation offset sz rs = (Inr k, rs')"
  shows "k \<le> sz"
  using assms
  by (auto simp: fetchRowSet_def take_row_set_def Let_def split: if_splits prod.splits sum.splits)

lemma statuses_mono: "R \<subseteq> R' \<Longrightarrow> statuses sp R \<subseteq> statuses sp R'"
  unfolding statuses_def by (rule UN_mono) simp_all

lemma mark_no_rows_cells:
  "only_in {} (statuses sp {k..<n}) m (mark_no_rows sp k n m)
    \<and> (sp \<noteq> 0 \<longrightarrow> (\<forall>r. k \<le> r \<and> r < n \<longrightarrow> mem_lens (mark_no_rows sp k n m) (sp + 2 * int r) = SQL_ROW_NOROW))"
proof (induction n)
  case (Suc n)
  show ?case
  proof (cases "k \<le> n")
    case True
    have split: "mark_no_rows sp k (Suc n) m = set_row_status sp SQL_ROW_NOROW n (mark_no_rows sp k n m)"
      using True by (simp add: mark_no_rows_def)
    have "only_in {} (statuses sp {k..<Suc n}) m (set_row_status sp SQL_ROW_NOROW n (mark_no_rows sp k n m))"
      by (rule only_in_mono [OF only_in_trans [OF conjunct1 [OF Suc.IH] set_row_status_only]])
        (use True statuses_mono [of "{k..<n}" "{k..<Suc n}" sp] in \<open>auto simp: statuses_def\<close>)
    then show ?thesis using Suc.IH unfolding split by (auto simp: set_row_status_def write_len_def less_Suc_eq)
  next
    case False
    then show ?thesis by (simp add: mark_no_rows_def)
  qed
qed (simp add: mark_no_rows_def)

text \<open>C5: A fetch of a row set into bound text buffers that are large enough and lie apart succeeds: every
  fetched row has every bound text, terminated, with its length, the count of rows is stored, the
  status of each fetched row is success and that of the rest of the row set is that there is no row,
  and nothing else of the application's memory changes.\<close>

theorem fetched_row_set_in_buffers:
  assumes "cur_result_set st = Some rs0" "0 < sz" "fetchRowSet nextRow mut recycle orientation offset sz rs0 = (Inr k, rs)" "0 < k"
    and "getAttrAs as_size SQL_DESC_ARRAY_SIZE 1 (desc_attrs (ard_desc st)) = Inr sz"
    and "getAttrAs id SQL_DESC_ROWS_PROCESSED_PTR 0 (desc_attrs (ird_desc st)) = Inr fp"
    and "getAttrAs id SQL_DESC_ARRAY_STATUS_PTR 0 (desc_attrs (ird_desc st)) = Inr sp"
    and "getRecordCount (ard_desc st) = Inr n" "getRecord n SQL_ATTR_APP_ROW_DESC (ard_desc st) = Inr d"
    and "getAttrAs id SQL_DESC_BIND_TYPE SQL_BIND_TYPE_DEFAULT (desc_attrs d) = Inr bind_type"
    and "getAttrAs id SQL_DESC_BIND_OFFSET_PTR 0 (desc_attrs d) = Inr op" "op \<noteq> fp"
    and "base_bindings d n = Inr bs" "bs \<noteq> []"
    and "at_row = row_binding bind_type (if op \<noteq> 0 then mem_lens (app_mem st) op else 0)"
    and "\<forall>r < k. bound_texts env rs at_row bs val r"
    and "sorted_wrt apart (concat (map (\<lambda>r. map (at_row r \<circ> snd) bs) [0..<k]))"
    and "row_lengths at_row bs {0..<k} \<inter> insert fp (statuses sp {0..<sz}) = {}" "fp \<notin> statuses sp {0..<sz}"
  shows "\<exists>st'. FetchScroll env nextRow mut recycle orientation offset st = (Inr SQL_SUCCESS, st')
    \<and> (\<forall>r < k. cells_hold at_row bs val r (app_mem st'))
    \<and> (fp \<noteq> 0 \<longrightarrow> mem_lens (app_mem st') fp = int k)
    \<and> (sp \<noteq> 0 \<longrightarrow> (\<forall>r < sz. mem_lens (app_mem st') (sp + 2 * int r) = (if r < k then SQL_ROW_SUCCESS else SQL_ROW_NOROW)))
    \<and> only_in (row_buffers at_row bs {0..<k}) (insert fp (row_lengths at_row bs {0..<k} \<union> statuses sp {0..<sz})) (app_mem st) (app_mem st')"
proof -
  let ?L = "row_lengths at_row bs {0..<k}" and ?B = "row_buffers at_row bs {0..<k}"
  let ?put = "\<lambda>n m. if fp \<noteq> 0 then write_len fp n m else m"
  let ?m0 = "?put (int k) (?put 0 (app_mem st))"
  have ksz: "k \<le> sz" by (rule fetchRowSet_count [OF assms(3)])
  have sub: "statuses sp {0..<k} \<subseteq> statuses sp {0..<sz}" "statuses sp {k..<sz} \<subseteq> statuses sp {0..<sz}"
    using ksz by (auto intro!: statuses_mono)
  have m0: "only_in {} {fp} (app_mem st) ?m0" "fp \<noteq> 0 \<longrightarrow> mem_lens ?m0 fp = int k"
    by (auto simp: only_in_def write_len_def)
  obtain m1 where m1: "fetch_rows env (huge_ints st) rs sp at_row bs [0..<k] d ?m0 = (Inr (), d, m1)"
      "\<forall>r \<in> {0..<k}. cells_hold at_row bs val r m1"
      "only_in ?B (?L \<union> statuses sp {0..<k}) ?m0 m1"
      "sp \<noteq> 0 \<longrightarrow> (\<forall>r \<in> {0..<k}. mem_lens m1 (sp + 2 * int r) = SQL_ROW_SUCCESS)"
    using fetch_rows_texts [of "[0..<k]" env rs at_row bs val sp "huge_ints st" d ?m0] assms(14,16-18) sub(1)
    unfolding set_upt by auto
  let ?m2 = "mark_no_rows sp k sz m1"
  note m2 = conjunct1 [OF mark_no_rows_cells [of sp k sz m1]] conjunct2 [OF mark_no_rows_cells [of sp k sz m1]]
  obtain st' where st': "FetchScroll env nextRow mut recycle orientation offset st = (Inr SQL_SUCCESS, st')" "app_mem st' = ?m2"
    using assms(1-13,15) m1(1)
    by (auto simp: FetchScroll_def fetchBindings_def fill_row_set_def resetColumnOffsets_def write_len_def bind_result_def Let_def
        split: if_splits)
  have "cells_hold at_row bs val r ?m2" if "r < k" for r
  proof (rule cells_hold_kept [OF _ m2(1)])
    have "row_lengths at_row bs {r} \<subseteq> ?L" using that by (auto simp: row_lengths_def)
    then show "row_lengths at_row bs {r} \<inter> statuses sp {k..<sz} = {}" using assms(18) sub(2) by blast
  qed (use m1(2) that assms(16) in auto)
  moreover have "mem_lens ?m2 fp = int k" if "fp \<noteq> 0"
  proof -
    have "fp \<notin> ?L \<union> statuses sp {0..<k}" "fp \<notin> statuses sp {k..<sz}" using assms(18,19) sub by auto
    then show ?thesis using m1(3) m2(1) m0(2) that by (simp add: only_in_def)
  qed
  moreover have "mem_lens ?m2 (sp + 2 * int r) = (if r < k then SQL_ROW_SUCCESS else SQL_ROW_NOROW)" if "sp \<noteq> 0" "r < sz" for r
  proof (cases "r < k")
    case True
    have "mem_lens ?m2 (sp + 2 * int r) = SQL_ROW_SUCCESS"
      by (rule status_kept [of m1 _ _ _ _ _ _ "{k..<sz}" "{}", OF _ m2(1) that(1)]) (use m1(4) that True in auto)
    then show ?thesis using True by simp
  qed (use m2(2) that in simp)
  moreover have "only_in ?B (insert fp (?L \<union> statuses sp {0..<sz})) (app_mem st) ?m2"
    by (rule only_in_mono [OF only_in_trans [OF m0(1) only_in_trans [OF m1(3) m2(1)]]]) (use sub in auto)
  ultimately show ?thesis using st' by auto
qed

definition sample_bound :: "row list \<Rightarrow> unit cursor" where
  "sample_bound rows = (sample_cursor [])\<lparr>
     ard_desc := \<lparr>desc_attrs = [SQL_DESC_COUNT \<mapsto> Int_attr 1, SQL_DESC_ARRAY_SIZE \<mapsto> Int_attr 3],
       desc_records = [Map.empty, [SQL_DESC_CONCISE_TYPE \<mapsto> Int_attr SQL_C_CHAR, SQL_DESC_DATA_PTR \<mapsto> Int_attr 100,
         SQL_DESC_OCTET_LENGTH \<mapsto> Int_attr 4, SQL_DESC_OCTET_LENGTH_PTR \<mapsto> Int_attr 5000, SQL_DESC_INDICATOR_PTR \<mapsto> Int_attr 5000]]\<rparr>,
     ird_desc := \<lparr>desc_attrs = [SQL_DESC_ROWS_PROCESSED_PTR \<mapsto> Int_attr 40, SQL_DESC_ARRAY_STATUS_PTR \<mapsto> Int_attr 60], desc_records = []\<rparr>,
     cur_result_set := Some ((sample_result [])\<lparr>prefetched_rows := rows\<rparr>)\<rparr>"

definition sample_binding :: BindingInfo where
  "sample_binding = fresh_BindingInfo\<lparr>b_c_type := SQL_C_CHAR, b_value := 100, b_value_max_size := 4, b_value_size := 5000, b_indicator := 5000\<rparr>"

abbreviation (input) no_rows :: "unit next_row" where
  "no_rows \<equiv> (\<lambda>r cols s. (Inr False, r, cols, s))"

lemma sample_row_binding:
  "row_binding SQL_BIND_BY_COLUMN 0 r sample_binding = \<lparr>b_c_type = SQL_C_CHAR, b_value = 100 + int r * 4, b_value_max_size = 4, b_value_offset = 0,
      b_value_size = 5000 + int r * 8, b_indicator = 5000 + int r * 8, b_precision = 0, b_scale = 0\<rparr>"
  "b_value sample_binding = 100"
  by (simp_all add: row_binding_def sample_binding_def offset_ptr_def fresh_BindingInfo_def)

lemma sample_record: "getRecord 1 SQL_ATTR_APP_ROW_DESC (ard_desc (sample_bound rows)) = Inr (ard_desc (sample_bound rows))"
proof -
  have fill: "fill_to x 1 [a, b] = [a, b]" for x and a b :: attrs by (simp add: fill_to.simps)
  show ?thesis
    unfolding getRecord_def ensure_bookmark_def getRecordCount_def
    by (simp add: sample_bound_def getAttrAs_def bind_result_def Let_def touch_range_def fill [unfolded One_nat_def])
qed

lemma sample_fetched:
  assumes "rows = [x, y]"
  shows "fetchRowSet no_rows None id SQL_FETCH_NEXT 0 3 (the (cur_result_set (sample_bound rows)))
      = (Inr 2, take_row_set 3 (the (cur_result_set (sample_bound rows))))"
    and "row_set (take_row_set 3 (the (cur_result_set (sample_bound rows)))) = rows"
proof -
  obtain rs0 where rs0: "the (cur_result_set (sample_bound rows)) = rs0" "row_set rs0 = []" "row_set_position rs0 = 1"
      "prefetched_rows rs0 = rows" "finished rs0"
    by (simp add: sample_bound_def sample_result_def)
  then show "fetchRowSet no_rows None id SQL_FETCH_NEXT 0 3 (the (cur_result_set (sample_bound rows)))
      = (Inr 2, take_row_set 3 (the (cur_result_set (sample_bound rows))))"
    "row_set (take_row_set 3 (the (cur_result_set (sample_bound rows)))) = rows"
    using assms
    by (simp_all add: fetchRowSet_def retire_row_set_def tryPrefetchRows_def take_row_set_def Let_def eval_nat_numeral prefetch_rounds.simps)
qed

lemma sample_bindings: "base_bindings (ard_desc (sample_bound rows)) 1 = Inr [(0, sample_binding)]"
  by (simp add: base_bindings_def base_binding_def sample_bound_def getAttrAs_def sample_binding_def bind_result_def)

lemmas sample_bound_attrs = sample_bound_def sample_cursor_def getRecordCount_def getAttrAs_def bind_result_def

theorem fetched_row_set_in_buffers_witness:
  "\<exists>st'. FetchScroll sample_conv no_rows None id SQL_FETCH_NEXT 0 (sample_bound [[Any_field ''ab''], [Any_field ''xyz'']]) = (Inr SQL_SUCCESS, st')
    \<and> (\<forall>r < 2. cells_hold (row_binding SQL_BIND_BY_COLUMN 0) [(0, sample_binding)] (\<lambda>r c. if r = 0 then ''ab'' else ''xyz'') r (app_mem st'))
    \<and> ((40 :: int) \<noteq> 0 \<longrightarrow> mem_lens (app_mem st') 40 = int 2)
    \<and> ((60 :: int) \<noteq> 0 \<longrightarrow> (\<forall>r < 3. mem_lens (app_mem st') (60 + 2 * int r) = (if r < 2 then SQL_ROW_SUCCESS else SQL_ROW_NOROW)))
    \<and> only_in (row_buffers (row_binding SQL_BIND_BY_COLUMN 0) [(0, sample_binding)] {0..<2})
        (insert 40 (row_lengths (row_binding SQL_BIND_BY_COLUMN 0) [(0, sample_binding)] {0..<2} \<union> statuses 60 {0..<3}))
        (app_mem (sample_bound [[Any_field ''ab''], [Any_field ''xyz'']])) (app_mem st')"
proof (rule fetched_row_set_in_buffers [OF _ _ sample_fetched(1) [OF refl] _ _ _ _ _ sample_record _ _ _ sample_bindings,
      where op = 0 and bind_type = SQL_BIND_BY_COLUMN])
  let ?at = "row_binding SQL_BIND_BY_COLUMN 0" and ?v = "\<lambda>r (c :: nat). if r = 0 then ''ab'' else ''xyz''"
  let ?rs = "take_row_set 3 (the (cur_result_set (sample_bound [[Any_field ''ab''], [Any_field ''xyz'']])))"
  have two: "{0..<2} = {0, 1 :: nat}" "[0..<2] = [0, 1]" "{0..<3} = {0, 1, 2 :: nat}" by (auto simp: upt_conv_Cons)
  have "bound_texts sample_conv ?rs ?at [(0, sample_binding)] ?v r" if "r < 2" for r
    using that sample_fetched(2) [OF refl]
    by (cases r) (auto simp: bound_texts_def sample_row_binding text_binding_def value_at_def sample_conv_def)
  then show "\<forall>r<2. bound_texts sample_conv ?rs ?at [(0, sample_binding)] ?v r" by blast
  show "sorted_wrt apart (concat (map (\<lambda>r. map (?at r \<circ> snd) [(0, sample_binding)]) [0..<2]))"
    by (simp add: two sample_row_binding apart_def buffer_of_def)
  show "row_lengths ?at [(0, sample_binding)] {0..<2} \<inter> insert 40 (statuses 60 {0..<3}) = {}" "(40 :: int) \<notin> statuses 60 {0..<3}"
    by (simp_all add: two sample_row_binding row_lengths_def statuses_def status_cells_def)
qed (simp_all add: sample_bound_attrs)

lemma fillBinding_truncated:
  assumes "value_at env rs r c v" "text_binding b" "b_value_max_size b \<le> int (length v)" "length v < 2 ^ 63"
  shows "\<exists>m'. fillBinding env huge rs r c b d m = (Inl right_truncated, d, m') \<and> only_in (buffer_of b) {b_value_size b} m m'"
proof -
  let ?k = "nat (b_value_max_size b)"
  have b: "b_value_max_size b = int (?k * 1)" using assms(2) by (simp add: text_binding_def)
  have k: "0 < ?k" "?k * 1 < 2 ^ 63" "length v * 1 < 2 ^ 63" "b_value b \<noteq> 0" "b_value_size b \<noteq> 0"
    using assms(2,4) by (simp_all add: text_binding_def nat_less_iff)
  have short: "\<not> (0 < (0 :: nat) \<and> length v \<le> 0)" "?k \<le> length v - 0" using assms(3) by auto
  obtain m' where m': "fillOutputString 1 v (b_value b) (int (?k * 1)) (b_value_size b) True True 0 m = (Inl right_truncated, m')"
    "differ_in (b_value b) (b_value b + int (?k * 1)) (b_value_size b) m m'"
    by (rule fillOutputString_piece [where n = "length v" and j = 0 and offset = 0 and converted = v and cs = 1 and k = ?k and m = m
          and out = "b_value b" and len = "b_value_size b", unfolded if_not_P [OF short(1)] if_P [OF short(2)]])
      (use k in simp_all)
  have "fillBinding env huge rs r c b d m = (Inl right_truncated, d, m')"
    using assms(1,2) m'(1) b
    by (auto simp: fillBinding_def descriptor_c_type_def column_c_type_def descriptor_precision_def text_binding_def value_at_def
        extractField_def extract_field_def writeDataFrom_def to_text_buffer_def clear_indicator_def split: field.splits)
  moreover have "only_in (buffer_of b) {b_value_size b} m m'"
    using m'(2) b by (auto simp: differ_in_def only_in_def buffer_of_def)
  ultimately show ?thesis by blast
qed

text \<open>When the first bound text of the first row does not fit, the whole fetch ends with the exception
  01004: the count says that all the rows were fetched, while no other column, no other row and no
  row status is written.\<close>

theorem truncation_ends_the_fetch:
  assumes "cur_result_set st = Some rs0" "0 < sz" "fetchRowSet nextRow mut recycle orientation offset sz rs0 = (Inr k, rs)" "0 < k"
    and "getAttrAs as_size SQL_DESC_ARRAY_SIZE 1 (desc_attrs (ard_desc st)) = Inr sz"
    and "getAttrAs id SQL_DESC_ROWS_PROCESSED_PTR 0 (desc_attrs (ird_desc st)) = Inr fp"
    and "getAttrAs id SQL_DESC_ARRAY_STATUS_PTR 0 (desc_attrs (ird_desc st)) = Inr sp"
    and "getRecordCount (ard_desc st) = Inr n" "getRecord n SQL_ATTR_APP_ROW_DESC (ard_desc st) = Inr d"
    and "getAttrAs id SQL_DESC_BIND_TYPE SQL_BIND_TYPE_DEFAULT (desc_attrs d) = Inr bind_type"
    and "getAttrAs id SQL_DESC_BIND_OFFSET_PTR 0 (desc_attrs d) = Inr op" "op \<noteq> fp"
    and "base_bindings d n = Inr ((c, b) # bs)" "b_value b \<noteq> 0"
    and "b' = row_binding bind_type (if op \<noteq> 0 then mem_lens (app_mem st) op else 0) 0 b"
    and "text_binding b'" "value_at env rs 0 c v" "b_value_max_size b' \<le> int (length v)" "length v < 2 ^ 63" "b_value_size b' \<noteq> fp"
  shows "\<exists>st'. FetchScroll env nextRow mut recycle orientation offset st = (Inl right_truncated, st')
    \<and> cur_result_set st' = Some rs \<and> (fp \<noteq> 0 \<longrightarrow> mem_lens (app_mem st') fp = int k)
    \<and> only_in (buffer_of b') {fp, b_value_size b'} (app_mem st) (app_mem st')"
proof -
  let ?put = "\<lambda>n m. if fp \<noteq> 0 then write_len fp n m else m"
  let ?m0 = "?put (int k) (?put 0 (app_mem st))"
  have m0: "only_in {} {fp} (app_mem st) ?m0" "fp \<noteq> 0 \<longrightarrow> mem_lens ?m0 fp = int k"
    by (auto simp: only_in_def write_len_def)
  obtain m1 where m1: "fillBinding env (huge_ints st) rs 0 c b' d ?m0 = (Inl right_truncated, d, m1)"
      "only_in (buffer_of b') {b_value_size b'} ?m0 m1"
    using fillBinding_truncated [OF assms(17,16,18,19)] by blast
  have rows: "[0..<k] = 0 # [1..<k]" using assms(4) by (simp add: upt_conv_Cons)
  obtain st' where "FetchScroll env nextRow mut recycle orientation offset st = (Inl right_truncated, st')" "app_mem st' = m1"
      "cur_result_set st' = Some rs"
    using assms(1-15) m1(1)
    by (auto simp: FetchScroll_def fetchBindings_def fill_row_set_def resetColumnOffsets_def write_len_def bind_result_def Let_def rows
        split: if_splits)
  moreover have "only_in (buffer_of b') {fp, b_value_size b'} (app_mem st) m1"
    by (rule only_in_mono [OF only_in_trans [OF m0(1) m1(2)]]) auto
  moreover have "fp \<noteq> 0 \<longrightarrow> mem_lens m1 fp = int k" using m1(2) m0(2) assms(20) by (simp add: only_in_def)
  ultimately show ?thesis by blast
qed

theorem truncation_ends_the_fetch_witness:
  "\<exists>st'. FetchScroll sample_conv no_rows None id SQL_FETCH_NEXT 0 (sample_bound [[Any_field ''abcdef''], [Any_field ''xyz'']]) = (Inl right_truncated, st')
    \<and> cur_result_set st' = Some (take_row_set 3 (the (cur_result_set (sample_bound [[Any_field ''abcdef''], [Any_field ''xyz'']]))))
    \<and> ((40 :: int) \<noteq> 0 \<longrightarrow> mem_lens (app_mem st') 40 = int 2)
    \<and> only_in (buffer_of (row_binding SQL_BIND_BY_COLUMN 0 0 sample_binding)) {40, b_value_size (row_binding SQL_BIND_BY_COLUMN 0 0 sample_binding)}
        (app_mem (sample_bound [[Any_field ''abcdef''], [Any_field ''xyz'']])) (app_mem st')"
proof (rule truncation_ends_the_fetch [OF _ _ sample_fetched(1) [OF refl] _ _ _ _ _ sample_record _ _ _ sample_bindings,
      where op = 0 and bind_type = SQL_BIND_BY_COLUMN and v = "''abcdef''"])
  show "value_at sample_conv (take_row_set 3 (the (cur_result_set (sample_bound [[Any_field ''abcdef''], [Any_field ''xyz'']])))) 0 0 ''abcdef''"
    using sample_fetched(2) [OF refl] by (simp add: value_at_def sample_conv_def)
qed (simp_all add: sample_bound_attrs sample_row_binding text_binding_def)

section \<open>The same value in the two formats\<close>

text \<open>C40: An integer column read as a signed C integer gives the same bytes, or the same error, whether the
  value came as a binary integer (RowBinary) or as text (ODBCDriver2), exactly when it fits the C
  type; a value that does not fit is an error from text and is silently cut to the low bytes from
  a binary integer.\<close>

theorem int_formats_agree:
  assumes "n \<in> {1, 2, 4, 8}"
  shows "field_to_int env t True n (Int_field ty v) = field_to_int env t True n (Any_field (show_int v))
    \<longleftrightarrow> - (2 ^ (8 * n - 1)) \<le> v \<and> v < 2 ^ (8 * n - 1)"
proof -
  have "8 * n \<in> {8, 16, 32, 64}" using assms by auto
  note rt = string_to_int_roundtrip [OF this, of v]
  show ?thesis
  proof (cases "- (2 ^ (8 * n - 1)) \<le> v \<and> v < 2 ^ (8 * n - 1)")
    case True
    then have "string_to_int (8 * n) (show_int v) = Inr v" using rt by blast
    then show ?thesis using True by (simp add: field_to_int_def string_to_object_def bind_result_def)
  next
    case False
    then have "\<exists>e. string_to_int (8 * n) (show_int v) = Inl e"
      by (auto simp: string_to_int_def string_to_int64_show)
    then show ?thesis using False by (auto simp: field_to_int_def string_to_object_def bind_result_def)
  qed
qed

theorem int_formats_agree_witness:
  "field_to_int sample_conv SQL_C_SSHORT True 2 (Int_field Int32 70000) = field_to_int sample_conv SQL_C_SSHORT True 2 (Any_field (show_int 70000))
    \<longleftrightarrow> - (2 ^ (8 * 2 - 1)) \<le> (70000 :: int) \<and> (70000 :: int) < 2 ^ (8 * 2 - 1)"
  by (rule int_formats_agree) simp

section \<open>The catalog entry of a column\<close>

text \<open>The type information of a column is the entry of its full type name, else that of the name without
  parameters, else the error std::out_of_range: the fallback over type ids, its special case for
  Decimal and the error HY004 are never reached.\<close>

theorem getTypeInfo_by_name:
  "Environment_getTypeInfo nm bare =
     (case typeInfoIfExistsFor nm of Some ti \<Rightarrow> Inr ti
      | None \<Rightarrow> (case typeInfoIfExistsFor bare of Some ti \<Rightarrow> Inr ti | None \<Rightarrow> Inl (Out_Of_Range ''unknown type id'')))"
  by (simp add: Environment_getTypeInfo_def convertUnparametrizedTypeNameToTypeId_def
      convertTypeIdToUnparametrizedCanonicalTypeName_def bind_result_def split: option.split)

section \<open>The default C type of a column\<close>



lemma le_bytes_0 [simp]: "le_bytes n 0 = replicate n (CHR 0x00)"
  by (induction n) (simp_all add: char_of_def)


lemma length_signed_bytes [simp]: "length (signed_bytes n v) = n"
  by (simp add: signed_bytes_def)

lemma object_lengths [simp]:
  "length (date_object d) = 6" "length (timestamp_object ts) = 16" "length d4 = 8 \<Longrightarrow> length (guid_object d1 d2 d3 d4) = 16"
  by (simp_all add: date_object_def timestamp_object_def guid_object_def)







end
