(* ===== verification/Connection_String.thy ===== *)
theory Connection_String
  imports Exceptions "HOL-Library.List_Lexorder"
begin

text \<open>
  Connection strings: \<open>readConnectionString\<close> of driver/config/config.cpp and the string
  \<open>SQLConnect\<close> of driver/api/odbc.cpp makes of its arguments. The maps of the driver are ordered
  by \<open>Poco::UTF8::icompare\<close>, which compares the lowered code points of two keys one by one; the
  argument \<open>lowered\<close> gives these code points. A map is the list of its entries in order.
\<close>

section \<open>Maps with case-insensitive keys\<close>

type_synonym lowering = "string \<Rightarrow> int list"
type_synonym key_value_map = "(string \<times> string) list"

definition find_field :: "lowering \<Rightarrow> string \<Rightarrow> key_value_map \<Rightarrow> string option" where
  "find_field lowered key entries = map_option snd (find (\<lambda>f. lowered (fst f) = lowered key) entries)"

definition insert_field :: "lowering \<Rightarrow> string \<Rightarrow> string \<Rightarrow> key_value_map \<Rightarrow> key_value_map" where
  "insert_field lowered key v entries = insort_key (\<lambda>f. lowered (fst f)) (key, v) entries"

definition erase_field :: "lowering \<Rightarrow> string \<Rightarrow> key_value_map \<Rightarrow> key_value_map" where
  "erase_field lowered key entries = filter (\<lambda>f. lowered (fst f) \<noteq> lowered key) entries"

section \<open>The parser\<close>

text \<open>What is consumed from the front, and its number of characters.\<close>

definition consume_space :: "string \<Rightarrow> nat \<times> string" where
  "consume_space str = (length (takeWhile isspace str), dropWhile isspace str)"

definition consume_semi_colons :: "string \<Rightarrow> nat \<times> string" where
  "consume_semi_colons str = (length (takeWhile (\<lambda>c. c = CHR '';'') str), dropWhile (\<lambda>c. c = CHR '';'') str)"

text \<open>\<open>while (consume_space(str) || consume_semi_colons(str));\<close>\<close>

lemma dropWhile_shorter: "takeWhile P xs \<noteq> [] \<Longrightarrow> length (dropWhile P xs) < length xs"
  by (cases xs) (auto simp: le_imp_less_Suc length_dropWhile_le split: if_splits)

function skip_separators :: "string \<Rightarrow> string" where
  "skip_separators str =
     (let (n, s) = consume_space str in
      if 0 < n then skip_separators s
      else let (n', s') = consume_semi_colons str in
        if 0 < n' then skip_separators s' else str)"
  by auto
termination
  by (relation "measure length") (auto simp: consume_space_def consume_semi_colons_def intro!: dropWhile_shorter)

declare skip_separators.simps [simp del]

text \<open>The characters of a key, what is left after it, and whether a single \<open>=\<close> ended it.\<close>

fun key_chars :: "string \<Rightarrow> string \<times> string \<times> bool" where
  "key_chars [] = ([], [], False)"
| "key_chars (c # str) =
     (if c = CHR '';'' then ([], c # str, False)
      else if c = CHR ''='' then
        (case str of
           d # str' \<Rightarrow> if d = CHR ''='' then (let (key, r, met) = key_chars str' in (CHR ''='' # key, r, met)) else ([], str, True)
         | [] \<Rightarrow> ([], str, True))
      else (let (key, r, met) = key_chars str in (c # key, r, met)))"

definition trim_right :: "string \<Rightarrow> string" where
  "trim_right s = rev (dropWhile isspace (rev s))"

definition extract_key_name :: "string \<Rightarrow> (string \<times> string) result" where
  "extract_key_name str =
     (let (chars, r, equal_met) = key_chars (skip_separators str);
          key = trim_right chars in
      if key = [] then Inl (Runtime_Error ''key name is missing'')
      else if \<not> equal_met then Inl (Runtime_Error (quoted ''='' @ '' is missing''))
      else Inr (key, r))"

text \<open>The value up to the closing brace, what is left after it, and whether the brace was met.\<close>

fun braced_chars :: "string \<Rightarrow> string \<times> string \<times> bool" where
  "braced_chars [] = ([], [], False)"
| "braced_chars (c # str) =
     (if c = CHR ''}'' then
        (case str of
           d # str' \<Rightarrow> if d = CHR ''}'' then (let (v, r, met) = braced_chars str' in (CHR ''}'' # v, r, met)) else ([], str, True)
         | [] \<Rightarrow> ([], str, True))
      else (let (v, r, met) = braced_chars str in (c # v, r, met)))"

text \<open>The separators after a value: how many semicolons, and what is left.\<close>

function skip_tail :: "nat \<Rightarrow> string \<Rightarrow> nat \<times> string" where
  "skip_tail n str =
     (let (consumed, s) = consume_semi_colons str; (spaces, s') = consume_space s in
      if 0 < consumed + spaces then skip_tail (n + consumed) s' else (n + consumed, s'))"
  by auto
termination
proof (relation "measure (length \<circ> snd)")
  fix n str x consumed s y spaces s'
  assume a: "x = consume_semi_colons str" "(consumed, s) = x" "y = consume_space s" "(spaces, s') = y" "0 < consumed + spaces"
  have "length s \<le> length str" "length s' \<le> length s"
    using a(1-4) by (simp_all add: consume_semi_colons_def consume_space_def length_dropWhile_le)
  moreover have "length s < length str \<or> length s' < length s"
    using a by (auto simp: consume_semi_colons_def consume_space_def intro!: dropWhile_shorter)
  ultimately show "((n + consumed, s'), n, str) \<in> measure (length \<circ> snd)" by auto
qed simp

declare skip_tail.simps [simp del]

definition value_part :: "string \<Rightarrow> (string \<times> string) result" where
  "value_part str =
     (case str of
        c # cs \<Rightarrow>
          (if c = CHR ''{'' then
             (let (v, r, met) = braced_chars cs in
              if met then Inr (v, r) else Inl (Runtime_Error (quoted ''}'' @ '' expected'')))
           else Inr (trim_right (takeWhile (\<lambda>c. c \<noteq> CHR '';'') str), dropWhile (\<lambda>c. c \<noteq> CHR '';'') str))
      | [] \<Rightarrow> Inr ([], []))"

definition extract_key_value :: "string \<Rightarrow> (string \<times> string) result" where
  "extract_key_value str =
     bind_result (value_part (snd (consume_space str))) (\<lambda>(v, r).
     let (semi_colons, r') = skip_tail 0 r in
     if semi_colons = 0 \<and> r' \<noteq> [] then Inl (Runtime_Error (quoted '';'' @ '' expected'')) else Inr (v, r'))"

text \<open>\<open>DSN\<close>, \<open>FileDSN\<close> and \<open>Driver\<close> do not override each other.\<close>

definition overridden :: "lowering \<Rightarrow> string \<Rightarrow> key_value_map \<Rightarrow> bool" where
  "overridden lowered key entries \<longleftrightarrow>
     (let is = (\<lambda>k. lowered key = lowered k); has = (\<lambda>k. find_field lowered k entries \<noteq> None) in
      has key \<or> is ''DSN'' \<and> has ''FileDSN'' \<or> is ''FileDSN'' \<and> has ''DSN'' \<or> is ''DSN'' \<and> has ''Driver'' \<or> is ''Driver'' \<and> has ''DSN'')"

definition add_field :: "lowering \<Rightarrow> string \<Rightarrow> string \<Rightarrow> key_value_map \<Rightarrow> key_value_map" where
  "add_field lowered key v entries = (if overridden lowered key entries then entries else insert_field lowered key v entries)"

text \<open>What can stand between the entries.\<close>

definition separates :: "char \<Rightarrow> bool" where
  "separates c \<longleftrightarrow> isspace c \<or> c = CHR '';''"

lemma dropWhile_weaker: "(\<And>c. P c \<Longrightarrow> Q c) \<Longrightarrow> dropWhile Q (dropWhile P s) = dropWhile Q s"
  by (induction s) auto

lemma dropWhile_none: "takeWhile P s = [] \<Longrightarrow> takeWhile Q s = [] \<Longrightarrow> dropWhile (\<lambda>c. P c \<or> Q c) s = s"
  by (cases s) (auto split: if_splits)

lemma skip_separators_is: "skip_separators str = dropWhile separates str"
proof (induction str rule: skip_separators.induct)
  case (1 str)
  have weak: "dropWhile separates (dropWhile isspace str) = dropWhile separates str"
      "dropWhile separates (dropWhile (\<lambda>c. c = CHR '';'') str) = dropWhile separates str"
    by (simp_all add: dropWhile_weaker separates_def)
  have none: "takeWhile isspace str = [] \<Longrightarrow> takeWhile (\<lambda>c. c = CHR '';'') str = [] \<Longrightarrow> dropWhile separates str = str"
    using dropWhile_none [of isspace str "\<lambda>c. c = CHR '';''"] by (simp add: separates_def [abs_def])
  show ?case
    using 1 weak none
    by (subst skip_separators.simps) (auto simp: consume_space_def consume_semi_colons_def Let_def)
qed

lemma length_skip_separators: "length (skip_separators str) \<le> length str"
  by (simp add: skip_separators_is length_dropWhile_le)

lemma length_key_chars: "key_chars str = (key, r, met) \<Longrightarrow> length r + length key \<le> length str"
  by (induction str arbitrary: key r met rule: key_chars.induct) (fastforce split: if_splits list.splits prod.splits)+

lemma length_trim_right: "length (trim_right s) \<le> length s"
  using length_dropWhile_le [of isspace "rev s"] by (simp add: trim_right_def)

lemma length_extract_key_name:
  assumes "extract_key_name str = Inr (key, r)"
  shows "length r < length str"
proof -
  obtain chars met where k: "key_chars (skip_separators str) = (chars, r, met)" "trim_right chars \<noteq> []"
    using assms by (auto simp: extract_key_name_def Let_def split: prod.splits if_splits)
  then have "0 < length chars" by (cases chars) (auto simp: trim_right_def)
  then show ?thesis using length_key_chars [OF k(1)] length_skip_separators [of str] by linarith
qed

lemma length_braced_chars: "braced_chars str = (v, r, met) \<Longrightarrow> length r \<le> length str"
  by (induction str arbitrary: v r met rule: braced_chars.induct) (fastforce split: if_splits list.splits prod.splits)+

lemma length_skip_tail: "skip_tail n str = (k, r) \<Longrightarrow> length r \<le> length str"
proof (induction n str arbitrary: k r rule: skip_tail.induct)
  case (1 n str)
  obtain m s where s: "consume_semi_colons str = (m, s)" "length s \<le> length str"
    by (simp add: consume_semi_colons_def length_dropWhile_le)
  obtain m' s' where s': "consume_space s = (m', s')" "length s' \<le> length s"
    by (simp add: consume_space_def length_dropWhile_le)
  show ?case
    using "1.IH" [OF s(1) [symmetric] refl s'(1) [symmetric] refl] "1.prems" s s'
    by (subst (asm) skip_tail.simps) (fastforce split: if_splits)
qed

lemma length_value_part: "value_part str = Inr (v, r) \<Longrightarrow> length r \<le> length str"
  using length_dropWhile_le [of "\<lambda>c. c \<noteq> CHR '';''" str]
  by (auto simp: value_part_def Let_def split: list.splits if_splits prod.splits dest: length_braced_chars)

lemma extract_key_value_steps:
  "extract_key_value str = Inr (v, r) \<longleftrightarrow>
     (\<exists>r1 n. value_part (dropWhile isspace str) = Inr (v, r1) \<and> skip_tail 0 r1 = (n, r) \<and> \<not> (n = 0 \<and> r \<noteq> []))"
proof (cases "value_part (dropWhile isspace str)")
  case (Inr vr)
  obtain v1 r1 where vr: "vr = (v1, r1)" by (cases vr)
  obtain n r2 where "skip_tail 0 r1 = (n, r2)" by (cases "skip_tail 0 r1")
  then show ?thesis using Inr vr by (auto simp: extract_key_value_def consume_space_def)
qed (simp add: extract_key_value_def consume_space_def)

lemma length_extract_key_value:
  assumes "extract_key_value str = Inr (v, r)"
  shows "length r \<le> length str"
proof -
  obtain r1 n where "value_part (dropWhile isspace str) = Inr (v, r1)" "skip_tail 0 r1 = (n, r)"
    using assms by (auto simp: extract_key_value_steps)
  then show ?thesis using length_value_part length_skip_tail length_dropWhile_le [of isspace str] by (meson order_trans)
qed

function read_fields :: "lowering \<Rightarrow> string \<Rightarrow> key_value_map \<Rightarrow> key_value_map result" where
  "read_fields lowered cs0 entries =
     (let cs = skip_separators cs0 in
      if cs = [] then Inr entries
      else
        (case extract_key_name cs of
           Inl e \<Rightarrow> Inl e
         | Inr (key, cs1) \<Rightarrow>
             (case extract_key_value cs1 of
                Inl e \<Rightarrow> Inl e
              | Inr (v, cs2) \<Rightarrow> read_fields lowered cs2 (add_field lowered key v entries))))"
  by auto
termination
proof (relation "measure (\<lambda>(_, cs, _). length cs)")
  fix lowered cs0 entries x x2 key cs1 x2a v cs2
  assume a: "x = skip_separators cs0" "extract_key_name x = Inr x2" "(key, cs1) = x2" "extract_key_value cs1 = Inr x2a" "(v, cs2) = x2a"
  then have "length cs1 < length x" "length cs2 \<le> length cs1" "length x \<le> length cs0"
    using length_extract_key_name length_extract_key_value length_skip_separators by auto
  then show "((lowered, cs2, add_field lowered key v entries), lowered, cs0, entries) \<in> measure (\<lambda>(_, cs, _). length cs)" by simp
qed simp

declare read_fields.simps [simp del]

definition readConnectionString :: "lowering \<Rightarrow> string \<Rightarrow> key_value_map result" where
  "readConnectionString lowered connection_string = read_fields lowered connection_string []"

section \<open>SQLConnect\<close>

definition append_value :: "string \<Rightarrow> string" where
  "append_value v = ''{'' @ concat (map (\<lambda>ch. if ch = CHR ''}'' then ''}}'' else [ch]) v) @ ''};''"

text \<open>The arguments in UTF-8; \<open>None\<close> is a null pointer.\<close>

definition connect_string :: "string option \<Rightarrow> string option \<Rightarrow> string option \<Rightarrow> string" where
  "connect_string ServerName UserName Authentication =
     (case ServerName of None \<Rightarrow> [] | Some s \<Rightarrow> ''DSN='' @ append_value s) @
     (case UserName of None \<Rightarrow> [] | Some s \<Rightarrow> ''UID='' @ append_value s) @
     (case Authentication of None \<Rightarrow> [] | Some s \<Rightarrow> ''PWD='' @ append_value s)"

section \<open>What is written is read back\<close>

definition key_text :: "string \<Rightarrow> string" where
  "key_text k = concat (map (\<lambda>c. if c = CHR ''='' then ''=='' else [c]) k)"

definition write_entry :: "string \<times> string \<Rightarrow> string" where
  "write_entry f = key_text (fst f) @ ''='' @ append_value (snd f)"

definition plain_key :: "string \<Rightarrow> bool" where
  "plain_key k \<longleftrightarrow> k \<noteq> [] \<and> CHR '';'' \<notin> set k \<and> \<not> isspace (hd k) \<and> \<not> isspace (last k)"

lemma skip_tail_is: "snd (skip_tail n str) = dropWhile separates str \<and> n \<le> fst (skip_tail n str)
    \<and> (str \<noteq> [] \<and> hd str = CHR '';'' \<longrightarrow> n < fst (skip_tail n str))"
proof (induction n str rule: skip_tail.induct)
  case (1 n str)
  let ?s = "dropWhile (\<lambda>c. c = CHR '';'') str"
  have weak: "dropWhile separates (dropWhile isspace ?s) = dropWhile separates str"
    using dropWhile_weaker [of isspace separates ?s] dropWhile_weaker [of "\<lambda>c. c = CHR '';''" separates str]
    by (simp add: separates_def)
  have stop: "takeWhile (\<lambda>c. c = CHR '';'') str = [] \<Longrightarrow> takeWhile isspace ?s = [] \<Longrightarrow> dropWhile separates str = dropWhile isspace ?s"
    by (cases str) (auto simp: separates_def split: if_splits)
  have semi: "str \<noteq> [] \<and> hd str = CHR '';'' \<longrightarrow> takeWhile (\<lambda>c. c = CHR '';'') str \<noteq> []" by (cases str) auto
  show ?case
  proof (cases "0 < length (takeWhile (\<lambda>c. c = CHR '';'') str) + length (takeWhile isspace ?s)")
    case True
    define l where "l = length (takeWhile (\<lambda>c. c = CHR '';'') str)"
    let ?n = "n + l"
    have "skip_tail n str = skip_tail ?n (dropWhile isspace ?s)"
      using True by (subst skip_tail.simps) (simp add: consume_semi_colons_def consume_space_def l_def)
    moreover have "snd (skip_tail ?n (dropWhile isspace ?s)) = dropWhile separates (dropWhile isspace ?s)
        \<and> ?n \<le> fst (skip_tail ?n (dropWhile isspace ?s))"
      using "1.IH" [of _ _ ?s _ _ "dropWhile isspace ?s"] True by (simp add: consume_semi_colons_def consume_space_def l_def)
    moreover have "str \<noteq> [] \<and> hd str = CHR '';'' \<longrightarrow> 0 < l" using semi by (simp add: l_def)
    moreover obtain m r where "skip_tail ?n (dropWhile isspace ?s) = (m, r)" by (cases "skip_tail ?n (dropWhile isspace ?s)")
    ultimately show ?thesis using weak by auto
  next
    case False
    then show ?thesis using stop semi by (subst (1 2 3) skip_tail.simps) (simp add: consume_semi_colons_def consume_space_def)
  qed
qed

lemma read_fields_skip: "read_fields lw (dropWhile separates str) es = read_fields lw str es"
  by (subst (1 2) read_fields.simps) (simp add: skip_separators_is dropWhile_idem)

lemma key_chars_text:
  "CHR '';'' \<notin> set k \<Longrightarrow> r = [] \<or> hd r \<noteq> CHR ''='' \<Longrightarrow> key_chars (key_text k @ CHR ''='' # r) = (k, r, True)"
  by (induction k) (auto simp: key_text_def split: list.splits)

lemma braced_chars_text:
  "r = [] \<or> hd r \<noteq> CHR ''}'' \<Longrightarrow>
     braced_chars (concat (map (\<lambda>ch. if ch = CHR ''}'' then ''}}'' else [ch]) v) @ CHR ''}'' # r) = (v, r, True)"
  by (induction v) (auto split: list.splits)

lemma trim_right_plain: "k = [] \<or> \<not> isspace (last k) \<Longrightarrow> trim_right k = k"
  by (cases k rule: rev_cases) (simp_all add: trim_right_def)

lemma hd_key_text: "k \<noteq> [] \<Longrightarrow> key_text k \<noteq> [] \<and> hd (key_text k) = hd k"
  by (cases k) (simp_all add: key_text_def)

lemma read_fields_entry:
  assumes "plain_key k"
  shows "read_fields lw (write_entry (k, v) @ r) es = read_fields lw r (add_field lw k v es)"
proof -
  let ?r = "append_value v @ r"
  have k: "k \<noteq> []" "CHR '';'' \<notin> set k" "\<not> separates (hd k)" "\<not> isspace (last k)"
    using assms hd_in_set [of k] by (metis plain_key_def separates_def)+
  have t: "write_entry (k, v) @ r = key_text k @ CHR ''='' # ?r" by (simp add: write_entry_def)
  have skip: "skip_separators (key_text k @ CHR ''='' # ?r) = key_text k @ CHR ''='' # ?r"
    using hd_key_text [OF k(1)] k(3) by (cases "key_text k") (simp_all add: skip_separators_is)
  have "hd ?r \<noteq> CHR ''=''" by (simp add: append_value_def)
  then have name: "extract_key_name (key_text k @ CHR ''='' # ?r) = Inr (k, ?r)"
    using key_chars_text [OF k(2)] trim_right_plain k(1,4) by (simp add: extract_key_name_def skip)
  have "value_part (dropWhile isspace ?r) = Inr (v, CHR '';'' # r)"
    using braced_chars_text [of "CHR '';'' # r" v] by (simp add: append_value_def value_part_def isspace_def)
  moreover obtain n where "skip_tail 0 (CHR '';'' # r) = (n, dropWhile separates r)" "0 < n"
    using skip_tail_is [of 0 "CHR '';'' # r"] by (cases "skip_tail 0 (CHR '';'' # r)") (auto simp: separates_def)
  ultimately have "extract_key_value ?r = Inr (v, dropWhile separates r)"
    by (auto simp: extract_key_value_steps)
  then show ?thesis
    unfolding t using name k(1) hd_key_text [OF k(1)] read_fields_skip [of lw r]
    by (subst read_fields.simps) (simp add: skip)
qed

lemma read_fields_entries:
  "\<forall>f \<in> set kvs. plain_key (fst f) \<Longrightarrow>
     read_fields lw (concat (map write_entry kvs)) es = Inr (fold (\<lambda>(k, v). add_field lw k v) kvs es)"
proof (induction kvs arbitrary: es)
  case Nil
  then show ?case by (subst read_fields.simps) (simp add: skip_separators_is)
qed (auto simp: read_fields_entry)

lemma find_insort:
  assumes "\<not> (\<exists>y \<in> set es. P y \<and> P x)"
  shows "find P (insort_key f x es) = (if P x then Some x else find P es)"
  using assms by (induction es) auto

lemma find_add_field:
  "find_field lw k (add_field lw k' v es) =
     (if overridden lw k' es then find_field lw k es else if lw k' = lw k then Some v else find_field lw k es)"
proof (cases "overridden lw k' es")
  case False
  then have "find_field lw k' es = None" by (simp add: overridden_def Let_def)
  then have "find (\<lambda>f. lw (fst f) = lw k') es = None" by (simp add: find_field_def)
  then have none: "lw k' = lw k \<Longrightarrow> \<not> (\<exists>y \<in> set es. lw (fst y) = lw k)" by (auto simp: find_None_iff)
  have "find (\<lambda>f. lw (fst f) = lw k) (insert_field lw k' v es) =
      (if lw k' = lw k then Some (k', v) else find (\<lambda>f. lw (fst f) = lw k) es)"
    unfolding insert_field_def by (subst find_insort) (use none in auto)
  then show ?thesis using False by (simp add: add_field_def find_field_def)
qed (simp add: add_field_def)





lemma find_field_Cons: "find_field lw k ((k', v) # es) = (if lw k' = lw k then Some v else find_field lw k es)"
  by (simp add: find_field_def)




definition lowered_ascii :: lowering where
  "lowered_ascii = map (\<lambda>c. let n = of_char c in if 65 \<le> n \<and> n \<le> 90 then n + 32 else n)"


text \<open>C17: What SQLConnect is given as data source, user and password reaches the configuration as it is,
  whatever characters it has: no value can end its braces and set another key.\<close>

theorem connect_arguments_survive:
  assumes "distinct (map lw [''DSN'', ''UID'', ''PWD'', ''Driver'', ''FileDSN''])"
  shows "\<exists>es. readConnectionString lw (connect_string ServerName UserName Authentication) = Inr es
    \<and> find_field lw ''DSN'' es = ServerName \<and> find_field lw ''UID'' es = UserName \<and> find_field lw ''PWD'' es = Authentication
    \<and> (\<forall>k. lw k \<notin> {lw ''DSN'', lw ''UID'', lw ''PWD''} \<longrightarrow> find_field lw k es = None)"
proof -
  let ?part = "\<lambda>k x. case x of None \<Rightarrow> [] | Some v \<Rightarrow> [(k, v)]"
  let ?kvs = "?part ''DSN'' ServerName @ ?part ''UID'' UserName @ ?part ''PWD'' Authentication"
  have "connect_string ServerName UserName Authentication = concat (map write_entry ?kvs)"
    by (simp add: connect_string_def write_entry_def key_text_def split: option.split)
  moreover have "\<forall>f \<in> set ?kvs. plain_key (fst f)" by (auto simp: plain_key_def isspace_def split: option.splits)
  moreover have none: "find_field lw k [] = None" for k by (simp add: find_field_def)
  have "find_field lw k (fold (\<lambda>(k, v). add_field lw k v) ?kvs []) = find_field lw k ?kvs" for k
    using assms none
    by (cases ServerName; cases UserName; cases Authentication) (auto simp: find_add_field find_field_Cons overridden_def Let_def)
  ultimately show ?thesis using read_fields_entries [of ?kvs lw "[]"] assms none
    by (auto simp: readConnectionString_def find_field_Cons split: option.split)
qed

theorem connect_arguments_survive_witness:
  "\<exists>es. readConnectionString lowered_ascii (connect_string (Some ''my}db'') (Some ''bob;Driver=x'') None) = Inr es
    \<and> find_field lowered_ascii ''DSN'' es = Some ''my}db'' \<and> find_field lowered_ascii ''UID'' es = Some ''bob;Driver=x''
    \<and> find_field lowered_ascii ''PWD'' es = None
    \<and> (\<forall>k. lowered_ascii k \<notin> {lowered_ascii ''DSN'', lowered_ascii ''UID'', lowered_ascii ''PWD''} \<longrightarrow> find_field lowered_ascii k es = None)"
  by (rule connect_arguments_survive) (simp add: lowered_ascii_def)

end
