(* ===== verification/Connection.thy ===== *)
theory Connection
  imports Connection_String Type_Info
begin

text \<open>
  The configuration of a connection: \<open>driver/connection.cpp\<close> without the descriptors (theory
  Descriptor) and the type information (theory Get_Data). Poco's parsers of numbers, flags and URLs and
  the reader of the system's data sources are arguments; a URL is the record of its parts, its query
  the decoded list of its parameters.
\<close>

section \<open>State\<close>

record uri =
  uri_scheme :: string
  uri_user_info :: string
  uri_host :: string
  uri_port :: nat
  uri_path :: string
  uri_params :: "(string \<times> string) list"

text \<open>\<open>isYes\<close> trims and lowers its argument and parses a flag; \<open>getPort\<close> is the port or that of the scheme.\<close>

record conf_env =
  code_points :: lowering
  normalized :: "string \<Rightarrow> string"
  tryParseUnsigned :: "string \<Rightarrow> nat option"
  tryParse :: "string \<Rightarrow> int option"
  tryParseBool :: "string \<Rightarrow> bool option"
  parse_uri :: "string \<Rightarrow> uri result"
  getPort :: "uri \<Rightarrow> nat"
  scheme_lower :: "string \<Rightarrow> string"
  decode_path :: "string \<Rightarrow> string"
  default_dsn :: string
  readDSNInfo :: "string \<Rightarrow> key_value_map result"

record connection =
  session_id :: string
  url :: string
  dsn :: string
  proto :: string
  username :: string
  password :: string
  server :: string
  port :: nat
  connection_timeout :: nat
  timeout :: nat
  verify_connection_early :: bool
  sslmode :: string
  privateKeyFile :: string
  certificateFile :: string
  caLocation :: string
  path :: string
  default_format :: string
  database :: string
  huge_int_as_string :: bool
  stringmaxlength :: nat
  auto_session_id :: bool
  client_name :: string
  enable_http_compression :: bool
  sql_compatibility_settings :: bool
  access_token :: string
  driverlogfile :: "string option"
  driverlog :: "bool option"
  session :: bool

definition resetConfiguration :: "connection \<Rightarrow> connection" where
  "resetConfiguration c = c\<lparr>dsn := [], url := [], proto := [], username := [], password := [], server := [], port := 0,
     connection_timeout := 0, timeout := 0, sslmode := [], privateKeyFile := [], certificateFile := [], caLocation := [],
     path := [], default_format := [], database := [], stringmaxlength := 0, access_token := []\<rparr>"

definition new_Connection :: "string \<Rightarrow> connection" where
  "new_Connection sid = \<lparr>session_id = sid, url = [], dsn = [], proto = [], username = [], password = [], server = [], port = 0,
     connection_timeout = 0, timeout = 0, verify_connection_early = False, sslmode = [], privateKeyFile = [], certificateFile = [],
     caLocation = [], path = [], default_format = [], database = [], huge_int_as_string = False, stringmaxlength = 0,
     auto_session_id = False, client_name = [], enable_http_compression = True, sql_compatibility_settings = False,
     access_token = [], driverlogfile = None, driverlog = None, session = False\<rparr>"

section \<open>Setting one attribute\<close>

abbreviation (input) same_key :: "conf_env \<Rightarrow> string \<Rightarrow> string \<Rightarrow> bool" where
  "same_key env a b \<equiv> code_points env a = code_points env b"

definition isYes :: "conf_env \<Rightarrow> string \<Rightarrow> bool" where
  "isYes env str = (case tryParseBool env (normalized env str) of Some flag \<Rightarrow> flag | None \<Rightarrow> False)"

definition isYesOrNo :: "conf_env \<Rightarrow> string \<Rightarrow> bool" where
  "isYesOrNo env str =
     (case tryParse env (normalized env str) of
        Some n \<Rightarrow> n = 0 \<or> n = 1
      | None \<Rightarrow> tryParseBool env (normalized env str) \<noteq> None)"

definition yes_or_no :: "conf_env \<Rightarrow> string \<Rightarrow> bool" where
  "yes_or_no env v \<longleftrightarrow> v = [] \<or> isYesOrNo env v"

text \<open>The number a value stands for, 0 where it cannot be read.\<close>

definition typed_value :: "conf_env \<Rightarrow> string \<Rightarrow> nat" where
  "typed_value env v = (if v = [] then 0 else case tryParseUnsigned env v of Some n \<Rightarrow> n | None \<Rightarrow> 0)"

definition number_within :: "conf_env \<Rightarrow> nat \<Rightarrow> nat \<Rightarrow> string \<Rightarrow> bool" where
  "number_within env lo hi v \<longleftrightarrow> v = [] \<or> (case tryParseUnsigned env v of Some n \<Rightarrow> lo \<le> n \<and> n \<le> hi | None \<Rightarrow> False)"

definition flag_value :: "conf_env \<Rightarrow> string \<Rightarrow> bool" where
  "flag_value env v \<longleftrightarrow> v = [] \<or> tryParseUnsigned env v \<in> {Some 0, Some 1} \<or> isYesOrNo env v"

text \<open>What a key sets: whether the value is valid, and the assignment; \<open>None\<close> for a key that is not recognized.\<close>

definition attribute_update :: "conf_env \<Rightarrow> string \<Rightarrow> string \<Rightarrow> (bool \<times> (connection \<Rightarrow> connection)) option" where
  "attribute_update env key v =
     (let is = same_key env key in
      if is ''DSN'' then Some (True, \<lambda>c. c\<lparr>dsn := v\<rparr>)
      else if is ''Url'' then Some (True, \<lambda>c. c\<lparr>url := v\<rparr>)
      else if is ''UID'' \<or> is ''Username'' then Some (CHR '':'' \<notin> set v, \<lambda>c. c\<lparr>username := v\<rparr>)
      else if is ''PWD'' \<or> is ''Password'' then Some (True, \<lambda>c. c\<lparr>password := v\<rparr>)
      else if is ''Proto'' then Some (v = [] \<or> same_key env v ''http'' \<or> same_key env v ''https'', \<lambda>c. c\<lparr>proto := v\<rparr>)
      else if is ''Server'' \<or> is ''Host'' then Some (True, \<lambda>c. c\<lparr>server := v\<rparr>)
      else if is ''Port'' then Some (number_within env 1 65535 v, \<lambda>c. c\<lparr>port := typed_value env v\<rparr>)
      else if is ''Timeout'' then Some (number_within env 0 4294967295 v, \<lambda>c. c\<lparr>timeout := typed_value env v\<rparr>)
      else if is ''VerifyConnectionEarly'' then Some (yes_or_no env v, \<lambda>c. c\<lparr>verify_connection_early := isYes env v\<rparr>)
      else if is ''SSLMode'' then Some (v = [] \<or> same_key env v ''allow'' \<or> same_key env v ''prefer'' \<or> same_key env v ''require'', \<lambda>c. c\<lparr>sslmode := v\<rparr>)
      else if is ''PrivateKeyFile'' then Some (True, \<lambda>c. c\<lparr>privateKeyFile := v\<rparr>)
      else if is ''CertificateFile'' then Some (True, \<lambda>c. c\<lparr>certificateFile := v\<rparr>)
      else if is ''CALocation'' then Some (True, \<lambda>c. c\<lparr>caLocation := v\<rparr>)
      else if is ''Path'' then Some (True, \<lambda>c. c\<lparr>path := v\<rparr>)
      else if is ''Database'' then Some (True, \<lambda>c. c\<lparr>database := v\<rparr>)
      else if is ''HugeIntAsString'' then Some (yes_or_no env v, \<lambda>c. c\<lparr>huge_int_as_string := isYes env v\<rparr>)
      else if is ''StringMaxLength'' then Some (number_within env 1 2147483647 v, \<lambda>c. c\<lparr>stringmaxlength := typed_value env v\<rparr>)
      else if is ''DriverLogFile'' then Some (True, \<lambda>c. c\<lparr>driverlogfile := Some v\<rparr>)
      else if is ''DriverLog'' then Some (yes_or_no env v, \<lambda>c. c\<lparr>driverlog := Some (isYes env v)\<rparr>)
      else if is ''AutoSessionId'' then Some (yes_or_no env v, \<lambda>c. c\<lparr>auto_session_id := isYes env v\<rparr>)
      else if is ''ClientName'' then Some (True, \<lambda>c. c\<lparr>client_name := v\<rparr>)
      else if is ''Compression'' then Some (flag_value env v, \<lambda>c. c\<lparr>enable_http_compression := (typed_value env v = 1 \<or> isYes env v)\<rparr>)
      else if is ''SQLCompatibilitySettings'' then Some (flag_value env v, \<lambda>c. c\<lparr>sql_compatibility_settings := (typed_value env v = 1 \<or> isYes env v)\<rparr>)
      else if is ''AccessToken'' then Some (True, \<lambda>c. c\<lparr>access_token := v\<rparr>)
      else None)"

text \<open>Recognized key, valid value; an invalid value changes nothing.\<close>

definition set_config_value :: "conf_env \<Rightarrow> string \<Rightarrow> string \<Rightarrow> connection \<Rightarrow> bool \<times> bool \<times> connection" where
  "set_config_value env key v c =
     (case attribute_update env key v of
        None \<Rightarrow> (False, False, c)
      | Some (valid_value, assign) \<Rightarrow> (True, valid_value, if valid_value then assign c else c))"

definition secret_key :: "conf_env \<Rightarrow> string \<Rightarrow> bool" where
  "secret_key env key \<longleftrightarrow> same_key env key ''PWD'' \<or> same_key env key ''Password'' \<or> same_key env key ''AccessToken''"

definition loggableValue :: "conf_env \<Rightarrow> string \<Rightarrow> string \<Rightarrow> string" where
  "loggableValue env key v = (if secret_key env key then (if v = [] then [] else ''******'') else v)"

text \<open>The attributes of a map, in its order; what was set before a bad value stays set.\<close>

fun set_fields :: "conf_env \<Rightarrow> string \<Rightarrow> (string \<Rightarrow> bool) \<Rightarrow> key_value_map \<Rightarrow> connection \<Rightarrow> unit result \<times> connection" where
  "set_fields env origin unused [] c = (Inr (), c)"
| "set_fields env origin unused ((key, v) # es) c =
     (if unused key then set_fields env origin unused es c
      else
        (let (recognized_key, valid_value, c') = set_config_value env key v c in
         if recognized_key \<and> \<not> valid_value
         then (Inl (Runtime_Error (origin @ '': bad value '' @ quoted (loggableValue env key v) @ '' for attribute '' @ quoted key)), c')
         else set_fields env origin unused es c'))"

section \<open>Deduced attributes\<close>

definition after_colon :: "string \<Rightarrow> (string \<times> string) option" where
  "after_colon s =
     (if CHR '':'' \<in> set s then Some (takeWhile (\<lambda>ch. ch \<noteq> CHR '':'') s, tl (dropWhile (\<lambda>ch. ch \<noteq> CHR '':'') s)) else None)"

abbreviation (input) if_empty :: "string \<Rightarrow> string \<Rightarrow> string" where
  "if_empty s d \<equiv> (if s = [] then d else s)"

text \<open>The parameters of the URL that are attributes: the last one of each counts.\<close>

definition url_parameter :: "conf_env \<Rightarrow> connection \<Rightarrow> string \<times> string \<Rightarrow> connection" where
  "url_parameter env c p =
     (if same_key env (fst p) ''default_format'' then c\<lparr>default_format := snd p\<rparr>
      else if same_key env (fst p) ''database'' then c\<lparr>database := snd p\<rparr> else c)"

definition url_credentials :: "uri \<Rightarrow> connection \<Rightarrow> connection" where
  "url_credentials u c =
     (case after_colon (uri_user_info u) of
        Some (user, pwd) \<Rightarrow> c\<lparr>password := if_empty (password c) pwd, username := if_empty (username c) user\<rparr>
      | None \<Rightarrow> c)"

definition url_port :: "conf_env \<Rightarrow> uri \<Rightarrow> connection \<Rightarrow> connection" where
  "url_port env u c =
     (let tmp_port = getPort env u in
      if port c = 0 \<and> (same_key env (proto c) ''https'' \<and> tmp_port \<noteq> 443 \<or> same_key env (proto c) ''http'' \<and> tmp_port \<noteq> 80)
      then c\<lparr>port := tmp_port\<rparr> else c)"

definition set_from_url :: "conf_env \<Rightarrow> uri \<Rightarrow> connection \<Rightarrow> connection" where
  "set_from_url env u c0 =
     (let c1 = url_credentials u (c0\<lparr>proto := if_empty (proto c0) (uri_scheme u)\<rparr>);
          c2 = url_port env u (c1\<lparr>server := if_empty (server c1) (uri_host u)\<rparr>) in
      foldl (url_parameter env) (c2\<lparr>path := if_empty (path c2) (uri_path u)\<rparr>) (uri_params u))"

definition deduce_names :: "connection \<Rightarrow> connection" where
  "deduce_names c = c\<lparr>proto := if_empty (proto c) (if sslmode c \<noteq> [] \<or> port c = 443 \<or> port c = 8443 then ''https'' else ''http''),
     username := if_empty (username c) ''default'', server := if_empty (server c) ''localhost''\<rparr>"

definition deduce_numbers :: "conf_env \<Rightarrow> connection \<Rightarrow> connection" where
  "deduce_numbers env c =
     (let t = (if timeout c = 0 then 30 else timeout c) in
      c\<lparr>port := (if port c = 0 then (if same_key env (proto c) ''https'' then 8443 else 8123) else port c), timeout := t,
        connection_timeout := (if connection_timeout c = 0 then t else connection_timeout c)\<rparr>)"

definition absolute_path :: "string \<Rightarrow> string" where
  "absolute_path p = (if hd p \<noteq> CHR ''/'' then CHR ''/'' # p else p)"

definition deduce_rest :: "connection \<Rightarrow> connection" where
  "deduce_rest c = c\<lparr>path := absolute_path (if_empty (path c) ''query''), default_format := if_empty (default_format c) ''ODBCDriver2'',
     database := if_empty (database c) ''default'', stringmaxlength := (if stringmaxlength c = 0 then nat string_max_size else stringmaxlength c)\<rparr>"

definition set_remaining :: "conf_env \<Rightarrow> connection \<Rightarrow> connection" where
  "set_remaining env c = deduce_rest (deduce_numbers env (deduce_names c))"

definition setConfiguration :: "conf_env \<Rightarrow> key_value_map \<Rightarrow> key_value_map \<Rightarrow> connection \<Rightarrow> unit result \<times> connection" where
  "setConfiguration env cs_fields dsn_fields c0 =
     (case set_fields env ''DSN'' (\<lambda>key. find_field (code_points env) key cs_fields \<noteq> None) dsn_fields c0 of
        (Inl e, c1) \<Rightarrow> (Inl e, c1)
      | (Inr _, c1) \<Rightarrow>
          (case set_fields env ''Connection string'' (\<lambda>_. False) cs_fields c1 of
             (Inl e, c2) \<Rightarrow> (Inl e, c2)
           | (Inr _, c2) \<Rightarrow>
               (let c3 = c2\<lparr>dsn := if_empty (dsn c2) (default_dsn env)\<rparr> in
                if url c3 = [] then (Inr (), set_remaining env c3)
                else
                  (case parse_uri env (url c3) of
                     Inl e \<Rightarrow> (Inl e, c3)
                   | Inr u \<Rightarrow> (Inr (), set_remaining env (set_from_url env u c3))))))"

section \<open>Connecting\<close>

text \<open>The attributes of the data source, if the connection string names no driver.\<close>

definition dsn_fields_of :: "conf_env \<Rightarrow> key_value_map \<Rightarrow> key_value_map result" where
  "dsn_fields_of env cs_fields =
     (let lw = code_points env in
      if find_field lw ''Driver'' cs_fields \<noteq> None then Inr []
      else
        bind_result (readDSNInfo env (case find_field lw ''DSN'' cs_fields of Some v \<Rightarrow> v | None \<Rightarrow> [])) (\<lambda>es.
        Inr (fold (erase_field lw) [''Driver'', ''Description'', ''DSN'', ''FileDSN'', ''SaveFile''] es)))"

definition connect :: "conf_env \<Rightarrow> (connection \<Rightarrow> unit result) \<Rightarrow> string \<Rightarrow> connection \<Rightarrow> unit result \<times> connection" where
  "connect env verifyConnection connection_string c =
     (if session c then (Inl (SqlException ''Connection name in use'' ''08002''), c)
      else
        (case readConnectionString (code_points env) connection_string of
           Inl e \<Rightarrow> (Inl e, c)
         | Inr cs_fields \<Rightarrow>
             if find_field (code_points env) ''FileDSN'' cs_fields \<noteq> None \<or> find_field (code_points env) ''SaveFile'' cs_fields \<noteq> None
             then (Inl (SqlException ''Optional feature not implemented'' ''HYC00''), c)
             else
               (case dsn_fields_of env cs_fields of
                  Inl e \<Rightarrow> (Inl e, c)
                | Inr dsn_fields \<Rightarrow>
                    (case setConfiguration env (erase_field (code_points env) ''Driver'' cs_fields) dsn_fields (resetConfiguration c) of
                       (Inl e, c1) \<Rightarrow> (Inl e, c1)
                     | (Inr _, c1) \<Rightarrow>
                         (let c2 = c1\<lparr>session := True\<rparr> in
                          if verify_connection_early c2
                          then (case verifyConnection c2 of Inl e \<Rightarrow> (Inl e, c2\<lparr>session := False\<rparr>) | Inr _ \<Rightarrow> (Inr (), c2))
                          else (Inr (), c2))))))"

section \<open>The URL of requests\<close>

text \<open>Whether a parameter is in the query of the URL, for four of them with a value.\<close>

definition parameter_set :: "conf_env \<Rightarrow> (string \<times> string) list \<Rightarrow> string \<Rightarrow> bool \<Rightarrow> bool" where
  "parameter_set env params nm needs_value \<longleftrightarrow> (\<exists>p \<in> set params. same_key env (fst p) nm \<and> (needs_value \<longrightarrow> snd p \<noteq> []))"

definition addQueryParameter :: "string \<Rightarrow> string \<Rightarrow> bool \<Rightarrow> uri \<Rightarrow> uri" where
  "addQueryParameter nm v wanted u = (if wanted then u\<lparr>uri_params := uri_params u @ [(nm, v)]\<rparr> else u)"

definition getUri :: "conf_env \<Rightarrow> connection \<Rightarrow> uri result" where
  "getUri env c =
     bind_result (parse_uri env (url c)) (\<lambda>u0.
     let u1 = u0\<lparr>uri_scheme := (if proto c \<noteq> [] then scheme_lower env (proto c) else uri_scheme u0),
           uri_host := (if server c \<noteq> [] then server c else uri_host u0), uri_port := (if port c \<noteq> 0 then port c else uri_port u0),
           uri_path := (if path c \<noteq> [] then decode_path env (path c) else uri_path u0)\<rparr>;
         is_set = parameter_set env (uri_params u1) in
     Inr (addQueryParameter ''prefer_column_name_to_alias'' ''1'' (sql_compatibility_settings c \<and> \<not> is_set ''prefer_column_name_to_alias'' True)
         (addQueryParameter ''cast_keep_nullable'' ''1'' (sql_compatibility_settings c \<and> \<not> is_set ''cast_keep_nullable'' True)
         (addQueryParameter ''enable_http_compression'' ''1'' (enable_http_compression c \<and> \<not> is_set ''enable_http_compression'' True)
         (addQueryParameter ''session_id'' (session_id c) (auto_session_id c \<and> \<not> is_set ''session_id'' True)
         (addQueryParameter ''database'' (database c) (\<not> is_set ''database'' False)
         (addQueryParameter ''default_format'' (default_format c) (\<not> is_set ''default_format'' False) u1)))))))"

section \<open>A complete configuration\<close>

text \<open>What every assignment keeps: the ranges of the numbers, and that the user name has no colon.\<close>

definition in_range :: "connection \<Rightarrow> bool" where
  "in_range c \<longleftrightarrow> port c < 65536 \<and> stringmaxlength c < 2147483648 \<and> CHR '':'' \<notin> set (username c)"

lemma typed_value_within: "number_within env lo hi v \<Longrightarrow> typed_value env v \<le> hi"
  by (auto simp: number_within_def typed_value_def split: option.splits)

text \<open>A property of all the assignments holds if it holds of each.\<close>

lemma pred_if: "pred_option Q x \<Longrightarrow> pred_option Q y \<Longrightarrow> pred_option Q (if b then x else y)"
  by simp

definition keeps_range :: "connection \<Rightarrow> bool \<times> (connection \<Rightarrow> connection) \<Rightarrow> bool" where
  "keeps_range c u \<longleftrightarrow> (fst u \<and> in_range c \<longrightarrow> in_range (snd u c)) \<and> session (snd u c) = session c"

lemma attribute_update_keeps: "pred_option (keeps_range c) (attribute_update env key v)"
proof -
  have "number_within env 1 65535 v \<Longrightarrow> typed_value env v < 65536" "number_within env 1 2147483647 v \<Longrightarrow> typed_value env v < 2147483648"
    using typed_value_within [of env 1 65535 v] typed_value_within [of env 1 2147483647 v] by simp_all
  then show ?thesis
    unfolding attribute_update_def Let_def by (intro pred_if) (simp_all add: keeps_range_def in_range_def)
qed

lemma set_config_value_in_range: "in_range c \<Longrightarrow> in_range (snd (snd (set_config_value env key v c)))"
  and set_config_value_session [simp]: "session (snd (snd (set_config_value env key v c))) = session c"
proof -
  have "in_range c \<longrightarrow> in_range (snd (snd (set_config_value env key v c)))" "session (snd (snd (set_config_value env key v c))) = session c"
    using attribute_update_keeps [of c env key v]
    by (cases "attribute_update env key v"; cases "the (attribute_update env key v)"; simp add: set_config_value_def keeps_range_def)+
  then show "in_range c \<Longrightarrow> in_range (snd (snd (set_config_value env key v c)))" "session (snd (snd (set_config_value env key v c))) = session c"
    by simp_all
qed

lemma set_fields_in_range: "in_range c \<Longrightarrow> in_range (snd (set_fields env origin unused es c))"
proof (induction es arbitrary: c)
  case (Cons f es)
  obtain key v where f: "f = (key, v)" by (cases f)
  obtain r valid c' where c': "set_config_value env key v c = (r, valid, c')" by (cases "set_config_value env key v c")
  then have "in_range c'" using set_config_value_in_range [OF Cons.prems, of env key v] by simp
  then show ?case using Cons.IH Cons.prems f c' by simp
qed simp

lemma url_parameters_frame:
  "in_range (foldl (url_parameter env) c ps) = in_range c" "session (foldl (url_parameter env) c ps) = session c"
  "url (foldl (url_parameter env) c ps) = url c"
  by (induction ps arbitrary: c) (simp_all add: url_parameter_def in_range_def)

lemma after_colon_no_colon: "after_colon s = Some (user, pwd) \<Longrightarrow> CHR '':'' \<notin> set user"
  by (auto simp: after_colon_def split: if_splits dest: set_takeWhileD)

lemma in_range_updates [simp]:
  "in_range (c\<lparr>proto := s\<rparr>) = in_range c" "in_range (c\<lparr>server := s\<rparr>) = in_range c" "in_range (c\<lparr>path := s\<rparr>) = in_range c"
  "in_range (c\<lparr>dsn := s\<rparr>) = in_range c"
  by (simp_all add: in_range_def)

lemma set_from_url_in_range:
  assumes "in_range c" "getPort env u < 65536"
  shows "in_range (set_from_url env u c)"
proof -
  let ?c1 = "url_credentials u (c\<lparr>proto := if_empty (proto c) (uri_scheme u)\<rparr>)"
  have "in_range ?c1"
    using assms(1) after_colon_no_colon [of "uri_user_info u"]
    by (cases "after_colon (uri_user_info u)"; cases "the (after_colon (uri_user_info u))")
      (simp_all add: url_credentials_def in_range_def)
  then have "in_range (url_port env u (?c1\<lparr>server := if_empty (server ?c1) (uri_host u)\<rparr>))"
    using assms(2) by (simp add: url_port_def in_range_def Let_def)
  then show ?thesis by (simp add: set_from_url_def url_parameters_frame Let_def)
qed

definition complete :: "connection \<Rightarrow> bool" where
  "complete c \<longleftrightarrow> proto c \<noteq> [] \<and> username c \<noteq> [] \<and> server c \<noteq> [] \<and> 0 < port c \<and> 0 < timeout c \<and> 0 < connection_timeout c
     \<and> path c \<noteq> [] \<and> hd (path c) = CHR ''/'' \<and> default_format c \<noteq> [] \<and> database c \<noteq> [] \<and> 0 < stringmaxlength c"

lemma absolute_path_abs [simp]: "p \<noteq> [] \<Longrightarrow> absolute_path p \<noteq> [] \<and> hd (absolute_path p) = CHR ''/''"
  by (simp add: absolute_path_def)

lemma deduce_names_ok:
  "in_range c \<Longrightarrow> in_range (deduce_names c)" "proto (deduce_names c) \<noteq> []" "username (deduce_names c) \<noteq> []" "server (deduce_names c) \<noteq> []"
  by (simp_all add: deduce_names_def in_range_def)

lemma deduce_numbers_ok:
  "in_range c \<Longrightarrow> in_range (deduce_numbers env c)" "0 < port (deduce_numbers env c)" "0 < timeout (deduce_numbers env c)"
  "0 < connection_timeout (deduce_numbers env c)" "proto (deduce_numbers env c) = proto c" "username (deduce_numbers env c) = username c"
  "server (deduce_numbers env c) = server c"
  by (simp_all add: deduce_numbers_def in_range_def Let_def)

lemma deduce_rest_ok:
  "in_range c \<Longrightarrow> in_range (deduce_rest c)" "path (deduce_rest c) \<noteq> []" "hd (path (deduce_rest c)) = CHR ''/''"
  "default_format (deduce_rest c) \<noteq> []" "database (deduce_rest c) \<noteq> []" "0 < stringmaxlength (deduce_rest c)"
  "proto (deduce_rest c) = proto c" "username (deduce_rest c) = username c" "server (deduce_rest c) = server c" "port (deduce_rest c) = port c"
  "timeout (deduce_rest c) = timeout c" "connection_timeout (deduce_rest c) = connection_timeout c"
  by (simp_all add: deduce_rest_def in_range_def string_max_size_def)

lemma set_remaining_complete: "in_range c \<Longrightarrow> complete (set_remaining env c) \<and> in_range (set_remaining env c)"
  by (simp add: set_remaining_def complete_def deduce_names_ok deduce_numbers_ok deduce_rest_ok)

text \<open>C11: A configuration that is accepted is complete: protocol, user, server, port, timeouts, path, format and
  database are there, numbers are in range, the path is absolute, and the user name has no colon,
  so that the credentials \<open>user:password\<close> can be taken apart again.\<close>

theorem configuration_complete:
  assumes "setConfiguration env cs_fields dsn_fields (resetConfiguration c0) = (Inr (), c)" "\<And>u. getPort env u < 65536"
  shows "complete c \<and> in_range c"
proof -
  have r0: "in_range (resetConfiguration c0)" by (simp add: in_range_def resetConfiguration_def)
  obtain r1 c1 where 1: "set_fields env ''DSN'' (\<lambda>key. find_field (code_points env) key cs_fields \<noteq> None) dsn_fields (resetConfiguration c0) = (r1, c1)"
    by fastforce
  obtain r2 c2 where 2: "set_fields env ''Connection string'' (\<lambda>_. False) cs_fields c1 = (r2, c2)" by fastforce
  have "in_range c2" using set_fields_in_range r0 1 2 by (metis snd_conv)
  then show ?thesis using assms 1 2 set_remaining_complete set_from_url_in_range
    by (auto simp: setConfiguration_def Let_def split: sum.splits if_splits)
qed

section \<open>Secrets\<close>

text \<open>The same map without its secrets.\<close>

definition without_secrets :: "conf_env \<Rightarrow> key_value_map \<Rightarrow> key_value_map" where
  "without_secrets env = map (\<lambda>f. (fst f, if secret_key env (fst f) then [] else snd f))"

definition masked :: "connection \<Rightarrow> connection" where
  "masked c = c\<lparr>password := [], access_token := []\<rparr>"

lemma masked_updates [simp]:
  "masked (c\<lparr>password := s\<rparr>) = masked c" "masked (c\<lparr>access_token := s\<rparr>) = masked c" "url (masked c) = url c"
  "masked (c\<lparr>dsn := s\<rparr>) = (masked c)\<lparr>dsn := s\<rparr>" "masked (c\<lparr>url := s\<rparr>) = (masked c)\<lparr>url := s\<rparr>"
  "masked (c\<lparr>username := s\<rparr>) = (masked c)\<lparr>username := s\<rparr>" "masked (c\<lparr>proto := s\<rparr>) = (masked c)\<lparr>proto := s\<rparr>"
  "masked (c\<lparr>server := s\<rparr>) = (masked c)\<lparr>server := s\<rparr>" "masked (c\<lparr>port := n\<rparr>) = (masked c)\<lparr>port := n\<rparr>"
  "masked (c\<lparr>timeout := n\<rparr>) = (masked c)\<lparr>timeout := n\<rparr>" "masked (c\<lparr>verify_connection_early := b\<rparr>) = (masked c)\<lparr>verify_connection_early := b\<rparr>"
  "masked (c\<lparr>sslmode := s\<rparr>) = (masked c)\<lparr>sslmode := s\<rparr>" "masked (c\<lparr>privateKeyFile := s\<rparr>) = (masked c)\<lparr>privateKeyFile := s\<rparr>"
  "masked (c\<lparr>certificateFile := s\<rparr>) = (masked c)\<lparr>certificateFile := s\<rparr>" "masked (c\<lparr>caLocation := s\<rparr>) = (masked c)\<lparr>caLocation := s\<rparr>"
  "masked (c\<lparr>path := s\<rparr>) = (masked c)\<lparr>path := s\<rparr>" "masked (c\<lparr>database := s\<rparr>) = (masked c)\<lparr>database := s\<rparr>"
  "masked (c\<lparr>huge_int_as_string := b\<rparr>) = (masked c)\<lparr>huge_int_as_string := b\<rparr>" "masked (c\<lparr>stringmaxlength := n\<rparr>) = (masked c)\<lparr>stringmaxlength := n\<rparr>"
  "masked (c\<lparr>driverlogfile := so\<rparr>) = (masked c)\<lparr>driverlogfile := so\<rparr>" "masked (c\<lparr>driverlog := bo\<rparr>) = (masked c)\<lparr>driverlog := bo\<rparr>"
  "masked (c\<lparr>auto_session_id := b\<rparr>) = (masked c)\<lparr>auto_session_id := b\<rparr>" "masked (c\<lparr>client_name := s\<rparr>) = (masked c)\<lparr>client_name := s\<rparr>"
  "masked (c\<lparr>enable_http_compression := b\<rparr>) = (masked c)\<lparr>enable_http_compression := b\<rparr>"
  "masked (c\<lparr>sql_compatibility_settings := b\<rparr>) = (masked c)\<lparr>sql_compatibility_settings := b\<rparr>"
  by (simp_all add: masked_def)

lemma attribute_update_masked:
  "masked c = masked c' \<Longrightarrow> pred_option (\<lambda>u. masked (snd u c) = masked (snd u c')) (attribute_update env key v)"
  unfolding attribute_update_def Let_def by (intro pred_if) simp_all

text \<open>The keys that are not secrets are told from those that are.\<close>

definition tells_secrets :: "conf_env \<Rightarrow> bool" where
  "tells_secrets env \<longleftrightarrow> (\<forall>k \<in> {''DSN'', ''Url'', ''UID'', ''Username'', ''Proto'', ''Server'', ''Host'', ''Port'', ''Timeout'', ''VerifyConnectionEarly'',
     ''SSLMode'', ''PrivateKeyFile'', ''CertificateFile'', ''CALocation'', ''Path'', ''Database'', ''HugeIntAsString'', ''StringMaxLength'',
     ''DriverLogFile'', ''DriverLog'', ''AutoSessionId'', ''ClientName'', ''Compression'', ''SQLCompatibilitySettings''}. \<not> secret_key env k)"

lemma secret_update:
  assumes "tells_secrets env" "secret_key env key"
  shows "\<exists>f. attribute_update env key v = Some (True, f) \<and> (\<forall>c. masked (f c) = masked c)"
proof -
  have "\<not> same_key env key k" if "\<not> secret_key env k" for k using assms(2) that by (auto simp: secret_key_def)
  then show ?thesis using assms
    by (cases "same_key env key ''AccessToken''") (simp_all add: attribute_update_def tells_secrets_def secret_key_def)
qed

lemma set_config_value_masked:
  assumes "tells_secrets env" "masked c = masked c'" "v' = (if secret_key env key then [] else v)"
    and "set_config_value env key v c = (r, ok, d)" "set_config_value env key v' c' = (r', ok', d')"
  shows "r' = r \<and> ok' = ok \<and> masked d' = masked d \<and> (r \<and> \<not> ok \<longrightarrow> v' = v)"
proof (cases "secret_key env key")
  case True
  obtain f f' where "attribute_update env key v = Some (True, f)" "masked (f c) = masked c"
      "attribute_update env key v' = Some (True, f')" "masked (f' c') = masked c'"
    using secret_update [OF assms(1) True] by metis
  then show ?thesis using assms(2,4,5) by (simp add: set_config_value_def)
next
  case False
  then show ?thesis using assms(2-5) attribute_update_masked [OF assms(2), of env key v]
    by (cases "attribute_update env key v"; cases "the (attribute_update env key v)") (simp_all add: set_config_value_def split: if_splits)
qed

lemma set_fields_masked:
  assumes "tells_secrets env" "masked c = masked c'"
  shows "fst (set_fields env origin unused (without_secrets env es) c') = fst (set_fields env origin unused es c)
    \<and> masked (snd (set_fields env origin unused (without_secrets env es) c')) = masked (snd (set_fields env origin unused es c))"
  using assms(2)
proof (induction es arbitrary: c c')
  case Nil
  then show ?case by (simp add: without_secrets_def)
next
  case (Cons f es)
  obtain key v where f: "f = (key, v)" by (cases f)
  let ?v = "if secret_key env key then [] else v"
  obtain r ok d where d: "set_config_value env key v c = (r, ok, d)" by (metis prod_cases3)
  obtain r' ok' d' where d': "set_config_value env key ?v c' = (r', ok', d')" by (metis prod_cases3)
  note same = set_config_value_masked [OF assms(1) Cons.prems refl d d']
  have t: "without_secrets env ((key, v) # es) = (key, ?v) # without_secrets env es" by (simp add: without_secrets_def)
  show ?case using Cons.IH [OF Cons.prems] Cons.IH [of d d'] same unfolding f t set_fields.simps d d' Let_def prod.case by auto
qed

lemma find_field_without_secrets: "find_field lw k (without_secrets env es) = None \<longleftrightarrow> find_field lw k es = None"
  by (auto simp: find_field_def without_secrets_def find_None_iff)

text \<open>C18: Whether a configuration is accepted, and the message when it is not, does not depend on a password or
  an access token: the maps without their secrets give the same result.\<close>

theorem errors_keep_secrets:
  assumes "tells_secrets env"
  shows "fst (setConfiguration env (without_secrets env cs_fields) (without_secrets env dsn_fields) c) = fst (setConfiguration env cs_fields dsn_fields c)"
proof -
  let ?unused = "\<lambda>key. find_field (code_points env) key cs_fields \<noteq> None"
  obtain r1 c1 r1' c1' where 1: "set_fields env ''DSN'' ?unused dsn_fields c = (r1, c1)"
      "set_fields env ''DSN'' ?unused (without_secrets env dsn_fields) c = (r1', c1')" by fastforce
  have same1: "r1' = r1" "masked c1 = masked c1'"
    using set_fields_masked [OF assms refl, of "''DSN''" ?unused dsn_fields c] 1 by simp_all
  obtain r2 c2 r2' c2' where 2: "set_fields env ''Connection string'' (\<lambda>_. False) cs_fields c1 = (r2, c2)"
      "set_fields env ''Connection string'' (\<lambda>_. False) (without_secrets env cs_fields) c1' = (r2', c2')" by fastforce
  have "r2' = r2" "masked c2' = masked c2"
    using set_fields_masked [OF assms same1(2), of "''Connection string''" "\<lambda>_. False" cs_fields] 2 by simp_all
  moreover from this have "url c2' = url c2" by (metis masked_updates(3))
  ultimately show ?thesis using 1 2 same1(1)
    by (simp add: setConfiguration_def find_field_without_secrets Let_def split: sum.split)
qed

section \<open>Examples\<close>

definition sample_uri :: uri where
  "sample_uri = \<lparr>uri_scheme = ''https'', uri_user_info = ''eve:pw'', uri_host = ''db'', uri_port = 9440, uri_path = ''/'',
     uri_params = [(''database'', ''shop''), (''Session_ID'', ''s1'')]\<rparr>"

definition sample_env :: conf_env where
  "sample_env = \<lparr>code_points = lowered_ascii, normalized = id,
     tryParseUnsigned = (\<lambda>s. if s \<noteq> [] \<and> list_all isdigit s then Some (digits_value s) else None),
     tryParse = (\<lambda>s. if s \<noteq> [] \<and> list_all isdigit s then Some (int (digits_value s)) else None),
     tryParseBool = (\<lambda>s. if s \<in> {''yes'', ''on'', ''true'', ''1''} then Some True else if s \<in> {''no'', ''off'', ''false'', ''0''} then Some False else None),
     parse_uri = (\<lambda>s. Inr sample_uri), getPort = (\<lambda>u. uri_port u mod 65536), scheme_lower = id, decode_path = id,
     default_dsn = ''ClickHouse DSN'', readDSNInfo = (\<lambda>_. Inr [])\<rparr>"

lemma sample_env_simps [simp]:
  "code_points sample_env = lowered_ascii" "parse_uri sample_env s = Inr sample_uri" "getPort sample_env u < 65536"
  "readDSNInfo sample_env d = Inr []"
  by (simp_all add: sample_env_def)

theorem errors_keep_secrets_witness:
  "fst (setConfiguration sample_env (without_secrets sample_env [(''pwd'', ''x''), (''UID'', ''a:b'')]) (without_secrets sample_env []) (new_Connection ''s''))
    = fst (setConfiguration sample_env [(''pwd'', ''x''), (''UID'', ''a:b'')] [] (new_Connection ''s''))"
  by (rule errors_keep_secrets) (simp add: tells_secrets_def secret_key_def lowered_ascii_def)

theorem configuration_complete_witness:
  "complete (set_remaining sample_env ((resetConfiguration (new_Connection ''s''))\<lparr>username := ''bob'', dsn := ''ClickHouse DSN''\<rparr>))
    \<and> in_range (set_remaining sample_env ((resetConfiguration (new_Connection ''s''))\<lparr>username := ''bob'', dsn := ''ClickHouse DSN''\<rparr>))"
proof (rule configuration_complete)
  have "attribute_update sample_env ''uid'' ''bob'' = Some (CHR '':'' \<notin> set ''bob'', \<lambda>c. c\<lparr>username := ''bob''\<rparr>)"
    by (simp add: attribute_update_def lowered_ascii_def)
  then show "setConfiguration sample_env [(''uid'', ''bob'')] [] (resetConfiguration (new_Connection ''s''))
      = (Inr (), set_remaining sample_env ((resetConfiguration (new_Connection ''s''))\<lparr>username := ''bob'', dsn := ''ClickHouse DSN''\<rparr>))"
    by (simp add: setConfiguration_def set_config_value_def resetConfiguration_def new_Connection_def sample_env_def)
qed simp

section \<open>The URL and the attributes\<close>

lemma url_parameters_database:
  assumes "code_points env ''database'' \<noteq> code_points env ''default_format''"
  shows "database (foldl (url_parameter env) c ps)
    = (case find_field (code_points env) ''database'' (rev ps) of Some d \<Rightarrow> d | None \<Rightarrow> database c)"
  using assms
proof (induction ps rule: rev_induct)
  case (snoc p ps)
  then show ?case by (cases p) (auto simp: url_parameter_def find_field_Cons)
qed (simp add: find_field_def)

lemma set_remaining_database: "database (set_remaining env c) = if_empty (database c) ''default''"
  by (simp add: set_remaining_def deduce_rest_def deduce_numbers_def deduce_names_def Let_def)

lemma set_remaining_url: "url (set_remaining env c) = url c"
  by (simp add: set_remaining_def deduce_rest_def deduce_numbers_def deduce_names_def Let_def)

lemma set_from_url_url: "url (set_from_url env u c) = url c"
  by (simp add: set_from_url_def url_parameters_frame url_credentials_def url_port_def Let_def split: option.split prod.split)

lemma setConfiguration_accepted:
  assumes "setConfiguration env cs_fields dsn_fields c0 = (Inr (), c)"
  shows "\<exists>c3. if url c3 = [] then c = set_remaining env c3
      else \<exists>u. parse_uri env (url c3) = Inr u \<and> c = set_remaining env (set_from_url env u c3)"
proof -
  obtain r1 c1 where 1: "set_fields env ''DSN'' (\<lambda>key. find_field (code_points env) key cs_fields \<noteq> None) dsn_fields c0 = (r1, c1)"
    by fastforce
  obtain r2 c2 where 2: "set_fields env ''Connection string'' (\<lambda>_. False) cs_fields c1 = (r2, c2)" by fastforce
  have r: "r1 = Inr ()" using assms 1 by (cases r1) (simp_all add: setConfiguration_def)
  have r2: "r2 = Inr ()" using assms 1 2 r by (cases r2) (simp_all add: setConfiguration_def)
  let ?c3 = "c2\<lparr>dsn := if_empty (dsn c2) (default_dsn env)\<rparr>"
  have "if url ?c3 = [] then c = set_remaining env ?c3
      else \<exists>u. parse_uri env (url ?c3) = Inr u \<and> c = set_remaining env (set_from_url env u ?c3)"
    using assms unfolding setConfiguration_def 1 2 r r2 Let_def prod.case sum.case
    by (cases "url ?c3 = []"; cases "parse_uri env (url ?c3)") simp_all
  then show ?thesis by (rule exI)
qed

text \<open>A database in the query of the URL is used whatever the attribute Database says, while the other parts
  of the URL only fill attributes that were left empty.\<close>

theorem url_database_wins:
  assumes "setConfiguration env cs_fields dsn_fields c0 = (Inr (), c)" "url c \<noteq> []" "parse_uri env (url c) = Inr u"
    and "find_field (code_points env) ''database'' (rev (uri_params u)) = Some d" "d \<noteq> []"
    and "code_points env ''database'' \<noteq> code_points env ''default_format''"
  shows "database c = d"
proof -
  obtain c3 where c3: "if url c3 = [] then c = set_remaining env c3
      else \<exists>u'. parse_uri env (url c3) = Inr u' \<and> c = set_remaining env (set_from_url env u' c3)"
    using setConfiguration_accepted [OF assms(1)] by blast
  have "url c3 = url c" using c3 by (cases "url c3 = []") (auto simp: set_remaining_url set_from_url_url)
  then have c: "c = set_remaining env (set_from_url env u c3)" using c3 assms(2,3) by simp
  show ?thesis
    using assms(4,5) url_parameters_database [OF assms(6)] by (simp add: c set_remaining_database set_from_url_def Let_def)
qed

text \<open>Parameters with their names, values and whether they are wanted.\<close>

definition additions :: "(string \<times> string \<times> bool) list \<Rightarrow> (string \<times> string) list" where
  "additions ws = concat (map (\<lambda>(n, v, wanted). if wanted then [(n, v)] else []) ws)"

lemma in_additions: "p \<in> set (additions ws) \<longleftrightarrow> (fst p, snd p, True) \<in> set ws"
  by (cases p) (force simp: additions_def split: if_splits)

lemma distinct_additions: "distinct (map fst ws) \<Longrightarrow> distinct (map fst (additions ws))"
proof (induction ws)
  case (Cons x ws)
  obtain n v w where x: "x = (n, v, w)" by (cases x)
  have "n \<notin> fst ` set (additions ws)" using Cons.prems x by (force simp: in_additions)
  then show ?case using Cons x by (simp add: additions_def)
qed (simp add: additions_def)

text \<open>C19: The URL of a request keeps all the parameters the user wrote, in their order, and after them has at most
  one of each parameter of the driver, none of which the user had set; the database and the format
  are always there.\<close>

theorem uri_keeps_parameters:
  assumes "parse_uri env (url c) = Inr u0"
  shows "\<exists>u added. getUri env c = Inr u \<and> uri_params u = uri_params u0 @ added
    \<and> distinct (map fst added) \<and> (\<forall>p \<in> set added. \<not> parameter_set env (uri_params u0) (fst p) True)
    \<and> (\<forall>p \<in> {(''database'', database c), (''default_format'', default_format c)}. p \<in> set added \<or> parameter_set env (uri_params u0) (fst p) False)
    \<and> ((''session_id'', session_id c) \<in> set added \<longleftrightarrow> auto_session_id c \<and> \<not> parameter_set env (uri_params u0) ''session_id'' True)"
proof -
  let ?is_set = "parameter_set env (uri_params u0)"
  let ?wants = "[(''default_format'', default_format c, \<not> ?is_set ''default_format'' False), (''database'', database c, \<not> ?is_set ''database'' False),
    (''session_id'', session_id c, auto_session_id c \<and> \<not> ?is_set ''session_id'' True),
    (''enable_http_compression'', ''1'', enable_http_compression c \<and> \<not> ?is_set ''enable_http_compression'' True),
    (''cast_keep_nullable'', ''1'', sql_compatibility_settings c \<and> \<not> ?is_set ''cast_keep_nullable'' True),
    (''prefer_column_name_to_alias'', ''1'', sql_compatibility_settings c \<and> \<not> ?is_set ''prefer_column_name_to_alias'' True)]"
  let ?added = "additions ?wants"
  have add: "uri_params (addQueryParameter n v w u) = uri_params u @ (if w then [(n, v)] else [])" for n v w u
    by (simp add: addQueryParameter_def)
  obtain u where u: "getUri env c = Inr u" "uri_params u = uri_params u0 @ ?added"
    using assms by (simp add: getUri_def add additions_def Let_def split del: if_split)
  have weak: "\<not> ?is_set n False \<Longrightarrow> \<not> ?is_set n True" for n by (auto simp: parameter_set_def)
  have "distinct (map fst ?added)" by (rule distinct_additions) simp
  moreover have "\<forall>p \<in> set ?added. \<not> ?is_set (fst p) True" using weak by (auto simp: in_additions)
  moreover have "\<forall>p \<in> {(''database'', database c), (''default_format'', default_format c)}. p \<in> set ?added \<or> ?is_set (fst p) False"
    by (simp add: in_additions)
  moreover have "(''session_id'', session_id c) \<in> set ?added \<longleftrightarrow> auto_session_id c \<and> \<not> ?is_set ''session_id'' True"
    by (simp add: in_additions)
  ultimately show ?thesis using u by blast
qed

theorem uri_keeps_parameters_witness:
  "\<exists>u added. getUri sample_env (new_Connection ''s2'') = Inr u \<and> uri_params u = uri_params sample_uri @ added
    \<and> distinct (map fst added) \<and> (\<forall>p \<in> set added. \<not> parameter_set sample_env (uri_params sample_uri) (fst p) True)
    \<and> (\<forall>p \<in> {(''database'', database (new_Connection ''s2'')), (''default_format'', default_format (new_Connection ''s2''))}.
        p \<in> set added \<or> parameter_set sample_env (uri_params sample_uri) (fst p) False)
    \<and> ((''session_id'', session_id (new_Connection ''s2'')) \<in> set added
        \<longleftrightarrow> auto_session_id (new_Connection ''s2'') \<and> \<not> parameter_set sample_env (uri_params sample_uri) ''session_id'' True)"
  by (rule uri_keeps_parameters) simp

theorem url_database_wins_witness:
  "database (set_remaining sample_env (set_from_url sample_env sample_uri
     ((resetConfiguration (new_Connection ''s''))\<lparr>database := ''mine'', url := ''u'', dsn := ''ClickHouse DSN''\<rparr>))) = ''shop''"
proof (rule url_database_wins)
  have "attribute_update sample_env ''Database'' ''mine'' = Some (True, \<lambda>c. c\<lparr>database := ''mine''\<rparr>)"
    "attribute_update sample_env ''Url'' ''u'' = Some (True, \<lambda>c. c\<lparr>url := ''u''\<rparr>)"
    by (simp_all add: attribute_update_def lowered_ascii_def)
  then show "setConfiguration sample_env [(''Database'', ''mine''), (''Url'', ''u'')] [] (resetConfiguration (new_Connection ''s''))
      = (Inr (), set_remaining sample_env (set_from_url sample_env sample_uri
          ((resetConfiguration (new_Connection ''s''))\<lparr>database := ''mine'', url := ''u'', dsn := ''ClickHouse DSN''\<rparr>)))"
    by (simp add: setConfiguration_def set_config_value_def resetConfiguration_def new_Connection_def sample_env_def)
next
  have "find_field lowered_ascii ''database'' (rev [(''database'', ''shop''), (''Session_ID'', ''s1'')]) = Some ''shop''"
    by (simp add: lowered_ascii_def find_field_def)
  then show "find_field (code_points sample_env) ''database'' (rev (uri_params sample_uri)) = Some ''shop''"
    by (simp add: sample_uri_def)
qed (simp_all add: set_remaining_url set_from_url_url lowered_ascii_def)

section \<open>Sessions\<close>

lemma set_fields_session: "session (snd (set_fields env origin unused es c)) = session c"
proof (induction es arbitrary: c)
  case (Cons f es)
  obtain key v where f: "f = (key, v)" by (cases f)
  obtain r valid c' where c': "set_config_value env key v c = (r, valid, c')" by (cases "set_config_value env key v c")
  then have "session c' = session c" using set_config_value_session [of env key v c] by simp
  then show ?case using Cons.IH f c' by simp
qed simp

lemma set_remaining_session: "session (set_remaining env c) = session c"
  by (simp add: set_remaining_def deduce_rest_def deduce_numbers_def deduce_names_def Let_def)

lemma set_from_url_session: "session (set_from_url env u c) = session c"
  by (simp add: set_from_url_def url_parameters_frame url_credentials_def url_port_def Let_def split: option.split prod.split)

lemma setConfiguration_session: "session (snd (setConfiguration env cs_fields dsn_fields c0)) = session c0"
proof -
  obtain r1 c1 where 1: "set_fields env ''DSN'' (\<lambda>key. find_field (code_points env) key cs_fields \<noteq> None) dsn_fields c0 = (r1, c1)"
    by fastforce
  obtain r2 c2 where 2: "set_fields env ''Connection string'' (\<lambda>_. False) cs_fields c1 = (r2, c2)" by fastforce
  have "session c1 = session c0" "session c2 = session c1" using set_fields_session 1 2 by (metis snd_conv)+
  then show ?thesis unfolding setConfiguration_def 1 2 Let_def prod.case
    by (simp add: set_remaining_session set_from_url_session split: sum.split)
qed

text \<open>C20: Connecting is all or nothing: a connection that is connected, to bad strings or attributes or to a server
  that cannot be verified is left as connected or not as it was, and can be tried again; success
  means that it was not connected before and is now.\<close>

theorem connect_all_or_nothing:
  "case connect env verifyConnection connection_string c of
     (Inl e, c') \<Rightarrow> session c' = session c
   | (Inr _, c') \<Rightarrow> session c' \<and> \<not> session c"
proof (cases "session c")
  case False
  have s: "setConfiguration env a b (resetConfiguration c) = (x, c1) \<Longrightarrow> \<not> session c1" for a b x c1
    using setConfiguration_session [of env a b "resetConfiguration c"] False by (simp add: resetConfiguration_def)
  show ?thesis
  proof (cases "readConnectionString (code_points env) connection_string")
    case cs: (Inr cs)
    show ?thesis
    proof (cases "dsn_fields_of env cs")
      case (Inr ds)
      obtain x c1 where sc: "setConfiguration env (erase_field (code_points env) ''Driver'' cs) ds (resetConfiguration c) = (x, c1)"
        by fastforce
      show ?thesis using False cs Inr sc s [OF sc]
        by (cases x; cases "verifyConnection (c1\<lparr>session := True\<rparr>)") (simp_all add: connect_def Let_def)
    qed (use False cs in \<open>simp add: connect_def\<close>)
  qed (use False in \<open>simp add: connect_def\<close>)
qed (simp add: connect_def)

text \<open>Resetting the configuration before a new connection leaves six attributes as the last connection set
  them, although all are meant to get their defaults: with an empty connection string and data
  source they are those of the connection before.\<close>

theorem flags_survive_reconnect:
  assumes "connect env verifyConnection [] c = (Inr (), c')" "readDSNInfo env [] = Inr []"
  shows "client_name c' = client_name c \<and> auto_session_id c' = auto_session_id c
    \<and> enable_http_compression c' = enable_http_compression c \<and> huge_int_as_string c' = huge_int_as_string c
    \<and> verify_connection_early c' = verify_connection_early c \<and> sql_compatibility_settings c' = sql_compatibility_settings c"
proof -
  let ?c1 = "set_remaining env ((resetConfiguration c)\<lparr>dsn := default_dsn env\<rparr>)"
  have rd: "readConnectionString (code_points env) [] = Inr []"
    by (simp add: readConnectionString_def read_fields.simps [of _ "[]"] skip_separators_is)
  have ds: "dsn_fields_of env [] = Inr []" using assms(2) by (simp add: dsn_fields_of_def find_field_def erase_field_def)
  have "url (resetConfiguration c) = []" "dsn (resetConfiguration c) = []" by (simp_all add: resetConfiguration_def)
  then have sc: "setConfiguration env [] [] (resetConfiguration c) = (Inr (), ?c1)" by (simp add: setConfiguration_def)
  have "\<not> session c" using assms(1) by (auto simp: connect_def)
  then have "c' = ?c1\<lparr>session := True\<rparr>"
    using assms(1) rd ds sc
    by (cases "verifyConnection (?c1\<lparr>session := True\<rparr>)") (simp_all add: connect_def find_field_def erase_field_def Let_def split: if_splits)
  then show ?thesis
    by (simp add: set_remaining_def deduce_rest_def deduce_numbers_def deduce_names_def resetConfiguration_def Let_def)
qed

definition sample_old :: connection where
  "sample_old = (new_Connection ''s'')\<lparr>client_name := ''app'', enable_http_compression := False\<rparr>"

definition sample_new :: connection where
  "sample_new = snd (connect sample_env (\<lambda>_. Inr ()) [] sample_old)"

theorem flags_survive_reconnect_witness:
  "client_name sample_new = client_name sample_old \<and> auto_session_id sample_new = auto_session_id sample_old
    \<and> enable_http_compression sample_new = enable_http_compression sample_old \<and> huge_int_as_string sample_new = huge_int_as_string sample_old
    \<and> verify_connection_early sample_new = verify_connection_early sample_old
    \<and> sql_compatibility_settings sample_new = sql_compatibility_settings sample_old"
proof (rule flags_survive_reconnect)
  have "fst (connect sample_env (\<lambda>_. Inr ()) [] sample_old) = Inr ()"
    by (simp add: connect_def readConnectionString_def read_fields.simps [of _ "[]"] skip_separators_is dsn_fields_of_def
        find_field_def erase_field_def setConfiguration_def Let_def new_Connection_def sample_old_def)
  then show "connect sample_env (\<lambda>_. Inr ()) [] sample_old = (Inr (), sample_new)"
    by (metis prod.collapse sample_new_def)
qed simp

end
