(* ===== verification/Catalog.thy ===== *)
theory Catalog
  imports Query_Request Get_Data "HOL-Library.List_Lexorder"
begin

text \<open>
  The catalog functions: the queries of \<open>SQLTables\<close>, \<open>SQLColumns\<close> and \<open>SQLGetTypeInfo\<close>
  in driver/api/odbc.cpp, the value lists and patterns of driver/utils/utils.h, and the rows
  \<open>SQLColumnsResultSetMutator\<close> of driver/api/sql_columns_resultset_mutator.cpp completes.
\<close>

section \<open>Arguments\<close>

definition trim_spaces :: "string \<Rightarrow> string" where
  "trim_spaces s = rev (dropWhile isspace (rev (dropWhile isspace s)))"

text \<open>\<open>std::set<std::string>\<close>: its values in order.\<close>

definition set_emplace :: "string \<Rightarrow> string list \<Rightarrow> string list" where
  "set_emplace v vs = (if v \<in> set vs then vs else insort_key (map cval) v vs)"

definition unquoted :: "string \<Rightarrow> string" where
  "unquoted s = (if 1 < length s \<and> hd s = ch_quote \<and> last s = ch_quote then butlast (tl s) else s)"

definition bad_value_list :: "string \<Rightarrow> exn" where
  "bad_value_list value_list = Runtime_Error (''Invalid syntax for catalog function value list argument: '' @ value_list)"

fun value_list_loop :: "string \<Rightarrow> string \<Rightarrow> nat \<Rightarrow> string list \<Rightarrow> string \<Rightarrow> string list result" where
  "value_list_loop value_list current quotes vs [] =
     (if current \<noteq> [] \<or> quotes \<noteq> 0 then Inl (bad_value_list value_list) else Inr vs)"
| "value_list_loop value_list current quotes vs (ch # chs) =
     (if ch = CHR '','' \<and> even quotes
      then value_list_loop value_list [] 0 (set_emplace (unquoted (trim_spaces current)) vs) chs
      else if ch = ch_quote then
        (if 2 \<le> quotes then Inl (bad_value_list value_list)
         else value_list_loop value_list (current @ [ch]) (quotes + 1) vs chs)
      else value_list_loop value_list (current @ [ch]) quotes vs chs)"

definition parseCatalogFnVLArgs :: "string \<Rightarrow> string list result" where
  "parseCatalogFnVLArgs value_list = value_list_loop value_list [] 0 [] (value_list @ '','')"

definition isMatchAnythingCatalogFnPatternArg :: "string \<Rightarrow> bool" where
  "isMatchAnythingCatalogFnPatternArg pattern \<longleftrightarrow> pattern \<noteq> [] \<and> set pattern \<subseteq> {CHR ''%''}"

text \<open>The arguments of a catalog function in UTF-8 (\<open>None\<close> is a null pointer), and what the connection says.\<close>

record catalog_env =
  connected_database :: string
  odbc_v2 :: bool
  metadata_id :: bool

abbreviation (input) or_all :: "string option \<Rightarrow> string" where
  "or_all arg \<equiv> (case arg of Some s \<Rightarrow> s | None \<Rightarrow> ''%'')"

definition catalog_of :: "catalog_env \<Rightarrow> string option \<Rightarrow> string" where
  "catalog_of env CatalogName = (case CatalogName of Some s \<Rightarrow> s | None \<Rightarrow> connected_database env)"

section \<open>SQLTables\<close>

abbreviation (input) cast_as :: "string \<Rightarrow> string \<Rightarrow> string" where
  "cast_as e nm \<equiv> '' CAST('' @ e @ '', '' @ quoted ''Nullable(String)'' @ '') AS '' @ nm"

text \<open>A condition on a column: by pattern, by value, or none.\<close>

definition pattern_condition :: "string \<Rightarrow> string \<Rightarrow> string" where
  "pattern_condition lhs v = (if isMatchAnythingCatalogFnPatternArg v then [] else '' AND '' @ lhs @ '' LIKE '' @ toSqlQueryValue v)"

definition value_condition :: "string \<Rightarrow> string option \<Rightarrow> string \<Rightarrow> string" where
  "value_condition lhs arg v = (if arg = None then [] else '' AND '' @ lhs @ '' == '' @ toSqlQueryValue v)"

definition column_condition :: "bool \<Rightarrow> string \<Rightarrow> string option \<Rightarrow> string \<Rightarrow> string" where
  "column_condition is_pattern lhs arg v = (if is_pattern then pattern_condition lhs v else value_condition lhs arg v)"

text \<open>The left-hand side of a condition on a column that may be null.\<close>

definition nullable_column :: "string \<Rightarrow> string" where
  "nullable_column col = ''isNotNull('' @ col @ '') AND coalesce('' @ col @ '', '' @ quoted [] @ '')''"

definition table_type_condition :: "string list \<Rightarrow> string" where
  "table_type_condition table_types =
     (if table_types = [] \<or> list_ex isMatchAnythingCatalogFnPatternArg table_types then []
      else '' AND isNotNull(TABLE_TYPE) AND (1 == 0''
        @ concat (map (\<lambda>t. '' OR coalesce(TABLE_TYPE, '' @ quoted [] @ '') LIKE '' @ toSqlQueryValue t) table_types) @ '')'')"

definition tables_select :: "string \<Rightarrow> string \<Rightarrow> string \<Rightarrow> string" where
  "tables_select cat nm ty = cast_as cat ''TABLE_CAT,'' @ cast_as ''NULL'' ''TABLE_SCHEM,'' @ cast_as nm ''TABLE_NAME,''
     @ cast_as ty ''TABLE_TYPE,'' @ cast_as ''NULL'' ''REMARKS''"

definition SQLTables_query :: "catalog_env \<Rightarrow> string option \<Rightarrow> string option \<Rightarrow> string option \<Rightarrow> string option \<Rightarrow> string result" where
  "SQLTables_query env CatalogName SchemaName TableName TableType =
     (let catalog = catalog_of env CatalogName; schema = or_all SchemaName; table = or_all TableName;
          table_type_list = or_all TableType in
      bind_result
        (if catalog = ''%'' \<and> schema = [] \<and> table = []
         then Inr (tables_select ''name'' ''NULL'' ''NULL'' @ '' FROM system.databases'')
         else if catalog = [] \<and> schema = ''%'' \<and> table = []
         then Inr (tables_select ''NULL'' ''NULL'' ''NULL'' @ '' WHERE (1 == 0)'')
         else if catalog = [] \<and> schema = [] \<and> table = [] \<and> table_type_list = ''%''
         then Inr (tables_select ''NULL'' ''NULL'' (quoted ''TABLE''))
         else
           bind_result (parseCatalogFnVLArgs table_type_list) (\<lambda>table_types.
           Inr (tables_select ''database'' ''name'' (quoted ''TABLE'') @ '' FROM system.tables'' @ '' WHERE (1 == 1)''
             @ column_condition (\<not> metadata_id env \<and> \<not> odbc_v2 env) (nullable_column ''TABLE_CAT'') CatalogName catalog
             @ column_condition (\<not> metadata_id env) (nullable_column ''TABLE_SCHEM'') SchemaName schema
             @ column_condition (\<not> metadata_id env) (nullable_column ''TABLE_NAME'') TableName table
             @ table_type_condition table_types))) (\<lambda>body.
      Inr (''SELECT'' @ body @ '' ORDER BY TABLE_TYPE, TABLE_CAT, TABLE_SCHEM, TABLE_NAME'')))"

section \<open>SQLColumns\<close>

abbreviation (input) column_as :: "string \<Rightarrow> string \<Rightarrow> string \<Rightarrow> string" where
  "column_as e ty nm \<equiv> ''cast('' @ e @ '', '' @ quoted ty @ '') AS '' @ nm"

definition columns_select :: string where
  "columns_select = ''SELECT '' @ column_as ''database'' ''Nullable(String)'' ''TABLE_CAT, ''
     @ column_as (quoted []) ''Nullable(String)'' ''TABLE_SCHEM, '' @ column_as ''table'' ''String'' ''TABLE_NAME, ''
     @ column_as ''name'' ''String'' ''COLUMN_NAME, '' @ column_as ''0'' ''Int16'' ''DATA_TYPE, '' @ column_as ''type'' ''String'' ''TYPE_NAME, ''
     @ column_as ''NULL'' ''Nullable(Int32)'' ''COLUMN_SIZE, '' @ column_as ''0'' ''Nullable(Int32)'' ''BUFFER_LENGTH, ''
     @ column_as ''NULL'' ''Nullable(Int16)'' ''DECIMAL_DIGITS, '' @ column_as ''NULL'' ''Nullable(Int16)'' ''NUM_PREC_RADIX, ''
     @ column_as ''0'' ''Int16'' ''NULLABLE, '' @ column_as ''NULL'' ''Nullable(String)'' ''REMARKS, ''
     @ column_as ''NULL'' ''Nullable(String)'' ''COLUMN_DEF, '' @ column_as ''0'' ''Int16'' ''SQL_DATA_TYPE, ''
     @ column_as ''NULL'' ''Nullable(Int16)'' ''SQL_DATETIME_SUB, '' @ column_as ''0'' ''Nullable(Int32)'' ''CHAR_OCTET_LENGTH, ''
     @ column_as ''position'' ''Int32'' ''ORDINAL_POSITION, '' @ column_as ''NULL'' ''Nullable(String)'' ''IS_NULLABLE ''
     @ ''FROM system.columns WHERE (1 == 1)''"

definition SQLColumns_query :: "catalog_env \<Rightarrow> string option \<Rightarrow> string option \<Rightarrow> string option \<Rightarrow> string option \<Rightarrow> string" where
  "SQLColumns_query env CatalogName SchemaName TableName ColumnName =
     (let is_pattern = \<not> metadata_id env in
      columns_select
        @ column_condition is_pattern (nullable_column ''TABLE_CAT'') CatalogName (catalog_of env CatalogName)
        @ column_condition is_pattern (nullable_column ''TABLE_SCHEM'') SchemaName (or_all SchemaName)
        @ column_condition is_pattern ''TABLE_NAME'' TableName (or_all TableName)
        @ column_condition is_pattern ''COLUMN_NAME'' ColumnName (or_all ColumnName)
        @ '' ORDER BY TABLE_CAT, TABLE_SCHEM, TABLE_NAME, ORDINAL_POSITION'')"

section \<open>SQLGetTypeInfo\<close>

definition unsigned_value :: "UnsignedAttribute \<Rightarrow> string" where
  "unsigned_value a = (case a of NotApplicable \<Rightarrow> ''NULL'' | Unsigned \<Rightarrow> show_int 1 | Signed \<Rightarrow> show_int 0)"

definition type_row :: "TypeInfo \<Rightarrow> string" where
  "type_row info = ''SELECT '' @ column_as (toSqlQueryValue (type_name info)) ''String'' ''TYPE_NAME, ''
     @ column_as (show_int (data_type info)) ''Int16'' ''DATA_TYPE, '' @ column_as (show_int (column_size info)) ''Nullable(Int32)'' ''COLUMN_SIZE, ''
     @ column_as (toSqlQueryValue_opt toSqlQueryValue (literal_wrapper info)) ''Nullable(String)'' ''LITERAL_PREFIX, ''
     @ column_as (toSqlQueryValue_opt toSqlQueryValue (literal_wrapper info)) ''Nullable(String)'' ''LITERAL_SUFFIX, ''
     @ column_as (toSqlQueryValue_opt toSqlQueryValue (create_params info)) ''Nullable(String)'' ''CREATE_PARAMS, ''
     @ column_as (show_int SQL_NULLABLE) ''Int16'' ''NULLABLE, '' @ column_as (show_int 1) ''Int16'' ''CASE_SENSITIVE, ''
     @ column_as (show_int 3) ''Int16'' ''SEARCHABLE, '' @ column_as (unsigned_value (unsigned_attribute info)) ''Nullable(Int16)'' ''UNSIGNED_ATTRIBUTE, ''
     @ column_as (show_int 0) ''Int16'' ''FIXED_PREC_SCALE, '' @ column_as ''NULL'' ''Nullable(Int16)'' ''AUTO_UNIQUE_VALUE, ''
     @ column_as ''NULL'' ''Nullable(String)'' ''LOCAL_TYPE_NAME, ''
     @ column_as (toSqlQueryValue_opt (\<lambda>n. show_int (int n)) (minimum_scale info)) ''Nullable(Int16)'' ''MINIMUM_SCALE, ''
     @ column_as (toSqlQueryValue_opt (\<lambda>n. show_int (int n)) (maximum_scale info)) ''Nullable(Int16)'' ''MAXIMUM_SCALE, ''
     @ column_as (show_int (sql_data_type info)) ''Int16'' ''SQL_DATA_TYPE, ''
     @ column_as (toSqlQueryValue_opt show_int (sql_datetime_sub info)) ''Nullable(Int16)'' ''SQL_DATETIME_SUB, ''
     @ column_as (toSqlQueryValue_opt show_int (num_prec_radix info)) ''Nullable(Int32)'' ''NUM_PREC_RADIX, ''
     @ column_as ''NULL'' ''Nullable(Int16)'' ''INTERVAL_PRECISION''"

text \<open>The types of the catalog and \<open>String\<close> once more, as a wide string.\<close>

definition listed_types :: "int \<Rightarrow> TypeInfo list" where
  "listed_types type = filter (\<lambda>info. (type = 0 \<or> type = data_type info) \<and> \<not> hidden info)
     (Types @ [(Types ! DataSourceTypeIdIndex String)\<lparr>data_type := SQL_WVARCHAR\<rparr>])"

definition SQLGetTypeInfo_query :: "int \<Rightarrow> string" where
  "SQLGetTypeInfo_query type =
     (case map type_row (listed_types type) of
        [] \<Rightarrow> ''SELECT 1 WHERE 0''
      | row # rows \<Rightarrow> ''SELECT * FROM ('' @ row @ concat (map (\<lambda>r. '' UNION ALL '' @ r) rows) @ '') ORDER BY DATA_TYPE'')"

section \<open>The rows of SQLColumns\<close>

fun put_fields :: "(nat \<times> field) list \<Rightarrow> row \<Rightarrow> unit result \<times> row" where
  "put_fields [] r = (Inr (), r)"
| "put_fields ((i, f) # fs) r = (if i < length r then put_fields fs (r[i := f]) else (Inl (Out_Of_Range ''vector::at''), r))"

definition completed_fields :: "ColumnInfo \<Rightarrow> TypeInfo \<Rightarrow> (nat \<times> field) list" where
  "completed_fields ci ti =
     (let small = (\<lambda>v. Int_field Int16 (as_int16 v)); medium = (\<lambda>v. Int_field Int32 (as_int32 v)) in
      [(4, small (data_type ti)), (5, String_field String (type_name ti)),
       (6, medium (if type_id ti = Decimal then int (col_precision ci) else if type_id ti = FixedString then int (fixed_size ci) else column_size ti))]
      @ (case num_prec_radix ti of Some n \<Rightarrow> [(9, small n)] | None \<Rightarrow> [])
      @ [(10, small (if col_is_nullable ci then 1 else 0))]
      @ (if type_id ti = Decimal then [(8, small (int (col_scale ci)))] else [])
      @ (if type_id ti = DateTime then [(8, small 0)] else [])
      @ (if type_id ti = DateTime64 then [(8, small (int (col_precision ci)))] else [])
      @ [(13, small (sql_data_type ti))]
      @ (case sql_datetime_sub ti of Some n \<Rightarrow> [(14, small n)] | None \<Rightarrow> [])
      @ [(15, medium (octet_length ti)), (17, String_field String (if col_is_nullable ci then ''YES'' else ''NO''))])"

definition transformRow :: "bool \<Rightarrow> string \<Rightarrow> row_mutator" where
  "transformRow huge tz cols r =
     (if length r \<le> 5 then (Inl (Out_Of_Range ''vector::at''), r)
      else
        (case r ! 5 of
           String_field t nm \<Rightarrow>
             (if t \<noteq> String then (Inl (Runtime_Error ''bad_variant_access''), r)
              else
                (case bind_result (parseColumnType tz nm) (\<lambda>ci.
                        bind_result (Connection_getTypeInfo huge (col_type ci) (type_without_parameters ci)) (\<lambda>ti. Inr (ci, ti))) of
                   Inl e \<Rightarrow> (Inl e, r)
                 | Inr (ci, ti) \<Rightarrow> put_fields (completed_fields ci ti) r))
         | _ \<Rightarrow> (Inl (Runtime_Error ''bad_variant_access''), r)))"

section \<open>Catalog queries carry no parameters\<close>

text \<open>
  The quote a text leaves open when it is read from one that \<open>q\<close> opened, \<open>None\<close> when
  the search for parameters would find one in it. A doubled quote closes and opens again, which
  comes to the same as the look-ahead of the code.
\<close>

fun open_quote :: "char \<Rightarrow> string \<Rightarrow> char option" where
  "open_quote q [] = Some q"
| "open_quote q (c # cs) =
     (if c = ch_bslash then (case cs of [] \<Rightarrow> None | d # ds \<Rightarrow> open_quote q ds)
      else if c = ch_dquote \<or> c = ch_quote then open_quote (if q = c then ch_nul else c) cs
      else if (c = CHR ''?'' \<or> c = CHR ''@'') \<and> q = ch_nul then None else open_quote q cs)"

declare open_quote.simps(2) [simp del] extract_loop.simps(2) [simp del]

lemma extract_loop_step:
  "c \<noteq> ch_bslash \<Longrightarrow> c \<noteq> ch_dquote \<Longrightarrow> c \<noteq> ch_quote \<Longrightarrow> \<not> ((c = CHR ''?'' \<or> c = CHR ''@'') \<and> q = ch_nul) \<Longrightarrow>
     extract_loop uuids n q left (c # rest) params = extract_loop uuids n q (left @ [c]) rest params"
  by (subst extract_loop.simps(2)) auto

lemma extract_loop_quote:
  assumes "c = ch_dquote \<or> c = ch_quote"
  shows "extract_loop uuids n q left (c # rest) params
    = extract_loop uuids n (if q = c then ch_nul else c) (left @ [c]) rest params"
proof -
  have c: "c \<noteq> ch_bslash" "c \<noteq> ch_nul" using assms by auto
  show ?thesis
  proof (cases rest)
    case Nil
    then show ?thesis using assms c(1) by (simp add: extract_loop.simps(2))
  next
    case (Cons d ds)
    show ?thesis
    proof (cases "q = c \<and> d = c")
      case True
      then show ?thesis
        using assms c Cons by (simp add: extract_loop.simps(2) [of uuids n c] extract_loop.simps(2) [of uuids n ch_nul])
    next
      case False
      then show ?thesis using assms c(1) Cons extract_loop.simps(2) [of uuids n q left c rest params] by auto
    qed
  qed
qed

lemma open_quote_cases:
  assumes "open_quote q (c # cs) = Some q'"
  obtains (escape) d ds where "c = ch_bslash" "cs = d # ds" "open_quote q ds = Some q'"
    | (quote) "c \<noteq> ch_bslash" "c = ch_dquote \<or> c = ch_quote" "open_quote (if q = c then ch_nul else c) cs = Some q'"
    | (other) "c \<noteq> ch_bslash" "c \<noteq> ch_dquote" "c \<noteq> ch_quote" "\<not> ((c = CHR ''?'' \<or> c = CHR ''@'') \<and> q = ch_nul)"
        "open_quote q cs = Some q'"
proof (cases "c = ch_bslash")
  case True
  then show ?thesis using assms escape by (auto simp: open_quote.simps(2) split: list.splits)
next
  case False
  show ?thesis
  proof (cases "c = ch_dquote \<or> c = ch_quote")
    case True
    then show ?thesis using assms False quote by (simp add: open_quote.simps(2))
  next
    case no: False
    then show ?thesis using assms False other by (simp add: open_quote.simps(2) split: if_splits)
  qed
qed

lemma extract_loop_open_quote:
  "open_quote q t = Some q' \<Longrightarrow>
     extract_loop uuids n q left (t @ rest) params = extract_loop uuids n q' (left @ t) rest params"
proof (induction "length t" arbitrary: q t left rule: less_induct)
  case less
  show ?case
  proof (cases t)
    case (Cons c cs)
    from less.prems [unfolded Cons] show ?thesis
    proof (cases rule: open_quote_cases)
      case (escape d ds)
      then show ?thesis using less.hyps [of ds q "left @ [c, d]"] Cons by (simp add: extract_loop.simps(2))
    next
      case quote
      then show ?thesis using less.hyps [of cs _ "left @ [c]"] Cons extract_loop_quote [OF quote(2)] by simp
    next
      case other
      then show ?thesis
        using less.hyps [of cs q "left @ [c]"] Cons extract_loop_step [OF other(1-4)] by simp
    qed
  qed (use less.prems in simp)
qed

lemma open_quote_append: "open_quote q a = Some q' \<Longrightarrow> open_quote q (a @ b) = open_quote q' b"
proof (induction "length a" arbitrary: q a rule: less_induct)
  case less
  show ?case
  proof (cases a)
    case (Cons c cs)
    from less.prems [unfolded Cons] show ?thesis
    proof (cases rule: open_quote_cases)
      case (escape d ds)
      then show ?thesis using less.hyps [of ds q] Cons by (simp add: open_quote.simps(2))
    next
      case quote
      then show ?thesis using less.hyps [of cs] Cons by (simp add: open_quote.simps(2))
    next
      case other
      then show ?thesis using less.hyps [of cs q] Cons by (subst Cons, simp add: open_quote.simps(2)) blast
    qed
  qed (use less.prems in simp)
qed

definition inert :: "string \<Rightarrow> bool" where
  "inert t \<longleftrightarrow> open_quote ch_nul t = Some ch_nul \<and> brace_free t"

text \<open>Arguments with no double quote and no brace.\<close>

definition plain_argument :: "string \<Rightarrow> bool" where
  "plain_argument s \<longleftrightarrow> ch_dquote \<notin> set s \<and> brace_free s"

lemma inert_append [simp]: "inert a \<Longrightarrow> inert (a @ b) \<longleftrightarrow> inert b"
  by (auto simp: inert_def open_quote_append)

lemma inert_Nil [simp]: "inert []"
  by (simp add: inert_def brace_free_def)

lemma open_quote_escaped:
  "ch_dquote \<notin> set x \<Longrightarrow> open_quote ch_quote (escapeForSQL x @ [ch_quote]) = Some ch_nul"
  by (induction x) (auto simp: open_quote.simps(2))

lemma brace_free_escaped: "brace_free x \<Longrightarrow> brace_free (escapeForSQL x)"
  by (induction x) (auto simp: brace_free_def)

lemma inert_value [simp]: "plain_argument x \<Longrightarrow> inert (toSqlQueryValue x)"
  using open_quote_escaped [of x] brace_free_escaped [of x]
  by (auto simp: inert_def plain_argument_def toSqlQueryValue_def brace_free_def open_quote.simps(2))

lemma inert_concat: "list_all inert ts \<Longrightarrow> inert (concat ts)"
  by (induction ts) simp_all

lemma inert_not_prepared:
  assumes "inert q"
  shows "extract_params uuids q = Some (Inr (q, []))" "replaceEscapeSequences n q = Some q"
  using assms extract_loop_open_quote [of ch_nul q ch_nul uuids 0 "[]" "[]" "[]"]
    replace_loop_plain [of q n "[]" "[]" 0 "[]"]
  by (simp_all add: inert_def extract_params_def replaceEscapeSequences_def brace_free_def)

lemma inert_condition [simp]:
  assumes "inert lhs" "arg \<noteq> None \<Longrightarrow> plain_argument v" "p \<Longrightarrow> plain_argument v"
  shows "inert (column_condition p lhs arg v)"
proof -
  have "inert '' AND ''" "inert '' LIKE ''" "inert '' == ''" by code_simp+
  then show ?thesis using assms by (auto simp: column_condition_def pattern_condition_def value_condition_def simp del: append_Cons)
qed

lemma inert_columns [simp]:
  "inert (nullable_column ''TABLE_CAT'')" "inert (nullable_column ''TABLE_SCHEM'')" "inert (nullable_column ''TABLE_NAME'')"
  "inert ''TABLE_NAME''" "inert ''COLUMN_NAME''"
  by code_simp+

lemma inert_columns_select: "inert columns_select"
  by code_simp

lemma inert_tables_select:
  "inert (tables_select ''name'' ''NULL'' ''NULL'')" "inert (tables_select ''NULL'' ''NULL'' ''NULL'')"
  "inert (tables_select ''NULL'' ''NULL'' (quoted ''TABLE''))" "inert (tables_select ''database'' ''name'' (quoted ''TABLE''))"
  by code_simp+

lemma plain_argument_simps [simp]: "plain_argument ''%''" "plain_argument []"
  by code_simp+

lemma inert_SQLColumns:
  assumes "plain_argument (connected_database env)" "pred_option plain_argument CatalogName"
    and "pred_option plain_argument SchemaName" "pred_option plain_argument TableName" "pred_option plain_argument ColumnName"
  shows "inert (SQLColumns_query env CatalogName SchemaName TableName ColumnName)"
proof -
  have "inert '' ORDER BY TABLE_CAT, TABLE_SCHEM, TABLE_NAME, ORDINAL_POSITION''" by code_simp
  moreover have "plain_argument (catalog_of env CatalogName)" "plain_argument (or_all SchemaName)"
    "plain_argument (or_all TableName)" "plain_argument (or_all ColumnName)"
    using assms by (auto simp: catalog_of_def option.pred_set split: option.split)
  ultimately show ?thesis by (simp add: SQLColumns_query_def Let_def inert_columns_select del: append_Cons)
qed

lemma value_list_chars:
  assumes "value_list_loop value_list current quotes vs cs = Inr vs'" "plain_argument current" "list_all plain_argument vs"
    and "plain_argument cs"
  shows "list_all plain_argument vs'"
  using assms
proof (induction value_list current quotes vs cs rule: value_list_loop.induct)
  case (1 value_list current quotes vs)
  then show ?case by (auto split: if_splits)
next
  case (2 value_list current quotes vs ch chs)
  have tl: "x \<in> set (butlast (tl xs)) \<Longrightarrow> x \<in> set xs" for x :: char and xs
    by (cases xs) (auto dest: in_set_butlastD)
  have trim: "plain_argument (unquoted (trim_spaces s))" if "plain_argument s" for s
  proof -
    have "set (unquoted (trim_spaces s)) \<subseteq> set s"
      unfolding unquoted_def trim_spaces_def
      by (auto dest!: tl set_dropWhileD split: if_splits)
    then show ?thesis using that by (auto simp: plain_argument_def brace_free_def)
  qed
  have ok: "plain_argument chs" "plain_argument (current @ [ch])"
    using "2.prems"(2,4) by (auto simp: plain_argument_def brace_free_def)
  have vs: "list_all plain_argument (set_emplace (unquoted (trim_spaces current)) vs)"
    using "2.prems"(3) trim [OF "2.prems"(2)] by (simp add: set_emplace_def list_all_iff set_insort_key)
  show ?case
    using "2.prems"(1,3) "2.IH" ok vs by (simp split: if_splits)
qed

lemma inert_type_condition:
  assumes "list_all plain_argument ts"
  shows "inert (table_type_condition ts)"
proof -
  have "inert '' AND isNotNull(TABLE_TYPE) AND (1 == 0''" "inert ('' OR coalesce(TABLE_TYPE, '' @ quoted [] @ '') LIKE '')" "inert '')''"
    by code_simp+
  moreover from this(2) have "list_all inert (map (\<lambda>t. '' OR coalesce(TABLE_TYPE, '' @ quoted [] @ '') LIKE '' @ toSqlQueryValue t) ts)"
    using assms by (simp add: list_all_iff del: append_Cons append_assoc flip: append_assoc)
  ultimately show ?thesis by (simp add: table_type_condition_def inert_concat del: append_Cons)
qed

lemma inert_SQLTables:
  assumes "SQLTables_query env CatalogName SchemaName TableName TableType = Inr q"
    and "plain_argument (connected_database env)" "pred_option plain_argument CatalogName"
    and "pred_option plain_argument SchemaName" "pred_option plain_argument TableName" "pred_option plain_argument TableType"
  shows "inert q"
proof -
  have texts: "inert ''SELECT''" "inert '' ORDER BY TABLE_TYPE, TABLE_CAT, TABLE_SCHEM, TABLE_NAME''" "inert '' FROM system.databases''"
    "inert '' WHERE (1 == 0)''" "inert '' FROM system.tables''" "inert '' WHERE (1 == 1)''"
    by code_simp+
  have args: "plain_argument (catalog_of env CatalogName)" "plain_argument (or_all SchemaName)"
    "plain_argument (or_all TableName)" "plain_argument (or_all TableType)"
    using assms by (auto simp: catalog_of_def option.pred_set split: option.split)
  have "list_all plain_argument ts" if "parseCatalogFnVLArgs (or_all TableType) = Inr ts" for ts
    using that value_list_chars [of "or_all TableType" "[]" 0 "[]" "or_all TableType @ '',''" ts] args(4)
    by (auto simp: parseCatalogFnVLArgs_def plain_argument_def brace_free_def)
  then show ?thesis
    using assms(1) args texts inert_tables_select inert_type_condition
    by (auto simp: SQLTables_query_def Let_def simp del: append_Cons split: if_splits)
qed

lemma inert_chars:
  assumes "list_all (\<lambda>c. isdigit c \<or> c = CHR ''-'') s"
  shows "inert s"
proof -
  have c: "\<not> isdigit c \<and> c \<noteq> CHR ''-''"
    if "c \<in> {ch_bslash, ch_dquote, ch_quote, CHR ''?'', CHR ''@'', CHR ''{'', CHR ''}''}" for c
    using that by (auto simp: isdigit_def)
  have "open_quote ch_nul s = Some ch_nul"
    using assms c by (induction s) (auto simp: open_quote.simps(2))
  then show ?thesis using assms c by (auto simp: inert_def brace_free_def list_all_iff)
qed

lemma inert_show_int [simp]: "inert (show_int i)"
  using show_nat_digits by (intro inert_chars) (auto simp: show_int_def list_all_iff)

text \<open>The texts of an entry of the catalog.\<close>

definition plain_type :: "TypeInfo \<Rightarrow> bool" where
  "plain_type ti \<longleftrightarrow> plain_argument (type_name ti) \<and> (case literal_wrapper ti of None \<Rightarrow> True | Some s \<Rightarrow> plain_argument s)
     \<and> (case create_params ti of None \<Rightarrow> True | Some s \<Rightarrow> plain_argument s)"

lemma plain_Types: "list_all plain_type (listed_types type)"
proof -
  have "list_all plain_type (Types @ [(Types ! DataSourceTypeIdIndex String)\<lparr>data_type := SQL_WVARCHAR\<rparr>])" by code_simp
  then show ?thesis by (auto simp: listed_types_def list_all_iff)
qed

lemma inert_opt:
  assumes "pred_option (\<lambda>v. inert (f v)) x"
  shows "inert (toSqlQueryValue_opt f x)"
proof -
  have "inert ''NULL''" by code_simp
  then show ?thesis using assms by (cases x) (simp_all add: toSqlQueryValue_opt_def)
qed

lemma inert_type_row:
  assumes "plain_type ti"
  shows "inert (type_row ti)"
proof -
  have "inert '', ''" "inert ''SELECT ''" "inert ''cast(''" "inert '') AS ''" "inert (quoted ''String'')" "inert (quoted ''Int16'')"
    "inert (quoted ''Nullable(Int16)'')" "inert (quoted ''Nullable(Int32)'')" "inert (quoted ''Nullable(String)'')" "inert ''NULL''"
    "list_all inert [''TYPE_NAME, '', ''DATA_TYPE, '', ''COLUMN_SIZE, '', ''LITERAL_PREFIX, '', ''LITERAL_SUFFIX, '', ''CREATE_PARAMS, '',
       ''NULLABLE, '', ''CASE_SENSITIVE, '', ''SEARCHABLE, '', ''UNSIGNED_ATTRIBUTE, '', ''FIXED_PREC_SCALE, '', ''AUTO_UNIQUE_VALUE, '',
       ''LOCAL_TYPE_NAME, '', ''MINIMUM_SCALE, '', ''MAXIMUM_SCALE, '', ''SQL_DATA_TYPE, '', ''SQL_DATETIME_SUB, '', ''NUM_PREC_RADIX, '',
       ''INTERVAL_PRECISION'']"
    by code_simp+
  moreover have "inert (toSqlQueryValue_opt toSqlQueryValue (literal_wrapper ti))" "inert (toSqlQueryValue_opt toSqlQueryValue (create_params ti))"
    "inert (toSqlQueryValue_opt (\<lambda>n. show_int (int n)) (minimum_scale ti))" "inert (toSqlQueryValue_opt (\<lambda>n. show_int (int n)) (maximum_scale ti))"
    "inert (toSqlQueryValue_opt show_int (sql_datetime_sub ti))" "inert (toSqlQueryValue_opt show_int (num_prec_radix ti))"
    using assms by (auto intro!: inert_opt simp: plain_type_def option.pred_set split: option.splits)
  moreover have "inert (unsigned_value (unsigned_attribute ti))"
    using calculation(10) by (simp add: unsigned_value_def split: UnsignedAttribute.split)
  ultimately show ?thesis using assms
    unfolding type_row_def by (simp add: plain_type_def del: append_Cons)
qed

lemma inert_SQLGetTypeInfo: "inert (SQLGetTypeInfo_query type)"
proof -
  have texts: "inert ''SELECT 1 WHERE 0''" "inert ''SELECT * FROM (''" "inert '' UNION ALL ''" "inert '') ORDER BY DATA_TYPE''"
    by code_simp+
  have rows: "list_all inert (map type_row (listed_types type))"
    using plain_Types inert_type_row by (simp add: list_all_iff)
  have "inert (concat (map (\<lambda>r. '' UNION ALL '' @ r) rs))" if "list_all inert rs" for rs
    using that texts(3) by (intro inert_concat) (simp add: list_all_iff del: append_Cons)
  then show ?thesis using rows texts
    by (cases "map type_row (listed_types type)") (simp_all add: SQLGetTypeInfo_query_def del: append_Cons)
qed

text \<open>C12: The queries of the catalog functions reach the server as they are: whatever the catalog, the
  schema, the table, the column or the types asked for, as long as they have no double quote and no
  brace, the driver finds no parameter marker and no escape sequence in the query it wrote, and the
  parameters bound for other queries are not sent with it.\<close>

theorem catalog_queries_sent_verbatim:
  assumes "SQLTables_query env a b c d = Inr q \<or> q = SQLColumns_query env a b c d \<or> q = SQLGetTypeInfo_query type"
    and "plain_argument (connected_database env)" "\<forall>s \<in> {a, b, c, d}. pred_option plain_argument s"
    and "extractParametersinfo uuids \<lparr>query = q, parameters = ps, descs = ds\<rparr> = Some (Inr st)"
    and "getParamsBindingInfo mem (descs st) idx = Inr bs"
  shows "prepareHttpRequest n read mem noscan st idx = Some (Inr (q, Map.empty))"
proof -
  have "inert q" using assms(1-3) inert_SQLTables inert_SQLColumns inert_SQLGetTypeInfo by auto
  note not_prepared = inert_not_prepared [OF this]
  have "query st = q" "parameters st = []"
    using assms(4) not_prepared(1) by (auto simp: extractParametersinfo_def Let_def split: sum.splits if_splits)
  then show ?thesis using assms(5) not_prepared(2) by (simp add: prepareHttpRequest_def buildFinalQuery_def)
qed

definition fresh_prepared :: "string \<Rightarrow> prepared" where
  "fresh_prepared q = \<lparr>query = q, parameters = [], descs = \<lparr>apd_desc = new_Descriptor, ipd_desc = new_Descriptor\<rparr>\<rparr>"

definition default_env :: catalog_env where
  "default_env = \<lparr>connected_database = ''default'', odbc_v2 = False, metadata_id = False\<rparr>"

theorem catalog_queries_sent_verbatim_witness:
  "\<exists>st. extractParametersinfo show_nat
       (fresh_prepared (SQLColumns_query default_env None None (Some (''o'' @ [ch_quote] @ ''?'')) (Some ''@x''))) = Some (Inr st)
     \<and> prepareHttpRequest 9 (\<lambda>b. Inr []) (\<lambda>a. 0) False st 0
       = Some (Inr (SQLColumns_query default_env None None (Some (''o'' @ [ch_quote] @ ''?'')) (Some ''@x''), Map.empty))"
proof -
  define q where "q = SQLColumns_query default_env None None (Some (''o'' @ [ch_quote] @ ''?'')) (Some ''@x'')"
  have "plain_argument (connected_database default_env)" "plain_argument (''o'' @ [ch_quote] @ ''?'')" "plain_argument ''@x''"
    by code_simp+
  then have plain: "plain_argument (connected_database default_env)"
    "\<forall>s \<in> {None, None, Some (''o'' @ [ch_quote] @ ''?''), Some ''@x''}. pred_option plain_argument s"
    by simp_all
  then have "inert q" unfolding q_def by (intro inert_SQLColumns) auto
  note ex = inert_not_prepared(1) [OF this, of show_nat]
  have d: "descs (fresh_prepared q) = \<lparr>apd_desc = new_Descriptor, ipd_desc = new_Descriptor\<rparr>" "query (fresh_prepared q) = q"
    by (simp_all add: fresh_prepared_def)
  obtain st where st: "extractParametersinfo show_nat (fresh_prepared q) = Some (Inr st)"
    "apd_desc (descs st) = new_Descriptor"
    using ex by (simp add: extractParametersinfo_def d getRecordCount_def new_Descriptor_def getAttrAs_def)
  have bound: "getParamsBindingInfo (\<lambda>a. 0) (descs st) 0 = Inr []"
    using st ex by (auto simp: extractParametersinfo_def d getParamsBindingInfo_def getRecordCount_def new_Descriptor_def getAttrAs_def
        set_desc_attr_def)
  have "prepareHttpRequest 9 (\<lambda>b. Inr []) (\<lambda>a. 0) False st 0 = Some (Inr (q, Map.empty))"
    by (rule catalog_queries_sent_verbatim [OF _ plain st(1) [unfolded fresh_prepared_def] bound])
      (rule disjI2, rule disjI1, rule q_def)
  then show ?thesis using st(1) by (auto simp: q_def)
qed

text \<open>A double quote in one argument hides its closing apostrophe from the search for parameters, and a
  question mark in the next argument is then taken for a parameter marker: the query is not sent as
  it is, or not at all.\<close>

theorem catalog_argument_is_a_marker:
  "extract_params uuids (SQLColumns_query default_env None None (Some (''a'' @ [ch_dquote])) (Some ''b?'')) \<noteq> Some (Inr (q', []))"
proof
  define pre where "pre = columns_select @ pattern_condition (nullable_column ''TABLE_CAT'') ''default''
    @ pattern_condition ''TABLE_NAME'' (''a'' @ [ch_dquote]) @ '' AND COLUMN_NAME LIKE '' @ [ch_quote] @ ''b''"
  define post where "post = [ch_quote] @ '' ORDER BY TABLE_CAT, TABLE_SCHEM, TABLE_NAME, ORDINAL_POSITION''"
  have q: "SQLColumns_query default_env None None (Some (''a'' @ [ch_dquote])) (Some ''b?'') = pre @ CHR ''?'' # post"
    by (simp add: SQLColumns_query_def default_env_def catalog_of_def column_condition_def pattern_condition_def
        pre_def post_def toSqlQueryValue_def isMatchAnythingCatalogFnPatternArg_def)
  have "open_quote ch_nul pre = Some ch_nul" unfolding pre_def by code_simp
  note step = extract_loop_open_quote [OF this, of uuids 0 "[]" "CHR ''?'' # post" "[]"]
  assume "extract_params uuids (SQLColumns_query default_env None None (Some (''a'' @ [ch_dquote])) (Some ''b?'')) = Some (Inr (q', []))"
  then have "extract_loop uuids 0 ch_nul [] (pre @ CHR ''?'' # post) [] = Some (Inr (q', []))"
    by (simp only: q extract_params_def)
  then obtain p n' where "extract_loop uuids n' ch_nul (pre @ p) post [\<lparr>info_name = '''', tmp_placeholder = p\<rparr>] = Some (Inr (q', []))"
    using step by (auto simp: extract_loop.simps(2) [of uuids 0 ch_nul pre] split: option.splits prod.splits)
  from extract_loop_splits [OF this, of "[]"] show False by auto
qed

section \<open>The completed rows\<close>

lemma assignTypeInfo_col_type: "assignTypeInfo tz ast col = Inr col' \<Longrightarrow> col_type col' = col_type col"
proof (induction tz ast col rule: assignTypeInfo.induct)
  case (1 tz m n s es col)
  then show ?case
    by (auto simp: assign_terminal_def syntax_error_def split: if_splits list.splits DataSourceTypeId.splits)
qed

lemma parsed_column_type:
  assumes "parseColumnType tz nm = Inr ci"
  shows "col_type ci = []" "\<exists>ti. typeInfoIfExistsFor (type_without_parameters ci) = Some ti \<and> type_name ti = type_without_parameters ci"
proof -
  have S: "typeInfoIfExistsFor ''String'' \<noteq> None" by code_simp
  show "col_type ci = []"
    using assms assignTypeInfo_col_type [of tz _ fresh_ColumnInfo]
    by (auto simp: parseColumnType_def fresh_ColumnInfo_def split: prod.splits parse_end.splits bool.splits if_splits)
  show "\<exists>ti. typeInfoIfExistsFor (type_without_parameters ci) = Some ti \<and> type_name ti = type_without_parameters ci"
  proof (cases "convertUnparametrizedTypeNameToTypeId (type_without_parameters ci) = Unknown")
    case True
    then show ?thesis
      using assms S by (auto simp: parseColumnType_def fresh_ColumnInfo_def convertUnparametrizedTypeNameToTypeId_def
          split: prod.splits parse_end.splits bool.splits if_splits option.splits dest: typeInfoIfExistsFor_Some)
  next
    case False
    then show ?thesis
      by (auto simp: convertUnparametrizedTypeNameToTypeId_def split: option.splits dest: typeInfoIfExistsFor_Some)
  qed
qed

lemma column_type_info:
  assumes "parseColumnType tz nm = Inr ci"
  shows "\<exists>ti. Connection_getTypeInfo huge (col_type ci) (type_without_parameters ci) = Inr ti
    \<and> typeInfoIfExistsFor (if huge \<and> type_without_parameters ci = ''UInt64'' then ''String'' else type_without_parameters ci) = Some ti"
proof -
  have S: "typeInfoIfExistsFor ''String'' = Some (Types ! DataSourceTypeIdIndex String)"
    "typeInfoIfExistsFor [] = None" by code_simp+
  have U: "convertUnparametrizedTypeNameToTypeId b = UInt64 \<longleftrightarrow> b = ''UInt64''" for b
    using type_name_id_bijection [of b UInt64] type_name_id_bijection [of "''UInt64''" UInt64]
    by (auto simp: convertTypeIdToUnparametrizedCanonicalTypeName_def catalog_simps)
  show ?thesis
    using parsed_column_type [OF assms] S by (auto simp: Connection_getTypeInfo_def Environment_getTypeInfo_def U)
qed

lemma put_fields_result:
  "\<forall>(i, f) \<in> set fs. i < length r \<Longrightarrow>
     \<exists>r'. put_fields fs r = (Inr (), r') \<and> length r' = length r
       \<and> (\<forall>i < length r. r' ! i = (case map_of (rev fs) i of None \<Rightarrow> r ! i | Some f \<Rightarrow> f))"
proof (induction fs r rule: put_fields.induct)
  case (2 i f fs r)
  then obtain r' where r': "put_fields fs (r[i := f]) = (Inr (), r')" "length r' = length r"
    "\<forall>k < length r. r' ! k = (case map_of (rev fs) k of None \<Rightarrow> r[i := f] ! k | Some f \<Rightarrow> f)" by auto
  then show ?case
    using "2.prems" by (auto simp: map_add_def nth_list_update split: option.splits)
qed simp

lemma completed_fields_at:
  "map_of (rev (completed_fields ci ti)) 4 = Some (Int_field Int16 (as_int16 (data_type ti)))"
  "map_of (rev (completed_fields ci ti)) 5 = Some (String_field String (type_name ti))"
  "map_of (rev (completed_fields ci ti)) 13 = Some (Int_field Int16 (as_int16 (sql_data_type ti)))"
  "map_of (rev (completed_fields ci ti)) 15 = Some (Int_field Int32 (as_int32 (octet_length ti)))"
  "map_of (rev (completed_fields ci ti)) 10 = Some (Int_field Int16 (as_int16 (if col_is_nullable ci then 1 else 0)))"
  "map_of (rev (completed_fields ci ti)) 17 = Some (String_field String (if col_is_nullable ci then ''YES'' else ''NO''))"
  "i \<in> {0, 1, 2, 3, 7, 11, 12, 16} \<Longrightarrow> map_of (rev (completed_fields ci ti)) i = None"
  "\<forall>(i, f) \<in> set (completed_fields ci ti). i < 18"
  by (auto simp: completed_fields_def Let_def map_add_def split: option.splits)

text \<open>A row of \<open>SQLColumns\<close> whose type name parses is completed from the catalog entry of that type: its
  data type, type name, nullability and length are those of one entry, the two fields that say whether
  the column may be null agree, and the fields the server filled stay as they are.\<close>

theorem columns_row_completed:
  assumes "length r = 18" "r ! 5 = String_field String nm" "parseColumnType tz nm = Inr ci"
  shows "\<exists>ti r'. transformRow huge tz cols r = (Inr (), r') \<and> length r' = 18
    \<and> typeInfoIfExistsFor (if huge \<and> type_without_parameters ci = ''UInt64'' then ''String'' else type_without_parameters ci) = Some ti
    \<and> r' ! 4 = Int_field Int16 (as_int16 (data_type ti)) \<and> r' ! 5 = String_field String (type_name ti)
    \<and> r' ! 13 = Int_field Int16 (as_int16 (sql_data_type ti)) \<and> r' ! 15 = Int_field Int32 (as_int32 (octet_length ti))
    \<and> r' ! 10 = Int_field Int16 (if col_is_nullable ci then 1 else 0)
    \<and> r' ! 17 = String_field String (if col_is_nullable ci then ''YES'' else ''NO'')
    \<and> (\<forall>i \<in> {0, 1, 2, 3, 7, 11, 12, 16}. r' ! i = r ! i)"
proof -
  let ?bare = "if huge \<and> type_without_parameters ci = ''UInt64'' then ''String'' else type_without_parameters ci"
  obtain ti where ti: "Connection_getTypeInfo huge (col_type ci) (type_without_parameters ci) = Inr ti" "typeInfoIfExistsFor ?bare = Some ti"
    using column_type_info [OF assms(3)] by blast
  have "\<forall>(i, f) \<in> set (completed_fields ci ti). i < length r" using completed_fields_at(8) assms(1) by simp
  from put_fields_result [OF this] obtain r' where r': "put_fields (completed_fields ci ti) r = (Inr (), r')" "length r' = 18"
    "\<forall>i < 18. r' ! i = (case map_of (rev (completed_fields ci ti)) i of None \<Rightarrow> r ! i | Some f \<Rightarrow> f)"
    using assms(1) by auto
  have "transformRow huge tz cols r = (Inr (), r')"
    using assms ti(1) r'(1) by (simp add: transformRow_def)
  moreover have "r' ! i = r ! i" if "i \<in> {0, 1, 2, 3, 7, 11, 12, 16}" for i
    using r'(3) completed_fields_at(7) [OF that] that by auto
  ultimately show ?thesis
    using ti(2) r'(2,3) completed_fields_at(1-6) [of ci ti] by (auto simp: as_int16_def)
qed

definition date_column :: ColumnInfo where
  "date_column = fresh_ColumnInfo\<lparr>type_without_parameters := ''Date'', col_is_nullable := True\<rparr>"

definition date_row :: row where
  "date_row = (replicate 18 (String_field String []))[5 := String_field String ''Nullable(Date)'']"

theorem columns_row_completed_witness:
  "\<exists>ti r'. transformRow False ''UTC'' [] date_row = (Inr (), r') \<and> length r' = 18
    \<and> typeInfoIfExistsFor (if False \<and> type_without_parameters date_column = ''UInt64'' then ''String'' else type_without_parameters date_column) = Some ti
    \<and> r' ! 4 = Int_field Int16 (as_int16 (data_type ti)) \<and> r' ! 5 = String_field String (type_name ti)
    \<and> r' ! 13 = Int_field Int16 (as_int16 (sql_data_type ti)) \<and> r' ! 15 = Int_field Int32 (as_int32 (octet_length ti))
    \<and> r' ! 10 = Int_field Int16 (if col_is_nullable date_column then 1 else 0)
    \<and> r' ! 17 = String_field String (if col_is_nullable date_column then ''YES'' else ''NO'')
    \<and> (\<forall>i \<in> {0, 1, 2, 3, 7, 11, 12, 16}. r' ! i = date_row ! i)"
proof (rule columns_row_completed)
  show "parseColumnType ''UTC'' ''Nullable(Date)'' = Inr date_column"
  proof -
    have "parse ''Nullable(Date)'' fresh_ast = (Returns True, TypeAst Nullable ''Nullable'' 0 [TypeAst Terminal ''Date'' 0 []])"
      by (simp add: parser_eval)
    moreover have "convertUnparametrizedTypeNameToTypeId ''Date'' = Date" by code_simp
    ultimately show ?thesis
      by (simp add: parseColumnType_def date_column_def fresh_ColumnInfo_def assign_terminal_def)
  qed
qed (simp_all add: date_row_def)

end
