(* ===== verification/Driver_Call.thy ===== *)
theory Driver_Call
  imports Diagnostics
begin

text \<open>
  The driver as its callers see it: the table of handles and the objects behind them
  (\<open>driver/driver.cpp\<close>, \<open>driver/object.h\<close>, \<open>driver/environment.cpp\<close>, \<open>driver/connection.cpp\<close>,
  \<open>driver/statement.cpp\<close>), the wrapper around every call that turns exceptions into return codes and
  diagnostics (\<open>Driver::call\<close> of \<open>driver/driver.h\<close>), and the functions that allocate and free handles
  (\<open>driver/api/impl/impl.cpp\<close>, \<open>driver/api/odbc.cpp\<close>). A handle is the address of its object; the addresses of
  new objects are arguments. The branch of \<open>Driver::call\<close> for unsafe dispatch is never taken: it asks whether
  a lambda whose parameter is a non-const reference accepts a temporary.
\<close>

section \<open>Objects\<close>

abbreviation (input) SQL_HANDLE_ENV :: int where "SQL_HANDLE_ENV \<equiv> 1"
abbreviation (input) SQL_HANDLE_DBC :: int where "SQL_HANDLE_DBC \<equiv> 2"
abbreviation (input) SQL_HANDLE_STMT :: int where "SQL_HANDLE_STMT \<equiv> 3"
abbreviation (input) SQL_HANDLE_DESC :: int where "SQL_HANDLE_DESC \<equiv> 4"
abbreviation (input) SQL_INVALID_HANDLE :: int where "SQL_INVALID_HANDLE \<equiv> - 2"

datatype object_kind = Environment | Connection | Statement | Descriptor

definition getObjectHandleType :: "object_kind \<Rightarrow> int" where
  "getObjectHandleType k =
     (case k of Environment \<Rightarrow> SQL_HANDLE_ENV | Connection \<Rightarrow> SQL_HANDLE_DBC
      | Statement \<Rightarrow> SQL_HANDLE_STMT | Descriptor \<Rightarrow> SQL_HANDLE_DESC)"

text \<open>
  The maps of the parents are lists of pairs of the parent and the child; \<open>implicit_descs\<close> are the four
  descriptors a statement shares the ownership of. \<open>handle_vars\<close> are the variables of the application that
  receive handles.
\<close>

record driver =
  descendants :: "int \<rightharpoonup> object_kind"
  environments :: "int list"
  connections :: "(int \<times> int) list"
  statements :: "(int \<times> int) list"
  descriptors :: "(int \<times> int) list"
  implicit_descs :: "int \<Rightarrow> int list"
  diags :: "int \<Rightarrow> diag"
  query_ids :: "int \<Rightarrow> string"
  handle_vars :: "int \<Rightarrow> int"

definition new_Driver :: driver where
  "new_Driver = \<lparr>descendants = Map.empty, environments = [], connections = [], statements = [], descriptors = [],
     implicit_descs = (\<lambda>_. []), diags = (\<lambda>_. []), query_ids = (\<lambda>_. []), handle_vars = (\<lambda>_. 0)\<rparr>"

definition registerDescendant :: "object_kind \<Rightarrow> int \<Rightarrow> driver \<Rightarrow> driver" where
  "registerDescendant k h st = st\<lparr>descendants := (descendants st)(h \<mapsto> k), diags := (diags st)(h := []), query_ids := (query_ids st)(h := [])\<rparr>"

definition unregisterDescendant :: "int \<Rightarrow> driver \<Rightarrow> driver" where
  "unregisterDescendant h st = st\<lparr>descendants := (descendants st)(h := None)\<rparr>"

definition children :: "int \<Rightarrow> (int \<times> int) list \<Rightarrow> int list" where
  "children p owned = map snd (filter (\<lambda>(q, h). q = p) owned)"

section \<open>Allocation\<close>

definition allocateChild_Environment :: "int \<Rightarrow> driver \<Rightarrow> driver" where
  "allocateChild_Environment h st = (registerDescendant Environment h st)\<lparr>environments := environments st @ [h]\<rparr>"

definition allocateChild_Connection :: "int \<Rightarrow> int \<Rightarrow> driver \<Rightarrow> driver" where
  "allocateChild_Connection e h st = (registerDescendant Connection h st)\<lparr>connections := connections st @ [(e, h)]\<rparr>"

definition allocateChild_Descriptor :: "int \<Rightarrow> int \<Rightarrow> driver \<Rightarrow> driver" where
  "allocateChild_Descriptor c h st = (registerDescendant Descriptor h st)\<lparr>descriptors := descriptors st @ [(c, h)]\<rparr>"

text \<open>A statement allocates its four implicit descriptors as children of the connection.\<close>

definition allocateChild_Statement :: "int \<Rightarrow> int \<Rightarrow> int list \<Rightarrow> driver \<Rightarrow> driver" where
  "allocateChild_Statement c h implicit st =
     (let st1 = fold (allocateChild_Descriptor c) implicit (registerDescendant Statement h st) in
      st1\<lparr>implicit_descs := (implicit_descs st1)(h := implicit), statements := statements st1 @ [(c, h)]\<rparr>)"

section \<open>Deallocation\<close>

text \<open>A descriptor is destroyed when neither its connection nor a statement owns it.\<close>

definition descriptor_owned :: "int \<Rightarrow> driver \<Rightarrow> bool" where
  "descriptor_owned d st \<longleftrightarrow> d \<in> set (map snd (descriptors st)) \<or> (\<exists>s \<in> set (map snd (statements st)). d \<in> set (implicit_descs st s))"

definition release_descriptor :: "int \<Rightarrow> driver \<Rightarrow> driver" where
  "release_descriptor d st = (if descriptor_owned d st then st else unregisterDescendant d st)"

definition deallocateChild_Descriptor :: "int \<Rightarrow> int \<Rightarrow> driver \<Rightarrow> driver" where
  "deallocateChild_Descriptor c d st = release_descriptor d (st\<lparr>descriptors := filter (\<lambda>p. p \<noteq> (c, d)) (descriptors st)\<rparr>)"

text \<open>The destructor of a statement gives up its descriptors.\<close>

definition deallocateChild_Statement :: "int \<Rightarrow> int \<Rightarrow> driver \<Rightarrow> driver" where
  "deallocateChild_Statement c s st =
     (if (c, s) \<in> set (statements st)
      then unregisterDescendant s (fold (deallocateChild_Descriptor c) (implicit_descs st s)
             (st\<lparr>statements := filter (\<lambda>p. p \<noteq> (c, s)) (statements st), implicit_descs := (implicit_descs st)(s := [])\<rparr>))
      else st)"

text \<open>A connection is destroyed with its statements and its descriptors, an environment with its connections.\<close>

definition deallocateChild_Connection :: "int \<Rightarrow> int \<Rightarrow> driver \<Rightarrow> driver" where
  "deallocateChild_Connection e c st =
     (let st1 = fold (deallocateChild_Statement c) (children c (statements st)) st;
          st2 = fold (deallocateChild_Descriptor c) (children c (descriptors st1)) st1 in
      unregisterDescendant c (st2\<lparr>connections := filter (\<lambda>p. p \<noteq> (e, c)) (connections st2)\<rparr>))"

definition deallocateChild_Environment :: "int \<Rightarrow> driver \<Rightarrow> driver" where
  "deallocateChild_Environment e st =
     (let st1 = fold (deallocateChild_Connection e) (children e (connections st)) st in
      unregisterDescendant e (st1\<lparr>environments := filter (\<lambda>h. h \<noteq> e) (environments st1)\<rparr>))"

definition parent_in :: "(int \<times> int) list \<Rightarrow> int \<Rightarrow> int" where
  "parent_in owned h = (case find (\<lambda>(p, h'). h' = h) owned of Some (p, _) \<Rightarrow> p | None \<Rightarrow> 0)"

definition deallocateSelf :: "object_kind \<Rightarrow> int \<Rightarrow> driver \<Rightarrow> driver" where
  "deallocateSelf k h st =
     (case k of Environment \<Rightarrow> deallocateChild_Environment h st
      | Connection \<Rightarrow> deallocateChild_Connection (parent_in (connections st) h) h st
      | Statement \<Rightarrow> deallocateChild_Statement (parent_in (statements st) h) h st
      | Descriptor \<Rightarrow> deallocateChild_Descriptor (parent_in (descriptors st) h) h st)"

section \<open>Calls\<close>

text \<open>
  What is called: for each kind of object it accepts, a change of the state that returns a return code,
  nothing (\<open>None\<close>) or an exception.
\<close>

type_synonym 'a operation = "int \<Rightarrow> 'a driver_scheme \<Rightarrow> int option result \<times> 'a driver_scheme"
type_synonym 'a callable = "object_kind \<Rightarrow> 'a operation option"

text \<open>A change of the diagnostics of an object, which must still be there.\<close>

definition on_diag :: "int \<Rightarrow> (diag \<Rightarrow> diag result) \<Rightarrow> 'a driver_scheme \<Rightarrow> unit result \<times> 'a driver_scheme" where
  "on_diag h change st =
     (if descendants st h = None then (Inl (Undefined_Behaviour ''use of a destroyed object''), st)
      else (case change (diags st h) of Inl e \<Rightarrow> (Inl e, st) | Inr d \<Rightarrow> (Inr (), st\<lparr>diags := (diags st)(h := d)\<rparr>)))"

definition unless_skipped :: "bool \<Rightarrow> int \<Rightarrow> (diag \<Rightarrow> diag result) \<Rightarrow> 'a driver_scheme \<Rightarrow> unit result \<times> 'a driver_scheme" where
  "unless_skipped skip_diag h change st = (if skip_diag then (Inr (), st) else on_diag h change st)"

definition doCall :: "'a operation option \<Rightarrow> int \<Rightarrow> bool \<Rightarrow> 'a driver_scheme \<Rightarrow> int result \<times> 'a driver_scheme" where
  "doCall callable h skip_diag st =
     (case callable of
        None \<Rightarrow> (Inr SQL_INVALID_HANDLE, st)
      | Some run \<Rightarrow>
          (case unless_skipped skip_diag h resetDiag st of
             (Inl e, st1) \<Rightarrow> (Inl e, st1)
           | (Inr _, st1) \<Rightarrow>
               (case run h st1 of
                  (Inl e, st2) \<Rightarrow> (Inl e, st2)
                | (Inr (Some rc), st2) \<Rightarrow>
                    (case unless_skipped skip_diag h (setReturnCode rc) st2 of
                       (Inl e, st3) \<Rightarrow> (Inl e, st3) | (Inr _, st3) \<Rightarrow> (Inr rc, st3))
                | (Inr None, st2) \<Rightarrow>
                    if skip_diag then (Inr SQL_SUCCESS, st2)
                    else if descendants st2 h = None then (Inl (Undefined_Behaviour ''use of a destroyed object''), st2)
                    else
                      (case getReturnCode (diags st2 h) of
                         Inl e \<Rightarrow> (Inl e, st2) | Inr (rc, d) \<Rightarrow> (Inr rc, st2\<lparr>diags := (diags st2)(h := d)\<rparr>)))))"

text \<open>What the catch clauses make of an exception: return code, SQLSTATE, message and the code of the server.\<close>

definition caught :: "exn \<Rightarrow> (int \<times> string \<times> string \<times> string) option" where
  "caught e =
     (case e of
        ClickHouse_Exception ex code \<Rightarrow> Some (return_code ex, sql_state ex, message ex, code)
      | Sql_Exception ex \<Rightarrow> Some (return_code ex, sql_state ex, message ex, [])
      | Runtime_Error msg \<Rightarrow> Some (SQL_ERROR, ''HY000'', msg, [])
      | Out_Of_Range msg \<Rightarrow> Some (SQL_ERROR, ''HY000'', msg, [])
      | Undefined_Behaviour _ \<Rightarrow> None)"

definition READONLY_EXCEPTION_CODE :: string where
  "READONLY_EXCEPTION_CODE = ''164''"

definition READONLY_EXCEPTION_MESSAGE :: string where
  "READONLY_EXCEPTION_MESSAGE = ''If the readonly setting is enabled for the user, please see: ''
     @ ''https://clickhouse.com/docs/interfaces/odbc#readonly-users '' @ [ch_nl]"

definition addContextInfoToExceptionMessage :: "string \<Rightarrow> string \<Rightarrow> int \<Rightarrow> int \<Rightarrow> 'a driver_scheme \<Rightarrow> string" where
  "addContextInfoToExceptionMessage msg clickhouse_exception_code h handle_type st =
     (if handle_type = SQL_HANDLE_STMT then
        (let in_query = (if query_ids st h \<noteq> [] then ''Error while processing query '' @ query_ids st h @ '': '' @ msg else msg) in
         if clickhouse_exception_code = READONLY_EXCEPTION_CODE then READONLY_EXCEPTION_MESSAGE @ in_query else in_query)
      else msg)"

definition call_object :: "'a callable \<Rightarrow> object_kind \<Rightarrow> int \<Rightarrow> int \<Rightarrow> bool \<Rightarrow> 'a driver_scheme \<Rightarrow> int result \<times> 'a driver_scheme" where
  "call_object callable k h handle_type skip_diag st =
     (case doCall (callable k) h skip_diag st of
        (Inr rc, st1) \<Rightarrow> (Inr rc, st1)
      | (Inl e, st1) \<Rightarrow>
          (case caught e of
             None \<Rightarrow> (Inl e, st1)
           | Some (rc, state, msg, code) \<Rightarrow>
               (case unless_skipped skip_diag h
                       (fillDiag_rc rc state (addContextInfoToExceptionMessage msg code h handle_type st1) (Some 1)) st1 of
                  (Inl e', st2) \<Rightarrow> (Inl e', st2)
                | (Inr _, st2) \<Rightarrow> (Inr rc, st2))))"

definition call :: "'a callable \<Rightarrow> int \<Rightarrow> int \<Rightarrow> bool \<Rightarrow> 'a driver_scheme \<Rightarrow> int result \<times> 'a driver_scheme" where
  "call callable h handle_type skip_diag st =
     (case (if h = 0 then None else descendants st h) of
        None \<Rightarrow> (Inr SQL_INVALID_HANDLE, st)
      | Some k \<Rightarrow>
          if handle_type = 0 \<or> handle_type = getObjectHandleType k
          then call_object callable k h handle_type skip_diag st
          else (Inr SQL_INVALID_HANDLE, st))"

text \<open>A callable for one kind of object.\<close>

definition only_for :: "object_kind \<Rightarrow> 'a operation \<Rightarrow> 'a callable" where
  "only_for k run k' = (if k' = k then Some run else None)"

section \<open>Allocating and freeing handles\<close>

definition return_handle :: "int \<Rightarrow> unit operation" where
  "return_handle out h st = (Inr (Some SQL_SUCCESS), st\<lparr>handle_vars := (handle_vars st)(out := h)\<rparr>)"

definition allocEnv :: "int \<Rightarrow> int \<Rightarrow> driver \<Rightarrow> int result \<times> driver" where
  "allocEnv new out st =
     (if out = 0 then (Inr SQL_INVALID_HANDLE, st)
      else (Inr SQL_SUCCESS, (allocateChild_Environment new st)\<lparr>handle_vars := (handle_vars st)(out := new)\<rparr>))"

definition allocConnect :: "int \<Rightarrow> int \<Rightarrow> int \<Rightarrow> driver \<Rightarrow> int result \<times> driver" where
  "allocConnect new environment_handle out =
     call (only_for Environment (\<lambda>e st.
       if out = 0 then (Inr (Some SQL_INVALID_HANDLE), st)
       else return_handle out new (allocateChild_Connection e new st))) environment_handle SQL_HANDLE_ENV False"

definition allocStmt :: "int \<Rightarrow> int list \<Rightarrow> int \<Rightarrow> int \<Rightarrow> driver \<Rightarrow> int result \<times> driver" where
  "allocStmt new implicit connection_handle out =
     call (only_for Connection (\<lambda>c st.
       if out = 0 then (Inr (Some SQL_INVALID_HANDLE), st)
       else return_handle out new (allocateChild_Statement c new implicit st))) connection_handle SQL_HANDLE_DBC False"

definition allocDesc :: "int \<Rightarrow> int \<Rightarrow> int \<Rightarrow> driver \<Rightarrow> int result \<times> driver" where
  "allocDesc new connection_handle out =
     call (only_for Connection (\<lambda>c st.
       if out = 0 then (Inr (Some SQL_INVALID_HANDLE), st)
       else return_handle out new (allocateChild_Descriptor c new st))) connection_handle SQL_HANDLE_DBC False"

text \<open>
  The guard for automatically allocated descriptors asks whether a pointer to the type \<open>std::decay<...>\<close> itself,
  not to its member \<open>type\<close>, converts to a pointer to a descriptor: it does for no object.
\<close>

definition refused :: "object_kind \<Rightarrow> bool" where
  "refused k = False"

definition freeHandle :: "int \<Rightarrow> driver \<Rightarrow> int result \<times> driver" where
  "freeHandle h =
     call (\<lambda>k. Some (\<lambda>h st. if refused k then (Inr (Some SQL_ERROR), st) else (Inr (Some SQL_SUCCESS), deallocateSelf k h st))) h 0 True"

text \<open>\<open>news\<close> are the addresses of the new object and, for a statement, of its descriptors.\<close>

definition SQLAllocHandle :: "int list \<Rightarrow> int \<Rightarrow> int \<Rightarrow> int \<Rightarrow> driver \<Rightarrow> int result \<times> driver" where
  "SQLAllocHandle news handle_type input_handle output_handle st =
     (if handle_type = SQL_HANDLE_ENV then allocEnv (hd news) output_handle st
      else if handle_type = SQL_HANDLE_DBC then allocConnect (hd news) input_handle output_handle st
      else if handle_type = SQL_HANDLE_STMT then allocStmt (hd news) (tl news) input_handle output_handle st
      else if handle_type = SQL_HANDLE_DESC then allocDesc (hd news) input_handle output_handle st
      else (Inr SQL_ERROR, st))"

definition SQLFreeHandle :: "int \<Rightarrow> int \<Rightarrow> driver \<Rightarrow> int result \<times> driver" where
  "SQLFreeHandle handle_type h st =
     (if handle_type \<in> {SQL_HANDLE_ENV, SQL_HANDLE_DBC, SQL_HANDLE_STMT, SQL_HANDLE_DESC} then freeHandle h st else (Inr SQL_ERROR, st))"

abbreviation (input) SQL_DROP :: int where "SQL_DROP \<equiv> 1"

text \<open>\<open>other\<close> are the three options that only change the statement: closing its cursor and resetting its bindings.\<close>

definition SQLFreeStmt :: "(int \<Rightarrow> unit operation) \<Rightarrow> int \<Rightarrow> int \<Rightarrow> driver \<Rightarrow> int result \<times> driver" where
  "SQLFreeStmt other h option =
     call (only_for Statement (\<lambda>s st.
       if option = SQL_DROP
       then (case freeHandle s st of (Inl e, st1) \<Rightarrow> (Inl e, st1) | (Inr rc, st1) \<Rightarrow> (Inr (Some rc), st1))
       else other option s st)) h SQL_HANDLE_STMT False"

section \<open>The table of handles\<close>

abbreviation owned_by :: "(int \<times> int) list \<Rightarrow> int set" where
  "owned_by owned \<equiv> snd ` set owned"

definition single_owner :: "(int \<times> int) list \<Rightarrow> bool" where
  "single_owner owned \<longleftrightarrow> distinct (map snd owned)"

definition parents_live :: "driver \<Rightarrow> bool" where
  "parents_live st \<longleftrightarrow> (\<forall>e c. (e, c) \<in> set (connections st) \<longrightarrow> e \<in> set (environments st))
     \<and> (\<forall>c s. (c, s) \<in> set (statements st) \<longrightarrow> c \<in> owned_by (connections st))
     \<and> (\<forall>c d. (c, d) \<in> set (descriptors st) \<longrightarrow> c \<in> owned_by (connections st))"

definition implicit_ok :: "driver \<Rightarrow> bool" where
  "implicit_ok st \<longleftrightarrow> (\<forall>s. s \<notin> owned_by (statements st) \<longrightarrow> implicit_descs st s = [])
     \<and> (\<forall>s s' d. d \<in> set (implicit_descs st s) \<longrightarrow> d \<in> set (implicit_descs st s') \<longrightarrow> s = s')
     \<and> (\<forall>c s d c'. (c, s) \<in> set (statements st) \<longrightarrow> d \<in> set (implicit_descs st s) \<longrightarrow> (c', d) \<in> set (descriptors st) \<longrightarrow> c' = c)"

definition registered :: "driver \<Rightarrow> bool" where
  "registered st \<longleftrightarrow> (\<forall>h. (descendants st h = Some Environment \<longleftrightarrow> h \<in> set (environments st))
     \<and> (descendants st h = Some Connection \<longleftrightarrow> h \<in> owned_by (connections st))
     \<and> (descendants st h = Some Statement \<longleftrightarrow> h \<in> owned_by (statements st))
     \<and> (descendants st h = Some Descriptor \<longleftrightarrow> descriptor_owned h st))"

text \<open>What is registered is what the parents own, under its kind; parents are there, and nothing has two owners
  but an implicit descriptor, which belongs to one statement and may belong to its connection.\<close>

definition well_formed :: "driver \<Rightarrow> bool" where
  "well_formed st \<longleftrightarrow> registered st \<and> parents_live st \<and> implicit_ok st \<and> descendants st 0 = None
     \<and> single_owner (connections st) \<and> single_owner (statements st) \<and> single_owner (descriptors st)"

lemmas well_formed_defs = well_formed_def registered_def parents_live_def implicit_ok_def single_owner_def descriptor_owned_def

lemma well_formed_new: "well_formed new_Driver"
  by (simp add: well_formed_defs new_Driver_def)

lemma wellD:
  assumes "well_formed st"
  shows "h \<in> set (environments st) \<longleftrightarrow> descendants st h = Some Environment"
    "h \<in> owned_by (connections st) \<longleftrightarrow> descendants st h = Some Connection"
    "h \<in> owned_by (statements st) \<longleftrightarrow> descendants st h = Some Statement"
    "descriptor_owned h st \<longleftrightarrow> descendants st h = Some Descriptor"
  using assms unfolding well_formed_def registered_def by blast+

lemma well_parents:
  assumes "well_formed st"
  shows "(e, c) \<in> set (connections st) \<Longrightarrow> descendants st e = Some Environment \<and> descendants st c = Some Connection"
    "(c, s) \<in> set (statements st) \<Longrightarrow> descendants st c = Some Connection \<and> descendants st s = Some Statement"
    "(c, d) \<in> set (descriptors st) \<Longrightarrow> descendants st c = Some Connection \<and> descendants st d = Some Descriptor"
proof -
  show "(e, c) \<in> set (connections st) \<Longrightarrow> descendants st e = Some Environment \<and> descendants st c = Some Connection"
    using assms wellD(1,2) [OF assms] unfolding well_formed_def parents_live_def by (metis image_eqI snd_conv)
  show "(c, s) \<in> set (statements st) \<Longrightarrow> descendants st c = Some Connection \<and> descendants st s = Some Statement"
    using assms wellD(2,3) [OF assms] unfolding well_formed_def parents_live_def by (metis image_eqI snd_conv)
  show "(c, d) \<in> set (descriptors st) \<Longrightarrow> descendants st c = Some Connection \<and> descendants st d = Some Descriptor"
    using assms wellD(2,4) [OF assms] unfolding well_formed_def parents_live_def descriptor_owned_def
    by (metis image_eqI snd_conv list.set_map)
qed

lemma well_implicit:
  assumes "well_formed st" "d \<in> set (implicit_descs st s)"
  shows "descendants st s = Some Statement" "descendants st d = Some Descriptor"
proof -
  have s: "s \<in> owned_by (statements st)"
    using assms unfolding well_formed_def implicit_ok_def by (metis empty_iff list.set(1))
  then have "descriptor_owned d st" using assms(2) by (auto simp: descriptor_owned_def)
  then show "descendants st s = Some Statement" "descendants st d = Some Descriptor"
    using wellD(3,4) [OF assms(1)] s by simp_all
qed

text \<open>A state whose parts change like its table is well-formed again.\<close>

lemma well_formedI:
  assumes "\<And>h. descendants st h = Some Environment \<longleftrightarrow> h \<in> set (environments st)"
    "\<And>h. descendants st h = Some Connection \<longleftrightarrow> h \<in> owned_by (connections st)"
    "\<And>h. descendants st h = Some Statement \<longleftrightarrow> h \<in> owned_by (statements st)"
    "\<And>h. descendants st h = Some Descriptor \<longleftrightarrow> descriptor_owned h st"
    "parents_live st" "implicit_ok st" "descendants st 0 = None"
    "single_owner (connections st)" "single_owner (statements st)" "single_owner (descriptors st)"
  shows "well_formed st"
  unfolding well_formed_def registered_def by (intro conjI allI assms)

lemma single_ownerD: "single_owner owned \<Longrightarrow> (p, h) \<in> set owned \<Longrightarrow> (p', h) \<in> set owned \<Longrightarrow> p = p'"
  unfolding single_owner_def distinct_map by (metis Pair_inject inj_onD snd_conv)

lemma single_owner_snoc:
  "single_owner owned \<Longrightarrow> h \<notin> owned_by owned \<Longrightarrow> single_owner (owned @ [(p, h)])"
  by (auto simp: single_owner_def)

lemma single_owner_filter: "single_owner owned \<Longrightarrow> single_owner (filter P owned)"
  by (simp add: single_owner_def distinct_map_filter)

subsection \<open>Allocation\<close>

lemmas register_simps = registerDescendant_def unregisterDescendant_def

lemma well_formed_alloc_Environment:
  assumes w: "well_formed st" and h: "descendants st h = None" "h \<noteq> 0"
  shows "well_formed (allocateChild_Environment h st)"
proof (rule well_formedI)
  let ?st = "allocateChild_Environment h st"
  note d = allocateChild_Environment_def register_simps
  fix h'
  show "descendants ?st h' = Some Environment \<longleftrightarrow> h' \<in> set (environments ?st)" using wellD [OF w] by (simp add: d)
  show "descendants ?st h' = Some Connection \<longleftrightarrow> h' \<in> owned_by (connections ?st)" using wellD [OF w] h by (simp add: d)
  show "descendants ?st h' = Some Statement \<longleftrightarrow> h' \<in> owned_by (statements ?st)" using wellD [OF w] h by (simp add: d)
  have "descriptor_owned h' ?st \<longleftrightarrow> descriptor_owned h' st" by (simp add: d descriptor_owned_def)
  then show "descendants ?st h' = Some Descriptor \<longleftrightarrow> descriptor_owned h' ?st" using wellD [OF w] h by (simp add: d)
qed (use w h in \<open>auto simp: well_formed_def parents_live_def implicit_ok_def allocateChild_Environment_def register_simps\<close>)

lemma well_formed_alloc_Connection:
  assumes w: "well_formed st" and h: "descendants st h = None" "h \<noteq> 0" and e: "descendants st e = Some Environment"
  shows "well_formed (allocateChild_Connection e h st)"
proof (rule well_formedI)
  let ?st = "allocateChild_Connection e h st"
  note d = allocateChild_Connection_def register_simps
  fix h'
  show "descendants ?st h' = Some Environment \<longleftrightarrow> h' \<in> set (environments ?st)" using wellD [OF w] h by (simp add: d)
  show "descendants ?st h' = Some Connection \<longleftrightarrow> h' \<in> owned_by (connections ?st)" using wellD [OF w] by (simp add: d)
  show "descendants ?st h' = Some Statement \<longleftrightarrow> h' \<in> owned_by (statements ?st)" using wellD [OF w] h by (simp add: d)
  have "descriptor_owned h' ?st \<longleftrightarrow> descriptor_owned h' st" by (simp add: d descriptor_owned_def)
  then show "descendants ?st h' = Some Descriptor \<longleftrightarrow> descriptor_owned h' ?st" using wellD [OF w] h by (simp add: d)
  show "single_owner (connections ?st)"
    using w h wellD(2) [OF w, of h] by (simp add: d well_formed_def single_owner_snoc)
  show "parents_live ?st"
    using w e wellD(1) [OF w, of e] by (auto simp: d well_formed_def parents_live_def)
qed (use w h in \<open>auto simp: well_formed_def implicit_ok_def allocateChild_Connection_def register_simps\<close>)

lemma well_formed_alloc_Descriptor:
  assumes w: "well_formed st" and h: "descendants st h = None" "h \<noteq> 0" and c: "descendants st c = Some Connection"
  shows "well_formed (allocateChild_Descriptor c h st)"
proof (rule well_formedI)
  let ?st = "allocateChild_Descriptor c h st"
  note d = allocateChild_Descriptor_def register_simps
  fix h'
  show "descendants ?st h' = Some Environment \<longleftrightarrow> h' \<in> set (environments ?st)" using wellD [OF w] h by (simp add: d)
  show "descendants ?st h' = Some Connection \<longleftrightarrow> h' \<in> owned_by (connections ?st)" using wellD [OF w] h by (simp add: d)
  show "descendants ?st h' = Some Statement \<longleftrightarrow> h' \<in> owned_by (statements ?st)" using wellD [OF w] h by (simp add: d)
  have "descriptor_owned h' ?st \<longleftrightarrow> h' = h \<or> descriptor_owned h' st" by (auto simp: d descriptor_owned_def)
  then show "descendants ?st h' = Some Descriptor \<longleftrightarrow> descriptor_owned h' ?st" using wellD [OF w] by (simp add: d)
  have "h \<notin> owned_by (descriptors st)" using wellD(4) [OF w, of h] h by (auto simp: descriptor_owned_def)
  then show "single_owner (descriptors ?st)" using w by (simp add: d well_formed_def single_owner_snoc)
  show "parents_live ?st" using w c wellD(2) [OF w, of c] by (auto simp: d well_formed_def parents_live_def)
  have "d' \<noteq> h" if "d' \<in> set (implicit_descs st s)" for d' s using well_implicit(2) [OF w that] h by auto
  then show "implicit_ok ?st" using w by (force simp: d well_formed_def implicit_ok_def)
qed (use w h in \<open>auto simp: well_formed_def allocateChild_Descriptor_def register_simps\<close>)

lemma fold_alloc_Descriptor:
  assumes "well_formed st" "descendants st c = Some Connection" "distinct ds" "\<forall>d \<in> set ds. d \<noteq> 0 \<and> descendants st d = None"
  shows "well_formed (fold (allocateChild_Descriptor c) ds st)
    \<and> descendants (fold (allocateChild_Descriptor c) ds st) = (\<lambda>h. if h \<in> set ds then Some Descriptor else descendants st h)
    \<and> statements (fold (allocateChild_Descriptor c) ds st) = statements st
    \<and> implicit_descs (fold (allocateChild_Descriptor c) ds st) = implicit_descs st
    \<and> descriptors (fold (allocateChild_Descriptor c) ds st) = descriptors st @ map (Pair c) ds"
  using assms
proof (induction ds arbitrary: st)
  case (Cons d ds)
  let ?st = "allocateChild_Descriptor c d st"
  have "d \<notin> set ds" "c \<noteq> d" using Cons.prems by auto
  moreover from this have "well_formed ?st" "descendants ?st c = Some Connection" "\<forall>d \<in> set ds. d \<noteq> 0 \<and> descendants ?st d = None"
    using Cons.prems well_formed_alloc_Descriptor by (auto simp: allocateChild_Descriptor_def register_simps)
  ultimately show ?case
    using Cons.IH [of ?st] Cons.prems(3) by (auto simp: allocateChild_Descriptor_def register_simps fun_eq_iff)
qed simp

text \<open>The statement is registered before its descriptors and owned after them; the order does not show.\<close>

lemma alloc_Descriptor_commutes:
  "fold (allocateChild_Descriptor c) ds (registerDescendant Statement h st)
    = (let st' = fold (allocateChild_Descriptor c) ds st in
       if h \<in> set ds then fold (allocateChild_Descriptor c) ds (registerDescendant Statement h st) else registerDescendant Statement h st')"
proof (cases "h \<in> set ds")
  case False
  then show ?thesis
  proof (induction ds arbitrary: st)
    case (Cons d ds)
    have "allocateChild_Descriptor c d (registerDescendant Statement h st) = registerDescendant Statement h (allocateChild_Descriptor c d st)"
      using Cons.prems by (simp add: allocateChild_Descriptor_def register_simps fun_upd_twist)
    then show ?case using Cons by simp
  qed simp
qed simp

lemma well_formed_alloc_Statement:
  assumes w: "well_formed st" and c: "descendants st c = Some Connection"
    and new: "distinct (h # ds)" "\<forall>x \<in> set (h # ds). x \<noteq> 0 \<and> descendants st x = None"
  shows "well_formed (allocateChild_Statement c h ds st)"
proof -
  let ?st1 = "fold (allocateChild_Descriptor c) ds st" and ?st = "allocateChild_Statement c h ds st"
  have f: "well_formed ?st1" "descendants ?st1 = (\<lambda>h. if h \<in> set ds then Some Descriptor else descendants st h)"
    "statements ?st1 = statements st" "implicit_descs ?st1 = implicit_descs st" "descriptors ?st1 = descriptors st @ map (Pair c) ds"
    using fold_alloc_Descriptor [OF w c, of ds] new by auto
  have st: "?st = (registerDescendant Statement h ?st1)\<lparr>implicit_descs := (implicit_descs ?st1)(h := ds), statements := statements ?st1 @ [(c, h)]\<rparr>"
    using new(1) alloc_Descriptor_commutes [of c ds h st] by (simp add: allocateChild_Statement_def Let_def register_simps)
  have h: "descendants ?st1 h = None" "h \<noteq> 0" "descendants ?st1 c = Some Connection" using new c f(2) by auto
  have hs: "h \<notin> owned_by (statements ?st1)" using wellD(3) [OF f(1)] h(1) by simp
  have h0: "implicit_descs ?st1 h = []"
    using f(1) hs unfolding well_formed_def implicit_ok_def by blast
  have none: "d \<notin> set (implicit_descs ?st1 s)" if "d \<in> set ds" for d s
    using well_implicit(2) [OF w, of d s] new(2) that f(4) by auto
  show ?thesis
  proof (rule well_formedI)
    fix h'
    show "descendants ?st h' = Some Environment \<longleftrightarrow> h' \<in> set (environments ?st)" using wellD [OF f(1)] h by (simp add: st register_simps)
    show "descendants ?st h' = Some Connection \<longleftrightarrow> h' \<in> owned_by (connections ?st)" using wellD [OF f(1)] h by (simp add: st register_simps)
    show "descendants ?st h' = Some Statement \<longleftrightarrow> h' \<in> owned_by (statements ?st)" using wellD [OF f(1)] by (simp add: st register_simps)
    have "descriptor_owned h' ?st \<longleftrightarrow> descriptor_owned h' ?st1"
      using hs h0 f(5) by (auto simp: st register_simps descriptor_owned_def image_iff)
    then show "descendants ?st h' = Some Descriptor \<longleftrightarrow> descriptor_owned h' ?st"
      using wellD [OF f(1)] h(1) by (simp add: st register_simps)
    show "parents_live ?st"
      using f(1) h(3) wellD(2) [OF f(1), of c] by (auto simp: st register_simps well_formed_def parents_live_def)
    show "single_owner (statements ?st)" using f(1) hs by (simp add: st well_formed_def single_owner_snoc)
    have dc: "c' = c" if "d \<in> set ds" "(c', d) \<in> set (descriptors ?st1)" for c' d
    proof -
      have "(c, d) \<in> set (descriptors ?st1)" using that(1) f(5) by auto
      then show ?thesis using that(2) f(1) single_ownerD unfolding well_formed_def by blast
    qed
    show "implicit_ok ?st"
      using f(1) h0 hs none dc unfolding well_formed_def implicit_ok_def
      by (auto simp: st register_simps image_iff)
  qed (use f(1) h in \<open>auto simp: st register_simps well_formed_def\<close>)
qed

subsection \<open>Deallocation\<close>

definition without :: "int set \<Rightarrow> (int \<rightharpoonup> object_kind) \<Rightarrow> int \<rightharpoonup> object_kind" where
  "without hs m = (\<lambda>h. if h \<in> hs then None else m h)"

lemma without_simps [simp]:
  "without hs m h = Some k \<longleftrightarrow> h \<notin> hs \<and> m h = Some k" "without {} m = m" "without hs (without hs' m) = without (hs \<union> hs') m"
  by (auto simp: without_def)

lemma fold_dealloc_Descriptor:
  assumes "\<forall>d \<in> set ds. (\<forall>s \<in> owned_by (statements st). d \<notin> set (implicit_descs st s)) \<and> (\<forall>c'. (c', d) \<in> set (descriptors st) \<longrightarrow> c' = c)"
  shows "fold (deallocateChild_Descriptor c) ds st
    = st\<lparr>descriptors := filter (\<lambda>p. p \<notin> Pair c ` set ds) (descriptors st), descendants := without (set ds) (descendants st)\<rparr>"
  using assms
proof (induction ds arbitrary: st)
  case (Cons d ds)
  have "\<not> descriptor_owned d (st\<lparr>descriptors := filter (\<lambda>p. p \<noteq> (c, d)) (descriptors st)\<rparr>)"
    using Cons.prems by (auto simp: descriptor_owned_def)
  then have "deallocateChild_Descriptor c d st
      = st\<lparr>descriptors := filter (\<lambda>p. p \<noteq> (c, d)) (descriptors st), descendants := without {d} (descendants st)\<rparr>"
    by (simp add: deallocateChild_Descriptor_def release_descriptor_def register_simps without_def fun_eq_iff)
  moreover have "filter (\<lambda>p. p \<noteq> (c, d) \<and> p \<notin> Pair c ` set ds) (descriptors st) = filter (\<lambda>p. p \<notin> Pair c ` set (d # ds)) (descriptors st)"
    by (rule filter_cong) auto
  ultimately show ?case
    using Cons.IH [of "deallocateChild_Descriptor c d st"] Cons.prems by (simp add: conj_commute)
qed simp

lemma dealloc_Statement_eq:
  assumes w: "well_formed st" and cs: "(c, s) \<in> set (statements st)"
  shows "deallocateChild_Statement c s st = st\<lparr>statements := filter (\<lambda>p. p \<noteq> (c, s)) (statements st),
     implicit_descs := (implicit_descs st)(s := []),
     descriptors := filter (\<lambda>p. p \<notin> Pair c ` set (implicit_descs st s)) (descriptors st),
     descendants := without (insert s (set (implicit_descs st s))) (descendants st)\<rparr>"
proof -
  let ?st = "st\<lparr>statements := filter (\<lambda>p. p \<noteq> (c, s)) (statements st), implicit_descs := (implicit_descs st)(s := [])\<rparr>"
  have "\<forall>d \<in> set (implicit_descs st s). (\<forall>s' \<in> owned_by (statements ?st). d \<notin> set (implicit_descs ?st s'))
      \<and> (\<forall>c'. (c', d) \<in> set (descriptors ?st) \<longrightarrow> c' = c)"
    using w cs unfolding well_formed_def implicit_ok_def by (auto split: if_splits)
  from fold_dealloc_Descriptor [OF this] show ?thesis
    using cs by (simp add: deallocateChild_Statement_def register_simps without_def fun_eq_iff)
qed

lemma well_formed_dealloc_Statement:
  assumes w: "well_formed st" and cs: "(c, s) \<in> set (statements st)"
  shows "well_formed (deallocateChild_Statement c s st)"
proof -
  let ?ds = "set (implicit_descs st s)" and ?st = "deallocateChild_Statement c s st"
  note eq = dealloc_Statement_eq [OF w cs]
  have s: "descendants st s = Some Statement" using well_parents(2) [OF w cs] by simp
  have only: "c' = c" if "(c', s) \<in> set (statements st)" for c'
    using that cs w single_ownerD unfolding well_formed_def by blast
  have dc: "c' = c" if "d \<in> ?ds" "(c', d) \<in> set (descriptors st)" for c' d
    using that cs w unfolding well_formed_def implicit_ok_def by blast
  have ds: "descendants st d = Some Descriptor" if "d \<in> ?ds" for d using well_implicit(2) [OF w that] .
  show ?thesis
  proof (rule well_formedI)
    fix h
    show "descendants ?st h = Some Environment \<longleftrightarrow> h \<in> set (environments ?st)" using wellD [OF w] ds s by (auto simp: eq)
    show "descendants ?st h = Some Connection \<longleftrightarrow> h \<in> owned_by (connections ?st)" using wellD [OF w] ds s by (auto simp: eq)
    have "h \<in> owned_by (statements ?st) \<longleftrightarrow> h \<noteq> s \<and> h \<in> owned_by (statements st)"
      using only by (force simp: eq)
    then show "descendants ?st h = Some Statement \<longleftrightarrow> h \<in> owned_by (statements ?st)" using wellD [OF w] ds by (auto simp: eq)
    have "descriptor_owned h ?st \<longleftrightarrow> h \<notin> ?ds \<and> descriptor_owned h st"
    proof -
      have "s' = s" if "d \<in> ?ds" "d \<in> set (implicit_descs st s')" for d s'
        using that w unfolding well_formed_def implicit_ok_def by blast
      then show ?thesis using dc cs by (auto simp: eq descriptor_owned_def image_iff split: if_splits) force+
    qed
    then show "descendants ?st h = Some Descriptor \<longleftrightarrow> descriptor_owned h ?st" using wellD [OF w] s by (auto simp: eq)
    show "parents_live ?st" using w by (auto simp: eq well_formed_def parents_live_def)
    show "implicit_ok ?st" using w only unfolding well_formed_def implicit_ok_def by (auto simp: eq image_iff) (metis prod.collapse)
  qed (use w in \<open>auto simp: eq well_formed_def single_owner_filter without_def\<close>)
qed

text \<open>A descriptor that a connection gives up stays registered as long as a statement owns it.\<close>

definition held_by_statement :: "int \<Rightarrow> driver \<Rightarrow> bool" where
  "held_by_statement d st \<longleftrightarrow> (\<exists>s. d \<in> set (implicit_descs st s))"

lemma owned_iff:
  assumes "implicit_ok st"
  shows "descriptor_owned d st \<longleftrightarrow> (\<exists>c. (c, d) \<in> set (descriptors st)) \<or> held_by_statement d st"
proof -
  have "(\<exists>s \<in> owned_by (statements st). d \<in> set (implicit_descs st s)) \<longleftrightarrow> held_by_statement d st"
    using assms unfolding implicit_ok_def held_by_statement_def by (metis empty_iff list.set(1))
  moreover have "d \<in> owned_by (descriptors st) \<longleftrightarrow> (\<exists>c. (c, d) \<in> set (descriptors st))" by force
  ultimately show ?thesis by (simp add: descriptor_owned_def)
qed

lemma dealloc_Descriptor_eq:
  assumes w: "well_formed st" and cd: "\<forall>c'. (c', d) \<in> set (descriptors st) \<longrightarrow> c' = c"
  shows "deallocateChild_Descriptor c d st = st\<lparr>descriptors := filter (\<lambda>p. p \<noteq> (c, d)) (descriptors st),
     descendants := without (if held_by_statement d st then {} else {d}) (descendants st)\<rparr>"
proof -
  let ?st = "st\<lparr>descriptors := filter (\<lambda>p. p \<noteq> (c, d)) (descriptors st)\<rparr>"
  have "implicit_ok ?st" using w by (auto simp: well_formed_def implicit_ok_def)
  moreover have "held_by_statement d ?st \<longleftrightarrow> held_by_statement d st" by (simp add: held_by_statement_def)
  moreover have "(c', d) \<notin> set (descriptors ?st)" for c' using cd by auto
  ultimately have "descriptor_owned d ?st \<longleftrightarrow> held_by_statement d st" by (simp only: owned_iff simp_thms)
  then show ?thesis by (simp add: deallocateChild_Descriptor_def release_descriptor_def register_simps without_def fun_eq_iff)
qed

lemma well_formed_dealloc_Descriptor:
  assumes w: "well_formed st" and cd: "\<forall>c'. (c', d) \<in> set (descriptors st) \<longrightarrow> c' = c" and d: "descendants st d = Some Descriptor"
  shows "well_formed (deallocateChild_Descriptor c d st)"
proof (rule well_formedI)
  let ?st = "deallocateChild_Descriptor c d st"
  note eq = dealloc_Descriptor_eq [OF w cd]
  fix h
  show "descendants ?st h = Some Environment \<longleftrightarrow> h \<in> set (environments ?st)" using wellD [OF w] d by (auto simp: eq)
  show "descendants ?st h = Some Connection \<longleftrightarrow> h \<in> owned_by (connections ?st)" using wellD [OF w] d by (auto simp: eq)
  show "descendants ?st h = Some Statement \<longleftrightarrow> h \<in> owned_by (statements ?st)" using wellD [OF w] d by (auto simp: eq)
  have ok: "implicit_ok st" "implicit_ok ?st" using w by (auto simp: eq well_formed_def implicit_ok_def)
  have held: "held_by_statement h ?st \<longleftrightarrow> held_by_statement h st" by (simp add: eq held_by_statement_def)
  have "(c', h) \<in> set (descriptors ?st) \<longleftrightarrow> h \<noteq> d \<and> (c', h) \<in> set (descriptors st)" for c' using cd by (auto simp: eq)
  then have "descriptor_owned h ?st \<longleftrightarrow> descriptor_owned h st \<and> (h = d \<longrightarrow> held_by_statement d st)"
    unfolding owned_iff [OF ok(1)] owned_iff [OF ok(2)] held by blast
  then show "descendants ?st h = Some Descriptor \<longleftrightarrow> descriptor_owned h ?st"
    by (simp only: wellD(4) [OF w]) (auto simp: eq)
  show "parents_live ?st" using w by (auto simp: eq well_formed_def parents_live_def)
  show "implicit_ok ?st" using w by (auto simp: eq well_formed_def implicit_ok_def)
qed (use assms in \<open>auto simp: dealloc_Descriptor_eq [OF w cd] well_formed_def single_owner_filter without_def\<close>)

text \<open>What goes with an object: a statement with its descriptors, a connection with its statements and descriptors,
  an environment with its connections.\<close>

definition statement_tree :: "driver \<Rightarrow> int \<Rightarrow> int set" where
  "statement_tree st s = insert s (set (implicit_descs st s))"

definition connection_tree :: "driver \<Rightarrow> int \<Rightarrow> int set" where
  "connection_tree st c = insert c (set (children c (descriptors st)) \<union> \<Union> (statement_tree st ` set (children c (statements st))))"

definition environment_tree :: "driver \<Rightarrow> int \<Rightarrow> int set" where
  "environment_tree st e = insert e (\<Union> (connection_tree st ` set (children e (connections st))))"

definition subtree :: "driver \<Rightarrow> object_kind \<Rightarrow> int \<Rightarrow> int set" where
  "subtree st k h = (case k of Environment \<Rightarrow> environment_tree st h | Connection \<Rightarrow> connection_tree st h
     | Statement \<Rightarrow> statement_tree st h | Descriptor \<Rightarrow> {h})"

lemma set_children [simp]: "set (children p owned) = {h. (p, h) \<in> set owned}"
  by (force simp: children_def)

lemma fold_dealloc_Statement:
  assumes "well_formed st" "distinct ss" "\<forall>s \<in> set ss. (c, s) \<in> set (statements st)"
  shows "well_formed (fold (deallocateChild_Statement c) ss st)
    \<and> fold (deallocateChild_Statement c) ss st = st\<lparr>statements := filter (\<lambda>p. p \<notin> Pair c ` set ss) (statements st),
       implicit_descs := (\<lambda>s. if s \<in> set ss then [] else implicit_descs st s),
       descriptors := filter (\<lambda>p. p \<notin> Pair c ` \<Union> ((set \<circ> implicit_descs st) ` set ss)) (descriptors st),
       descendants := without (\<Union> (statement_tree st ` set ss)) (descendants st)\<rparr>"
  using assms
proof (induction ss arbitrary: st)
  case (Cons s ss)
  let ?st = "deallocateChild_Statement c s st"
  note eq = dealloc_Statement_eq [OF Cons.prems(1), of c s]
  have cs: "(c, s) \<in> set (statements st)" using Cons.prems(3) by simp
  have ss: "distinct ss" "s \<notin> set ss" using Cons.prems(2) by simp_all
  have "\<forall>s \<in> set ss. (c, s) \<in> set (statements ?st)" using Cons.prems(2,3) by (auto simp: eq [OF cs])
  note IH = Cons.IH [OF well_formed_dealloc_Statement [OF Cons.prems(1) cs] ss(1) this]
  let ?r = "fold (deallocateChild_Statement c) ss ?st"
  have imp: "implicit_descs ?st s' = implicit_descs st s'" if "s' \<in> set ss" for s'
    using that ss(2) by (auto simp: eq [OF cs])
  have "statements ?r = filter (\<lambda>p. p \<notin> Pair c ` set (s # ss)) (statements st)"
    unfolding IH [THEN conjunct2] by (auto simp: eq [OF cs] intro!: filter_cong)
  moreover have "implicit_descs ?r = (\<lambda>s'. if s' \<in> set (s # ss) then [] else implicit_descs st s')"
    unfolding IH [THEN conjunct2] by (auto simp: eq [OF cs])
  moreover have "\<Union> ((set \<circ> implicit_descs ?st) ` set ss) = (\<Union>s' \<in> set ss. set (implicit_descs st s'))"
    using imp by simp
  then have "descriptors ?r = filter (\<lambda>p. p \<notin> Pair c ` \<Union> ((set \<circ> implicit_descs st) ` set (s # ss))) (descriptors st)"
    unfolding IH [THEN conjunct2] by (auto simp: eq [OF cs] intro!: filter_cong)
  moreover have "\<Union> (statement_tree ?st ` set ss) = \<Union> (statement_tree st ` set ss)"
    using imp by (simp add: statement_tree_def)
  then have "descendants ?r = without (\<Union> (statement_tree st ` set (s # ss))) (descendants st)"
    unfolding IH [THEN conjunct2] by (simp add: eq [OF cs] statement_tree_def Un_commute)
  moreover have "environments ?r = environments st" "connections ?r = connections st" "diags ?r = diags st"
    "query_ids ?r = query_ids st" "handle_vars ?r = handle_vars st" "driver.more ?r = driver.more st"
    unfolding IH [THEN conjunct2] by (simp_all add: eq [OF cs])
  ultimately show ?case
    using IH [THEN conjunct1] by (simp only: fold_Cons comp_apply) (intro conjI driver.equality; simp)
qed simp

lemma distinct_children: "single_owner owned \<Longrightarrow> distinct (children p owned)"
  by (simp add: single_owner_def children_def distinct_map_filter)

lemma fold_dealloc_Descriptor_well:
  assumes "well_formed st" "distinct ds" "\<forall>d \<in> set ds. (c, d) \<in> set (descriptors st) \<and> \<not> held_by_statement d st"
  shows "well_formed (fold (deallocateChild_Descriptor c) ds st)"
  using assms
proof (induction ds arbitrary: st)
  case (Cons d ds)
  let ?st = "deallocateChild_Descriptor c d st"
  have cd: "(c, d) \<in> set (descriptors st)" using Cons.prems(3) by simp
  have only: "\<forall>c'. (c', d) \<in> set (descriptors st) \<longrightarrow> c' = c"
    using cd Cons.prems(1) single_ownerD unfolding well_formed_def by blast
  note eq = dealloc_Descriptor_eq [OF Cons.prems(1) only]
  have "well_formed ?st" using well_formed_dealloc_Descriptor [OF Cons.prems(1) only] well_parents(3) [OF Cons.prems(1) cd] by simp
  moreover have "\<forall>d \<in> set ds. (c, d) \<in> set (descriptors ?st) \<and> \<not> held_by_statement d ?st"
    using Cons.prems(2,3) by (auto simp: eq held_by_statement_def)
  ultimately show ?case using Cons.IH [of ?st] Cons.prems(2) by simp
qed simp

lemma parents_live_remove_connection:
  assumes "parents_live st" and "\<forall>c' s. (c', s) \<in> set (statements st) \<union> set (descriptors st) \<longrightarrow> c' \<noteq> c"
  shows "parents_live (st\<lparr>connections := filter (\<lambda>p. p \<noteq> (e, c)) (connections st), descendants := m\<rparr>)"
proof -
  have "c' \<in> owned_by (filter (\<lambda>p. p \<noteq> (e, c)) (connections st))" if "c' \<in> owned_by (connections st)" "c' \<noteq> c" for c'
    using that by force
  then show ?thesis using assms by (simp add: parents_live_def) blast
qed

lemma dealloc_Connection_eq:
  assumes w: "well_formed st" and ec: "(e, c) \<in> set (connections st)"
  shows "deallocateChild_Connection e c st = st\<lparr>connections := filter (\<lambda>p. p \<noteq> (e, c)) (connections st),
       statements := filter (\<lambda>p. fst p \<noteq> c) (statements st), implicit_descs := (\<lambda>s. if (c, s) \<in> set (statements st) then [] else implicit_descs st s),
       descriptors := filter (\<lambda>p. fst p \<noteq> c) (descriptors st), descendants := without (connection_tree st c) (descendants st)\<rparr>"
    and "well_formed (deallocateChild_Connection e c st)"
proof -
  let ?ss = "children c (statements st)"
  let ?st1 = "fold (deallocateChild_Statement c) ?ss st"
  let ?ds = "children c (descriptors ?st1)"
  let ?st2 = "fold (deallocateChild_Descriptor c) ?ds ?st1"
  have owners: "single_owner (connections st)" "single_owner (statements st)" "single_owner (descriptors st)"
    using w by (simp_all add: well_formed_def)
  have "\<forall>s \<in> set ?ss. (c, s) \<in> set (statements st)" by simp
  note f = fold_dealloc_Statement [OF w distinct_children [OF owners(2)] this]
  note w1 = f [THEN conjunct1] and eq1 = f [THEN conjunct2]
  have filt: "filter (\<lambda>p. p \<notin> Pair c ` {s. (c, s) \<in> set xs}) xs = filter (\<lambda>p. fst p \<noteq> c) xs" for xs :: "(int \<times> int) list"
    by (rule filter_cong) auto
  have st1: "statements ?st1 = filter (\<lambda>p. fst p \<noteq> c) (statements st)"
    "implicit_descs ?st1 = (\<lambda>s. if (c, s) \<in> set (statements st) then [] else implicit_descs st s)"
    "set (descriptors ?st1) \<subseteq> set (descriptors st)"
    unfolding eq1 by (auto simp: filt)
  have nc: "(c, s) \<notin> set (statements ?st1)" for s using st1(1) by simp
  have free: "d \<notin> set (implicit_descs ?st1 s)" if d: "(c, d) \<in> set (descriptors ?st1)" for d s
  proof
    assume "d \<in> set (implicit_descs ?st1 s)"
    moreover from this have "s \<in> owned_by (statements ?st1)" using wellD(3) [OF w1] well_implicit(1) [OF w1] by simp
    then obtain c' where "(c', s) \<in> set (statements ?st1)" by auto
    moreover from this have "c' \<noteq> c" using nc by auto
    ultimately show False using w1 d unfolding well_formed_def implicit_ok_def by blast
  qed
  have only: "c' = c" if "(c, d) \<in> set (descriptors ?st1)" "(c', d) \<in> set (descriptors ?st1)" for c' d
    using that st1(3) owners(3) single_ownerD by blast
  have eq2: "?st2 = ?st1\<lparr>descriptors := filter (\<lambda>p. p \<notin> Pair c ` set ?ds) (descriptors ?st1), descendants := without (set ?ds) (descendants ?st1)\<rparr>"
    by (rule fold_dealloc_Descriptor) (use free only in auto)
  have "single_owner (descriptors ?st1)" using w1 by (simp add: well_formed_def)
  then have w2: "well_formed ?st2"
    using w1 free by (intro fold_dealloc_Descriptor_well distinct_children) (auto simp: held_by_statement_def)
  have D2: "descriptors ?st2 = filter (\<lambda>p. fst p \<noteq> c) (descriptors ?st1)" unfolding eq2 by (simp add: filt)
  also have "\<dots> = filter (\<lambda>p. fst p \<noteq> c) (descriptors st)"
    unfolding eq1 by (simp, rule filter_cong) auto
  finally have desc: "descriptors ?st2 = filter (\<lambda>p. fst p \<noteq> c) (descriptors st)" .
  have tree: "insert c (set ?ds \<union> \<Union> (statement_tree st ` set ?ss)) = connection_tree st c"
    unfolding eq1 connection_tree_def by (auto simp: statement_tree_def)
  have desc_map: "without {c} (descendants ?st2) = without (connection_tree st c) (descendants st)"
  proof -
    have "descendants ?st2 = without (set ?ds) (descendants ?st1)" by (subst eq2) simp
    moreover have "descendants ?st1 = without (\<Union> (statement_tree st ` set ?ss)) (descendants st)" by (subst eq1) simp
    ultimately show ?thesis by (simp only: tree [symmetric] without_simps) (simp add: Un_ac)
  qed
  let ?st3 = "deallocateChild_Connection e c st"
  have st3: "?st3 = ?st2\<lparr>connections := filter (\<lambda>p. p \<noteq> (e, c)) (connections ?st2), descendants := without {c} (descendants ?st2)\<rparr>"
    by (simp add: deallocateChild_Connection_def Let_def register_simps without_def fun_eq_iff)
  have other1: "environments ?st1 = environments st" "connections ?st1 = connections st" "diags ?st1 = diags st"
    "query_ids ?st1 = query_ids st" "handle_vars ?st1 = handle_vars st" "driver.more ?st1 = driver.more st"
    by (subst eq1, simp)+
  have other2: "environments ?st2 = environments ?st1" "connections ?st2 = connections ?st1" "statements ?st2 = statements ?st1"
    "implicit_descs ?st2 = implicit_descs ?st1" "diags ?st2 = diags ?st1"
    "query_ids ?st2 = query_ids ?st1" "handle_vars ?st2 = handle_vars ?st1" "driver.more ?st2 = driver.more ?st1"
    by (subst eq2, simp)+
  note other = other2 [unfolded other1]
  show "?st3 = st\<lparr>connections := filter (\<lambda>p. p \<noteq> (e, c)) (connections st),
       statements := filter (\<lambda>p. fst p \<noteq> c) (statements st), implicit_descs := (\<lambda>s. if (c, s) \<in> set (statements st) then [] else implicit_descs st s),
       descriptors := filter (\<lambda>p. fst p \<noteq> c) (descriptors st), descendants := without (connection_tree st c) (descendants st)\<rparr>"
    unfolding st3 by (rule driver.equality) (simp_all add: other desc desc_map st1)
  have c: "descendants ?st2 c = Some Connection" if "h = c" for h
    using wellD(2) [OF w2, of c] ec other(2) by force
  show "well_formed ?st3"
  proof (rule well_formedI)
    fix h
    show "descendants ?st3 h = Some Environment \<longleftrightarrow> h \<in> set (environments ?st3)" using wellD [OF w2] c by (auto simp: st3)
    have "h \<in> owned_by (connections ?st3) \<longleftrightarrow> h \<noteq> c \<and> h \<in> owned_by (connections ?st2)"
      using single_ownerD [OF owners(1) ec] by (force simp: st3 other)
    then show "descendants ?st3 h = Some Connection \<longleftrightarrow> h \<in> owned_by (connections ?st3)" using wellD [OF w2] by (auto simp: st3)
    show "descendants ?st3 h = Some Statement \<longleftrightarrow> h \<in> owned_by (statements ?st3)" using wellD [OF w2] c by (auto simp: st3)
    have "descriptor_owned h ?st3 \<longleftrightarrow> descriptor_owned h ?st2" by (simp add: st3 descriptor_owned_def)
    then show "descendants ?st3 h = Some Descriptor \<longleftrightarrow> descriptor_owned h ?st3" using wellD [OF w2] c by (auto simp: st3)
    have "\<forall>c' s. (c', s) \<in> set (statements ?st2) \<union> set (descriptors ?st2) \<longrightarrow> c' \<noteq> c"
      using nc other(3) desc by auto
    then show "parents_live ?st3" using w2 unfolding st3 well_formed_def by (intro parents_live_remove_connection) blast+
    show "implicit_ok ?st3" using w2 by (auto simp: st3 well_formed_def implicit_ok_def)
  qed (use w2 in \<open>auto simp: st3 well_formed_def single_owner_filter without_def\<close>)
qed

lemma fold_dealloc_Connection:
  assumes "well_formed st" "distinct cs" "\<forall>c \<in> set cs. (e, c) \<in> set (connections st)"
  shows "well_formed (fold (deallocateChild_Connection e) cs st)
    \<and> environments (fold (deallocateChild_Connection e) cs st) = environments st
    \<and> connections (fold (deallocateChild_Connection e) cs st) = filter (\<lambda>p. p \<notin> Pair e ` set cs) (connections st)
    \<and> diags (fold (deallocateChild_Connection e) cs st) = diags st
    \<and> descendants (fold (deallocateChild_Connection e) cs st) = without (\<Union> (connection_tree st ` set cs)) (descendants st)"
  using assms
proof (induction cs arbitrary: st)
  case (Cons c cs)
  let ?st = "deallocateChild_Connection e c st"
  have ec: "(e, c) \<in> set (connections st)" and cs: "distinct cs" "c \<notin> set cs" using Cons.prems by simp_all
  note eq = dealloc_Connection_eq [OF Cons.prems(1) ec]
  have "\<forall>c \<in> set cs. (e, c) \<in> set (connections ?st)" using Cons.prems(3) cs by (auto simp: eq(1))
  note IH = Cons.IH [OF eq(2) cs(1) this]
  have single: "single_owner (statements st)" using Cons.prems(1) by (simp add: well_formed_def)
  have other: "connection_tree ?st c' = connection_tree st c'" if "c' \<in> set cs" for c'
  proof -
    have "c' \<noteq> c" using that cs(2) by auto
    moreover from this have "(c, s) \<notin> set (statements st)" if "(c', s) \<in> set (statements st)" for s
      using that single_ownerD [OF single] by blast
    ultimately show ?thesis by (auto simp: eq(1) connection_tree_def statement_tree_def)
  qed
  have "connections (fold (deallocateChild_Connection e) (c # cs) st) = filter (\<lambda>p. p \<notin> Pair e ` set (c # cs)) (connections st)"
    using IH by (auto simp: eq(1) intro!: filter_cong)
  moreover have "\<Union> (connection_tree ?st ` set cs) = \<Union> (connection_tree st ` set cs)" using other by simp
  then have "descendants (fold (deallocateChild_Connection e) (c # cs) st) = without (\<Union> (connection_tree st ` set (c # cs))) (descendants st)"
    using IH by (simp add: eq(1) Un_commute)
  ultimately show ?case using IH by (simp add: eq(1))
qed simp

lemma dealloc_Environment_eq:
  assumes w: "well_formed st"
  shows "descendants (deallocateChild_Environment e st) = without (environment_tree st e) (descendants st)"
    and "diags (deallocateChild_Environment e st) = diags st"
    and "descendants st e = Some Environment \<Longrightarrow> well_formed (deallocateChild_Environment e st)"
proof -
  let ?st1 = "fold (deallocateChild_Connection e) (children e (connections st)) st"
  let ?st = "deallocateChild_Environment e st"
  have "single_owner (connections st)" using w by (simp add: well_formed_def)
  note f = fold_dealloc_Connection [OF w distinct_children [OF this], of e]
  have w1: "well_formed ?st1" and eq1: "environments ?st1 = environments st" "diags ?st1 = diags st"
    "descendants ?st1 = without (\<Union> (connection_tree st ` set (children e (connections st)))) (descendants st)"
    "connections ?st1 = filter (\<lambda>p. p \<notin> Pair e ` set (children e (connections st))) (connections st)"
    using f by simp_all
  have st: "?st = ?st1\<lparr>environments := filter (\<lambda>h. h \<noteq> e) (environments ?st1), descendants := without {e} (descendants ?st1)\<rparr>"
    by (simp add: deallocateChild_Environment_def Let_def register_simps without_def fun_eq_iff)
  show "descendants ?st = without (environment_tree st e) (descendants st)"
    by (simp add: st eq1 environment_tree_def)
  show "diags ?st = diags st" by (simp add: st eq1)
  assume e: "descendants st e = Some Environment"
  have childless: "(e, c) \<notin> set (connections ?st1)" for c by (auto simp: eq1)
  have "e \<in> set (environments ?st1)" using e wellD(1) [OF w] by (simp add: eq1)
  then have e1: "descendants ?st1 e = Some Environment" using wellD(1) [OF w1] by simp
  show "well_formed ?st"
  proof (rule well_formedI)
    fix h
    show "descendants ?st h = Some Environment \<longleftrightarrow> h \<in> set (environments ?st)" using wellD(1) [OF w1] by (auto simp: st)
    show "descendants ?st h = Some Connection \<longleftrightarrow> h \<in> owned_by (connections ?st)" using wellD(2) [OF w1] e1 by (auto simp: st)
    show "descendants ?st h = Some Statement \<longleftrightarrow> h \<in> owned_by (statements ?st)" using wellD(3) [OF w1] e1 by (auto simp: st)
    have "descriptor_owned h ?st \<longleftrightarrow> descriptor_owned h ?st1" by (simp add: st descriptor_owned_def)
    then show "descendants ?st h = Some Descriptor \<longleftrightarrow> descriptor_owned h ?st" using wellD(4) [OF w1] e1 by (auto simp: st)
    show "parents_live ?st" using w1 childless unfolding well_formed_def parents_live_def by (simp add: st) blast
    show "implicit_ok ?st" using w1 by (auto simp: st well_formed_def implicit_ok_def)
  qed (use w1 in \<open>auto simp: st well_formed_def without_def\<close>)
qed

section \<open>Reachable states\<close>

lemma well_formed_diags [simp]: "well_formed (st\<lparr>diags := d\<rparr>) = well_formed st" "well_formed (st\<lparr>handle_vars := v\<rparr>) = well_formed st"
  by (simp_all add: well_formed_defs)

lemma same_diags [simp]: "\<exists>d. st = st\<lparr>diags := d\<rparr>" for st :: "'a driver_scheme"
  by (rule exI [of _ "diags st"]) simp

lemma on_diag_state: "\<exists>d. snd (on_diag h change st) = st\<lparr>diags := d\<rparr>"
  by (auto simp: on_diag_def split: sum.splits)

lemma unless_skipped_state: "unless_skipped skip_diag h change st = (r, st') \<Longrightarrow> \<exists>d. st' = st\<lparr>diags := d\<rparr>"
  using on_diag_state [of h change st] by (cases skip_diag) (auto simp: unless_skipped_def)

text \<open>A call runs at most once, on a state that differs in the diagnostics alone, and then only changes these.\<close>

lemma doCall_state:
  shows "(\<exists>d. snd (doCall callable h skip_diag st) = st\<lparr>diags := d\<rparr>)
    \<or> (\<exists>run d d'. callable = Some run \<and> snd (doCall callable h skip_diag st) = (snd (run h (st\<lparr>diags := d\<rparr>)))\<lparr>diags := d'\<rparr>)"
proof (cases callable)
  case None
  then show ?thesis by (simp add: doCall_def)
next
  case (Some run)
  obtain r1 st1 where reset: "unless_skipped skip_diag h resetDiag st = (r1, st1)" by (cases "unless_skipped skip_diag h resetDiag st")
  then obtain d where st1: "st1 = st\<lparr>diags := d\<rparr>" using unless_skipped_state by blast
  obtain r2 st2 where run: "run h st1 = (r2, st2)" by (cases "run h st1")
  have "\<exists>d'. snd (doCall (Some run) h skip_diag st) = st2\<lparr>diags := d'\<rparr>" if "r1 = Inr u" for u
    using that unfolding doCall_def reset
    by (auto simp: run dest: unless_skipped_state split: sum.splits option.splits prod.splits)
  moreover have "snd (doCall (Some run) h skip_diag st) = st\<lparr>diags := d\<rparr>" if "r1 = Inl e" for e
    using that by (simp add: doCall_def reset st1)
  ultimately show ?thesis using Some run st1 by (cases r1) (auto, metis snd_conv)
qed

lemma call_state:
  obtains d where "snd (call callable h handle_type skip_diag st) = st\<lparr>diags := d\<rparr>"
  | k run d d' where "descendants st h = Some k" "h \<noteq> 0" "callable k = Some run"
      "snd (call callable h handle_type skip_diag st) = (snd (run h (st\<lparr>diags := d\<rparr>)))\<lparr>diags := d'\<rparr>"
proof -
  let ?st = "snd (call callable h handle_type skip_diag st)"
  have after: "\<exists>d. snd (call_object callable k h handle_type skip_diag st) = (snd (doCall (callable k) h skip_diag st))\<lparr>diags := d\<rparr>" for k
  proof -
    obtain r1 st1 where "doCall (callable k) h skip_diag st = (r1, st1)" by (cases "doCall (callable k) h skip_diag st")
    then show ?thesis
      unfolding call_object_def by (auto dest: unless_skipped_state split: sum.splits option.splits prod.splits)
  qed
  have "?st = st \<or> (\<exists>k. descendants st h = Some k \<and> h \<noteq> 0 \<and> ?st = snd (call_object callable k h handle_type skip_diag st))"
    by (auto simp: call_def split: option.splits)
  moreover have "st = st\<lparr>diags := diags st\<rparr>" by simp
  ultimately consider "?st = st\<lparr>diags := diags st\<rparr>" | k d where "descendants st h = Some k" "h \<noteq> 0"
    "?st = (snd (doCall (callable k) h skip_diag st))\<lparr>diags := d\<rparr>" using after by metis
  then show thesis
  proof cases
    case 1
    then show thesis by (rule that(1))
  next
    case (2 k d)
    show thesis using doCall_state [of "callable k" h skip_diag st]
    proof (elim disjE exE conjE)
      fix d1
      assume "snd (doCall (callable k) h skip_diag st) = st\<lparr>diags := d1\<rparr>"
      then show thesis using 2(3) by (intro that(1) [of d]) simp
    next
      fix run d1 d2
      assume "callable k = Some run" "snd (doCall (callable k) h skip_diag st) = (snd (run h (st\<lparr>diags := d1\<rparr>)))\<lparr>diags := d2\<rparr>"
      then show thesis using 2 by (intro that(2) [of k run d d1]) simp_all
    qed
  qed
qed

lemma call_well_formed:
  assumes w: "well_formed st"
    and run: "\<And>k run d. descendants st h = Some k \<Longrightarrow> callable k = Some run \<Longrightarrow> well_formed (snd (run h (st\<lparr>diags := d\<rparr>)))"
  shows "well_formed (snd (call callable h handle_type skip_diag st))"
  by (rule call_state [of callable h handle_type skip_diag st]) (use assms in \<open>auto intro: run\<close>)

definition fresh :: "int list \<Rightarrow> driver \<Rightarrow> bool" where
  "fresh news st \<longleftrightarrow> length news = 5 \<and> distinct news \<and> (\<forall>x \<in> set news. x \<noteq> 0 \<and> descendants st x = None)"

lemma SQLAllocHandle_well_formed:
  assumes w: "well_formed st" and "fresh news st"
  shows "well_formed (snd (SQLAllocHandle news handle_type input_handle output_handle st))"
proof -
  obtain h ds where news: "news = h # ds" using assms(2) by (cases news) (auto simp: fresh_def)
  then have new: "distinct (h # ds)" "\<forall>x \<in> set (h # ds). x \<noteq> 0 \<and> descendants st x = None" using assms(2) by (auto simp: fresh_def)
  have "well_formed (snd (allocEnv h output_handle st))"
    using well_formed_alloc_Environment [OF w] new w by (simp add: allocEnv_def)
  moreover have "well_formed (snd (allocConnect h input_handle output_handle st))"
    unfolding allocConnect_def
    by (rule call_well_formed [OF w]) (use well_formed_alloc_Connection new w in \<open>auto simp: only_for_def return_handle_def split: if_splits\<close>)
  moreover have "well_formed (snd (allocStmt h ds input_handle output_handle st))"
    unfolding allocStmt_def
    by (rule call_well_formed [OF w]) (use well_formed_alloc_Statement [OF _ _ new(1)] new w in \<open>auto simp: only_for_def return_handle_def split: if_splits\<close>)
  moreover have "well_formed (snd (allocDesc h input_handle output_handle st))"
    unfolding allocDesc_def
    by (rule call_well_formed [OF w]) (use well_formed_alloc_Descriptor new w in \<open>auto simp: only_for_def return_handle_def split: if_splits\<close>)
  ultimately show ?thesis using w by (simp add: SQLAllocHandle_def news)
qed

lemma parent_in:
  assumes "single_owner owned" "(p, h) \<in> set owned"
  shows "parent_in owned h = p"
proof -
  have "find (\<lambda>(p, h'). h' = h) owned = Some (p, h)"
    using assms by (induction owned) (auto simp: single_owner_def image_iff)
  then show ?thesis by (simp add: parent_in_def)
qed

text \<open>Freeing a handle takes what hangs on it out of the table; an implicit descriptor stays with its statement.\<close>

lemma deallocateSelf_eq:
  assumes w: "well_formed st" and h: "descendants st h = Some k"
  shows "well_formed (deallocateSelf k h st)"
    and "descendants (deallocateSelf k h st) = without (if held_by_statement h st then {} else subtree st k h) (descendants st)"
    and "diags (deallocateSelf k h st) = diags st"
proof -
  have owners: "single_owner (connections st)" "single_owner (statements st)" "single_owner (descriptors st)"
    using w by (simp_all add: well_formed_def)
  have held: "\<not> held_by_statement h st" if "k \<noteq> Descriptor"
    using that h well_implicit(2) [OF w, of h] by (auto simp: held_by_statement_def)
  have "well_formed (deallocateSelf k h st)
    \<and> descendants (deallocateSelf k h st) = without (if held_by_statement h st then {} else subtree st k h) (descendants st)
    \<and> diags (deallocateSelf k h st) = diags st"
  proof (cases k)
    case Environment
    then show ?thesis using dealloc_Environment_eq [OF w, of h] h held by (simp add: deallocateSelf_def subtree_def)
  next
    case Connection
    then obtain e where e: "(e, h) \<in> set (connections st)" using h wellD(2) [OF w] by force
    then show ?thesis
      using dealloc_Connection_eq [OF w e] parent_in [OF owners(1) e] held Connection by (simp add: deallocateSelf_def subtree_def)
  next
    case Statement
    then obtain c where c: "(c, h) \<in> set (statements st)" using h wellD(3) [OF w] by force
    then show ?thesis
      using dealloc_Statement_eq [OF w c] well_formed_dealloc_Statement [OF w c] parent_in [OF owners(2) c] held Statement
      by (simp add: deallocateSelf_def subtree_def statement_tree_def)
  next
    case Descriptor
    have "\<forall>c'. (c', h) \<in> set (descriptors st) \<longrightarrow> c' = parent_in (descriptors st) h" using parent_in [OF owners(3)] by blast
    then show ?thesis
      using dealloc_Descriptor_eq [OF w] well_formed_dealloc_Descriptor [OF w] h Descriptor by (simp add: deallocateSelf_def subtree_def)
  qed
  then show "well_formed (deallocateSelf k h st)"
    "descendants (deallocateSelf k h st) = without (if held_by_statement h st then {} else subtree st k h) (descendants st)"
    "diags (deallocateSelf k h st) = diags st" by blast+
qed

abbreviation (input) handle_types :: "int set" where
  "handle_types \<equiv> {SQL_HANDLE_ENV, SQL_HANDLE_DBC, SQL_HANDLE_STMT, SQL_HANDLE_DESC}"

lemma freeHandle_live:
  assumes "well_formed st" "descendants st h = Some k"
  shows "freeHandle h st = (Inr SQL_SUCCESS, deallocateSelf k h st)"
proof -
  have "h \<noteq> 0" using assms by (auto simp: well_formed_def)
  then show ?thesis
    using assms(2) by (simp add: freeHandle_def call_def call_object_def doCall_def unless_skipped_def refused_def)
qed

lemma implicit_descriptor_not_refused:
  assumes "well_formed st" and "descendants st d = Some Descriptor"
  shows "SQLFreeHandle SQL_HANDLE_DESC d st = (Inr SQL_SUCCESS, deallocateSelf Descriptor d st)"
  using freeHandle_live [OF assms] by (simp add: SQLFreeHandle_def)

lemma freeHandle_dead: "descendants st h = None \<Longrightarrow> freeHandle h st = (Inr SQL_INVALID_HANDLE, st)"
  by (simp add: freeHandle_def call_def)

lemma SQLFreeHandle_well_formed:
  assumes w: "well_formed st"
  shows "well_formed (snd (SQLFreeHandle handle_type h st))"
proof (cases "descendants st h")
  case None
  then show ?thesis using w freeHandle_dead by (simp add: SQLFreeHandle_def)
next
  case (Some k)
  then show ?thesis using w freeHandle_live [OF w Some] deallocateSelf_eq(1) [OF w Some] by (simp add: SQLFreeHandle_def)
qed

text \<open>The other calls change objects in place: the table, and who owns what, stay.\<close>

definition same_objects :: "driver \<Rightarrow> driver \<Rightarrow> bool" where
  "same_objects st st' \<longleftrightarrow> descendants st' = descendants st \<and> environments st' = environments st \<and> connections st' = connections st
     \<and> statements st' = statements st \<and> descriptors st' = descriptors st \<and> implicit_descs st' = implicit_descs st"

lemma same_objects_well_formed: "same_objects st st' \<Longrightarrow> well_formed st \<Longrightarrow> well_formed st'"
  by (simp add: same_objects_def well_formed_defs)

inductive reachable :: "driver \<Rightarrow> bool" where
  start: "reachable new_Driver"
| alloc: "reachable st \<Longrightarrow> fresh news st \<Longrightarrow> reachable (snd (SQLAllocHandle news handle_type input_handle output_handle st))"
| free: "reachable st \<Longrightarrow> reachable (snd (SQLFreeHandle handle_type h st))"
| operate: "reachable st \<Longrightarrow> (\<And>k run st1. callable k = Some run \<Longrightarrow> same_objects st1 (snd (run h st1)))
    \<Longrightarrow> reachable (snd (call callable h handle_type skip_diag st))"

text \<open>C21: whatever sequence of allocations, frees and other calls, the table of handles of the driver holds exactly
  the live objects, each under its kind: the environments, the connections of live environments, the statements
  and descriptors of live connections, and the implicit descriptors of live statements.
\<close>

theorem handles_are_live:
  assumes "reachable st"
  shows "well_formed st"
  using assms
proof induction
  case start
  show ?case by (rule well_formed_new)
next
  case (alloc st news handle_type input_handle output_handle)
  then show ?case using SQLAllocHandle_well_formed by blast
next
  case (free st handle_type h)
  then show ?case using SQLFreeHandle_well_formed by blast
next
  case (operate st callable h handle_type skip_diag)
  show ?case
  proof (rule call_well_formed [OF operate.IH])
    fix k run d
    assume "callable k = Some run"
    then have "same_objects (st\<lparr>diags := d\<rparr>) (snd (run h (st\<lparr>diags := d\<rparr>)))" by (rule operate.hyps)
    then show "well_formed (snd (run h (st\<lparr>diags := d\<rparr>)))" using operate.IH by (auto intro: same_objects_well_formed)
  qed
qed

text \<open>C22: freeing a live handle, under any of the four types, takes the object and all that belongs to it (the
  connections of an environment, the statements and descriptors of a connection, the implicit descriptors of a
  statement) out of the table and nothing else, and every later call on one of these handles returns
  \<open>SQL_INVALID_HANDLE\<close> and does nothing; except for an implicit descriptor of a live statement, whose handle
  stays valid: the table does not change, though \<open>SQL_SUCCESS\<close> is returned.\<close>

theorem freed_handles_are_invalid:
  assumes "well_formed st" and "descendants st h = Some k" and "handle_type \<in> handle_types"
  shows "\<exists>st'. SQLFreeHandle handle_type h st = (Inr SQL_SUCCESS, st') \<and> h \<in> subtree st k h \<and> diags st' = diags st
    \<and> (if held_by_statement h st then k = Descriptor \<and> descendants st' = descendants st
       else descendants st' = without (subtree st k h) (descendants st)
         \<and> (\<forall>h' callable handle_type' skip_diag. h' \<in> subtree st k h \<longrightarrow>
              call callable h' handle_type' skip_diag st' = (Inr SQL_INVALID_HANDLE, st')))"
proof -
  let ?st = "deallocateSelf k h st"
  note eq = deallocateSelf_eq [OF assms(1,2)]
  have "h \<in> subtree st k h"
    by (cases k) (simp_all add: subtree_def environment_tree_def connection_tree_def statement_tree_def)
  moreover have "call callable h' handle_type' skip_diag ?st = (Inr SQL_INVALID_HANDLE, ?st)"
    if "\<not> held_by_statement h st" "h' \<in> subtree st k h" for callable h' handle_type' skip_diag
  proof -
    have "descendants ?st h' = None" using that eq(2) by (simp add: without_def)
    then show ?thesis by (simp add: call_def)
  qed
  moreover have "k = Descriptor" if "held_by_statement h st"
    using that assms(2) well_implicit(2) [OF assms(1), of h] by (auto simp: held_by_statement_def)
  ultimately show ?thesis
    using freeHandle_live [OF assms(1,2)] eq assms(3) by (cases "held_by_statement h st") (simp_all add: SQLFreeHandle_def without_def)
qed

section \<open>What a call reports\<close>

lemma fillDiag_rc_appends:
  assumes "diag_ok rs" and "diag_count rs + 1 < diag_limit"
  shows "\<exists>rs'. fillDiag_rc rc st msg native rs = Inr rs' \<and> diag_ok rs' \<and> diag_rc rs' = rc
    \<and> diag_list rs' = diag_list rs @ [diag_record st msg native]"
proof -
  obtain rs1 where rs1: "setReturnCode rc rs = Inr rs1" "diag_ok rs1" "diag_list rs1 = diag_list rs" "diag_rc rs1 = rc"
    using setReturnCode_ok [OF assms(1)] by blast
  have "diag_count rs1 = diag_count rs" using arg_cong [OF rs1(3), of length] by (simp add: diag_list_def)
  then show ?thesis using insertDiagStatus_appended [OF rs1(2), of "diag_record st msg native"] rs1 assms(2)
    by (auto simp: fillDiag_rc_def fillDiag_def)
qed

text \<open>The state in which a call starts: the records of its object are gone.\<close>

definition cleared :: "int \<Rightarrow> 'a driver_scheme \<Rightarrow> 'a driver_scheme" where
  "cleared h st = (case resetDiag (diags st h) of Inr d \<Rightarrow> st\<lparr>diags := (diags st)(h := d)\<rparr> | Inl _ \<Rightarrow> st)"

lemma cleared_objects [simp]: "descendants (cleared h st) = descendants st"
  by (simp add: cleared_def split: sum.split)

lemma cleared_well_formed [simp]: "well_formed (cleared h st) = well_formed st"
  by (simp add: cleared_def split: sum.split)

lemma cleared_diags:
  assumes "diag_ok (diags st h)"
  shows "diag_ok (diags (cleared h st) h)" "diag_list (diags (cleared h st) h) = []" "diag_rc (diags (cleared h st) h) = SQL_SUCCESS"
  using resetDiag_clears [OF assms] by (auto simp: cleared_def)

lemma cleared_count: "diag_ok (diags st h) \<Longrightarrow> diag_count (diags (cleared h st) h) = 0"
  using arg_cong [OF cleared_diags(2), of st h length] by (simp add: diag_list_def)

lemma doCall_run:
  assumes "diag_ok (diags st h)" and "descendants st h \<noteq> None"
  shows "unless_skipped False h resetDiag st = (Inr (), cleared h st)"
  using assms(2) resetDiag_clears [OF assms(1)] by (auto simp: unless_skipped_def on_diag_def cleared_def)

text \<open>C29: \<open>SQLFreeStmt\<close> with \<open>SQL_DROP\<close> frees the statement, and the wrapper of the call then stores the return code
  in the statement it has just destroyed.
\<close>

theorem drop_uses_destroyed_statement:
  assumes "well_formed st" and "descendants st h = Some Statement" and "diag_ok (diags st h)"
  shows "\<exists>st' what. SQLFreeStmt other h SQL_DROP st = (Inl (Undefined_Behaviour what), st') \<and> descendants st' h = None"
proof -
  let ?st1 = "cleared h st"
  have h: "h \<noteq> 0" using assms by (auto simp: well_formed_def)
  have w: "well_formed ?st1" and k: "descendants ?st1 h = Some Statement" using assms by simp_all
  have "\<not> held_by_statement h ?st1" using well_implicit(2) [OF w, of h] k by (auto simp: held_by_statement_def)
  then have gone: "descendants (deallocateSelf Statement h ?st1) h = None"
    using deallocateSelf_eq(2) [OF w k] by (simp add: without_def subtree_def statement_tree_def)
  have reset: "unless_skipped False h resetDiag st = (Inr (), ?st1)" using doCall_run [of st h] assms by simp
  have after: "unless_skipped False h (setReturnCode rc) (deallocateSelf Statement h ?st1)
      = (Inl (Undefined_Behaviour ''use of a destroyed object''), deallocateSelf Statement h ?st1)" for rc
    using gone by (simp add: unless_skipped_def on_diag_def)
  have "doCall (Some (\<lambda>s st. case freeHandle s st of (Inl e, st1) \<Rightarrow> (Inl e, st1) | (Inr rc, st1) \<Rightarrow> (Inr (Some rc), st1))) h False st
      = (Inl (Undefined_Behaviour ''use of a destroyed object''), deallocateSelf Statement h ?st1)"
    using after by (simp add: doCall_def reset freeHandle_live [OF w k])
  then show ?thesis
    using h assms(2) gone by (simp add: SQLFreeStmt_def call_def getObjectHandleType_def call_object_def only_for_def caught_def)
qed

text \<open>an exception thrown by the function that a call runs on a live handle never leaves the driver: the call
  returns the return code of the exception, stores it as the return code of the object, and adds to the records
  that function made (there were none when it started) exactly one, with the SQLSTATE of the exception and its
  message in the context of the query.
\<close>

theorem call_reports_exception:
  assumes "descendants st h = Some k" and "h \<noteq> 0" and "handle_type = 0 \<or> handle_type = getObjectHandleType k"
    and "callable k = Some run" and "diag_ok (diags st h)"
    and "run h (cleared h st) = (Inl e, st2)" and "caught e = Some (rc, state, msg, code)"
    and "descendants st2 h \<noteq> None" and "diag_ok (diags st2 h)" and "diag_count (diags st2 h) + 1 < diag_limit"
  shows "\<exists>d. call callable h handle_type False st = (Inr rc, st2\<lparr>diags := (diags st2)(h := d)\<rparr>)
    \<and> diag_list (diags (cleared h st) h) = [] \<and> diag_rc d = rc
    \<and> diag_list d = diag_list (diags st2 h)
         @ [diag_record state (addContextInfoToExceptionMessage msg code h handle_type st2) (Some 1)]"
proof -
  let ?msg = "addContextInfoToExceptionMessage msg code h handle_type st2"
  have ran: "doCall (callable k) h False st = (Inl e, st2)"
    using doCall_run [OF assms(5)] assms(1,4,6) by (simp add: doCall_def)
  obtain d where d: "fillDiag_rc rc state ?msg (Some 1) (diags st2 h) = Inr d" "diag_rc d = rc"
      "diag_list d = diag_list (diags st2 h) @ [diag_record state ?msg (Some 1)]"
    using fillDiag_rc_appends [OF assms(9,10)] by blast
  have "call callable h handle_type False st = (Inr rc, st2\<lparr>diags := (diags st2)(h := d)\<rparr>)"
    using assms(1,2,3,7,8) d(1) ran by (auto simp: call_def call_object_def unless_skipped_def on_diag_def)
  then show ?thesis using d cleared_diags(2) [OF assms(5)] by blast
qed

lemma call_returns:
  assumes "descendants st h = Some k" and "h \<noteq> 0" and "handle_type = 0 \<or> handle_type = getObjectHandleType k"
    and "callable k = Some run" and "diag_ok (diags st h)"
    and "run h (cleared h st) = (Inr (Some rc), st2)" and "descendants st2 h \<noteq> None" and "diag_ok (diags st2 h)"
  shows "\<exists>d. call callable h handle_type False st = (Inr rc, st2\<lparr>diags := (diags st2)(h := d)\<rparr>)
    \<and> diag_ok d \<and> diag_rc d = rc \<and> diag_list d = diag_list (diags st2 h)"
proof -
  obtain d where d: "setReturnCode rc (diags st2 h) = Inr d" "diag_ok d" "diag_list d = diag_list (diags st2 h)" "diag_rc d = rc"
    using setReturnCode_ok [OF assms(8)] by blast
  have "unless_skipped False h (setReturnCode rc) st2 = (Inr (), st2\<lparr>diags := (diags st2)(h := d)\<rparr>)"
    using d(1) assms(7) by (auto simp: unless_skipped_def on_diag_def)
  then have "doCall (callable k) h False st = (Inr rc, st2\<lparr>diags := (diags st2)(h := d)\<rparr>)"
    using doCall_run [OF assms(5)] assms(1,4,6) by (simp add: doCall_def)
  then show ?thesis using assms(1,2,3) d by (auto simp: call_def call_object_def)
qed

section \<open>Allocating and freeing\<close>

text \<open>What allocation makes of the table, for each kind of object.\<close>

definition made :: "object_kind \<Rightarrow> int \<Rightarrow> int \<Rightarrow> int list \<Rightarrow> driver \<Rightarrow> driver" where
  "made k p h ds st = (case k of Environment \<Rightarrow> allocateChild_Environment h st | Connection \<Rightarrow> allocateChild_Connection p h st
     | Statement \<Rightarrow> allocateChild_Statement p h ds st | Descriptor \<Rightarrow> allocateChild_Descriptor p h st)"

definition parent_ready :: "object_kind \<Rightarrow> int \<Rightarrow> driver \<Rightarrow> bool" where
  "parent_ready k p st \<longleftrightarrow> k = Environment
     \<or> diag_ok (diags st p) \<and> descendants st p = Some (if k = Connection then Environment else Connection)"

lemma fold_alloc_diags [simp]:
  "x \<notin> set ds \<Longrightarrow> diags (fold (allocateChild_Descriptor c) ds st) x = diags st x"
  by (induction ds arbitrary: st) (simp_all add: allocateChild_Descriptor_def register_simps)

lemma fold_alloc_descendants [simp]:
  "descendants (fold (allocateChild_Descriptor c) ds st) = (\<lambda>x. if x \<in> set ds then Some Descriptor else descendants st x)"
  by (induction ds arbitrary: st) (auto simp: allocateChild_Descriptor_def register_simps fun_eq_iff)

lemma fold_alloc_implicit [simp]:
  "implicit_descs (fold (allocateChild_Descriptor c) ds st) = implicit_descs st"
  "statements (fold (allocateChild_Descriptor c) ds st) = statements st"
  by (induction ds arbitrary: st) (simp_all add: allocateChild_Descriptor_def register_simps)

lemmas allocate_simps = allocateChild_Environment_def allocateChild_Connection_def allocateChild_Statement_def
  allocateChild_Descriptor_def register_simps

lemma made_descendants:
  "h \<notin> set ds \<Longrightarrow> descendants (made k p h ds st)
    = (\<lambda>x. if x = h then Some k else if k = Statement \<and> x \<in> set ds then Some Descriptor else descendants st x)"
  by (cases k) (auto simp: made_def allocate_simps Let_def fun_eq_iff)

lemma made_diags: "x \<noteq> h \<Longrightarrow> x \<notin> set ds \<Longrightarrow> diags (made k p h ds st) x = diags st x"
  by (cases k) (simp_all add: made_def allocate_simps Let_def)

lemma made_diags_new: "h \<notin> set ds \<Longrightarrow> diags (made k p h ds st) h = []"
  by (cases k) (simp_all add: made_def allocate_simps Let_def)

lemma made_well_formed:
  assumes "well_formed st" "parent_ready k p st" "distinct (h # ds)" "\<forall>x \<in> set (h # ds). x \<noteq> 0 \<and> descendants st x = None"
  shows "well_formed (made k p h ds st)"
  using assms well_formed_alloc_Environment well_formed_alloc_Connection well_formed_alloc_Descriptor well_formed_alloc_Statement
  by (cases k) (auto simp: made_def parent_ready_def)

lemma SQLAllocHandle_makes:
  assumes w: "well_formed st" and fresh: "fresh (h # ds) st" and p: "parent_ready k p st" and out: "out \<noteq> 0"
  shows "\<exists>st0 d v. st0 \<in> {st, cleared p st} \<and> SQLAllocHandle (h # ds) (getObjectHandleType k) p out st
    = (Inr SQL_SUCCESS, (made k p h ds st0)\<lparr>diags := d, handle_vars := v(out := h)\<rparr>)"
proof (cases "k = Environment")
  case True
  then have "SQLAllocHandle (h # ds) (getObjectHandleType k) p out st
      = (Inr SQL_SUCCESS, (made k p h ds st)\<lparr>diags := diags (made k p h ds st), handle_vars := (handle_vars st)(out := h)\<rparr>)"
    using out by (simp add: SQLAllocHandle_def getObjectHandleType_def allocEnv_def made_def)
  then show ?thesis by blast
next
  case False
  define k' where "k' = (if k = Connection then Environment else Connection)"
  define run where "run = (\<lambda>p st. if out = 0 then (Inr (Some SQL_INVALID_HANDLE), st) else return_handle out h (made k p h ds st))"
  let ?st2 = "(made k p h ds (cleared p st))\<lparr>handle_vars := (handle_vars (made k p h ds (cleared p st)))(out := h)\<rparr>"
  have live: "descendants st p = Some k'" "diag_ok (diags st p)" using p False by (auto simp: parent_ready_def k'_def)
  then have p0: "p \<noteq> 0" "p \<noteq> h" "p \<notin> set ds" "h \<notin> set ds" using w fresh by (auto simp: well_formed_def fresh_def)
  have eq: "SQLAllocHandle (h # ds) (getObjectHandleType k) p out st = call (only_for k' run) p (getObjectHandleType k') False st"
    using False unfolding k'_def run_def made_def
    by (cases k; hypsubst; unfold object_kind.case; simp add: SQLAllocHandle_def getObjectHandleType_def allocConnect_def allocStmt_def allocDesc_def)
  have ran: "run p (cleared p st) = (Inr (Some SQL_SUCCESS), ?st2)" using out by (simp add: run_def return_handle_def)
  have live2: "descendants ?st2 p \<noteq> None" using p0 live(1) by (simp add: made_descendants)
  have ok2: "diag_ok (diags ?st2 p)" using p0 cleared_diags(1) [OF live(2)] by (simp add: made_diags)
  have "\<exists>d. call (only_for k' run) p (getObjectHandleType k') False st = (Inr SQL_SUCCESS, ?st2\<lparr>diags := (diags ?st2)(p := d)\<rparr>)
      \<and> diag_ok d \<and> diag_rc d = SQL_SUCCESS \<and> diag_list d = diag_list (diags ?st2 p)"
    by (rule call_returns [where run = run, OF live(1) p0(1) _ _ live(2) ran live2 ok2]) (simp_all add: only_for_def)
  then obtain d where d: "call (only_for k' run) p (getObjectHandleType k') False st = (Inr SQL_SUCCESS, ?st2\<lparr>diags := (diags ?st2)(p := d)\<rparr>)"
    by blast
  have "SQLAllocHandle (h # ds) (getObjectHandleType k) p out st = (Inr SQL_SUCCESS, (made k p h ds (cleared p st))\<lparr>
      diags := (diags ?st2)(p := d), handle_vars := (handle_vars (made k p h ds (cleared p st)))(out := h)\<rparr>)"
    unfolding eq d by simp
  then show ?thesis by (intro exI [of _ "cleared p st"] exI conjI) simp_all
qed

lemma cleared_fields [simp]:
  "connections (cleared p st) = connections st" "statements (cleared p st) = statements st"
  "descriptors (cleared p st) = descriptors st" "implicit_descs (cleared p st) = implicit_descs st"
  by (simp_all add: cleared_def split: sum.split)

text \<open>A new object has nothing under it but the implicit descriptors of a statement.\<close>

lemma made_subtree:
  assumes w: "well_formed st" and new: "descendants st h = None" "h \<notin> set ds"
  shows "subtree (made k p h ds st) k h = insert h (if k = Statement then set ds else {})"
    and "\<not> held_by_statement h (made k p h ds st)"
proof -
  have "(h, x) \<notin> set (connections st)" "(h, x) \<notin> set (statements st)" "(h, x) \<notin> set (descriptors st)" for x
    using new(1) well_parents [OF w] by auto
  then show "subtree (made k p h ds st) k h = insert h (if k = Statement then set ds else {})"
    by (cases k) (simp_all add: subtree_def made_def allocate_simps Let_def environment_tree_def connection_tree_def statement_tree_def)
  have "h \<notin> set (implicit_descs st s)" for s using well_implicit(2) [OF w, of h s] new(1) by auto
  then show "\<not> held_by_statement h (made k p h ds st)"
    using new(2) by (cases k) (simp_all add: held_by_statement_def made_def allocate_simps Let_def)
qed

lemma subtree_fields [simp]: "subtree (st\<lparr>diags := d, handle_vars := v\<rparr>) k h = subtree st k h"
  "held_by_statement h (st\<lparr>diags := d, handle_vars := v\<rparr>) = held_by_statement h st"
  by (simp_all add: subtree_def environment_tree_def connection_tree_def statement_tree_def held_by_statement_def split: object_kind.split)

text \<open>C28: allocating an object of any kind under a live parent succeeds, stores the address of the object in the
  variable of the application and makes it, and the implicit descriptors of a statement, live; freeing the
  handle then restores the table of handles exactly.
\<close>

theorem alloc_free_roundtrip:
  assumes "well_formed st" and "fresh (h # ds) st" and "parent_ready k p st" and "out \<noteq> 0" and "handle_type \<in> handle_types"
  shows "\<exists>st1 st2. SQLAllocHandle (h # ds) (getObjectHandleType k) p out st = (Inr SQL_SUCCESS, st1)
    \<and> well_formed st1 \<and> handle_vars st1 out = h
    \<and> descendants st1 = (\<lambda>x. if x = h then Some k else if k = Statement \<and> x \<in> set ds then Some Descriptor else descendants st x)
    \<and> SQLFreeHandle handle_type h st1 = (Inr SQL_SUCCESS, st2) \<and> well_formed st2 \<and> descendants st2 = descendants st"
proof -
  obtain st0 d v where st0: "st0 \<in> {st, cleared p st}" and alloc: "SQLAllocHandle (h # ds) (getObjectHandleType k) p out st
      = (Inr SQL_SUCCESS, (made k p h ds st0)\<lparr>diags := d, handle_vars := v(out := h)\<rparr>)"
    using SQLAllocHandle_makes [OF assms(1-4)] by blast
  let ?st1 = "(made k p h ds st0)\<lparr>diags := d, handle_vars := v(out := h)\<rparr>"
  have w0: "well_formed st0" and d0: "descendants st0 = descendants st" using st0 assms(1) by auto
  have new: "descendants st0 h = None" "h \<notin> set ds" "\<forall>x \<in> set ds. descendants st x = None" using assms(2) by (auto simp: fresh_def d0)
  have w1: "well_formed ?st1" using SQLAllocHandle_well_formed [OF assms(1,2), of "getObjectHandleType k" p out] alloc by simp
  have d1: "descendants ?st1 = (\<lambda>x. if x = h then Some k else if k = Statement \<and> x \<in> set ds then Some Descriptor else descendants st x)"
    unfolding d0 [symmetric] using made_descendants [OF new(2), of k p st0] by simp
  then have live: "descendants ?st1 h = Some k" by simp
  have sub: "subtree ?st1 k h = insert h (if k = Statement then set ds else {})" "\<not> held_by_statement h ?st1"
    using made_subtree [OF w0 new(1,2)] by simp_all
  have "SQLFreeHandle handle_type h ?st1 = (Inr SQL_SUCCESS, deallocateSelf k h ?st1)"
    using freeHandle_live [OF w1 live] assms(5) by (simp add: SQLFreeHandle_def)
  moreover have "descendants (deallocateSelf k h ?st1) = descendants st"
    using deallocateSelf_eq(2) [OF w1 live] sub new by (auto simp: d1 d0 without_def fun_eq_iff)
  ultimately show ?thesis using alloc w1 d1 deallocateSelf_eq(1) [OF w1 live] by simp
qed

section \<open>Witnesses\<close>

definition one_environment :: driver where
  "one_environment = made Environment 0 10 [] new_Driver"
definition one_connection :: driver where
  "one_connection = made Connection 10 20 [] one_environment"
definition one_statement :: driver where
  "one_statement = made Statement 20 30 [31, 32, 33, 34] one_connection"

lemma one_environment: "descendants one_environment = (\<lambda>x. if x = 10 then Some Environment else None)" "diags one_environment 10 = []"
  by (simp_all add: one_environment_def made_descendants made_diags_new new_Driver_def fun_eq_iff)

lemma one_connection: "descendants one_connection = (\<lambda>x. if x = 20 then Some Connection else if x = 10 then Some Environment else None)"
  "diags one_connection 20 = []"
  by (simp_all add: one_connection_def made_descendants made_diags_new one_environment fun_eq_iff)

lemma one_statement: "descendants one_statement x = (if x = 30 then Some Statement else if x \<in> {31, 32, 33, 34} then Some Descriptor
    else if x = 20 then Some Connection else if x = 10 then Some Environment else None)"
  "diags one_statement 30 = []"
  by (simp_all add: one_statement_def made_descendants made_diags_new one_connection)

lemma one_environment_well: "well_formed one_environment"
  unfolding one_environment_def
  by (rule made_well_formed [OF well_formed_new]) (simp_all add: parent_ready_def new_Driver_def)

lemma one_connection_well: "well_formed one_connection"
  unfolding one_connection_def
  by (rule made_well_formed [OF one_environment_well]) (simp_all add: parent_ready_def one_environment)

lemma one_statement_well: "well_formed one_statement"
  unfolding one_statement_def
  by (rule made_well_formed [OF one_connection_well]) (simp_all add: parent_ready_def one_connection)

lemma one_statement_subtree: "subtree one_statement Environment 10 = {10, 20, 30, 31, 32, 33, 34}"
  by (simp add: subtree_def environment_tree_def connection_tree_def statement_tree_def one_statement_def one_connection_def
    one_environment_def made_def allocate_simps new_Driver_def Let_def) auto

lemma one_statement_held: "held_by_statement x one_statement \<longleftrightarrow> x \<in> {31, 32, 33, 34}"
  by (auto simp: held_by_statement_def one_statement_def one_connection_def one_environment_def made_def allocate_simps new_Driver_def Let_def)

theorem handles_are_live_witness:
  "well_formed (snd (SQLFreeHandle 2 10 (snd (SQLAllocHandle [20, 21, 22, 23, 24] 2 10 2
     (snd (SQLAllocHandle [10, 11, 12, 13, 14] 1 0 1 new_Driver))))))"
  by (rule handles_are_live, rule reachable.free, (rule reachable.alloc)+, rule reachable.start)
    (simp_all add: fresh_def new_Driver_def SQLAllocHandle_def allocEnv_def allocate_simps)

theorem freed_handles_are_invalid_witness:
  "\<exists>st'. SQLFreeHandle 3 10 one_statement = (Inr SQL_SUCCESS, st') \<and> descendants st' 20 = None \<and> descendants st' 34 = None
     \<and> call (\<lambda>_. None) 30 3 False st' = (Inr SQL_INVALID_HANDLE, st')"
  using freed_handles_are_invalid [OF one_statement_well, of 10 Environment 3]
  by (auto simp: one_statement one_statement_subtree one_statement_held without_def)

theorem drop_uses_destroyed_statement_witness:
  "\<exists>st' what. SQLFreeStmt (\<lambda>_ _ st. (Inr None, st)) 30 SQL_DROP one_statement = (Inl (Undefined_Behaviour what), st') \<and> descendants st' 30 = None"
  by (rule drop_uses_destroyed_statement) (simp_all add: one_statement one_statement_well)

theorem alloc_free_roundtrip_witness:
  "\<exists>st1 st2. SQLAllocHandle [30, 31, 32, 33, 34] (getObjectHandleType Statement) 20 3 one_connection = (Inr SQL_SUCCESS, st1)
    \<and> well_formed st1 \<and> handle_vars st1 3 = 30
    \<and> descendants st1 = (\<lambda>x. if x = 30 then Some Statement else if Statement = Statement \<and> x \<in> set [31, 32, 33, 34] then Some Descriptor else descendants one_connection x)
    \<and> SQLFreeHandle 3 30 st1 = (Inr SQL_SUCCESS, st2) \<and> well_formed st2 \<and> descendants st2 = descendants one_connection"
  by (rule alloc_free_roundtrip) (simp_all add: one_connection one_connection_well fresh_def parent_ready_def)

theorem call_reports_exception_witness:
  "\<exists>d. call (only_for Statement (\<lambda>_ st. (Inl (SqlException ''Invalid cursor state'' ''24000''), st))) 30 SQL_HANDLE_STMT False one_statement
      = (Inr SQL_ERROR, (cleared 30 one_statement)\<lparr>diags := (diags (cleared 30 one_statement))(30 := d)\<rparr>)
    \<and> diag_list (diags (cleared 30 one_statement) 30) = [] \<and> diag_rc d = SQL_ERROR
    \<and> diag_list d = diag_list (diags (cleared 30 one_statement) 30)
         @ [diag_record ''24000'' (addContextInfoToExceptionMessage ''Invalid cursor state'' [] 30 SQL_HANDLE_STMT (cleared 30 one_statement)) (Some 1)]"
  by (rule call_reports_exception [where k = Statement and e = "SqlException ''Invalid cursor state'' ''24000''"
      and run = "\<lambda>_ st. (Inl (SqlException ''Invalid cursor state'' ''24000''), st)"])
    (simp_all add: one_statement only_for_def getObjectHandleType_def caught_def SqlException_def cleared_diags cleared_count
      diag_limit_def)

end
