(* ===== verification/Diag_Api.thy ===== *)
theory Diag_Api
  imports Driver_Call Field_Output
begin

text \<open>
  Reading diagnostics: \<open>GetDiagRec\<close> and \<open>GetDiagField\<close> of driver/api/impl/impl.cpp, which
  \<open>SQLGetDiagRec\<close> and \<open>SQLGetDiagField\<close> call. The state is the driver with the memory of the
  application. \<open>enc\<close> is the conversion of a text to characters of \<open>cs\<close> bytes (\<open>PTChar\<close>). Both
  functions are called without touching the diagnostics (\<open>CALL_WITH_TYPED_HANDLE_SKIP_DIAG\<close>).
\<close>

record app_driver = driver +
  memory :: app_memory

section \<open>The code\<close>

definition in_memory :: "int mem_op \<Rightarrow> app_driver \<Rightarrow> int option result \<times> app_driver" where
  "in_memory f st =
     (case f (memory st) of (Inl e, m) \<Rightarrow> (Inl e, st\<lparr>memory := m\<rparr>) | (Inr rc, m) \<Rightarrow> (Inr (Some rc), st\<lparr>memory := m\<rparr>))"

text \<open>The variable for a length is smaller than \<open>SQLLEN\<close> here; one that is not written holds such a value already.\<close>

definition narrow_length :: "(int \<Rightarrow> int) \<Rightarrow> int \<Rightarrow> 'a mem_op \<Rightarrow> 'a mem_op" where
  "narrow_length cast p f m =
     (case f m of (r, m1) \<Rightarrow> (r, if p \<noteq> 0 then write_len p (cast (mem_lens m1 p)) m1 else m1))"

definition write_record ::
  "(string \<Rightarrow> string) \<Rightarrow> nat \<Rightarrow> attrs \<Rightarrow> int \<Rightarrow> int \<Rightarrow> int \<Rightarrow> int \<Rightarrow> int \<Rightarrow> int mem_op" where
  "write_record enc cs rec out_sqlstate out_native out_message max_size out_size m =
     (case (if out_sqlstate \<noteq> 0
            then fillOutputString cs (enc (getAttrAs_string SQL_DIAG_SQLSTATE [] rec)) out_sqlstate 6 0 False True 0 m
            else (Inr SQL_SUCCESS, m)) of
        (Inl e, m1) \<Rightarrow> (Inl e, m1)
      | (Inr _, m1) \<Rightarrow>
          (case (if out_native \<noteq> 0
                 then bind_result (getAttrAs as_int32 SQL_DIAG_NATIVE 0 rec) (\<lambda>v. Inr (write_len out_native v m1))
                 else Inr m1) of
             Inl e \<Rightarrow> (Inl e, m1)
           | Inr m2 \<Rightarrow>
               narrow_length as_int16 out_size
                 (fillOutputString cs (enc (getAttrAs_string SQL_DIAG_MESSAGE_TEXT [] rec)) out_message max_size out_size False True 0) m2))"

text \<open>\<open>getDiagStatus\<close> of an object and its reading; it may grow the vector of records.\<close>

definition with_record :: "int \<Rightarrow> int \<Rightarrow> (attrs \<Rightarrow> int mem_op) \<Rightarrow> app_driver \<Rightarrow> int option result \<times> app_driver" where
  "with_record h n use st =
     (case getDiagStatus (nat n) (diags st h) of
        Inl e \<Rightarrow> (Inl e, st)
      | Inr d \<Rightarrow> in_memory (use (d ! nat n)) (st\<lparr>diags := (diags st)(h := d)\<rparr>))"

definition if_record :: "int \<Rightarrow> int \<Rightarrow> (app_driver \<Rightarrow> int option result \<times> app_driver) \<Rightarrow> app_driver \<Rightarrow> int option result \<times> app_driver" where
  "if_record h n use st =
     (case getDiagStatusCount (diags st h) of
        Inl e \<Rightarrow> (Inl e, st)
      | Inr (count, d) \<Rightarrow>
          (let st1 = st\<lparr>diags := (diags st)(h := d)\<rparr> in
           if int count < n then (Inr (Some SQL_NO_DATA), st1) else use st1))"

definition GetDiagRec ::
  "(string \<Rightarrow> string) \<Rightarrow> nat \<Rightarrow> int \<Rightarrow> int \<Rightarrow> int \<Rightarrow> int \<Rightarrow> int \<Rightarrow> int \<Rightarrow> int \<Rightarrow> int \<Rightarrow> app_driver \<Rightarrow> int result \<times> app_driver" where
  "GetDiagRec enc cs handle_type h record_number out_sqlstate out_native out_message max_size out_size =
     call (\<lambda>_. Some (\<lambda>h st.
       if record_number < 1 \<or> max_size < 0 then (Inr (Some SQL_ERROR), st)
       else if_record h record_number
         (with_record h record_number (\<lambda>rec. write_record enc cs rec out_sqlstate out_native out_message max_size out_size)) st))
       h handle_type True"

definition statement_fields :: "int set" where
  "statement_fields = {SQL_DIAG_CURSOR_ROW_COUNT, SQL_DIAG_DYNAMIC_FUNCTION, SQL_DIAG_DYNAMIC_FUNCTION_CODE, SQL_DIAG_ROW_COUNT}"

definition header_fields :: "int set" where
  "header_fields = {SQL_DIAG_CURSOR_ROW_COUNT, SQL_DIAG_DYNAMIC_FUNCTION, SQL_DIAG_DYNAMIC_FUNCTION_CODE, SQL_DIAG_NUMBER,
     SQL_DIAG_RETURNCODE, SQL_DIAG_ROW_COUNT}"

text \<open>The size in bytes of the numeric fields; the other fields are texts.\<close>

definition numeric_field :: "int \<Rightarrow> nat option" where
  "numeric_field field_id =
     (if field_id \<in> {SQL_DIAG_CURSOR_ROW_COUNT, SQL_DIAG_ROW_COUNT, SQL_DIAG_ROW_NUMBER} then Some 8
      else if field_id \<in> {SQL_DIAG_DYNAMIC_FUNCTION_CODE, SQL_DIAG_NUMBER, SQL_DIAG_COLUMN_NUMBER, SQL_DIAG_NATIVE} then Some 4
      else if field_id = SQL_DIAG_RETURNCODE then Some 2
      else None)"

definition text_field :: "int \<Rightarrow> bool" where
  "text_field field_id \<longleftrightarrow> field_id \<in> {SQL_DIAG_DYNAMIC_FUNCTION, SQL_DIAG_CLASS_ORIGIN, SQL_DIAG_CONNECTION_NAME,
     SQL_DIAG_MESSAGE_TEXT, SQL_DIAG_SERVER_NAME, SQL_DIAG_SQLSTATE, SQL_DIAG_SUBCLASS_ORIGIN}"

definition write_field :: "(string \<Rightarrow> string) \<Rightarrow> nat \<Rightarrow> int \<Rightarrow> int \<Rightarrow> int \<Rightarrow> int \<Rightarrow> attrs \<Rightarrow> int mem_op" where
  "write_field enc cs field_id out_message max_size out_size rec m =
     (case numeric_field field_id of
        Some n \<Rightarrow>
          (case getAttrAs (if n = 8 then as_int64 else if n = 4 then as_int32 else as_int16) field_id 0 rec of
             Inl e \<Rightarrow> (Inl e, m)
           | Inr v \<Rightarrow> fillOutputPOD (signed_bytes n v) out_message out_size m)
      | None \<Rightarrow>
          if text_field field_id
          then narrow_length as_int16 out_size (fillOutputString cs (enc (getAttrAs_string field_id [] rec)) out_message max_size out_size True True 0) m
          else (Inr SQL_ERROR, m))"

definition GetDiagField ::
  "(string \<Rightarrow> string) \<Rightarrow> nat \<Rightarrow> int \<Rightarrow> int \<Rightarrow> int \<Rightarrow> int \<Rightarrow> int \<Rightarrow> int \<Rightarrow> int \<Rightarrow> app_driver \<Rightarrow> int result \<times> app_driver" where
  "GetDiagField enc cs handle_type h record_number0 field_id out_message max_size out_size =
     call (\<lambda>k. Some (\<lambda>h st.
       if k \<noteq> Statement \<and> field_id \<in> statement_fields then (Inr (Some SQL_ERROR), st)
       else
         (let record_number = (if field_id \<in> header_fields then 0 else record_number0);
              read = with_record h record_number (write_field enc cs field_id out_message max_size out_size) in
          if record_number < 0 then (Inr (Some SQL_ERROR), st)
          else if 0 < record_number then if_record h record_number read st
          else read st)))
       h handle_type True"

section \<open>Memory\<close>

lemma fillOutputString_symbols:
  assumes "length converted = n * cs" "0 < cs" "cs \<le> 4" "0 < k" "k < 2 ^ 32" "n < 2 ^ 32" "out \<noteq> 0"
  defines "p \<equiv> min n (k - 1)"
  obtains m' where
    "fillOutputString cs converted out (int k) len False True 0 m = (if k \<le> n then Inl right_truncated else Inr SQL_SUCCESS, m')"
    "peek_bytes out (p * cs + cs) m' = take (p * cs) converted @ replicate cs (CHR 0x00)"
    "len \<noteq> 0 \<Longrightarrow> mem_lens m' len = int n" "differ_in out (out + int (k * cs)) len m m'"
proof -
  let ?m1 = "write_bytes out (take (min (k * cs) (n * cs)) converted) m"
  let ?m2 = "if len \<noteq> 0 then write_len len (int n) ?m1 else ?m1"
  let ?m' = "write_nul cs out k n ?m2"
  have "k * cs \<le> k * 4" "n * cs \<le> n * 4" using assms(3) by simp_all
  moreover have "k * 4 < 2 ^ 63" "n * 4 < 2 ^ 63" using assms(5,6) by simp_all
  ultimately have small: "k * cs < 2 ^ 63" "n * cs < 2 ^ 63" by (blast intro: le_less_trans)+
  have sz: "as_size (int k) = k" "as_size (int k * int cs) = k * cs"
    using as_size_of_nat [of k] as_size_of_nat [of "k * cs"] small assms(5) by simp_all
  have i64: "as_int64 (int n) = int n" using assms(6) by (intro as_int64_id) simp_all
  have copy: "fillOutputBufferInternal (Some converted) (int (n * cs)) out (int (k * cs)) m = (Inr (), ?m1)"
    using assms(1,2,7) by (cases n) (simp_all add: fillOutputBufferInternal_def min_def del: of_nat_mult of_nat_Suc)
  have n: "n * cs div cs = n" using assms(2) by simp
  have res: "fillOutputString cs converted out (int k) len False True 0 m = (if k \<le> n then Inl right_truncated else Inr SQL_SUCCESS, ?m')"
    unfolding fillOutputString_def Let_def
    using assms(2,7) copy by (simp add: sz n i64 assms(1) del: of_nat_mult)
  have nul: "?m' = write_bytes (out + int (p * cs)) (replicate cs (CHR 0x00)) ?m2"
    using assms(4) by (auto simp: write_nul_def p_def min_def)
  have "p \<le> k" "p \<le> n" using assms(4) by (auto simp: p_def)
  then have pc: "p * cs \<le> min (k * cs) (n * cs)" by (intro min.boundedI mult_le_mono1)
  have l: "p * cs \<le> length (take (min (k * cs) (n * cs)) converted)" using pc assms(1) by simp
  have "peek_bytes out (p * cs) ?m2 = take (p * cs) converted"
    using peek_write_here [OF l, of out m] pc by (simp add: min_def)
  then have front: "peek_bytes out (p * cs) ?m' = take (p * cs) converted"
    unfolding nul by (subst peek_write_off) (simp_all del: of_nat_mult)
  have behind: "peek_bytes (out + int (p * cs)) cs ?m' = replicate cs (CHR 0x00)"
    unfolding nul by (subst peek_write_here) simp_all
  have len: "mem_lens ?m' len = int n" if "len \<noteq> 0" using that unfolding nul by simp
  have "differ_in out (out + int (k * cs)) len m ?m'"
    using fillOutputString_differ [OF res assms(2)] by simp
  moreover have "peek_bytes out (p * cs + cs) ?m' = take (p * cs) converted @ replicate cs (CHR 0x00)"
    unfolding peek_append front using behind by simp
  ultimately show ?thesis using that [OF res _ len] by blast
qed

lemma peek_differ:
  assumes "differ_in lo hi q m m'" and "p + int n \<le> lo \<or> hi \<le> p"
  shows "peek_bytes p n m' = peek_bytes p n m"
  by (rule nth_equalityI) (use assms in \<open>auto simp: peek_nth differ_in_def\<close>)

lemma write_record_memory:
  assumes "0 < cs" "cs \<le> 4" "length (enc state) = 5 * cs" "length (enc msg) = n * cs" "n < 32768" "0 < k" "k < 32768"
    and "ps \<noteq> 0" "pn \<noteq> 0" "pm \<noteq> 0" "pl \<noteq> 0" "pn \<noteq> pl" "ps + int (6 * cs) \<le> pm \<or> pm + int (k * cs) \<le> ps"
  defines "p \<equiv> min n (k - 1)"
  obtains m' where
    "write_record enc cs (diag_record state msg (Some (as_int32 native))) ps pn pm (int k) pl m
       = (if k \<le> n then Inl right_truncated else Inr SQL_SUCCESS, m')"
    "peek_bytes ps (6 * cs) m' = enc state @ replicate cs (CHR 0x00)" "mem_lens m' pn = as_int32 native"
    "peek_bytes pm (p * cs + cs) m' = take (p * cs) (enc msg) @ replicate cs (CHR 0x00)" "mem_lens m' pl = int n"
proof -
  obtain m1 where m1: "fillOutputString cs (enc state) ps (int 6) 0 False True 0 m = (Inr SQL_SUCCESS, m1)"
    "peek_bytes ps (6 * cs) m1 = enc state @ replicate cs (CHR 0x00)"
    by (rule fillOutputString_symbols [OF assms(3) assms(1,2), of 6 ps 0 m]) (use assms(3,8) in \<open>auto simp: algebra_simps\<close>)
  let ?m2 = "write_len pn (as_int32 native) m1"
  obtain m3 where m3: "fillOutputString cs (enc msg) pm (int k) pl False True 0 ?m2
      = (if k \<le> n then Inl right_truncated else Inr SQL_SUCCESS, m3)"
    "peek_bytes pm (p * cs + cs) m3 = take (p * cs) (enc msg) @ replicate cs (CHR 0x00)"
    "mem_lens m3 pl = int n" "differ_in pm (pm + int (k * cs)) pl ?m2 m3"
    unfolding p_def
    by (rule fillOutputString_symbols [OF assms(4) assms(1,2), of k pm pl ?m2]) (use assms in auto)
  have "peek_bytes ps (6 * cs) m3 = peek_bytes ps (6 * cs) ?m2"
    by (rule peek_differ [OF m3(4)]) (use assms(13) in simp)
  then have "peek_bytes ps (6 * cs) m3 = enc state @ replicate cs (CHR 0x00)" using m1(2) by simp
  moreover have "mem_lens m3 pn = as_int32 native" using m3(4) assms(12) by (simp add: differ_in_def)
  moreover have "write_len pl (as_int16 (mem_lens m3 pl)) m3 = m3"
    using m3(3) [symmetric] assms(5) by (intro app_memory.equality) (simp_all add: write_len_def)
  then have "write_record enc cs (diag_record state msg (Some (as_int32 native))) ps pn pm (int k) pl m
      = (if k \<le> n then Inl right_truncated else Inr SQL_SUCCESS, m3)"
    using m1(1) m3(1) assms(8,9,11)
    by (simp add: write_record_def narrow_length_def diag_record_def getAttrAs_string_def getAttrAs_def as_int32_def)
  ultimately show ?thesis using that m3(2,3) by blast
qed

section \<open>Reading changes nothing\<close>

text \<open>What there is to read of the diagnostics of every object, and the objects themselves.\<close>

definition same_diagnostics :: "app_driver \<Rightarrow> app_driver \<Rightarrow> bool" where
  "same_diagnostics st st' \<longleftrightarrow> descendants st' = descendants st
     \<and> (\<forall>h. diag_ok (diags st' h) \<and> diag_list (diags st' h) = diag_list (diags st h) \<and> diag_rc (diags st' h) = diag_rc (diags st h))"

lemma in_memory_fields [simp]: "descendants (snd (in_memory f st)) = descendants st" "diags (snd (in_memory f st)) = diags st"
  by (auto simp: in_memory_def split: prod.split sum.split)

lemma diag_count_limit: "diag_ok d \<Longrightarrow> diag_count d < diag_limit"
  by (cases d) (auto simp: diag_ok_def diag_count_def diag_limit_def)

lemma with_record_same:
  assumes "\<forall>h. diag_ok (diags st h)" and "nat n \<le> diag_count (diags st h)"
  shows "same_diagnostics st (snd (with_record h n use st))"
proof -
  let ?d = "diag_get (nat n) (diags st h)"
  have ok: "diag_ok (diags st h)" using assms(1) by blast
  have lim: "nat n < diag_limit" using diag_count_limit [OF ok] assms(2) by simp
  have "diag_ok ?d" "diag_list ?d = diag_list (diags st h)" "diag_rc ?d = diag_rc (diags st h)"
    using diag_get_facts(1) [OF ok lim] diag_list_get [OF ok lim assms(2)] diag_rc_get [OF ok lim] by simp_all
  then show ?thesis
    using assms(1) by (simp add: with_record_def getDiagStatus_get [OF ok lim] same_diagnostics_def)
qed

lemma same_diagnostics_trans: "same_diagnostics st st1 \<Longrightarrow> same_diagnostics st1 st2 \<Longrightarrow> same_diagnostics st st2"
  by (simp add: same_diagnostics_def)

lemma same_diagnostics_refl: "\<forall>h. diag_ok (diags st h) \<Longrightarrow> same_diagnostics st st"
  by (simp add: same_diagnostics_def)

lemma if_record_eq:
  assumes "diag_ok (diags st h)"
  shows "if_record h n use st = (if int (diag_count (diags st h)) < n then (Inr (Some SQL_NO_DATA), st\<lparr>diags := (diags st)(h := diag_get 0 (diags st h))\<rparr>)
    else use (st\<lparr>diags := (diags st)(h := diag_get 0 (diags st h))\<rparr>))"
  using assms by (simp add: if_record_def getDiagStatusCount_ok Let_def)

lemma get_header_same:
  assumes "\<forall>h. diag_ok (diags st h)"
  shows "same_diagnostics st (st\<lparr>diags := (diags st)(h := diag_get 0 (diags st h))\<rparr>)"
proof -
  have ok: "diag_ok (diags st h)" using assms by blast
  have lim: "0 < diag_limit" by (simp add: diag_limit_def)
  show ?thesis using assms diag_get_facts(1) [OF ok lim] diag_list_get [OF ok lim] diag_rc_get [OF ok lim]
    by (simp add: same_diagnostics_def)
qed

lemma if_record_same:
  assumes "\<forall>h. diag_ok (diags st h)"
    and "\<And>st1. same_diagnostics st st1 \<Longrightarrow> n \<le> int (diag_count (diags st1 h)) \<Longrightarrow> same_diagnostics st1 (snd (use st1))"
  shows "same_diagnostics st (snd (if_record h n use st))"
proof -
  let ?st1 = "st\<lparr>diags := (diags st)(h := diag_get 0 (diags st h))\<rparr>"
  have ok: "diag_ok (diags st h)" using assms by blast
  have "diag_count (diag_get 0 (diags st h)) = diag_count (diags st h)"
    using diag_get_facts(3) [OF ok] by (simp add: diag_limit_def)
  then show ?thesis
    using get_header_same [OF assms(1), of h] assms(2) [of ?st1] same_diagnostics_trans by (auto simp: if_record_eq [OF ok])
qed

lemma call_skip:
  "snd (call callable h handle_type True st) = st \<or>
    (\<exists>k run. descendants st h = Some k \<and> callable k = Some run \<and> snd (call callable h handle_type True st) = snd (run h st))"
  by (auto simp: call_def call_object_def doCall_def unless_skipped_def split: option.splits sum.splits prod.splits)

lemma call_skip_same:
  assumes "\<forall>h. diag_ok (diags st h)"
    and "\<And>k run. descendants st h = Some k \<Longrightarrow> callable k = Some run \<Longrightarrow> same_diagnostics st (snd (run h st))"
  shows "same_diagnostics st (snd (call callable h handle_type True st))"
  using call_skip [of callable h handle_type st] assms same_diagnostics_refl by metis

lemma GetDiagRec_same:
  assumes "\<forall>h. diag_ok (diags st h)"
  shows "same_diagnostics st (snd (GetDiagRec enc cs handle_type h record_number out_sqlstate out_native out_message max_size out_size st))"
proof -
  let ?use = "with_record h record_number (\<lambda>rec. write_record enc cs rec out_sqlstate out_native out_message max_size out_size)"
  have "same_diagnostics st (snd (if_record h record_number ?use st))"
    by (rule if_record_same [OF assms]) (rule with_record_same, auto simp: same_diagnostics_def)
  then show ?thesis
    unfolding GetDiagRec_def by (intro call_skip_same [OF assms]) (auto simp: same_diagnostics_refl [OF assms])
qed

lemma GetDiagField_same:
  assumes "\<forall>h. diag_ok (diags st h)"
  shows "same_diagnostics st (snd (GetDiagField enc cs handle_type h record_number field_id out_message max_size out_size st))"
proof -
  let ?read = "\<lambda>n. with_record h n (write_field enc cs field_id out_message max_size out_size)"
  have "same_diagnostics st (snd (if_record h n (?read n) st))" for n
    by (rule if_record_same [OF assms]) (rule with_record_same, auto simp: same_diagnostics_def)
  moreover have "same_diagnostics st (snd (?read 0 st))" by (rule with_record_same [OF assms]) simp
  ultimately show ?thesis
    unfolding GetDiagField_def by (intro call_skip_same [OF assms]) (auto simp: Let_def same_diagnostics_refl [OF assms])
qed

text \<open>C27: reading diagnostics, by record or by field, with any number of the record and whatever the
  buffers, changes neither the records nor the return code of any object, whether it succeeds or fails; so an
  application can ask for records until there are no more and then read them again.\<close>

theorem diagnostics_are_only_read:
  assumes "\<forall>h. diag_ok (diags st h)"
  shows "same_diagnostics st (snd (GetDiagRec enc cs handle_type h record_number out_sqlstate out_native out_message max_size out_size st))
    \<and> same_diagnostics st (snd (GetDiagField enc cs handle_type h record_number field_id out_message max_size out_size st))"
  using GetDiagRec_same [OF assms] GetDiagField_same [OF assms] by blast

section \<open>What is read\<close>

lemma GetDiagRec_live:
  assumes "descendants st h = Some k" "h \<noteq> 0" "handle_type = 0 \<or> handle_type = getObjectHandleType k"
    and "diag_ok (diags st h)" "0 \<le> max_size" "1 \<le> n"
  shows "n \<le> diag_count (diags st h) \<Longrightarrow> \<exists>st0. memory st0 = memory st \<and>
      GetDiagRec enc cs handle_type h (int n) ps pn pm max_size pl st
        = (case write_record enc cs (diag_list (diags st h) ! (n - 1)) ps pn pm max_size pl (memory st) of
             (Inl e, m) \<Rightarrow> (case caught e of None \<Rightarrow> (Inl e, st0\<lparr>memory := m\<rparr>) | Some (rc, _) \<Rightarrow> (Inr rc, st0\<lparr>memory := m\<rparr>))
           | (Inr rc, m) \<Rightarrow> (Inr rc, st0\<lparr>memory := m\<rparr>))"
    and "diag_count (diags st h) < n \<Longrightarrow> \<exists>st'. memory st' = memory st
      \<and> GetDiagRec enc cs handle_type h (int n) ps pn pm max_size pl st = (Inr SQL_NO_DATA, st')"
proof -
  let ?d = "diag_get 0 (diags st h)"
  let ?st1 = "st\<lparr>diags := (diags st)(h := ?d)\<rparr>"
  have d: "diag_ok ?d" "diag_count ?d = diag_count (diags st h)"
    using diag_get_facts(1,3) [OF assms(4)] by (simp_all add: diag_limit_def)
  { assume n: "n \<le> diag_count (diags st h)"
    then have lim: "n < diag_limit" using diag_count_limit [OF assms(4)] by simp
    let ?st2 = "?st1\<lparr>diags := (diags ?st1)(h := diag_get n ?d)\<rparr>"
    have "diag_get n ?d ! n = ?d ! n" using diag_get_facts(5) [OF d(1) lim] n assms(6) d(2) by simp
    also have "\<dots> = diags st h ! n" using diag_get_facts(5) [OF assms(4), of 0 n] n assms(6) by (simp add: diag_limit_def)
    also have "\<dots> = diag_list (diags st h) ! (n - 1)" using n assms(6) by (simp add: diag_list_def diag.nth_contents)
    finally have rec: "diag_get n ?d ! n = diag_list (diags st h) ! (n - 1)" .
    have "GetDiagRec enc cs handle_type h (int n) ps pn pm max_size pl st
        = (case write_record enc cs (diag_list (diags st h) ! (n - 1)) ps pn pm max_size pl (memory st) of
             (Inl e, m) \<Rightarrow> (case caught e of None \<Rightarrow> (Inl e, ?st2\<lparr>memory := m\<rparr>) | Some (rc, _) \<Rightarrow> (Inr rc, ?st2\<lparr>memory := m\<rparr>))
           | (Inr rc, m) \<Rightarrow> (Inr rc, ?st2\<lparr>memory := m\<rparr>))"
      using assms n by (auto simp: GetDiagRec_def call_def call_object_def doCall_def unless_skipped_def if_record_eq with_record_def
        getDiagStatus_get [OF d(1) lim] rec in_memory_def split: prod.split sum.split option.split)
    moreover have "memory ?st2 = memory st" by simp
    ultimately show "\<exists>st0. memory st0 = memory st \<and>
      GetDiagRec enc cs handle_type h (int n) ps pn pm max_size pl st
        = (case write_record enc cs (diag_list (diags st h) ! (n - 1)) ps pn pm max_size pl (memory st) of
             (Inl e, m) \<Rightarrow> (case caught e of None \<Rightarrow> (Inl e, st0\<lparr>memory := m\<rparr>) | Some (rc, _) \<Rightarrow> (Inr rc, st0\<lparr>memory := m\<rparr>))
           | (Inr rc, m) \<Rightarrow> (Inr rc, st0\<lparr>memory := m\<rparr>))" by blast }
  assume n: "diag_count (diags st h) < n"
  have "GetDiagRec enc cs handle_type h (int n) ps pn pm max_size pl st = (Inr SQL_NO_DATA, ?st1)"
    using assms n by (auto simp: GetDiagRec_def call_def call_object_def doCall_def unless_skipped_def if_record_eq)
  moreover have "memory ?st1 = memory st" by simp
  ultimately show "\<exists>st'. memory st' = memory st
      \<and> GetDiagRec enc cs handle_type h (int n) ps pn pm max_size pl st = (Inr SQL_NO_DATA, st')" by blast
qed

text \<open>C23: an error reaches the application whole: when the function that a call runs throws, the call returns
  the return code, and asking for the record behind those that function made itself gives the SQLSTATE, the
  native code 1 and the message in the context of the query, all of it or as much as the buffer takes (and
  then \<open>SQL_SUCCESS_WITH_INFO\<close>), terminated, with its full length; there is no record behind it.\<close>

theorem error_reaches_application:
  assumes "descendants st h = Some k" and "h \<noteq> 0" and "handle_type = 0 \<or> handle_type = getObjectHandleType k"
    and "callable k = Some run" and "diag_ok (diags st h)"
    and "run h (cleared h st) = (Inl e, st2)" and "caught e = Some (rc, state, msg, code)"
    and "descendants st2 h = Some k" and "diag_ok (diags st2 h)" and "diag_count (diags st2 h) + 1 < diag_limit"
    and "text = addContextInfoToExceptionMessage msg code h handle_type st2"
    and "0 < cs" "cs \<le> 4" "length (enc state) = 5 * cs" "length (enc text) = n * cs" "n < 32768" "0 < room" "room < 32768"
    and "ps \<noteq> 0" "pn \<noteq> 0" "pm \<noteq> 0" "pl \<noteq> 0" "pn \<noteq> pl" "ps + int (6 * cs) \<le> pm \<or> pm + int (room * cs) \<le> ps"
  shows "\<exists>st'. call callable h handle_type False st = (Inr rc, st')
    \<and> (\<exists>st''. GetDiagRec enc cs handle_type h (int (diag_count (diags st2 h) + 1)) ps pn pm (int room) pl st'
          = (Inr (if room \<le> n then SQL_SUCCESS_WITH_INFO else SQL_SUCCESS), st'')
        \<and> peek_bytes ps (6 * cs) (memory st'') = enc state @ replicate cs (CHR 0x00)
        \<and> mem_lens (memory st'') pn = 1
        \<and> peek_bytes pm (min n (room - 1) * cs + cs) (memory st'') = take (min n (room - 1) * cs) (enc text) @ replicate cs (CHR 0x00)
        \<and> mem_lens (memory st'') pl = int n)
    \<and> (\<exists>st''. GetDiagRec enc cs handle_type h (int (diag_count (diags st2 h) + 2)) ps pn pm (int room) pl st' = (Inr SQL_NO_DATA, st''))"
proof -
  let ?i = "diag_count (diags st2 h) + 1"
  obtain d where d: "fillDiag_rc rc state text (Some 1) (diags st2 h) = Inr d" "diag_ok d"
      "diag_list d = diag_list (diags st2 h) @ [diag_record state text (Some 1)]"
    using fillDiag_rc_appends [OF assms(9,10)] by blast
  let ?st' = "st2\<lparr>diags := (diags st2)(h := d)\<rparr>"
  have ran: "doCall (callable k) h False st = (Inl e, st2)"
    using doCall_run [OF assms(5)] assms(1,4,6) by (simp add: doCall_def)
  have called: "call callable h handle_type False st = (Inr rc, ?st')"
    using assms(1,2,3,7,8,11) d(1) ran by (auto simp: call_def call_object_def unless_skipped_def on_diag_def)
  have count: "diag_count d = ?i" using arg_cong [OF d(3), of length] by (simp add: diag_list_def)
  have len: "length (diag_list (diags st2 h)) = diag_count (diags st2 h)" by (simp add: diag_list_def)
  have rec: "diag_list d ! (?i - 1) = diag_record state text (Some (as_int32 1))" by (simp add: d(3) len nth_append as_int32_def)
  have live: "descendants ?st' h = Some k" "diag_ok (diags ?st' h)" using assms(8) d(2) by simp_all
  obtain m where m: "write_record enc cs (diag_record state text (Some (as_int32 1))) ps pn pm (int room) pl (memory ?st')
       = (if room \<le> n then Inl right_truncated else Inr SQL_SUCCESS, m)"
    "peek_bytes ps (6 * cs) m = enc state @ replicate cs (CHR 0x00)" "mem_lens m pn = as_int32 1"
    "peek_bytes pm (min n (room - 1) * cs + cs) m = take (min n (room - 1) * cs) (enc text) @ replicate cs (CHR 0x00)" "mem_lens m pl = int n"
    by (rule write_record_memory [where enc = enc and state = state and msg = "text", OF assms(12-24)]) blast
  obtain st0 where "GetDiagRec enc cs handle_type h (int ?i) ps pn pm (int room) pl ?st'
      = (Inr (if room \<le> n then SQL_SUCCESS_WITH_INFO else SQL_SUCCESS), st0\<lparr>memory := m\<rparr>)"
    using GetDiagRec_live(1) [OF live(1) assms(2,3) live(2), of "int room" ?i enc cs ps pn pm pl] count rec m(1)
    by (auto simp: right_truncated_def caught_def)
  moreover obtain st3 where "GetDiagRec enc cs handle_type h (int (diag_count (diags st2 h) + 2)) ps pn pm (int room) pl ?st' = (Inr SQL_NO_DATA, st3)"
    using GetDiagRec_live(2) [OF live(1) assms(2,3) live(2), of "int room" "diag_count (diags st2 h) + 2" enc cs ps pn pm pl] count by auto
  moreover have "memory (st0\<lparr>memory := m\<rparr>) = m" by simp
  ultimately show ?thesis using called m(2-5) by (auto simp: as_int32_def)
qed

section \<open>Witnesses\<close>

definition one_connection_app :: app_driver where
  "one_connection_app = \<lparr>descendants = [20 \<mapsto> Connection], environments = [10], connections = [(10, 20)], statements = [], descriptors = [],
     implicit_descs = (\<lambda>_. []), diags = (\<lambda>_. []), query_ids = (\<lambda>_. []), handle_vars = (\<lambda>_. 0), memory = blank_memory\<rparr>"

theorem diagnostics_are_only_read_witness:
  "same_diagnostics one_connection_app (snd (GetDiagRec id 1 2 20 5 100 1 200 10 2 one_connection_app))
    \<and> same_diagnostics one_connection_app (snd (GetDiagField id 1 2 20 5 SQL_DIAG_MESSAGE_TEXT 200 10 2 one_connection_app))"
  by (rule diagnostics_are_only_read) (simp add: one_connection_app_def)

theorem error_reaches_application_witness:
  "\<exists>st'. call (only_for Connection (\<lambda>_ st. (Inl (SqlException ''refused'' ''08001''), st))) 20 2 False one_connection_app = (Inr SQL_ERROR, st')
    \<and> (\<exists>st''. GetDiagRec id 1 2 20 (int (diag_count (diags (cleared 20 one_connection_app) 20) + 1)) 100 1 200 (int 5) 2 st'
          = (Inr (if 5 \<le> (7::nat) then SQL_SUCCESS_WITH_INFO else SQL_SUCCESS), st'')
        \<and> peek_bytes 100 (6 * 1) (memory st'') = id ''08001'' @ replicate 1 (CHR 0x00)
        \<and> mem_lens (memory st'') 1 = 1
        \<and> peek_bytes 200 (min 7 (5 - 1) * 1 + 1) (memory st'') = take (min 7 (5 - 1) * 1) (id ''refused'') @ replicate 1 (CHR 0x00)
        \<and> mem_lens (memory st'') 2 = int 7)
    \<and> (\<exists>st''. GetDiagRec id 1 2 20 (int (diag_count (diags (cleared 20 one_connection_app) 20) + 2)) 100 1 200 (int 5) 2 st' = (Inr SQL_NO_DATA, st''))"
  by (rule error_reaches_application [where k = Connection and e = "SqlException ''refused'' ''08001''" and msg = "''refused''" and code = "[]"
      and run = "\<lambda>_ st. (Inl (SqlException ''refused'' ''08001''), st)"])
    (simp_all add: one_connection_app_def only_for_def getObjectHandleType_def caught_def SqlException_def cleared_diags cleared_count
      diag_limit_def addContextInfoToExceptionMessage_def)

end
