(* ===== verification/Desc_Api.thy ===== *)
theory Desc_Api
  imports Diag_Api Binding
begin

text \<open>
  Descriptors by their handles, and the descriptors of a statement: \<open>GetDescField\<close>, \<open>GetDescRec\<close>,
  \<open>SetDescField\<close>, \<open>SetDescRec\<close>, \<open>CopyDesc\<close>, \<open>NumParams\<close>, \<open>DescribeParam\<close>, \<open>SetStmtAttr\<close> and \<open>GetStmtAttr\<close> of
  driver/api/impl/impl.cpp, \<open>getEffectiveDescriptor\<close> of driver/statement.cpp. The state adds to the driver
  and the memory of the application what is behind the handles. A statement refers to a descriptor that the
  application gave it by a weak pointer, which expires when the descriptor is destroyed.
\<close>

section \<open>Constants\<close>

abbreviation (input) SQL_DESC_UNSIGNED :: int where "SQL_DESC_UNSIGNED \<equiv> 8"
abbreviation (input) SQL_DESC_DISPLAY_SIZE :: int where "SQL_DESC_DISPLAY_SIZE \<equiv> 6"
abbreviation (input) SQL_DESC_FIXED_PREC_SCALE :: int where "SQL_DESC_FIXED_PREC_SCALE \<equiv> 9"
abbreviation (input) SQL_DESC_UPDATABLE :: int where "SQL_DESC_UPDATABLE \<equiv> 10"
abbreviation (input) SQL_DESC_AUTO_UNIQUE_VALUE :: int where "SQL_DESC_AUTO_UNIQUE_VALUE \<equiv> 11"
abbreviation (input) SQL_DESC_CASE_SENSITIVE :: int where "SQL_DESC_CASE_SENSITIVE \<equiv> 12"
abbreviation (input) SQL_DESC_SEARCHABLE :: int where "SQL_DESC_SEARCHABLE \<equiv> 13"
abbreviation (input) SQL_DESC_TYPE_NAME :: int where "SQL_DESC_TYPE_NAME \<equiv> 14"
abbreviation (input) SQL_DESC_TABLE_NAME :: int where "SQL_DESC_TABLE_NAME \<equiv> 15"
abbreviation (input) SQL_DESC_SCHEMA_NAME :: int where "SQL_DESC_SCHEMA_NAME \<equiv> 16"
abbreviation (input) SQL_DESC_CATALOG_NAME :: int where "SQL_DESC_CATALOG_NAME \<equiv> 17"
abbreviation (input) SQL_DESC_LABEL :: int where "SQL_DESC_LABEL \<equiv> 18"
abbreviation (input) SQL_DESC_BASE_COLUMN_NAME :: int where "SQL_DESC_BASE_COLUMN_NAME \<equiv> 22"
abbreviation (input) SQL_DESC_BASE_TABLE_NAME :: int where "SQL_DESC_BASE_TABLE_NAME \<equiv> 23"
abbreviation (input) SQL_DESC_LITERAL_PREFIX :: int where "SQL_DESC_LITERAL_PREFIX \<equiv> 27"
abbreviation (input) SQL_DESC_LITERAL_SUFFIX :: int where "SQL_DESC_LITERAL_SUFFIX \<equiv> 28"
abbreviation (input) SQL_DESC_LOCAL_TYPE_NAME :: int where "SQL_DESC_LOCAL_TYPE_NAME \<equiv> 29"
abbreviation (input) SQL_DESC_NUM_PREC_RADIX :: int where "SQL_DESC_NUM_PREC_RADIX \<equiv> 32"
abbreviation (input) SQL_PRED_SEARCHABLE :: int where "SQL_PRED_SEARCHABLE \<equiv> 3"
abbreviation (input) SQL_ATTR_READWRITE_UNKNOWN :: int where "SQL_ATTR_READWRITE_UNKNOWN \<equiv> 2"
abbreviation (input) SQL_NULLABLE_UNKNOWN :: int where "SQL_NULLABLE_UNKNOWN \<equiv> 2"

abbreviation (input) SQL_ATTR_QUERY_TIMEOUT :: int where "SQL_ATTR_QUERY_TIMEOUT \<equiv> 0"
abbreviation (input) SQL_ATTR_MAX_ROWS :: int where "SQL_ATTR_MAX_ROWS \<equiv> 1"
abbreviation (input) SQL_ATTR_NOSCAN :: int where "SQL_ATTR_NOSCAN \<equiv> 2"
abbreviation (input) SQL_ATTR_MAX_LENGTH :: int where "SQL_ATTR_MAX_LENGTH \<equiv> 3"
abbreviation (input) SQL_ATTR_ASYNC_ENABLE :: int where "SQL_ATTR_ASYNC_ENABLE \<equiv> 4"
abbreviation (input) SQL_ATTR_ROW_BIND_TYPE :: int where "SQL_ATTR_ROW_BIND_TYPE \<equiv> 5"
abbreviation (input) SQL_ATTR_CURSOR_TYPE :: int where "SQL_ATTR_CURSOR_TYPE \<equiv> 6"
abbreviation (input) SQL_ATTR_CONCURRENCY :: int where "SQL_ATTR_CONCURRENCY \<equiv> 7"
abbreviation (input) SQL_ATTR_KEYSET_SIZE :: int where "SQL_ATTR_KEYSET_SIZE \<equiv> 8"
abbreviation (input) SQL_ATTR_SIMULATE_CURSOR :: int where "SQL_ATTR_SIMULATE_CURSOR \<equiv> 10"
abbreviation (input) SQL_ATTR_RETRIEVE_DATA :: int where "SQL_ATTR_RETRIEVE_DATA \<equiv> 11"
abbreviation (input) SQL_ATTR_USE_BOOKMARKS :: int where "SQL_ATTR_USE_BOOKMARKS \<equiv> 12"
abbreviation (input) SQL_ATTR_ROW_NUMBER :: int where "SQL_ATTR_ROW_NUMBER \<equiv> 14"
abbreviation (input) SQL_ATTR_ENABLE_AUTO_IPD :: int where "SQL_ATTR_ENABLE_AUTO_IPD \<equiv> 15"
abbreviation (input) SQL_ATTR_FETCH_BOOKMARK_PTR :: int where "SQL_ATTR_FETCH_BOOKMARK_PTR \<equiv> 16"
abbreviation (input) SQL_ATTR_PARAM_BIND_OFFSET_PTR :: int where "SQL_ATTR_PARAM_BIND_OFFSET_PTR \<equiv> 17"
abbreviation (input) SQL_ATTR_PARAM_BIND_TYPE :: int where "SQL_ATTR_PARAM_BIND_TYPE \<equiv> 18"
abbreviation (input) SQL_ATTR_PARAM_OPERATION_PTR :: int where "SQL_ATTR_PARAM_OPERATION_PTR \<equiv> 19"
abbreviation (input) SQL_ATTR_PARAM_STATUS_PTR :: int where "SQL_ATTR_PARAM_STATUS_PTR \<equiv> 20"
abbreviation (input) SQL_ATTR_PARAMS_PROCESSED_PTR :: int where "SQL_ATTR_PARAMS_PROCESSED_PTR \<equiv> 21"
abbreviation (input) SQL_ATTR_PARAMSET_SIZE :: int where "SQL_ATTR_PARAMSET_SIZE \<equiv> 22"
abbreviation (input) SQL_ATTR_ROW_BIND_OFFSET_PTR :: int where "SQL_ATTR_ROW_BIND_OFFSET_PTR \<equiv> 23"
abbreviation (input) SQL_ATTR_ROW_OPERATION_PTR :: int where "SQL_ATTR_ROW_OPERATION_PTR \<equiv> 24"
abbreviation (input) SQL_ATTR_ROW_STATUS_PTR :: int where "SQL_ATTR_ROW_STATUS_PTR \<equiv> 25"
abbreviation (input) SQL_ATTR_ROWS_FETCHED_PTR :: int where "SQL_ATTR_ROWS_FETCHED_PTR \<equiv> 26"
abbreviation (input) SQL_ATTR_ROW_ARRAY_SIZE :: int where "SQL_ATTR_ROW_ARRAY_SIZE \<equiv> 27"
abbreviation (input) SQL_ATTR_METADATA_ID :: int where "SQL_ATTR_METADATA_ID \<equiv> 10014"
abbreviation (input) SQL_ATTR_CURSOR_SCROLLABLE :: int where "SQL_ATTR_CURSOR_SCROLLABLE \<equiv> - 1"
abbreviation (input) SQL_ATTR_CURSOR_SENSITIVITY :: int where "SQL_ATTR_CURSOR_SENSITIVITY \<equiv> - 2"
abbreviation (input) SQL_NONSCROLLABLE :: int where "SQL_NONSCROLLABLE \<equiv> 0"
abbreviation (input) SQL_INSENSITIVE :: int where "SQL_INSENSITIVE \<equiv> 1"
abbreviation (input) SQL_ASYNC_ENABLE_OFF :: int where "SQL_ASYNC_ENABLE_OFF \<equiv> 0"
abbreviation (input) SQL_CONCUR_READ_ONLY :: int where "SQL_CONCUR_READ_ONLY \<equiv> 1"
abbreviation (input) SQL_CURSOR_FORWARD_ONLY :: int where "SQL_CURSOR_FORWARD_ONLY \<equiv> 0"
abbreviation (input) SQL_RD_ON :: int where "SQL_RD_ON \<equiv> 1"
abbreviation (input) SQL_UB_OFF :: int where "SQL_UB_OFF \<equiv> 0"
abbreviation (input) SQL_NOSCAN_OFF :: int where "SQL_NOSCAN_OFF \<equiv> 0"
abbreviation (input) SQL_FALSE :: int where "SQL_FALSE \<equiv> 0"
abbreviation (input) SQL_TRUE :: int where "SQL_TRUE \<equiv> 1"
text \<open>\<open>SQL_DRIVER_STMT_ATTR_BASE\<close> is \<open>0x00004000\<close>.\<close>

abbreviation (input) SQL_CH_STMT_ATTR_LAST_QUERY_ID :: int where "SQL_CH_STMT_ATTR_LAST_QUERY_ID \<equiv> 16386"
abbreviation (input) SQL_CH_STMT_ATTR_LAST_RESPONSE_CONTENT_ENCODING :: int where "SQL_CH_STMT_ATTR_LAST_RESPONSE_CONTENT_ENCODING \<equiv> 16387"

section \<open>State\<close>

record desc_driver = app_driver +
  contents :: "int \<Rightarrow> descriptor"
  explicit_descs :: "int \<Rightarrow> int \<Rightarrow> int"
  object_attrs :: "int \<Rightarrow> attrs"
  row_positions :: "int \<Rightarrow> nat option"
  content_encodings :: "int \<Rightarrow> string"

type_synonym desc_run = "desc_driver \<Rightarrow> int option result \<times> desc_driver"

definition descriptor_roles :: "int list" where
  "descriptor_roles = [SQL_ATTR_APP_ROW_DESC, SQL_ATTR_APP_PARAM_DESC, SQL_ATTR_IMP_ROW_DESC, SQL_ATTR_IMP_PARAM_DESC]"

definition implicit_desc :: "desc_driver \<Rightarrow> int \<Rightarrow> int \<Rightarrow> int" where
  "implicit_desc st s role = implicit_descs st s ! nat (role - SQL_ATTR_APP_ROW_DESC)"

text \<open>\<open>choose\<close>: the descriptor of the application if its weak pointer has not expired.\<close>

definition getEffectiveDescriptor :: "desc_driver \<Rightarrow> int \<Rightarrow> int \<Rightarrow> int" where
  "getEffectiveDescriptor st s role =
     (if explicit_descs st s role \<noteq> 0 then explicit_descs st s role else implicit_desc st s role)"

definition put_contents :: "int \<Rightarrow> descriptor \<Rightarrow> desc_driver \<Rightarrow> desc_driver" where
  "put_contents d c st = st\<lparr>contents := (contents st)(d := c)\<rparr>"

definition desc_in_memory :: "int mem_op \<Rightarrow> desc_run" where
  "desc_in_memory f st =
     (case f (memory st) of (Inl e, m) \<Rightarrow> (Inl e, st\<lparr>memory := m\<rparr>) | (Inr rc, m) \<Rightarrow> (Inr (Some rc), st\<lparr>memory := m\<rparr>))"

text \<open>A step on the driver alone, and the weak pointers after it.\<close>

definition on_driver :: "(driver \<Rightarrow> 'r \<times> driver) \<Rightarrow> desc_driver \<Rightarrow> 'r \<times> desc_driver" where
  "on_driver f st =
     (case f (driver.truncate st) of (r, d) \<Rightarrow> (r, driver.extend d (driver.more st)))"

definition expire :: "desc_driver \<Rightarrow> desc_driver" where
  "expire st = st\<lparr>explicit_descs := (\<lambda>s role. if descendants st (explicit_descs st s role) = Some Descriptor then explicit_descs st s role else 0)\<rparr>"

definition free_handle :: "int \<Rightarrow> int \<Rightarrow> desc_driver \<Rightarrow> int result \<times> desc_driver" where
  "free_handle handle_type h st = (case on_driver (SQLFreeHandle handle_type h) st of (r, st1) \<Rightarrow> (r, expire st1))"

section \<open>Types of fields\<close>

text \<open>The C types of the fields: integers of a number of bytes; pointers are unsigned.\<close>

datatype int_type = Signed nat | Unsigned nat

fun int_type_size :: "int_type \<Rightarrow> nat" where
  "int_type_size (Signed n) = n" | "int_type_size (Unsigned n) = n"

fun cast_to :: "int_type \<Rightarrow> int \<Rightarrow> int" where
  "cast_to (Signed n) v = signed_take_bit (8 * n - 1) v"
| "cast_to (Unsigned n) v = take_bit (8 * n) v"

abbreviation (input) t_SQLSMALLINT :: int_type where "t_SQLSMALLINT \<equiv> Signed 2"
abbreviation (input) t_SQLINTEGER :: int_type where "t_SQLINTEGER \<equiv> Signed 4"
abbreviation (input) t_SQLUINTEGER :: int_type where "t_SQLUINTEGER \<equiv> Unsigned 4"
abbreviation (input) t_SQLLEN :: int_type where "t_SQLLEN \<equiv> Signed 8"
abbreviation (input) t_SQLULEN :: int_type where "t_SQLULEN \<equiv> Unsigned 8"
abbreviation (input) t_pointer :: int_type where "t_pointer \<equiv> Unsigned 8"

definition fill_int :: "int_type \<Rightarrow> int \<Rightarrow> attrs \<Rightarrow> int \<Rightarrow> int \<Rightarrow> int \<Rightarrow> int mem_op" where
  "fill_int ty def a field out out_length m =
     (case getAttrAs (cast_to ty) field def a of
        Inl e \<Rightarrow> (Inl e, m)
      | Inr v \<Rightarrow> fillOutputPOD (signed_bytes (int_type_size ty) v) out out_length m)"

datatype field_kind = Number int_type int | Text

definition get_header_field :: "int \<Rightarrow> (int_type \<times> int) option" where
  "get_header_field f =
     (if f = SQL_DESC_ALLOC_TYPE then Some (t_SQLSMALLINT, 0)
      else if f = SQL_DESC_ARRAY_SIZE then Some (t_SQLULEN, 1)
      else if f = SQL_DESC_ARRAY_STATUS_PTR then Some (t_pointer, 0)
      else if f = SQL_DESC_BIND_OFFSET_PTR then Some (t_pointer, 0)
      else if f = SQL_DESC_BIND_TYPE then Some (t_SQLUINTEGER, SQL_BIND_TYPE_DEFAULT)
      else if f = SQL_DESC_COUNT then Some (t_SQLSMALLINT, 0)
      else if f = SQL_DESC_ROWS_PROCESSED_PTR then Some (t_pointer, 0)
      else None)"

definition get_record_field :: "int \<Rightarrow> field_kind option" where
  "get_record_field f =
     (if f \<in> {SQL_DESC_BASE_COLUMN_NAME, SQL_DESC_BASE_TABLE_NAME, SQL_DESC_CATALOG_NAME, SQL_DESC_LABEL, SQL_DESC_LITERAL_PREFIX,
        SQL_DESC_LITERAL_SUFFIX, SQL_DESC_LOCAL_TYPE_NAME, SQL_DESC_NAME, SQL_DESC_SCHEMA_NAME, SQL_DESC_TABLE_NAME, SQL_DESC_TYPE_NAME} then Some Text
      else if f \<in> {SQL_DESC_AUTO_UNIQUE_VALUE, SQL_DESC_CASE_SENSITIVE, SQL_DESC_DATETIME_INTERVAL_PRECISION, SQL_DESC_DISPLAY_SIZE,
        SQL_DESC_NUM_PREC_RADIX} then Some (Number t_SQLINTEGER 0)
      else if f \<in> {SQL_DESC_CONCISE_TYPE, SQL_DESC_DATETIME_INTERVAL_CODE, SQL_DESC_FIXED_PREC_SCALE, SQL_DESC_NULLABLE, SQL_DESC_PARAMETER_TYPE,
        SQL_DESC_PRECISION, SQL_DESC_ROWVER, SQL_DESC_SCALE, SQL_DESC_TYPE, SQL_DESC_UNNAMED, SQL_DESC_UNSIGNED} then Some (Number t_SQLSMALLINT 0)
      else if f \<in> {SQL_DESC_DATA_PTR, SQL_DESC_INDICATOR_PTR, SQL_DESC_OCTET_LENGTH_PTR} then Some (Number t_pointer 0)
      else if f = SQL_DESC_LENGTH then Some (Number t_SQLULEN 0)
      else if f = SQL_DESC_OCTET_LENGTH then Some (Number t_SQLLEN 0)
      else if f = SQL_DESC_SEARCHABLE then Some (Number t_SQLSMALLINT SQL_PRED_SEARCHABLE)
      else if f = SQL_DESC_UPDATABLE then Some (Number t_SQLSMALLINT SQL_ATTR_READWRITE_UNKNOWN)
      else None)"

definition set_header_field :: "int \<Rightarrow> int_type option" where
  "set_header_field f =
     (if f \<in> {SQL_DESC_ALLOC_TYPE, SQL_DESC_COUNT} then Some t_SQLSMALLINT
      else if f = SQL_DESC_ARRAY_SIZE then Some t_SQLULEN
      else if f \<in> {SQL_DESC_ARRAY_STATUS_PTR, SQL_DESC_BIND_OFFSET_PTR, SQL_DESC_ROWS_PROCESSED_PTR} then Some t_pointer
      else if f = SQL_DESC_BIND_TYPE then Some t_SQLUINTEGER
      else None)"

datatype set_kind = Set_number int_type | Set_text

definition set_record_field :: "int \<Rightarrow> set_kind option" where
  "set_record_field f =
     (if f \<in> {SQL_DESC_AUTO_UNIQUE_VALUE, SQL_DESC_CASE_SENSITIVE, SQL_DESC_DATETIME_INTERVAL_PRECISION, SQL_DESC_DISPLAY_SIZE,
        SQL_DESC_NUM_PREC_RADIX} then Some (Set_number t_SQLINTEGER)
      else if f \<in> {SQL_DESC_CONCISE_TYPE, SQL_DESC_DATETIME_INTERVAL_CODE, SQL_DESC_FIXED_PREC_SCALE, SQL_DESC_NULLABLE, SQL_DESC_PARAMETER_TYPE,
        SQL_DESC_PRECISION, SQL_DESC_ROWVER, SQL_DESC_SCALE, SQL_DESC_SEARCHABLE, SQL_DESC_TYPE, SQL_DESC_UNNAMED, SQL_DESC_UNSIGNED,
        SQL_DESC_UPDATABLE} then Some (Set_number t_SQLSMALLINT)
      else if f \<in> {SQL_DESC_DATA_PTR, SQL_DESC_INDICATOR_PTR, SQL_DESC_OCTET_LENGTH_PTR} then Some (Set_number t_pointer)
      else if f = SQL_DESC_LENGTH then Some (Set_number t_SQLULEN)
      else if f = SQL_DESC_OCTET_LENGTH then Some (Set_number t_SQLLEN)
      else if f \<in> {SQL_DESC_BASE_COLUMN_NAME, SQL_DESC_BASE_TABLE_NAME, SQL_DESC_CATALOG_NAME, SQL_DESC_LABEL, SQL_DESC_LITERAL_PREFIX,
        SQL_DESC_LITERAL_SUFFIX, SQL_DESC_LOCAL_TYPE_NAME, SQL_DESC_NAME, SQL_DESC_SCHEMA_NAME, SQL_DESC_TABLE_NAME, SQL_DESC_TYPE_NAME} then Some Set_text
      else None)"

section \<open>Fields of a descriptor\<close>

abbreviation (input) bad_index :: exn where "bad_index \<equiv> SqlException ''Invalid descriptor index'' ''07009''"

definition get_record_value :: "(string \<Rightarrow> string) \<Rightarrow> nat \<Rightarrow> int \<Rightarrow> int \<Rightarrow> int \<Rightarrow> int \<Rightarrow> attrs \<Rightarrow> int mem_op" where
  "get_record_value enc cs f out max_size out_length rec m =
     (case get_record_field f of
        None \<Rightarrow> (Inr SQL_SUCCESS, m)
      | Some (Number ty def) \<Rightarrow> fill_int ty def rec f out out_length m
      | Some Text \<Rightarrow>
          narrow_length as_int32 out_length (fillOutputString cs (enc (getAttrAs_string f [] rec)) out max_size out_length True True 0) m)"

text \<open>The record of a descriptor the functions ask for; \<open>SQL_NO_DATA\<close> beyond the count.\<close>

definition with_desc_record :: "int \<Rightarrow> int \<Rightarrow> (attrs \<Rightarrow> int mem_op) \<Rightarrow> desc_run" where
  "with_desc_record d n use st =
     (if n < 0 then (Inl bad_index, st)
      else
        (case getRecordCount (contents st d) of
           Inl e \<Rightarrow> (Inl e, st)
         | Inr count \<Rightarrow>
             if int count < n then (Inr (Some SQL_NO_DATA), st)
             else
               (case getRecord (nat n) SQL_ATTR_APP_ROW_DESC (contents st d) of
                  Inl e \<Rightarrow> (Inl e, st)
                | Inr c \<Rightarrow> desc_in_memory (use (desc_records c ! nat n)) (put_contents d c st))))"

definition get_desc_field :: "(string \<Rightarrow> string) \<Rightarrow> nat \<Rightarrow> int \<Rightarrow> int \<Rightarrow> int \<Rightarrow> int \<Rightarrow> int \<Rightarrow> int \<Rightarrow> desc_run" where
  "get_desc_field enc cs rec_number f out max_size out_length d st =
     (case get_header_field f of
        Some (ty, def) \<Rightarrow> desc_in_memory (fill_int ty def (desc_attrs (contents st d)) f out out_length) st
      | None \<Rightarrow> with_desc_record d rec_number (get_record_value enc cs f out max_size out_length) st)"

definition GetDescField ::
  "(string \<Rightarrow> string) \<Rightarrow> nat \<Rightarrow> int \<Rightarrow> int \<Rightarrow> int \<Rightarrow> int \<Rightarrow> int \<Rightarrow> int \<Rightarrow> desc_driver \<Rightarrow> int result \<times> desc_driver" where
  "GetDescField enc cs h rec_number f out max_size out_length =
     call (only_for Descriptor (get_desc_field enc cs rec_number f out max_size out_length)) h SQL_HANDLE_DESC False"

text \<open>A C string of the application; one without a terminator is never at its end.\<close>

partial_function (option) c_string :: "int \<Rightarrow> app_memory \<Rightarrow> string option" where
  "c_string p m =
     (if mem_bytes m p = CHR 0x00 then Some []
      else Option.bind (c_string (p + 1) m) (\<lambda>s. Some (mem_bytes m p # s)))"

definition text_argument :: "int \<Rightarrow> int \<Rightarrow> app_memory \<Rightarrow> string result" where
  "text_argument p len m =
     (if p = 0 then Inr []
      else if 0 < len then Inr (peek_bytes p (nat len) m)
      else if len = SQL_NTS then
        (case c_string p m of None \<Rightarrow> Inl (Undefined_Behaviour ''text without terminator'') | Some s \<Rightarrow> Inr s)
      else Inr [])"

text \<open>A change of a record of the descriptor, kept when it throws.\<close>

definition change_record :: "int \<Rightarrow> nat \<Rightarrow> unit attr_op \<Rightarrow> desc_run" where
  "change_record d n change st =
     (case getRecord n SQL_ATTR_APP_ROW_DESC (contents st d) of
        Inl e \<Rightarrow> (Inl e, st)
      | Inr c \<Rightarrow>
          (case on_record n change c of
             (Inl e, c') \<Rightarrow> (Inl e, put_contents d c' st)
           | (Inr _, c') \<Rightarrow> (Inr (Some SQL_SUCCESS), put_contents d c' st)))"

definition set_text_attr :: "int \<Rightarrow> string \<Rightarrow> unit attr_op" where
  "set_text_attr f s = setAttr onAttrChange f (Str_attr s)"

definition set_field_op :: "int \<Rightarrow> int \<Rightarrow> int \<Rightarrow> app_memory \<Rightarrow> unit attr_op" where
  "set_field_op f v len m =
     (case set_record_field f of
        None \<Rightarrow> op_return ()
      | Some (Set_number ty) \<Rightarrow> set_attr f (as_int64 (cast_to ty v))
      | Some Set_text \<Rightarrow> op_bind (op_result (text_argument v len m)) (set_text_attr f))"

definition set_desc_field :: "int \<Rightarrow> int \<Rightarrow> int \<Rightarrow> int \<Rightarrow> int \<Rightarrow> desc_run" where
  "set_desc_field rec_number f v len d st =
     (case set_header_field f of
        Some ty \<Rightarrow> (Inr (Some SQL_SUCCESS), put_contents d (set_desc_attr f (as_int64 (cast_to ty v)) (contents st d)) st)
      | None \<Rightarrow>
          if rec_number < 0 then (Inl bad_index, st)
          else change_record d (nat rec_number) (set_field_op f v len (memory st)) st)"

definition SetDescField :: "int \<Rightarrow> int \<Rightarrow> int \<Rightarrow> int \<Rightarrow> int \<Rightarrow> desc_driver \<Rightarrow> int result \<times> desc_driver" where
  "SetDescField h rec_number f v len = call (only_for Descriptor (set_desc_field rec_number f v len)) h SQL_HANDLE_DESC False"

section \<open>Records of a descriptor\<close>

text \<open>An attribute that holds an integer is written to a variable; reading it never throws.\<close>

definition put_attr :: "int \<Rightarrow> int_type \<Rightarrow> int \<Rightarrow> attrs \<Rightarrow> app_memory \<Rightarrow> app_memory" where
  "put_attr p ty f rec m =
     (if p \<noteq> 0 \<and> hasAttrInteger f rec
      then (case getAttrAs (cast_to ty) f 0 rec of Inl _ \<Rightarrow> m | Inr v \<Rightarrow> write_len p v m) else m)"

record desc_rec_outputs =
  o_Name :: int
  o_BufferLength :: int
  o_StringLengthPtr :: int
  o_TypePtr :: int
  o_SubTypePtr :: int
  o_LengthPtr :: int
  o_PrecisionPtr :: int
  o_ScalePtr :: int
  o_NullablePtr :: int

definition write_desc_rec :: "(string \<Rightarrow> string) \<Rightarrow> nat \<Rightarrow> desc_rec_outputs \<Rightarrow> attrs \<Rightarrow> int mem_op" where
  "write_desc_rec enc cs out rec m =
     (case getAttrAs as_int16 SQL_DESC_TYPE 0 rec of
        Inl e \<Rightarrow> (Inl e, m)
      | Inr type \<Rightarrow>
          (let m1 = put_attr (o_TypePtr out) t_SQLSMALLINT SQL_DESC_TYPE rec m;
               m2 = (if hasAttrInteger SQL_DESC_TYPE rec \<and> isVerboseType type
                     then put_attr (o_SubTypePtr out) t_SQLSMALLINT SQL_DESC_DATETIME_INTERVAL_CODE rec m1 else m1);
               m3 = put_attr (o_LengthPtr out) t_SQLLEN SQL_DESC_OCTET_LENGTH rec m2;
               m4 = put_attr (o_PrecisionPtr out) t_SQLSMALLINT SQL_DESC_PRECISION rec m3;
               m5 = put_attr (o_ScalePtr out) t_SQLSMALLINT SQL_DESC_SCALE rec m4;
               m6 = put_attr (o_NullablePtr out) t_SQLSMALLINT SQL_DESC_NULLABLE rec m5 in
           narrow_length as_int16 (o_StringLengthPtr out)
             (fillOutputString cs (enc (getAttrAs_string SQL_DESC_NAME [] rec)) (o_Name out) (o_BufferLength out) (o_StringLengthPtr out)
               False True 0) m6))"

definition GetDescRec :: "(string \<Rightarrow> string) \<Rightarrow> nat \<Rightarrow> int \<Rightarrow> int \<Rightarrow> desc_rec_outputs \<Rightarrow> desc_driver \<Rightarrow> int result \<times> desc_driver" where
  "GetDescRec enc cs h rec_number out =
     call (only_for Descriptor (\<lambda>d. with_desc_record d rec_number (write_desc_rec enc cs out))) h SQL_HANDLE_DESC False"

definition set_desc_rec :: "int \<Rightarrow> int \<Rightarrow> int \<Rightarrow> int \<Rightarrow> int \<Rightarrow> int \<Rightarrow> int \<Rightarrow> int \<Rightarrow> unit attr_op" where
  "set_desc_rec type sub_type len prec sc data_ptr length_ptr indicator_ptr =
     op_then (set_attr SQL_DESC_TYPE type)
     (op_then (op_when (isVerboseType type) (set_attr SQL_DESC_DATETIME_INTERVAL_CODE sub_type))
     (op_then (set_attr SQL_DESC_OCTET_LENGTH len)
     (op_then (set_attr SQL_DESC_PRECISION prec)
     (op_then (set_attr SQL_DESC_SCALE sc)
     (op_then (set_attr SQL_DESC_OCTET_LENGTH_PTR length_ptr)
     (op_then (set_attr SQL_DESC_INDICATOR_PTR indicator_ptr)
              (set_attr SQL_DESC_DATA_PTR data_ptr)))))))"

text \<open>A negative number is not checked: it asks for about \<open>2^64\<close> records, which no memory holds.\<close>

definition SetDescRec ::
  "int \<Rightarrow> int \<Rightarrow> int \<Rightarrow> int \<Rightarrow> int \<Rightarrow> int \<Rightarrow> int \<Rightarrow> int \<Rightarrow> int \<Rightarrow> int \<Rightarrow> desc_driver \<Rightarrow> int result \<times> desc_driver" where
  "SetDescRec h rec_number type sub_type len prec sc data_ptr length_ptr indicator_ptr =
     call (only_for Descriptor (\<lambda>d st.
       if rec_number < 0 then (Inl (Runtime_Error ''std::bad_alloc''), st)
       else change_record d (nat rec_number) (set_desc_rec type sub_type len prec sc data_ptr length_ptr indicator_ptr) st))
       h SQL_HANDLE_DESC False"

section \<open>Two descriptors\<close>

text \<open>
  A step on another descriptor inside a call: the nested call leaves the diagnostics of that descriptor alone,
  its exceptions are thrown on, and \<open>SQL_INVALID_HANDLE\<close> becomes an exception of the outer call.
\<close>

definition on_other_descriptor :: "(int \<Rightarrow> desc_run) \<Rightarrow> int \<Rightarrow> desc_run" where
  "on_other_descriptor run d st =
     (if d \<noteq> 0 \<and> descendants st d = Some Descriptor then run d st
      else (Inl (SqlException ''Invalid attribute value'' ''HY024''), st))"

definition CopyDesc :: "int \<Rightarrow> int \<Rightarrow> desc_driver \<Rightarrow> int result \<times> desc_driver" where
  "CopyDesc source_handle target_handle =
     call (only_for Descriptor (\<lambda>target. on_other_descriptor (\<lambda>source st.
       case assign_descriptor (source = target) (contents st target) (contents st source) of
         Inl e \<Rightarrow> (Inl e, st)
       | Inr c \<Rightarrow> (Inr (Some SQL_SUCCESS), put_contents target c st)) source_handle)) target_handle SQL_HANDLE_DESC False"

section \<open>Parameters of a statement\<close>

definition null_pointer :: exn where
  "null_pointer = Undefined_Behaviour ''null pointer''"

definition NumParams :: "int \<Rightarrow> int \<Rightarrow> desc_driver \<Rightarrow> int result \<times> desc_driver" where
  "NumParams h out_parameter_count =
     call (only_for Statement (\<lambda>s st.
       case getRecordCount (contents st (getEffectiveDescriptor st s SQL_ATTR_IMP_PARAM_DESC)) of
         Inl e \<Rightarrow> (Inl e, st)
       | Inr n \<Rightarrow>
           if out_parameter_count = 0 then (Inl null_pointer, st)
           else (Inr (Some SQL_SUCCESS), st\<lparr>memory := write_len out_parameter_count (as_int16 (int n)) (memory st)\<rparr>)))
       h SQL_HANDLE_STMT False"

text \<open>\<open>hasColumnSize\<close> and \<open>hasDecimalDigits\<close> return false, so that the size and the digits are never written.\<close>

definition DescribeParam :: "int \<Rightarrow> nat \<Rightarrow> int \<Rightarrow> int \<Rightarrow> desc_driver \<Rightarrow> int result \<times> desc_driver" where
  "DescribeParam h parameter_number out_data_type_ptr out_nullable_ptr =
     call (only_for Statement (\<lambda>s st.
       let d = getEffectiveDescriptor st s SQL_ATTR_IMP_PARAM_DESC in
       case getRecordCount (contents st d) of
         Inl e \<Rightarrow> (Inl e, st)
       | Inr n \<Rightarrow>
           if n < parameter_number then (Inl bad_index, st)
           else
             (case getRecord parameter_number SQL_ATTR_IMP_PARAM_DESC (contents st d) of
                Inl e \<Rightarrow> (Inl e, st)
              | Inr c \<Rightarrow>
                  (let st1 = put_contents d c st; rec = desc_records c ! parameter_number in
                   if out_data_type_ptr = 0 \<or> out_nullable_ptr = 0 then (Inl null_pointer, st1)
                   else
                     (case (getAttrAs as_int16 SQL_DESC_CONCISE_TYPE 0 rec, getAttrAs as_int16 SQL_DESC_NULLABLE SQL_NULLABLE_UNKNOWN rec) of
                        (Inr t, Inr n') \<Rightarrow>
                          (Inr (Some SQL_SUCCESS), st1\<lparr>memory := write_len out_nullable_ptr n' (write_len out_data_type_ptr t (memory st1))\<rparr>)
                      | (Inl e, _) \<Rightarrow> (Inl e, st1)
                      | (_, Inl e) \<Rightarrow> (Inl e, st1)))))) h SQL_HANDLE_STMT False"

section \<open>The descriptors of a statement\<close>

text \<open>The connection a descriptor was made for, also when the connection has given up an implicit descriptor.\<close>

definition desc_parent :: "int \<Rightarrow> desc_driver \<Rightarrow> int" where
  "desc_parent d st =
     (if d \<in> set (map snd (descriptors st)) then parent_in (descriptors st) d
      else (case find (\<lambda>(c, s). d \<in> set (implicit_descs st s)) (statements st) of Some (c, _) \<Rightarrow> c | None \<Rightarrow> 0))"

definition setExplicitDescriptor :: "int \<Rightarrow> int \<Rightarrow> int \<Rightarrow> desc_driver \<Rightarrow> desc_driver" where
  "setExplicitDescriptor s role d st =
     st\<lparr>explicit_descs := (explicit_descs st)(s := (explicit_descs st s)(role := d))\<rparr>"

definition setDescriptorHandle :: "int \<Rightarrow> int \<Rightarrow> int \<Rightarrow> desc_run" where
  "setDescriptorHandle s role handle st =
     (if role \<in> {SQL_ATTR_APP_ROW_DESC, SQL_ATTR_APP_PARAM_DESC} \<and> handle = 0
      then (Inr (Some SQL_SUCCESS), setExplicitDescriptor s role 0 st)
      else if role \<in> {SQL_ATTR_IMP_ROW_DESC, SQL_ATTR_IMP_PARAM_DESC} then (Inr (Some SQL_ERROR), st)
      else on_other_descriptor (\<lambda>d st.
        if desc_parent d st \<noteq> parent_in (statements st) s
        then (Inl (SqlException ''Invalid attribute value'' ''HY024''), st)
        else
          (case getAttrAs as_int16 SQL_DESC_ALLOC_TYPE 0 (desc_attrs (contents st d)) of
             Inl e \<Rightarrow> (Inl e, st)
           | Inr alloc_type \<Rightarrow>
               if alloc_type = SQL_DESC_ALLOC_AUTO
               then (Inl (SqlException ''Invalid use of an automatically allocated descriptor handle'' ''HY017''), st)
               else (Inr (Some SQL_SUCCESS), setExplicitDescriptor s role d st))) handle st)"

text \<open>The attributes of a statement that are attributes of one of its descriptors.\<close>

definition set_in_desc :: "int \<Rightarrow> (int \<times> int) option" where
  "set_in_desc attribute =
     (if attribute = SQL_ATTR_PARAM_BIND_OFFSET_PTR then Some (SQL_ATTR_APP_PARAM_DESC, SQL_DESC_BIND_OFFSET_PTR)
      else if attribute = SQL_ATTR_PARAM_BIND_TYPE then Some (SQL_ATTR_APP_PARAM_DESC, SQL_DESC_BIND_TYPE)
      else if attribute = SQL_ATTR_PARAM_OPERATION_PTR then Some (SQL_ATTR_APP_PARAM_DESC, SQL_DESC_ARRAY_STATUS_PTR)
      else if attribute = SQL_ATTR_PARAM_STATUS_PTR then Some (SQL_ATTR_IMP_PARAM_DESC, SQL_DESC_ARRAY_STATUS_PTR)
      else if attribute = SQL_ATTR_PARAMS_PROCESSED_PTR then Some (SQL_ATTR_IMP_PARAM_DESC, SQL_DESC_ROWS_PROCESSED_PTR)
      else if attribute = SQL_ATTR_PARAMSET_SIZE then Some (SQL_ATTR_APP_PARAM_DESC, SQL_DESC_ARRAY_SIZE)
      else if attribute = SQL_ATTR_ROW_ARRAY_SIZE then Some (SQL_ATTR_APP_ROW_DESC, SQL_DESC_ARRAY_SIZE)
      else if attribute = SQL_ATTR_ROW_BIND_OFFSET_PTR then Some (SQL_ATTR_APP_ROW_DESC, SQL_DESC_BIND_OFFSET_PTR)
      else if attribute = SQL_ATTR_ROW_BIND_TYPE then Some (SQL_ATTR_APP_ROW_DESC, SQL_DESC_BIND_TYPE)
      else if attribute = SQL_ATTR_ROW_OPERATION_PTR then Some (SQL_ATTR_APP_ROW_DESC, SQL_DESC_ARRAY_STATUS_PTR)
      else if attribute = SQL_ATTR_ROW_STATUS_PTR then Some (SQL_ATTR_IMP_ROW_DESC, SQL_DESC_ARRAY_STATUS_PTR)
      else if attribute = SQL_ATTR_ROWS_FETCHED_PTR then Some (SQL_ATTR_IMP_ROW_DESC, SQL_DESC_ROWS_PROCESSED_PTR)
      else None)"

definition get_from_desc :: "int \<Rightarrow> (int \<times> int) option" where
  "get_from_desc attribute =
     (if attribute = SQL_ATTR_PARAM_BIND_OFFSET_PTR then Some (SQL_ATTR_APP_PARAM_DESC, SQL_DESC_BIND_OFFSET_PTR)
      else if attribute = SQL_ATTR_PARAM_BIND_TYPE then Some (SQL_ATTR_APP_PARAM_DESC, SQL_DESC_BIND_TYPE)
      else if attribute = SQL_ATTR_PARAM_OPERATION_PTR then Some (SQL_ATTR_APP_PARAM_DESC, SQL_DESC_ARRAY_STATUS_PTR)
      else if attribute = SQL_ATTR_PARAM_STATUS_PTR then Some (SQL_ATTR_IMP_PARAM_DESC, SQL_DESC_ARRAY_STATUS_PTR)
      else if attribute = SQL_ATTR_PARAMS_PROCESSED_PTR then Some (SQL_ATTR_IMP_PARAM_DESC, SQL_DESC_ROWS_PROCESSED_PTR)
      else if attribute = SQL_ATTR_PARAMSET_SIZE then Some (SQL_ATTR_APP_PARAM_DESC, SQL_DESC_ARRAY_SIZE)
      else if attribute = SQL_ATTR_ROW_ARRAY_SIZE then Some (SQL_ATTR_APP_ROW_DESC, SQL_DESC_ARRAY_SIZE)
      else if attribute = SQL_ATTR_ROW_BIND_OFFSET_PTR then Some (SQL_ATTR_APP_ROW_DESC, SQL_DESC_BIND_OFFSET_PTR)
      else if attribute = SQL_ATTR_ROW_BIND_TYPE then Some (SQL_ATTR_APP_ROW_DESC, SQL_DESC_BIND_TYPE)
      else if attribute = SQL_ATTR_ROW_OPERATION_PTR then Some (SQL_ATTR_APP_ROW_DESC, SQL_DESC_ARRAY_STATUS_PTR)
      else if attribute = SQL_ATTR_ROW_STATUS_PTR then Some (SQL_ATTR_IMP_ROW_DESC, SQL_DESC_ARRAY_STATUS_PTR)
      else if attribute = SQL_ATTR_ROWS_FETCHED_PTR then Some (SQL_ATTR_IMP_ROW_DESC, SQL_DESC_ROWS_PROCESSED_PTR)
      else None)"

definition ignored_stmt_attrs :: "int set" where
  "ignored_stmt_attrs = {SQL_ATTR_CURSOR_SCROLLABLE, SQL_ATTR_CURSOR_SENSITIVITY, SQL_ATTR_ASYNC_ENABLE, SQL_ATTR_CONCURRENCY,
     SQL_ATTR_CURSOR_TYPE, SQL_ATTR_ENABLE_AUTO_IPD, SQL_ATTR_FETCH_BOOKMARK_PTR, SQL_ATTR_KEYSET_SIZE, SQL_ATTR_MAX_LENGTH,
     SQL_ATTR_MAX_ROWS, SQL_ATTR_QUERY_TIMEOUT, SQL_ATTR_RETRIEVE_DATA, SQL_ATTR_ROW_NUMBER, SQL_ATTR_SIMULATE_CURSOR,
     SQL_ATTR_USE_BOOKMARKS}"

definition set_object_attr :: "int \<Rightarrow> int \<Rightarrow> int \<Rightarrow> desc_driver \<Rightarrow> desc_driver" where
  "set_object_attr h attribute v st =
     st\<lparr>object_attrs := (object_attrs st)(h := snd (setAttr base_onAttrChange attribute (Int_attr v) (object_attrs st h)))\<rparr>"

definition set_stmt_attr :: "int \<Rightarrow> int \<Rightarrow> int \<Rightarrow> desc_run" where
  "set_stmt_attr attribute v s st =
      (case set_in_desc attribute of
         Some (role, desc_attr) \<Rightarrow>
           (let d = getEffectiveDescriptor st s role in
            (Inr (Some SQL_SUCCESS), put_contents d (set_desc_attr desc_attr (as_int64 v) (contents st d)) st))
       | None \<Rightarrow>
           if attribute \<in> {SQL_ATTR_NOSCAN, SQL_ATTR_METADATA_ID}
           then (Inr (Some SQL_SUCCESS), set_object_attr s attribute (as_int64 v) st)
           else if attribute \<in> {SQL_ATTR_APP_ROW_DESC, SQL_ATTR_APP_PARAM_DESC, SQL_ATTR_IMP_ROW_DESC, SQL_ATTR_IMP_PARAM_DESC}
           then setDescriptorHandle s attribute v st
           else if attribute \<in> ignored_stmt_attrs then (Inr (Some SQL_SUCCESS), st)
           else (Inr (Some SQL_ERROR), st))"

definition SetStmtAttr :: "int \<Rightarrow> int \<Rightarrow> int \<Rightarrow> desc_driver \<Rightarrow> int result \<times> desc_driver" where
  "SetStmtAttr h attribute v = call (only_for Statement (set_stmt_attr attribute v)) h SQL_HANDLE_STMT False"

text \<open>The attributes with a fixed value.\<close>

definition fixed_stmt_attr :: "int \<Rightarrow> int option" where
  "fixed_stmt_attr attribute =
     (if attribute = SQL_ATTR_CURSOR_SCROLLABLE then Some SQL_NONSCROLLABLE
      else if attribute = SQL_ATTR_CURSOR_SENSITIVITY then Some SQL_INSENSITIVE
      else if attribute = SQL_ATTR_ASYNC_ENABLE then Some SQL_ASYNC_ENABLE_OFF
      else if attribute = SQL_ATTR_CONCURRENCY then Some SQL_CONCUR_READ_ONLY
      else if attribute = SQL_ATTR_CURSOR_TYPE then Some SQL_CURSOR_FORWARD_ONLY
      else if attribute = SQL_ATTR_ENABLE_AUTO_IPD then Some SQL_FALSE
      else if attribute = SQL_ATTR_MAX_LENGTH then Some 0
      else if attribute = SQL_ATTR_MAX_ROWS then Some 0
      else if attribute = SQL_ATTR_QUERY_TIMEOUT then Some 0
      else if attribute = SQL_ATTR_RETRIEVE_DATA then Some SQL_RD_ON
      else if attribute = SQL_ATTR_USE_BOOKMARKS then Some SQL_UB_OFF
      else None)"

text \<open>\<open>SQL_LEN_BINARY_ATTR\<close> is its own inverse: the application passes it, the driver undoes it.\<close>

definition SQL_LEN_BINARY_ATTR :: "int \<Rightarrow> int" where
  "SQL_LEN_BINARY_ATTR n = - n - 100"

definition invalid_cursor_state :: exn where
  "invalid_cursor_state = SqlException ''Invalid cursor state'' ''24000''"

definition get_stmt_attr :: "(string \<Rightarrow> string) \<Rightarrow> int \<Rightarrow> int \<Rightarrow> int \<Rightarrow> int \<Rightarrow> int \<Rightarrow> desc_run" where
  "get_stmt_attr enc attribute out_value max_length out_length s st =
      (case get_from_desc attribute of
         Some (role, desc_attr) \<Rightarrow>
           desc_in_memory (fill_int t_SQLULEN 0 (desc_attrs (contents st (getEffectiveDescriptor st s role))) desc_attr out_value out_length) st
       | None \<Rightarrow>
           if attribute \<in> {SQL_ATTR_APP_ROW_DESC, SQL_ATTR_APP_PARAM_DESC, SQL_ATTR_IMP_ROW_DESC, SQL_ATTR_IMP_PARAM_DESC}
           then desc_in_memory (fillOutputPOD (signed_bytes 8 (getEffectiveDescriptor st s attribute)) out_value out_length) st
           else if attribute = SQL_ATTR_METADATA_ID then
             (case getAttrAs (cast_to t_SQLUINTEGER) SQL_ATTR_METADATA_ID SQL_FALSE (object_attrs st (parent_in (statements st) s)) of
                Inl e \<Rightarrow> (Inl e, st)
              | Inr def \<Rightarrow> desc_in_memory (fill_int t_SQLULEN def (object_attrs st s) SQL_ATTR_METADATA_ID out_value out_length) st)
           else if attribute = SQL_ATTR_NOSCAN
           then desc_in_memory (fill_int t_SQLULEN SQL_NOSCAN_OFF (object_attrs st s) SQL_ATTR_NOSCAN out_value out_length) st
           else if attribute = SQL_ATTR_ROW_NUMBER then
             (case row_positions st s of
                None \<Rightarrow> (Inl invalid_cursor_state, st)
              | Some n \<Rightarrow> desc_in_memory (fillOutputPOD (signed_bytes 8 (int n)) out_value out_length) st)
           else if attribute = SQL_CH_STMT_ATTR_LAST_QUERY_ID then
             (if query_ids st s = [] then (Inl invalid_cursor_state, st)
              else desc_in_memory (narrow_length as_int32 out_length
                (fillOutputString 1 (enc (query_ids st s)) out_value (SQL_LEN_BINARY_ATTR max_length) out_length True True 0)) st)
           else if attribute = SQL_CH_STMT_ATTR_LAST_RESPONSE_CONTENT_ENCODING then
             desc_in_memory (narrow_length as_int32 out_length
               (fillOutputString 1 (enc (content_encodings st s)) out_value (SQL_LEN_BINARY_ATTR max_length) out_length True True 0)) st
           else
             (case fixed_stmt_attr attribute of
                Some v \<Rightarrow> desc_in_memory (fillOutputPOD (signed_bytes 8 v) out_value out_length) st
              | None \<Rightarrow> (Inr (Some SQL_ERROR), st)))"

definition GetStmtAttr :: "(string \<Rightarrow> string) \<Rightarrow> int \<Rightarrow> int \<Rightarrow> int \<Rightarrow> int \<Rightarrow> int \<Rightarrow> desc_driver \<Rightarrow> int result \<times> desc_driver" where
  "GetStmtAttr enc h attribute out_value max_length out_length =
     call (only_for Statement (get_stmt_attr enc attribute out_value max_length out_length)) h SQL_HANDLE_STMT False"

section \<open>Calls that work in place\<close>

lemma cleared_desc_fields [simp]:
  "contents (cleared h st) = contents st" "explicit_descs (cleared h st) = explicit_descs st" "object_attrs (cleared h st) = object_attrs st"
  "memory (cleared h st) = memory st" "implicit_descs (cleared h st) = implicit_descs st" "descriptors (cleared h st) = descriptors st"
  "statements (cleared h st) = statements st" "getEffectiveDescriptor (cleared h st) s role = getEffectiveDescriptor st s role"
  "desc_parent d (cleared h st) = desc_parent d st"
  by (simp_all add: cleared_def getEffectiveDescriptor_def implicit_desc_def desc_parent_def split: sum.split)

lemma call_in_place:
  assumes "descendants st h = Some k" and "h \<noteq> 0" and "diag_ok (diags st h)"
    and "run h (cleared h st) = (Inr (Some rc), st2)" and "descendants st2 = descendants st" and "diags st2 = diags (cleared h st)"
  shows "\<exists>d. call (only_for k run) h (getObjectHandleType k) False st = (Inr rc, st2\<lparr>diags := d\<rparr>)
    \<and> diag_ok (d h) \<and> diag_rc (d h) = rc \<and> diag_list (d h) = [] \<and> (\<forall>x. x \<noteq> h \<longrightarrow> d x = diags st x)"
proof -
  have ok: "diag_ok (diags st2 h)" using cleared_diags(1) [OF assms(3)] assms(6) by simp
  have live: "descendants st2 h \<noteq> None" using assms(1,5) by simp
  obtain d where d: "call (only_for k run) h (getObjectHandleType k) False st = (Inr rc, st2\<lparr>diags := (diags st2)(h := d)\<rparr>)"
      "diag_ok d" "diag_rc d = rc" "diag_list d = diag_list (diags st2 h)"
    using call_returns [where run = run and callable = "only_for k run", OF assms(1,2) _ _ assms(3,4) live ok]
    by (auto simp: only_for_def)
  have "diags (cleared h st) x = diags st x" if "x \<noteq> h" for x
    using that by (simp add: cleared_def split: sum.split)
  then show ?thesis
    using d cleared_diags(2) [OF assms(3)] assms(6) by (intro exI [of _ "(diags st2)(h := d)"]) simp
qed

lemma fillOutputPOD_writes:
  assumes "p \<noteq> 0" and "obj \<noteq> []"
  shows "\<exists>m'. fillOutputPOD obj p pl m = (Inr SQL_SUCCESS, m') \<and> peek_bytes p (length obj) m' = obj"
proof -
  have "fillOutputPOD obj p pl m = (Inr SQL_SUCCESS, (if pl \<noteq> 0 then write_len pl (int (length obj)) else id) (write_bytes p obj m))"
    using assms by (simp add: fillOutputPOD_def fillOutputBuffer_def fillOutputBufferInternal_def)
  then show ?thesis using peek_write_here [of "length obj" obj p m] by simp
qed

section \<open>Numbers in fields\<close>

lemma take_bit_cast:
  assumes "0 < int_type_size ty" and "n \<le> int_type_size ty"
  shows "take_bit (8 * n) (cast_to ty v) = take_bit (8 * n) v"
  using assms by (cases ty) (simp_all add: take_bit_signed_take_bit)

lemma signed_bytes_cong: "take_bit (8 * n) v = take_bit (8 * n) w \<Longrightarrow> signed_bytes n v = signed_bytes n w"
proof -
  have "(256 :: int) ^ n = 2 ^ (8 * n)" by (simp add: power_mult)
  then show "take_bit (8 * n) v = take_bit (8 * n) w \<Longrightarrow> signed_bytes n v = signed_bytes n w"
    by (simp add: signed_bytes_def take_bit_eq_mod)
qed

text \<open>A number that is cast to the type of a field, stored, read and cast again gives the bytes of the number.\<close>

lemma stored_bytes:
  assumes "0 < int_type_size ty" and "int_type_size ty \<le> 8"
  shows "signed_bytes (int_type_size ty) (cast_to ty (as_int64 (cast_to ty v))) = signed_bytes (int_type_size ty) v"
proof (rule signed_bytes_cong)
  let ?n = "int_type_size ty"
  have "take_bit (8 * ?n) (as_int64 w) = take_bit (8 * ?n) w" for w
    using assms(2) by (simp add: as_int64_def take_bit_signed_take_bit)
  then show "take_bit (8 * ?n) (cast_to ty (as_int64 (cast_to ty v))) = take_bit (8 * ?n) v"
    using take_bit_cast [OF assms(1)] by simp
qed

lemma length_int_bytes [simp]: "length (signed_bytes n v) = n"
  by (simp add: signed_bytes_def)

lemma fill_int_stored:
  assumes "a f = Some (Int_attr (as_int64 (cast_to ty v)))" and "0 < int_type_size ty" and "int_type_size ty \<le> 8" and "p \<noteq> 0"
  shows "\<exists>m'. fill_int ty def a f p pl m = (Inr SQL_SUCCESS, m') \<and> peek_bytes p (int_type_size ty) m' = signed_bytes (int_type_size ty) v"
proof -
  let ?b = "signed_bytes (int_type_size ty) v"
  have "?b \<noteq> []" using assms(2) length_int_bytes [of "int_type_size ty" v] by (metis length_0_conv less_numeral_extra(3))
  then obtain m' where "fillOutputPOD ?b p pl m = (Inr SQL_SUCCESS, m')" "peek_bytes p (int_type_size ty) m' = ?b"
    using fillOutputPOD_writes [OF assms(4), of ?b] by auto
  then show ?thesis using assms(1) stored_bytes [OF assms(2,3)] by (simp add: fill_int_def getAttrAs_def)
qed

lemma set_attr_stores:
  assumes "f \<notin> {SQL_DESC_TYPE, SQL_DESC_CONCISE_TYPE, SQL_DESC_DATETIME_INTERVAL_CODE, SQL_DESC_NAME}"
  shows "\<exists>a'. set_attr f v a = (Inr (), a') \<and> a' f = Some (Int_attr v)"
proof (cases "a f = Some (Int_attr v)")
  case True
  then show ?thesis by (simp add: set_attr_def setAttr_alt)
next
  case False
  then show ?thesis
    using assms by (auto simp: set_attr_def setAttr_alt onAttrChange_def on_data_ptr_def on_unnamed_def op_bind_def op_get_def
      op_when_def consistencyCheck_def op_return_def getAttrAs_def setAttrSilent_def)
qed

lemma getRecord_again:
  assumes "desc_ok c" "desc_records c \<noteq> []" "n \<le> desc_count c" "n < desc_limit"
  shows "\<exists>c'. getRecord n SQL_ATTR_APP_ROW_DESC c = Inr c' \<and> desc_records c' ! n = desc_records c ! n"
proof (cases n)
  case 0
  then show ?thesis using assms(2) by (simp add: getRecord_def ensure_bookmark_def)
next
  case (Suc m)
  then show ?thesis using getRecord_get [OF assms(1,4)] desc_get_facts(4) [OF assms(1,4), of SQL_ATTR_APP_ROW_DESC n] assms(3) by simp
qed

text \<open>After a record has been changed, asking for it again gives it as it was left.\<close>

lemma change_record_then_get:
  assumes ok: "desc_ok (contents st d)" and n: "n < desc_limit"
    and change: "\<And>a. \<exists>a'. change a = (Inr (), a') \<and> P a'"
  shows "\<exists>c'. change_record d n change st = (Inr (Some SQL_SUCCESS), put_contents d c' st)
    \<and> getRecordCount c' = Inr (max (desc_count (contents st d)) n)
    \<and> (\<exists>c''. getRecord n SQL_ATTR_APP_ROW_DESC c' = Inr c'' \<and> P (desc_records c'' ! n))"
proof -
  let ?c = "desc_get SQL_ATTR_APP_ROW_DESC n (contents st d)"
  note c = desc_get_facts [OF ok n, of SQL_ATTR_APP_ROW_DESC]
  obtain a' where a': "change (desc_records ?c ! n) = (Inr (), a')" "P a'" using change by blast
  let ?c' = "?c\<lparr>desc_records := (desc_records ?c)[n := a']\<rparr>"
  have len: "n < length (desc_records ?c)" using c(3) by simp
  have run: "change_record d n change st = (Inr (Some SQL_SUCCESS), put_contents d ?c' st)"
    using getRecord_get [OF ok n] a'(1) by (simp add: change_record_def on_record_def Let_def)
  have count: "desc_count ?c' = max (desc_count (contents st d)) n" using c(2) by (simp add: desc_count_def)
  have ok': "desc_ok ?c'" using c(1) by (auto simp: desc_ok_def desc_count_def)
  have "desc_records ?c' \<noteq> []" using len by auto
  moreover have "desc_records ?c' ! n = a'" using len by simp
  moreover have "n \<le> desc_count ?c'" using count by simp
  ultimately show ?thesis
    using run getRecordCount_ok [OF ok'] count getRecord_again [OF ok' _ _ n] a'(2) by auto
qed

section \<open>What is set is what is got\<close>

lemma field_tables:
  "set_header_field f = Some ty \<Longrightarrow> (\<exists>def. get_header_field f = Some (ty, def)) \<and> 0 < int_type_size ty \<and> int_type_size ty \<le> 8"
  by (auto simp: set_header_field_def get_header_field_def split: if_splits)

lemma record_field_tables:
  assumes "set_record_field f = Some (Set_number ty)"
  shows "(\<exists>def. get_record_field f = Some (Number ty def)) \<and> 0 < int_type_size ty \<and> int_type_size ty \<le> 8
    \<and> set_header_field f = None \<and> get_header_field f = None \<and> f \<noteq> SQL_DESC_NAME"
proof -
  note tables = get_record_field_def set_header_field_def get_header_field_def
  consider (a) "f \<in> {11, 12, 26, 6, 32}" "ty = t_SQLINTEGER"
    | (b) "f \<in> {2, 1007, 9, 1008, 33, 1005, 35, 1006, 13, 1002, 1012, 8, 10}" "ty = t_SQLSMALLINT"
    | (c) "f \<in> {1010, 1009, 1004}" "ty = t_pointer" | (d) "f = 1003" "ty = t_SQLULEN" | (e) "f = 1013" "ty = t_SQLLEN"
    using assms unfolding set_record_field_def by (simp split: if_split_asm)
  then show ?thesis
  proof cases
    case a
    then show ?thesis by (elim insertE; simp add: tables)
  next
    case b
    then show ?thesis by (elim insertE; simp add: tables)
  next
    case c
    then show ?thesis by (elim insertE; simp add: tables)
  qed (simp_all add: tables)
qed

lemma put_contents_simps [simp]:
  "contents (put_contents d c st) = (contents st)(d := c)" "descendants (put_contents d c st) = descendants st"
  "diags (put_contents d c st) = diags st" "memory (put_contents d c st) = memory st"
  "explicit_descs (put_contents d c st) = explicit_descs st" "implicit_descs (put_contents d c st) = implicit_descs st"
  by (simp_all add: put_contents_def)

lemma desc_in_memory_ok:
  "f (memory st) = (Inr rc, m) \<Longrightarrow> desc_in_memory f st = (Inr (Some rc), st\<lparr>memory := m\<rparr>)"
  by (simp add: desc_in_memory_def)

text \<open>A call that reads from the contents of a descriptor into the memory of the application.\<close>

lemma get_call:
  assumes "descendants st h = Some k" and "h \<noteq> 0" and "diag_ok (diags st h)"
    and "run h (cleared h st) = (Inr (Some SQL_SUCCESS), st2)" and "descendants st2 = descendants st" and "diags st2 = diags (cleared h st)"
    and "Q (memory st2)"
  shows "\<exists>st'. call (only_for k run) h (getObjectHandleType k) False st = (Inr SQL_SUCCESS, st') \<and> Q (memory st')"
proof -
  obtain d where "call (only_for k run) h (getObjectHandleType k) False st = (Inr SQL_SUCCESS, st2\<lparr>diags := d\<rparr>)"
    using call_in_place [where run = run, OF assms(1-6)] by blast
  then show ?thesis using assms(7) by simp
qed

lemma handle_types [simp]: "getObjectHandleType Descriptor = SQL_HANDLE_DESC" "getObjectHandleType Statement = SQL_HANDLE_STMT"
  by (simp_all add: getObjectHandleType_def)

definition number_field :: "int \<Rightarrow> int \<Rightarrow> int_type \<Rightarrow> bool" where
  "number_field n f ty \<longleftrightarrow> set_header_field f = Some ty \<or> 0 \<le> n \<and> n < 32768 \<and> set_record_field f = Some (Set_number ty)
     \<and> f \<notin> {SQL_DESC_TYPE, SQL_DESC_CONCISE_TYPE, SQL_DESC_DATETIME_INTERVAL_CODE}"

lemma stored_in_header:
  assumes "set_header_field f = Some ty" and "contents st2 d = set_desc_attr f (as_int64 (cast_to ty v)) c" and "p \<noteq> 0"
  shows "\<exists>c' m. get_desc_field enc cs n f p max_size pl d st2 = (Inr (Some SQL_SUCCESS), (put_contents d c' st2)\<lparr>memory := m\<rparr>)
    \<and> peek_bytes p (int_type_size ty) m = signed_bytes (int_type_size ty) v"
proof -
  obtain def where def: "get_header_field f = Some (ty, def)" "0 < int_type_size ty" "int_type_size ty \<le> 8"
    using field_tables [OF assms(1)] by blast
  have "put_contents d (contents st2 d) st2 = st2" by (simp add: put_contents_def fun_upd_idem)
  then show ?thesis
    using fill_int_stored [of "desc_attrs (contents st2 d)" f ty v p def pl "memory st2"] def assms(2,3)
    by (intro exI [of _ "contents st2 d"]) (auto simp: desc_in_memory_def get_desc_field_def)
qed

lemma stored_in_record:
  assumes "set_record_field f = Some (Set_number ty)" and "0 \<le> n" and "p \<noteq> 0"
    and c: "getRecordCount (contents st2 d) = Inr k" "nat n \<le> k" "getRecord (nat n) SQL_ATTR_APP_ROW_DESC (contents st2 d) = Inr c'"
      "(desc_records c' ! nat n) f = Some (Int_attr (as_int64 (cast_to ty v)))"
  shows "\<exists>c' m. get_desc_field enc cs n f p max_size pl d st2 = (Inr (Some SQL_SUCCESS), (put_contents d c' st2)\<lparr>memory := m\<rparr>)
    \<and> peek_bytes p (int_type_size ty) m = signed_bytes (int_type_size ty) v"
proof -
  obtain def where def: "get_record_field f = Some (Number ty def)" "get_header_field f = None" "0 < int_type_size ty" "int_type_size ty \<le> 8"
    using record_field_tables [OF assms(1)] by blast
  show ?thesis
    using c fill_int_stored [where a = "desc_records c' ! nat n" and m = "memory st2" and def = def and pl = pl, OF c(4) def(3,4) assms(3)]
      def assms(2)
    by (intro exI [of _ c']) (auto simp: get_desc_field_def with_desc_record_def get_record_value_def desc_in_memory_def)
qed

lemma set_then_get:
  assumes "desc_ok (contents st d)" and f: "number_field n f ty" and "p \<noteq> 0"
  shows "\<exists>c. set_desc_field n f v len d st = (Inr (Some SQL_SUCCESS), put_contents d c st)
    \<and> (\<forall>st2. contents st2 d = c \<longrightarrow> (\<exists>c' m. get_desc_field enc cs n f p max_size pl d st2
          = (Inr (Some SQL_SUCCESS), (put_contents d c' st2)\<lparr>memory := m\<rparr>)
        \<and> peek_bytes p (int_type_size ty) m = signed_bytes (int_type_size ty) v))"
proof (cases "set_header_field f")
  case (Some ty')
  then have "ty' = ty" using f record_field_tables [of f ty] by (auto simp: number_field_def)
  then show ?thesis using stored_in_header [OF _ _ assms(3)] Some by (auto simp: set_desc_field_def)
next
  case None
  let ?x = "as_int64 (cast_to ty v)"
  have n: "0 \<le> n" "set_record_field f = Some (Set_number ty)" and lim: "nat n < desc_limit" and "f \<noteq> SQL_DESC_NAME"
    and plain: "f \<notin> {SQL_DESC_TYPE, SQL_DESC_CONCISE_TYPE, SQL_DESC_DATETIME_INTERVAL_CODE}"
    using f None record_field_tables [of f ty] by (auto simp: number_field_def desc_limit_def)
  then have stores: "\<exists>a'. set_attr f ?x a = (Inr (), a') \<and> a' f = Some (Int_attr ?x)" for a
    by (intro set_attr_stores) auto
  obtain c c' where c: "change_record d (nat n) (set_attr f ?x) st = (Inr (Some SQL_SUCCESS), put_contents d c st)"
    "getRecordCount c = Inr (max (desc_count (contents st d)) (nat n))"
    "getRecord (nat n) SQL_ATTR_APP_ROW_DESC c = Inr c'" "(desc_records c' ! nat n) f = Some (Int_attr ?x)"
    using change_record_then_get [where P = "\<lambda>a. a f = Some (Int_attr ?x)" and change = "set_attr f ?x", OF assms(1) lim stores] by blast
  have "set_desc_field n f v len d st = (Inr (Some SQL_SUCCESS), put_contents d c st)"
    using None n c(1) by (simp add: set_desc_field_def set_field_op_def)
  then show ?thesis using c(2-4) stored_in_record [OF n(2,1) assms(3)] by (intro exI [of _ c]) auto
qed

text \<open>C25: a number that \<open>SQLSetDescField\<close> stores in a field of a descriptor or of one of its records (any
  but the three of the type, which change together), \<open>SQLGetDescField\<close> returns, in the size the field has: the
  two tables of fields agree, and no field is cut twice.\<close>

theorem desc_field_roundtrip:
  assumes "descendants st h = Some Descriptor" and "h \<noteq> 0" and "diag_ok (diags st h)" and "desc_ok (contents st h)"
    and "number_field n f ty" and "p \<noteq> 0"
  shows "\<exists>st1 st2. SetDescField h n f v len st = (Inr SQL_SUCCESS, st1)
    \<and> GetDescField enc cs h n f p max_size pl st1 = (Inr SQL_SUCCESS, st2)
    \<and> peek_bytes p (int_type_size ty) (memory st2) = signed_bytes (int_type_size ty) v"
proof -
  let ?st = "cleared h st"
  let ?Q = "\<lambda>m. peek_bytes p (int_type_size ty) m = signed_bytes (int_type_size ty) v"
  obtain c where c: "set_desc_field n f v len h ?st = (Inr (Some SQL_SUCCESS), put_contents h c ?st)"
    "\<And>st2. contents st2 h = c \<Longrightarrow> \<exists>c' m. get_desc_field enc cs n f p max_size pl h st2
       = (Inr (Some SQL_SUCCESS), (put_contents h c' st2)\<lparr>memory := m\<rparr>) \<and> ?Q m"
    using set_then_get [of ?st h n f ty p v len enc cs max_size pl] assms(4-6) by auto
  obtain d where d: "SetDescField h n f v len st = (Inr SQL_SUCCESS, (put_contents h c ?st)\<lparr>diags := d\<rparr>)" "diag_ok (d h)"
    using call_in_place [where run = "set_desc_field n f v len", OF assms(1-3) c(1)] by (auto simp: SetDescField_def)
  let ?st1 = "(put_contents h c ?st)\<lparr>diags := d\<rparr>"
  have "contents (cleared h ?st1) h = c" by simp
  then obtain c' m where m: "get_desc_field enc cs n f p max_size pl h (cleared h ?st1)
      = (Inr (Some SQL_SUCCESS), (put_contents h c' (cleared h ?st1))\<lparr>memory := m\<rparr>)" "?Q m" using c(2) by blast
  have "\<exists>st2. GetDescField enc cs h n f p max_size pl ?st1 = (Inr SQL_SUCCESS, st2) \<and> ?Q (memory st2)"
    using get_call [where run = "get_desc_field enc cs n f p max_size pl" and st = ?st1 and h = h and Q = ?Q, OF _ assms(2) _ m(1)]
      assms(1) d(2) m(2) by (auto simp: GetDescField_def)
  then show ?thesis using d(1) by blast
qed

lemma desc_tables: "get_from_desc attribute = set_in_desc attribute"
  by (simp add: get_from_desc_def set_in_desc_def)

text \<open>C26: an attribute of a statement that lives in one of its descriptors is stored in the descriptor
  the statement uses now, its own or one the application gave it, where \<open>SQLGetStmtAttr\<close> finds it whole.\<close>

theorem stmt_attr_roundtrip:
  assumes "descendants st s = Some Statement" and "s \<noteq> 0" and "diag_ok (diags st s)"
    and a: "set_in_desc attribute = Some (role, desc_attr)" and "p \<noteq> 0"
  shows "\<exists>st1 st2. SetStmtAttr s attribute v st = (Inr SQL_SUCCESS, st1)
    \<and> desc_attrs (contents st1 (getEffectiveDescriptor st s role)) desc_attr = Some (Int_attr (as_int64 v))
    \<and> GetStmtAttr enc s attribute p max_length pl st1 = (Inr SQL_SUCCESS, st2) \<and> peek_bytes p 8 (memory st2) = signed_bytes 8 v"
proof -
  let ?d = "getEffectiveDescriptor st s role"
  let ?c = "set_desc_attr desc_attr (as_int64 v) (contents st ?d)"
  let ?set = "put_contents ?d ?c (cleared s st)"
  have run: "set_stmt_attr attribute v s (cleared s st) = (Inr (Some SQL_SUCCESS), ?set)"
    using a by (simp add: set_stmt_attr_def Let_def)
  obtain ds where ds: "SetStmtAttr s attribute v st = (Inr SQL_SUCCESS, ?set\<lparr>diags := ds\<rparr>)" "diag_ok (ds s)"
    using call_in_place [where run = "set_stmt_attr attribute v", OF assms(1-3) run] by (auto simp: SetStmtAttr_def)
  let ?st1 = "?set\<lparr>diags := ds\<rparr>"
  have eff: "getEffectiveDescriptor ?st1 s role = ?d" by (simp add: getEffectiveDescriptor_def implicit_desc_def)
  have stored: "desc_attrs (contents ?st1 ?d) desc_attr = Some (Int_attr (as_int64 (cast_to t_SQLULEN v)))"
    by (simp add: as_int64_def signed_take_bit_take_bit)
  obtain m where m: "fill_int t_SQLULEN 0 (desc_attrs (contents ?st1 ?d)) desc_attr p pl (memory (cleared s ?st1)) = (Inr SQL_SUCCESS, m)"
    "peek_bytes p (int_type_size t_SQLULEN) m = signed_bytes (int_type_size t_SQLULEN) v"
    using fill_int_stored [where a = "desc_attrs (contents ?st1 ?d)" and def = 0 and pl = pl and m = "memory (cleared s ?st1)", OF stored _ _ assms(5)]
    by (auto simp del: set_desc_attr_simps put_contents_simps)
  have get: "get_stmt_attr enc attribute p max_length pl s (cleared s ?st1) = (Inr (Some SQL_SUCCESS), (cleared s ?st1)\<lparr>memory := m\<rparr>)"
    using m(1) a by (simp add: get_stmt_attr_def desc_tables desc_in_memory_def eff)
  obtain st2 where "GetStmtAttr enc s attribute p max_length pl ?st1 = (Inr SQL_SUCCESS, st2)" "peek_bytes p 8 (memory st2) = signed_bytes 8 v"
    using get_call [where run = "get_stmt_attr enc attribute p max_length pl" and st = ?st1 and h = s
        and Q = "\<lambda>m. peek_bytes p 8 m = signed_bytes 8 v", OF _ assms(2) _ get] assms(1) ds(2) m(2)
    by (auto simp: GetStmtAttr_def)
  then show ?thesis using ds(1) by (intro exI [of _ ?st1] exI [of _ st2]) simp
qed

lemma on_driver_simps [simp]:
  "contents (snd (on_driver f st)) = contents st" "explicit_descs (snd (on_driver f st)) = explicit_descs st"
  "memory (snd (on_driver f st)) = memory st"
  "descendants (snd (on_driver f st)) = descendants (snd (f (driver.truncate st)))"
  "implicit_descs (snd (on_driver f st)) = implicit_descs (snd (f (driver.truncate st)))"
  "fst (on_driver f st) = fst (f (driver.truncate st))"
  by (cases st; simp add: on_driver_def driver.defs split: prod.split)+

lemma truncate_put [simp]:
  "driver.truncate (setExplicitDescriptor s role d st) = driver.truncate st"
  "driver.truncate (st\<lparr>diags := ds\<rparr>) = (driver.truncate st)\<lparr>diags := ds\<rparr>"
  "descendants (driver.truncate st) = descendants st" "implicit_descs (driver.truncate st) = implicit_descs st"
  by (cases st; simp add: setExplicitDescriptor_def driver.defs)+

lemma truncate_cleared: "\<exists>ds. driver.truncate (cleared h st) = (driver.truncate st)\<lparr>diags := ds\<rparr>" for st :: desc_driver
proof -
  have "\<exists>ds. cleared h st = st\<lparr>diags := ds\<rparr>" by (cases "resetDiag (diags st h)") (auto simp: cleared_def)
  then show ?thesis by auto
qed

lemma held_diags [simp]: "held_by_statement d (st\<lparr>diags := ds\<rparr>) = held_by_statement d st"
  by (simp add: held_by_statement_def)

lemma deallocate_descriptor_implicit: "implicit_descs (deallocateSelf Descriptor d st) = implicit_descs st"
  by (simp add: deallocateSelf_def deallocateChild_Descriptor_def release_descriptor_def unregisterDescendant_def)

text \<open>C24: a statement uses a descriptor the application has allocated for its connection from the moment it
  is given it; when the application frees that descriptor, the statement goes back to its implicit
  descriptor, which still has all it had, and no reference to the freed one is left.\<close>

theorem explicit_descriptor_lifetime:
  assumes "well_formed (driver.truncate st)" and "descendants st s = Some Statement" and "descendants st d = Some Descriptor"
    and "diag_ok (diags st s)" and "desc_parent d st = parent_in (statements st) s"
    and "getAttrAs as_int16 SQL_DESC_ALLOC_TYPE 0 (desc_attrs (contents st d)) = Inr SQL_DESC_ALLOC_USER"
    and "\<not> held_by_statement d (driver.truncate st)" and "role \<in> {SQL_ATTR_APP_ROW_DESC, SQL_ATTR_APP_PARAM_DESC}"
  shows "\<exists>st1 st2. SetStmtAttr s role d st = (Inr SQL_SUCCESS, st1) \<and> getEffectiveDescriptor st1 s role = d
    \<and> free_handle SQL_HANDLE_DESC d st1 = (Inr SQL_SUCCESS, st2) \<and> getEffectiveDescriptor st2 s role = implicit_desc st s role
    \<and> contents st2 = contents st \<and> (\<forall>s' role'. explicit_descs st2 s' role' \<noteq> d)"
proof -
  let ?set = "setExplicitDescriptor s role d (cleared s st)"
  have nz: "s \<noteq> 0" "d \<noteq> 0" using assms(1-3) by (auto simp: well_formed_def)
  have "set_in_desc role = None" using assms(8) by (auto simp: set_in_desc_def)
  then have run: "set_stmt_attr role d s (cleared s st) = (Inr (Some SQL_SUCCESS), ?set)"
    using assms(3,5,6,8) nz(2) by (auto simp: set_stmt_attr_def setDescriptorHandle_def on_other_descriptor_def)
  obtain ds where ds: "SetStmtAttr s role d st = (Inr SQL_SUCCESS, ?set\<lparr>diags := ds\<rparr>)"
    using call_in_place [where run = "set_stmt_attr role d", OF assms(2) nz(1) assms(4) run]
    by (auto simp: SetStmtAttr_def setExplicitDescriptor_def)
  let ?st1 = "?set\<lparr>diags := ds\<rparr>"
  let ?t = "driver.truncate ?st1"
  obtain ds' where t: "?t = (driver.truncate st)\<lparr>diags := ds'\<rparr>" using truncate_cleared [of s st] by auto
  have w: "well_formed ?t" and k: "descendants ?t d = Some Descriptor" and nh: "\<not> held_by_statement d ?t"
    unfolding t using assms(1,3,7) by simp_all
  have free: "SQLFreeHandle SQL_HANDLE_DESC d ?t = (Inr SQL_SUCCESS, deallocateSelf Descriptor d ?t)"
    using freeHandle_live [OF w k] by (simp add: SQLFreeHandle_def)
  have gone: "descendants (deallocateSelf Descriptor d ?t) d = None"
    using deallocateSelf_eq(2) [OF w k] nh by (simp add: without_def subtree_def)
  let ?st2 = "expire (snd (on_driver (SQLFreeHandle SQL_HANDLE_DESC d) ?st1))"
  have freed: "free_handle SQL_HANDLE_DESC d ?st1 = (Inr SQL_SUCCESS, ?st2)"
    using on_driver_simps(6) [of "SQLFreeHandle SQL_HANDLE_DESC d" ?st1] free
    by (cases "on_driver (SQLFreeHandle SQL_HANDLE_DESC d) ?st1") (simp add: free_handle_def)
  have none: "explicit_descs ?st2 s' role' \<noteq> d" for s' role'
    using gone free nz(2) by (auto simp: expire_def)
  moreover have "explicit_descs ?st2 s role = 0"
    using gone free by (simp add: expire_def setExplicitDescriptor_def)
  then have "getEffectiveDescriptor ?st2 s role = implicit_desc st s role"
    using free by (simp add: getEffectiveDescriptor_def implicit_desc_def expire_def deallocate_descriptor_implicit t)
  moreover have "getEffectiveDescriptor ?st1 s role = d" "contents ?st2 = contents st"
    using nz(2) by (simp_all add: getEffectiveDescriptor_def setExplicitDescriptor_def expire_def)
  ultimately show ?thesis using ds freed by blast
qed

lemma CopyDesc_copies:
  assumes "descendants st tgt = Some Descriptor" and "descendants st src = Some Descriptor" and "tgt \<noteq> 0" "src \<noteq> 0" "src \<noteq> tgt"
    and "diag_ok (diags st tgt)" and "getAttrAs as_int16 SQL_DESC_ALLOC_TYPE 0 (desc_attrs (contents st tgt)) = Inr t"
  shows "\<exists>st1. CopyDesc src tgt st = (Inr SQL_SUCCESS, st1) \<and> contents st1 src = contents st src
    \<and> desc_records (contents st1 tgt) = desc_records (contents st src)
    \<and> (\<forall>a. a \<noteq> SQL_DESC_ALLOC_TYPE \<longrightarrow> desc_attrs (contents st1 tgt) a = desc_attrs (contents st src) a)"
proof -
  obtain c where c: "assign_descriptor (src = tgt) (contents st tgt) (contents st src) = Inr c"
    "desc_records c = desc_records (contents st src)"
    "\<forall>a. a \<noteq> SQL_DESC_ALLOC_TYPE \<longrightarrow> desc_attrs c a = desc_attrs (contents st src) a"
    using assms(5,7) by (simp add: assign_descriptor_def resetAttr_def)
  define run where "run = (\<lambda>tgt. on_other_descriptor (\<lambda>src st.
       case assign_descriptor (src = tgt) (contents st tgt) (contents st src) of
         Inl e \<Rightarrow> (Inl e, st) | Inr c \<Rightarrow> (Inr (Some SQL_SUCCESS), put_contents tgt c st)) src)"
  have "run tgt (cleared tgt st) = (Inr (Some SQL_SUCCESS), put_contents tgt c (cleared tgt st))"
    using assms(2,4) c(1) by (simp add: run_def on_other_descriptor_def)
  then obtain d where "CopyDesc src tgt st = (Inr SQL_SUCCESS, (put_contents tgt c (cleared tgt st))\<lparr>diags := d\<rparr>)"
    using call_in_place [where run = run, OF assms(1,3,6)] by (auto simp: CopyDesc_def run_def)
  then show ?thesis using c(2,3) assms(5) by simp
qed

section \<open>Witnesses\<close>

definition with_objects :: "driver \<Rightarrow> desc_driver" where
  "with_objects d = \<lparr>descendants = descendants d, environments = environments d, connections = connections d, statements = statements d,
     descriptors = descriptors d, implicit_descs = implicit_descs d, diags = diags d, query_ids = query_ids d, handle_vars = handle_vars d,
     memory = blank_memory, contents = (\<lambda>_. initAsAD True new_Descriptor), explicit_descs = (\<lambda>_ _. 0), object_attrs = (\<lambda>_. Map.empty),
     row_positions = (\<lambda>_. None), content_encodings = (\<lambda>_. [])\<rparr>"

definition one_descriptor :: driver where
  "one_descriptor = made Descriptor 20 40 [] one_statement"

lemma one_statement_diags: "diags one_statement 20 = []"
  by (simp add: one_statement_def made_diags one_connection)

lemma one_descriptor: "descendants one_descriptor 40 = Some Descriptor" "descendants one_descriptor 30 = Some Statement"
  "diags one_descriptor 30 = []" "diags one_descriptor 40 = []" "well_formed one_descriptor" "\<not> held_by_statement 40 one_descriptor"
proof -
  show "well_formed one_descriptor"
    unfolding one_descriptor_def
    by (rule made_well_formed [OF one_statement_well]) (simp_all add: parent_ready_def one_statement one_statement_diags)
  show "\<not> held_by_statement 40 one_descriptor"
    unfolding one_descriptor_def by (rule made_subtree(2) [OF one_statement_well]) (simp_all add: one_statement)
qed (simp_all add: one_descriptor_def made_descendants made_diags made_diags_new one_statement)

lemma one_descriptor_owners:
  "40 \<in> set (map snd (descriptors one_descriptor))" "parent_in (descriptors one_descriptor) 40 = 20" "parent_in (statements one_descriptor) 30 = 20"
  by (simp_all add: one_descriptor_def one_statement_def one_connection_def one_environment_def made_def allocate_simps new_Driver_def Let_def parent_in_def)

lemma with_objects_simps [simp]:
  "driver.truncate (with_objects d) = d" "descendants (with_objects d) = descendants d" "diags (with_objects d) = diags d"
  "contents (with_objects d) h = initAsAD True new_Descriptor" "statements (with_objects d) = statements d"
  "descriptors (with_objects d) = descriptors d" "explicit_descs (with_objects d) s role = 0"
  by (cases d; simp add: with_objects_def driver.defs)+

lemma user_descriptor: "desc_ok (initAsAD True new_Descriptor)"
    "getAttrAs as_int16 SQL_DESC_ALLOC_TYPE 0 (desc_attrs (initAsAD True new_Descriptor)) = Inr SQL_DESC_ALLOC_USER"
  by (simp_all add: initAsAD_def desc_ok_def desc_count_def desc_limit_def new_Descriptor_def resetAttrs_def)

theorem desc_field_roundtrip_witness:
  "\<exists>st1 st2. SetDescField 40 2 SQL_DESC_LENGTH 300 0 (with_objects one_descriptor) = (Inr SQL_SUCCESS, st1)
    \<and> GetDescField id 1 40 2 SQL_DESC_LENGTH 100 0 0 st1 = (Inr SQL_SUCCESS, st2)
    \<and> peek_bytes 100 (int_type_size t_SQLULEN) (memory st2) = signed_bytes (int_type_size t_SQLULEN) 300"
  by (rule desc_field_roundtrip)
    (simp_all add: one_descriptor user_descriptor number_field_def set_record_field_def)

theorem stmt_attr_roundtrip_witness:
  "\<exists>st1 st2. SetStmtAttr 30 SQL_ATTR_ROW_ARRAY_SIZE 50 (with_objects one_descriptor) = (Inr SQL_SUCCESS, st1)
    \<and> desc_attrs (contents st1 (getEffectiveDescriptor (with_objects one_descriptor) 30 SQL_ATTR_APP_ROW_DESC)) SQL_DESC_ARRAY_SIZE = Some (Int_attr (as_int64 50))
    \<and> GetStmtAttr id 30 SQL_ATTR_ROW_ARRAY_SIZE 100 0 0 st1 = (Inr SQL_SUCCESS, st2) \<and> peek_bytes 100 8 (memory st2) = signed_bytes 8 50"
  by (rule stmt_attr_roundtrip) (simp_all add: one_descriptor set_in_desc_def)

theorem explicit_descriptor_lifetime_witness:
  "\<exists>st1 st2. SetStmtAttr 30 SQL_ATTR_APP_ROW_DESC 40 (with_objects one_descriptor) = (Inr SQL_SUCCESS, st1)
    \<and> getEffectiveDescriptor st1 30 SQL_ATTR_APP_ROW_DESC = 40
    \<and> free_handle SQL_HANDLE_DESC 40 st1 = (Inr SQL_SUCCESS, st2)
    \<and> getEffectiveDescriptor st2 30 SQL_ATTR_APP_ROW_DESC = implicit_desc (with_objects one_descriptor) 30 SQL_ATTR_APP_ROW_DESC
    \<and> contents st2 = contents (with_objects one_descriptor) \<and> (\<forall>s' role'. explicit_descs st2 s' role' \<noteq> 40)"
  by (rule explicit_descriptor_lifetime)
    (use one_descriptor_owners in \<open>simp_all add: one_descriptor user_descriptor desc_parent_def\<close>)

end
