(* ===== verification/Spec2Isabelle.thy ===== *)
theory Spec2Isabelle
  imports Type_Names Diagnostics Query_Request Statement_Exec Fetch_Spec Connection Catalog Driver_Call Diag_Api Desc_Api
begin

text \<open>
  Verification of clickhouse-odbc, the ODBC driver of ClickHouse: the code under \<open>driver/\<close>,
  which turns the calls of an application into HTTP requests to a ClickHouse server and the answers into
  rows, values and diagnostics. The sources are C++; names of definitions are the names in the sources,
  with a prefix or suffix where a name is taken.

  The way of a call. A handle of an object comes in (\<open>driver/driver.h\<close>, \<open>driver/api\<close>). Connecting reads a
  connection string into attributes (\<open>driver/config\<close>, \<open>driver/connection.cpp\<close>). A query is searched for
  parameters, gets typed placeholders and has its escape sequences translated (\<open>driver/statement.cpp\<close>,
  \<open>driver/escaping\<close>), and is sent (\<open>driver/http_client.cpp\<close>). The body of the answer is read by a reader of one
  of two formats (\<open>driver/format\<close>) into a result set (\<open>driver/result_set.cpp\<close>) whose fields are converted
  (\<open>driver/utils/type_info.h\<close>) into the buffers the application bound through descriptors
  (\<open>driver/descriptor.cpp\<close>, \<open>driver/api/impl/impl.cpp\<close>). What fails is kept as diagnostics
  (\<open>driver/diagnostics.cpp\<close>).

  Theories, from the bottom up.

  \<^item> Prelude: bytes and characters, casts between integer types, the error monad, named collections.
    Exceptions (\<open>exception.h\<close>): exceptions are values of \<open>exn\<close>, a fallible function returns
    \<open>exn + 'a\<close>. Odbc_Consts: the constants of the ODBC headers.
  \<^item> Lexer, Escape_Sequences, Escape_Spec (\<open>escaping/\<close>): the lexer and the translation of \<open>{fn ...}\<close>,
    \<open>{d ...}\<close> and the like; a specification that cuts the query at its outer braces, refined by the
    code; totality but for the vertical tab, which is shown to hang it.
  \<^item> Type_Parser, Type_Info, Sql_Types, Column_Info, Type_Names (\<open>utils/type_parser.cpp\<close>,
    \<open>utils/type_info.cpp\<close>): type names of the server as trees, the catalog of types, the conversions
    between SQL, C and server types, and what a type name says of a column; printing and parsing
    are inverse, and every type the driver writes for a parameter is read back as what it stands for.
  \<^item> Attributes, Diagnostics, Descriptor, Binding (\<open>attributes.h\<close>, \<open>diagnostics.cpp\<close>, \<open>descriptor.cpp\<close>,
    \<open>api/impl/impl.cpp\<close>): objects with attributes, vectors of records that grow on access. The locale
    \<open>counted_records\<close> states what diagnostics and the four descriptors share and is interpreted on each.
  \<^item> Query_Params, Query_Spec, Query_Request (\<open>statement.cpp\<close>, \<open>utils/sql_encoding.h\<close>): the markers of a
    query, its final form and the parameters sent with it, and the quoting of values.
  \<^item> Http_Response, Http_Spec (\<open>http_client.cpp\<close>): the body of an answer as the driver reads it: held-back
    bytes, decompression, exceptions in the middle of the data. The locale \<open>byte_source\<close> is its interface.
  \<^item> Row_Binary, Odbc_Driver2, Result_Set, Row_Binary_Spec (\<open>format/\<close>, \<open>result_set.cpp\<close>): the readers
    of the two formats and the result set, over the locale \<open>row_source\<close>, interpreted on both readers.
  \<^item> Value_Conv, Date_Conv, Output_Buffer, Field_Output, Get_Data, Fetch_Spec (\<open>utils/type_info.h\<close>,
    \<open>api/impl/impl.cpp\<close>): values to C objects and texts, the memory of the application, \<open>SQLGetData\<close>,
    \<open>SQLFetch\<close> and \<open>SQLFetchScroll\<close>.
  \<^item> Statement_Exec (\<open>statement.cpp\<close>): preparing, executing over the parameter sets, redirects, more results.
  \<^item> Connection_String, Connection (\<open>config/config.cpp\<close>, \<open>connection.cpp\<close>, \<open>SQLConnect\<close>): connection strings,
    attributes, URL.
  \<^item> Catalog (\<open>SQLTables\<close>, \<open>SQLColumns\<close>, \<open>SQLGetTypeInfo\<close> in \<open>api/odbc.cpp\<close>, \<open>api/sql_columns_resultset_mutator.cpp\<close>).
  \<^item> Driver_Call (\<open>driver.h\<close>, \<open>driver.cpp\<close>, \<open>object.h\<close>, \<open>environment.cpp\<close>, \<open>connection.cpp\<close>, \<open>statement.cpp\<close>,
    \<open>api/impl/impl.cpp\<close>, \<open>api/odbc.cpp\<close>): the table of handles, who owns which object, allocating and freeing
    handles, and the wrapper around every call. The relation \<open>reachable\<close> has one rule for each way the state
    changes; \<open>well_formed\<close>, its invariant, says that the table holds exactly the live objects.
  \<^item> Diag_Api, Desc_Api (\<open>api/impl/impl.cpp\<close>, \<open>statement.cpp\<close>): what an application reads of the diagnostics of a
    call, the fields of descriptors and the attributes of statements by their handles, and the descriptors a
    statement uses.

  Groups of properties. Refinement: the escape translation, the final query, the body of an
  answer, the rows of an answer through execution and fetches, the pieces of \<open>SQLGetData\<close>. Round trips: type
  names, decimals, numeric structures, escaped values, connection strings. Safety: a value cannot end its
  literal, an argument of \<open>SQLConnect\<close> cannot set another key, no byte of an exception is delivered as
  data, a redirect keeps the scheme, writes stay inside their buffer. Errors and state: positions and
  statuses of row sets and parameter sets, all-or-nothing connecting, diagnostics after a call. Several
  theorems state where the code does not do what it means to; they are the findings of the manifest.

  Bounds and fuel. The escape translation has fuel: three times the length of the query and two more are
  enough (\<open>replace_returns\<close>). Vectors of diagnostics are limited to 2147483647 records and those of
  descriptors to 32768, beyond which their counts do not fit the ODBC types. \<open>readSlow\<close> counts its rounds by
  the bytes wanted, prefetching by the larger of the row set and 100, the execution by the parameter sets and
  a redirect by \<open>redirect_limit\<close>; each is the bound of the loop in the code. Loops that may run for
  ever (a fresh UUID, the events of a transfer) are partial functions whose value may be \<open>None\<close>.

  Arguments of the model stand for what is not under \<open>driver/\<close>: UUIDs, the memory of the application (bytes and
  lengths at addresses), reading a bound buffer into text, the events of a transfer and the stream of the
  zstd decoder, the server and its URLs, local time, encodings of texts, the texts of floating-point numbers,
  Poco's parsers of numbers, flags and URLs, its case folding, and the data sources of the system.

  Not modelled: setting up requests and TLS with libcurl; ICU's converters and the loops around them; the ODBC
  installer; \<open>parse_datetime\<close> (\<open>std::get_time\<close>) and the arithmetic of floating-point numbers; logging;
  memory pools; the includes and macros of the platforms; \<open>SQLGetInfo\<close>, a table of constants; everything
  under \<open>contrib/\<close>, \<open>test/\<close> and \<open>packaging/\<close>. They are vendored, pure input and output, or tables.
\<close>

end
